(* ===== verification/Prelude.thy ===== *)
theory Prelude
  imports Main "HOL-Library.Word" "HOL-Library.Multiset" "HOL-Library.AList"
    "HOL-Library.Char_ord" "HOL-Library.List_Lexorder" "HOL-Library.Product_Lexorder"
begin

text \<open>
  Shared material of the development: names for the C++ integer types, the error codes the
  components return, C++ truncating division, the comparator contract of the standard
  algorithms (\<open>compare_req\<close>) together with \<^verbatim>\<open>std::sort\<close>, \<^verbatim>\<open>std::lower_bound\<close>
  and \<^verbatim>\<open>std::upper_bound\<close>, and the association lists that stand for
  \<^verbatim>\<open>std::unordered_map\<close> (the order of the list is the iteration order).
\<close>

unbundle bit_operations_syntax

section \<open>Names and error codes\<close>

type_synonym u8 = "8 word"
type_synonym u32 = "32 word"
type_synonym u64 = "64 word"
type_synonym i32 = "32 word"
type_synonym i64 = "64 word"
type_synonym node_ptr = nat \<comment> \<open>address of an object; \<open>0\<close> is \<^verbatim>\<open>nullptr\<close>\<close>
type_synonym timepoint = int \<comment> \<open>\<^verbatim>\<open>std::chrono\<close> ticks (nanoseconds) since the epoch\<close>

text \<open>
  The codes of \<^verbatim>\<open>ATAPP_ERROR_TYPE\<close> (\<^verbatim>\<open>include/atframe/atapp_conf.h\<close>) and the
  libatbus codes the modelled sources name. libatbus is not part of the repository, so its
  codes are constructors without a number; \<open>EN_OTHER\<close> is any further code a connector returns.
\<close>

datatype err_code =
    EN_SUCCESS
  | EN_ATAPP_ERR_NOT_INITED
  | EN_ATAPP_ERR_WORKER_POOL_BUSY
  | EN_ATAPP_ERR_WORKER_POOL_NO_AVAILABLE_WORKER
  | EN_ATAPP_ERR_WORKER_POOL_CLOSED
  | EN_ATBUS_ERR_PARAMS
  | EN_ATBUS_ERR_CLOSING
  | EN_ATBUS_ERR_BUFF_LIMIT
  | EN_ATBUS_ERR_NODE_TIMEOUT
  | EN_ATBUS_ERR_ATNODE_NO_CONNECTION
  | EN_ATBUS_ERR_ATNODE_INVALID_ID
  | EN_ATBUS_ERR_CHANNEL_NOT_SUPPORT
  | EN_OTHER int

text \<open>
  The character functions of atframe\_utils (\<^verbatim>\<open>atfw::util::string\<close>), which is not part of the
  repository, are parameters. \<open>ascii_text\<close> is the instance the witnesses use.
\<close>

record text_api =
  ta_tolower :: "char \<Rightarrow> char"
  ta_is_space :: "char \<Rightarrow> bool"

definition ascii_text :: text_api where
  "ascii_text = \<lparr>ta_tolower = (\<lambda>c. if CHR ''A'' \<le> c \<and> c \<le> CHR ''Z'' then char_of ((of_char c :: nat) + 32) else c),
     ta_is_space = (\<lambda>c. c = CHR '' '' \<or> CHR 0x09 \<le> c \<and> c \<le> CHR 0x0D)\<rparr>"

named_theorems invar_rules \<open>preservation of the components' invariants\<close>
named_theorems frame_simps \<open>what an operation leaves unchanged\<close>

definition cdiv :: "int \<Rightarrow> int \<Rightarrow> int" where
  "cdiv a b = sgn a * sgn b * (\<bar>a\<bar> div \<bar>b\<bar>)"

lemma cdiv_nonneg [simp]: "0 \<le> a \<Longrightarrow> 0 < b \<Longrightarrow> cdiv a b = a div b"
  by (cases "a = 0") (auto simp: cdiv_def)

section \<open>The comparator contract and the standard algorithms\<close>

text \<open>Insertion of an element before the first one that is not ordered before it.\<close>

fun insert_by :: "('a \<Rightarrow> 'a \<Rightarrow> bool) \<Rightarrow> 'a \<Rightarrow> 'a list \<Rightarrow> 'a list" where
  "insert_by lt x [] = [x]"
| "insert_by lt x (y # ys) = (if lt y x then y # insert_by lt x ys else x # y # ys)"

text \<open>\<^verbatim>\<open>std::sort\<close>: a permutation sorted by the comparator.\<close>

definition std_sort :: "('a \<Rightarrow> 'a \<Rightarrow> bool) \<Rightarrow> 'a list \<Rightarrow> 'a list" where
  "std_sort lt xs = foldr (insert_by lt) xs []"

text \<open>
  The binary search of \<^verbatim>\<open>std::lower_bound\<close>: \<open>p x\<close> is the comparison of the element
  with the key, the window is \<open>[first, first + len)\<close>.
\<close>

function bsearch :: "('a \<Rightarrow> bool) \<Rightarrow> 'a list \<Rightarrow> nat \<Rightarrow> nat \<Rightarrow> nat" where
  "bsearch p xs first len =
     (if len = 0 then first
      else let half = len div 2; middle = first + half
           in if p (xs ! middle) then bsearch p xs (Suc middle) (len - half - 1)
              else bsearch p xs first half)"
  by pat_completeness auto
termination
  by (relation "measure (\<lambda>(p, xs, first, len). len)") auto

declare bsearch.simps [simp del]

definition std_lower_bound :: "('a \<Rightarrow> 'k \<Rightarrow> bool) \<Rightarrow> 'a list \<Rightarrow> 'k \<Rightarrow> nat" where
  "std_lower_bound lt xs k = bsearch (\<lambda>x. lt x k) xs 0 (length xs)"

definition std_upper_bound :: "('k \<Rightarrow> 'a \<Rightarrow> bool) \<Rightarrow> 'a list \<Rightarrow> 'k \<Rightarrow> nat" where
  "std_upper_bound lt xs k = bsearch (\<lambda>x. \<not> lt k x) xs 0 (length xs)"

text \<open>The precondition of the binary searches: the range is partitioned by the predicate.\<close>

definition partitioned :: "('a \<Rightarrow> bool) \<Rightarrow> 'a list \<Rightarrow> bool" where
  "partitioned p xs \<longleftrightarrow> (\<forall>j < length xs. p (xs ! j) \<longrightarrow> (\<forall>i < j. p (xs ! i)))"

text \<open>What the C++ standard requires of a comparator (a strict weak ordering).\<close>

locale compare_req =
  fixes lt :: "'a \<Rightarrow> 'a \<Rightarrow> bool"
  assumes lt_irrefl: "\<not> lt x x"
    and lt_trans: "lt x y \<Longrightarrow> lt y z \<Longrightarrow> lt x z"
    and incomp_trans: "\<not> lt x y \<Longrightarrow> \<not> lt y z \<Longrightarrow> \<not> lt x z"
begin

lemma lt_asym: "lt x y \<Longrightarrow> \<not> lt y x"
  using lt_trans lt_irrefl by blast

end

text \<open>Comparing keys of a linear order always satisfies the contract.\<close>

lemma compare_req_key: "compare_req (\<lambda>x y. f x < (f y :: 'b::linorder))"
  by unfold_locales auto

subsection \<open>Sorting\<close>

lemma mset_insert_by [simp]: "mset (insert_by lt x xs) = add_mset x (mset xs)"
  by (induction xs) auto

lemma set_insert_by [simp]: "set (insert_by lt x xs) = insert x (set xs)"
  by (induction xs) auto

lemma length_insert_by [simp]: "length (insert_by lt x xs) = Suc (length xs)"
  by (induction xs) auto

lemma std_sort_Nil [simp]: "std_sort lt [] = []"
  by (simp add: std_sort_def)

lemma std_sort_Cons [simp]: "std_sort lt (x # xs) = insert_by lt x (std_sort lt xs)"
  by (simp add: std_sort_def)

lemma mset_std_sort [simp]: "mset (std_sort lt xs) = mset xs"
  by (induction xs) auto

lemma set_std_sort [simp]: "set (std_sort lt xs) = set xs"
  by (metis mset_std_sort set_mset_mset)

lemma length_std_sort [simp]: "length (std_sort lt xs) = length xs"
  by (metis mset_std_sort size_mset)

lemma std_sort_eq_Nil [simp]: "std_sort lt xs = [] \<longleftrightarrow> xs = []"
  by (metis length_0_conv length_std_sort)

lemma distinct_std_sort [simp]: "distinct (std_sort lt xs) = distinct xs"
  by (metis mset_eq_imp_distinct_iff mset_std_sort)

context compare_req
begin

lemma sorted_insert_by:
  "sorted_wrt (\<lambda>x y. \<not> lt y x) xs \<Longrightarrow> sorted_wrt (\<lambda>x y. \<not> lt y x) (insert_by lt a xs)"
proof (induction xs)
  case Nil
  then show ?case by simp
next
  case (Cons y ys)
  show ?case
  proof (cases "lt y a")
    case True
    then have "\<not> lt a y" by (rule lt_asym)
    with True Cons show ?thesis by auto
  next
    case False
    then have "\<not> lt z a" if "z \<in> set ys" for z
      using that Cons.prems incomp_trans[of z y a] by auto
    with False Cons.prems show ?thesis by auto
  qed
qed

lemma sorted_std_sort: "sorted_wrt (\<lambda>x y. \<not> lt y x) (std_sort lt xs)"
  by (induction xs) (auto intro: sorted_insert_by)

lemma insert_by_least: "\<forall>y \<in> set ys. \<not> lt y x \<Longrightarrow> insert_by lt x ys = x # ys"
  by (cases ys) auto

lemma filter_insert_by:
  "sorted_wrt (\<lambda>x y. \<not> lt y x) xs \<Longrightarrow>
   filter P (insert_by lt a xs) = (if P a then insert_by lt a (filter P xs) else filter P xs)"
proof (induction xs)
  case (Cons y ys)
  show ?case
  proof (cases "lt y a")
    case False
    then have "\<forall>z \<in> set (y # ys). \<not> lt z a" using Cons.prems incomp_trans by auto
    then have "insert_by lt a (filter P (y # ys)) = a # filter P (y # ys)"
      by (intro insert_by_least) auto
    with False show ?thesis by simp
  qed (use Cons in auto)
qed simp

text \<open>Sorting commutes with dropping elements.\<close>

lemma filter_std_sort: "filter P (std_sort lt xs) = std_sort lt (filter P xs)"
  by (induction xs) (simp_all add: filter_insert_by sorted_std_sort)

end

text \<open>
  Two sorted lists with the same elements are equal when the comparator separates their
  elements: the result of \<^verbatim>\<open>std::sort\<close> does not depend on the input order then.
\<close>

lemma sorted_wrt_unique:
  assumes "sorted_wrt (\<lambda>x y. \<not> lt y x) xs" and "sorted_wrt (\<lambda>x y. \<not> lt y x) ys"
    and "mset xs = mset ys"
    and total: "\<And>x y. x \<in> set xs \<Longrightarrow> y \<in> set xs \<Longrightarrow> \<not> lt x y \<Longrightarrow> \<not> lt y x \<Longrightarrow> x = y"
  shows "xs = ys"
  using assms
proof (induction xs arbitrary: ys)
  case Nil
  then show ?case by simp
next
  case (Cons x xs)
  then obtain y ys' where ys: "ys = y # ys'" by (cases ys) auto
  have same: "set (x # xs) = set (y # ys')" using Cons.prems(3) ys by (metis set_mset_mset)
  have "x = y"
  proof (rule ccontr)
    assume "x \<noteq> y"
    then have "y \<in> set xs" "x \<in> set ys'" using same by auto
    then have "\<not> lt y x" "\<not> lt x y" using Cons.prems(1,2) ys by auto
    then show False using Cons.prems(4)[of x y] \<open>y \<in> set xs\<close> \<open>x \<noteq> y\<close> by auto
  qed
  moreover have "xs = ys'"
    using Cons.prems ys \<open>x = y\<close> by (intro Cons.IH) auto
  ultimately show ?case by (simp add: ys)
qed

subsection \<open>Binary search\<close>

lemma bsearch_0 [simp]: "bsearch p xs first 0 = first"
  by (simp add: bsearch.simps)

lemma bsearch_up:
  "0 < len \<Longrightarrow> p (xs ! (first + len div 2)) \<Longrightarrow>
   bsearch p xs first len = bsearch p xs (Suc (first + len div 2)) (len - len div 2 - 1)"
  by (simp add: bsearch.simps[of p xs first len] Let_def)

lemma bsearch_down:
  "0 < len \<Longrightarrow> \<not> p (xs ! (first + len div 2)) \<Longrightarrow>
   bsearch p xs first len = bsearch p xs first (len div 2)"
  by (simp add: bsearch.simps[of p xs first len] Let_def)

lemma bsearch_bounds: "first \<le> bsearch p xs first len \<and> bsearch p xs first len \<le> first + len"
proof (induction p xs first len rule: bsearch.induct)
  case (1 p xs first len)
  show ?case
  proof (cases "len = 0")
    case False
    note IH = "1.IH"(1)[OF False refl refl] "1.IH"(2)[OF False refl refl]
    show ?thesis
    proof (cases "p (xs ! (first + len div 2))")
      case True
      with False IH(1) show ?thesis by (simp add: bsearch_up)
    next
      case npm: False
      with False have "bsearch p xs first len = bsearch p xs first (len div 2)"
        by (simp add: bsearch_down)
      with IH(2)[OF npm] show ?thesis by linarith
    qed
  qed simp
qed

lemma bsearch_partition:
  assumes "partitioned p xs" and "first + len \<le> length xs"
    and "\<forall>i < first. p (xs ! i)" and "\<forall>i < length xs. first + len \<le> i \<longrightarrow> \<not> p (xs ! i)"
  shows "(\<forall>i < bsearch p xs first len. p (xs ! i)) \<and>
    (\<forall>i < length xs. bsearch p xs first len \<le> i \<longrightarrow> \<not> p (xs ! i))"
  using assms
proof (induction p xs first len rule: bsearch.induct)
  case (1 p xs first len)
  show ?case
  proof (cases "len = 0")
    case True
    then show ?thesis using "1.prems" by simp
  next
    case False
    define m where "m = first + len div 2"
    have m: "m < first + len" "m < length xs" using False "1.prems"(2) by (auto simp: m_def)
    show ?thesis
    proof (cases "p (xs ! m)")
      case True
      have "\<forall>i < Suc m. p (xs ! i)"
        using True "1.prems"(1) m(2) by (auto simp: partitioned_def less_Suc_eq)
      have eq: "Suc m + (len - len div 2 - 1) = first + len" using False by (simp add: m_def)
      have "(\<forall>i < bsearch p xs (Suc m) (len - len div 2 - 1). p (xs ! i)) \<and>
        (\<forall>i < length xs. bsearch p xs (Suc m) (len - len div 2 - 1) \<le> i \<longrightarrow> \<not> p (xs ! i))"
      proof (rule "1.IH"(1)[OF False refl refl, folded m_def, OF True "1.prems"(1)])
        show "Suc m + (len - len div 2 - 1) \<le> length xs" using eq "1.prems"(2) by simp
        show "\<forall>i < Suc m. p (xs ! i)" by fact
        show "\<forall>i < length xs. Suc m + (len - len div 2 - 1) \<le> i \<longrightarrow> \<not> p (xs ! i)"
          unfolding eq by (rule "1.prems"(4))
      qed
      then show ?thesis using False True by (simp add: bsearch_up m_def)
    next
      case npm: False
      have above: "\<forall>i < length xs. m \<le> i \<longrightarrow> \<not> p (xs ! i)"
        using npm "1.prems"(1) unfolding partitioned_def by (auto simp: le_less)
      have "(\<forall>i < bsearch p xs first (len div 2). p (xs ! i)) \<and>
        (\<forall>i < length xs. bsearch p xs first (len div 2) \<le> i \<longrightarrow> \<not> p (xs ! i))"
      proof (rule "1.IH"(2)[OF False refl refl, folded m_def, OF npm "1.prems"(1)])
        show "m \<le> length xs" using m by simp
      qed (use above "1.prems"(3) in auto)
      then show ?thesis using False npm by (simp add: bsearch_down m_def)
    qed
  qed
qed

text \<open>On a partitioned range the binary search is the length of the leading run.\<close>

lemma bsearch_takeWhile:
  assumes "partitioned p xs"
  shows "bsearch p xs 0 (length xs) = length (takeWhile p xs)"
proof -
  let ?b = "bsearch p xs 0 (length xs)"
  have b: "\<forall>i < ?b. p (xs ! i)" "\<forall>i < length xs. ?b \<le> i \<longrightarrow> \<not> p (xs ! i)" "?b \<le> length xs"
    using bsearch_partition[OF assms, of 0 "length xs"] bsearch_bounds[of 0 p xs "length xs"] by auto
  have "takeWhile p xs = take ?b xs"
  proof (rule takeWhile_eq_take_P_nth)
    show "\<And>i. i < ?b \<Longrightarrow> i < length xs \<Longrightarrow> p (xs ! i)" using b by blast
    show "?b < length xs \<Longrightarrow> \<not> p (xs ! ?b)" using b by blast
  qed
  then show ?thesis using b(3) by simp
qed

lemma partitioned_sorted:
  assumes "sorted_wrt (\<lambda>x y. p y \<longrightarrow> p x) xs"
  shows "partitioned p xs"
  using assms by (auto simp: partitioned_def sorted_wrt_iff_nth_less)

lemma while_none: "\<forall>y \<in> set ys. \<not> p y \<Longrightarrow> takeWhile p ys = [] \<and> dropWhile p ys = ys"
  by (cases ys) auto

lemma partitioned_filter:
  assumes "sorted_wrt (\<lambda>x y. p y \<longrightarrow> p x) xs"
  shows "takeWhile p (filter P xs) = filter P (takeWhile p xs) \<and>
    dropWhile p (filter P xs) = filter P (dropWhile p xs)"
  using assms
proof (induction xs)
  case (Cons a xs)
  show ?case
  proof (cases "p a")
    case False
    then have "\<forall>y \<in> set (filter P (a # xs)). \<not> p y" using Cons.prems by auto
    from while_none[OF this] False show ?thesis by simp
  qed (use Cons in auto)
qed simp

section \<open>Maps as association lists\<close>

text \<open>
  \<^verbatim>\<open>std::unordered_map\<close>: distinct keys; \<open>map_of\<close> is \<^verbatim>\<open>find\<close>,
  \<open>AList.update\<close> is \<^verbatim>\<open>m[k] = v\<close> and \<open>AList.delete\<close> is \<^verbatim>\<open>erase\<close>.
\<close>

declare map_of_eq_Some_iff [simp del] Some_eq_map_of_iff [simp del]

lemma map_of_update [simp]: "map_of (AList.update k v al) = (map_of al)(k \<mapsto> v)"
  by (simp add: update_conv')

lemma map_of_delete [simp]: "map_of (AList.delete k al) = (map_of al)(k := None)"
  by (simp add: delete_conv')

lemma distinct_keys_update [invar_rules]:
  "distinct (map fst al) \<Longrightarrow> distinct (map fst (AList.update k v al))"
  by (rule distinct_update)

lemma distinct_keys_delete [invar_rules]:
  "distinct (map fst al) \<Longrightarrow> distinct (map fst (AList.delete k al))"
  by (rule distinct_delete)

lemma in_set_map_of: "distinct (map fst al) \<Longrightarrow> (k, v) \<in> set al \<longleftrightarrow> map_of al k = Some v"
  by (auto dest: map_of_is_SomeI map_of_SomeD)

section \<open>Maps keyed by a user-defined equality\<close>

text \<open>
  \<^verbatim>\<open>std::unordered_map\<close> with its own hash and equality objects: the key functions the
  container calls, over the list of its entries.
\<close>

fun find_by :: "('k \<Rightarrow> 'k \<Rightarrow> bool) \<Rightarrow> 'k \<Rightarrow> ('k \<times> 'v) list \<Rightarrow> 'v option" where
  "find_by eq k [] = None"
| "find_by eq k ((k', v) # al) = (if eq k k' then Some v else find_by eq k al)"

fun update_by :: "('k \<Rightarrow> 'k \<Rightarrow> bool) \<Rightarrow> 'k \<Rightarrow> 'v \<Rightarrow> ('k \<times> 'v) list \<Rightarrow> ('k \<times> 'v) list" where
  "update_by eq k v [] = [(k, v)]"
| "update_by eq k v ((k', v') # al) =
     (if eq k k' then (k', v) # al else (k', v') # update_by eq k v al)"

text \<open>The contract of the key objects: an equivalence that the hash respects.\<close>

locale hash_key_req =
  fixes eq :: "'k \<Rightarrow> 'k \<Rightarrow> bool" and hash :: "'k \<Rightarrow> 'h"
  assumes eq_refl: "eq x x"
    and eq_sym: "eq x y \<Longrightarrow> eq y x"
    and eq_trans: "eq x y \<Longrightarrow> eq y z \<Longrightarrow> eq x z"
    and eq_hash: "eq x y \<Longrightarrow> hash x = hash y"
begin

lemma find_update_same: "eq k' k \<Longrightarrow> find_by eq k' (update_by eq k v al) = Some v"
proof (induction al)
  case (Cons e al)
  obtain k0 v0 where "e = (k0, v0)" by (cases e)
  with Cons show ?case by (auto dest: eq_trans eq_sym)
qed simp

lemma find_update_other: "\<not> eq k' k \<Longrightarrow> find_by eq k' (update_by eq k v al) = find_by eq k' al"
proof (induction al)
  case (Cons e al)
  obtain k0 v0 where e: "e = (k0, v0)" by (cases e)
  have "eq k k0 \<Longrightarrow> \<not> eq k' k0" using Cons.prems by (blast dest: eq_trans eq_sym)
  with Cons e show ?case by auto
qed simp

lemma find_cong: "eq k k' \<Longrightarrow> find_by eq k al = find_by eq k' al"
proof (induction al)
  case (Cons e al)
  obtain k0 v0 where "e = (k0, v0)" by (cases e)
  with Cons show ?case by (auto dest: eq_trans eq_sym)
qed simp

end

lemma find_by_SomeD: "find_by eq k al = Some v \<Longrightarrow> \<exists>k'. (k', v) \<in> set al \<and> eq k k'"
  by (induction eq k al rule: find_by.induct) (auto split: if_splits)

lemma update_by_same: "find_by eq k al = Some v \<Longrightarrow> update_by eq k v al = al"
  by (induction eq k v al rule: update_by.induct) (auto split: if_splits)

lemma set_update_by_subset: "set (update_by eq k v al) \<subseteq> set al \<union> {(k', v) | k'. k' = k \<or> eq k k'}"
  by (induction eq k v al rule: update_by.induct) auto

end
