(* ===== verification/Metadata.thy ===== *)
theory Metadata
  imports Prelude
begin

text \<open>
  Service metadata and the hashing of the discovery index
  (\<^verbatim>\<open>src/atframe/etcdcli/etcd_discovery.cpp\<close>, the anonymous namespace and the key objects
  \<^verbatim>\<open>metadata_hash_type\<close> and \<^verbatim>\<open>metadata_equal_type\<close>): the hash mixing functions, the
  hash and equality of \<^verbatim>\<open>atapp_metadata\<close> used as an \<^verbatim>\<open>unordered_map\<close> key, and the
  policy-routing filter. The murmur hash belongs to atframe\_utils and the magic number to the
  build configuration: both are fields of \<open>hash_api\<close>.
\<close>

section \<open>Hashing\<close>

record hash_api =
  murmur_hash3_x64_128 :: "string \<Rightarrow> u32 \<Rightarrow> u64 \<times> u64"
  hash_magic_number :: u32

definition consistent_hash_calc :: "hash_api \<Rightarrow> string \<Rightarrow> u32 \<Rightarrow> u64 \<times> u64" where
  "consistent_hash_calc H buf seed = murmur_hash3_x64_128 H buf seed"

definition consistent_hash_combine_u64 :: "u64 \<Rightarrow> u64 \<Rightarrow> u64" where
  "consistent_hash_combine_u64 seed v =
     (let m = push_bit 32 0xc6a4a793 + 0x5bd1e995;
          v1 = v * m;
          v2 = v1 XOR drop_bit 47 v1;
          v3 = v2 * m;
          s1 = seed XOR v3;
          s2 = s1 * m
      in s2 + 0xe6546b64)"

definition consistent_hash_combine :: "hash_api \<Rightarrow> string \<Rightarrow> u64 \<times> u64 \<Rightarrow> u64 \<times> u64" where
  "consistent_hash_combine H buf seed =
     (let hash_value = consistent_hash_calc H buf (ucast (fst seed))
      in (consistent_hash_combine_u64 (fst seed) (fst hash_value),
          consistent_hash_combine_u64 (snd seed) (snd hash_value)))"

text \<open>The bytes of a 64-bit scalar in memory (little endian).\<close>

definition consistent_hash_to_span :: "u64 \<Rightarrow> string" where
  "consistent_hash_to_span d = map (\<lambda>i. char_of (unat (drop_bit (8 * i) d) mod 256)) [0..<8]"

section \<open>Metadata\<close>

record atapp_metadata =
  md_api_version :: string
  md_kind :: string
  md_group :: string
  md_name :: string
  md_namespace_name :: string
  md_uid :: string
  md_service_subset :: string
  md_labels :: "(string \<times> string) list"

definition default_metadata :: atapp_metadata where
  "default_metadata = \<lparr>md_api_version = [], md_kind = [], md_group = [], md_name = [],
     md_namespace_name = [], md_uid = [], md_service_subset = [], md_labels = []\<rparr>"

definition sort_string_map :: "(string \<times> string) list \<Rightarrow> (string \<times> string) list" where
  "sort_string_map input = std_sort (\<lambda>l r. fst l < fst r) input"

definition metadata_is_empty :: "atapp_metadata \<Rightarrow> bool" where
  "metadata_is_empty m \<longleftrightarrow> md_api_version m = [] \<and> md_kind m = [] \<and> md_group m = [] \<and>
     md_namespace_name m = [] \<and> md_name m = [] \<and> md_uid m = [] \<and>
     md_service_subset m = [] \<and> length (md_labels m) = 0"

definition combine_field :: "hash_api \<Rightarrow> string \<Rightarrow> u64 \<times> u64 \<Rightarrow> u64 \<times> u64" where
  "combine_field H s hv = (if s \<noteq> [] then consistent_hash_combine H s hv else hv)"

definition metadata_hash :: "hash_api \<Rightarrow> atapp_metadata \<Rightarrow> u64" where
  "metadata_hash H m =
     (let h0 = (ucast (hash_magic_number H), 0);
          h1 = combine_field H (md_api_version m) h0;
          h2 = combine_field H (md_kind m) h1;
          h3 = combine_field H (md_group m) h2;
          h4 = combine_field H (md_name m) h3;
          h5 = combine_field H (md_namespace_name m) h4;
          h6 = combine_field H (md_uid m) h5;
          h7 = combine_field H (md_service_subset m) h6;
          h8 = (if length (md_labels m) > 0
                then fold (\<lambda>label hv. consistent_hash_combine H (snd label) hv)
                       (sort_string_map (md_labels m)) h7
                else h7)
      in fst h8)"

definition metadata_equal :: "atapp_metadata \<Rightarrow> atapp_metadata \<Rightarrow> bool" where
  "metadata_equal l r \<longleftrightarrow>
     length (md_api_version l) = length (md_api_version r) \<and>
     length (md_kind l) = length (md_kind r) \<and>
     length (md_group l) = length (md_group r) \<and>
     length (md_namespace_name l) = length (md_namespace_name r) \<and>
     length (md_name l) = length (md_name r) \<and>
     length (md_uid l) = length (md_uid r) \<and>
     length (md_service_subset l) = length (md_service_subset r) \<and>
     length (md_labels l) = length (md_labels r) \<and>
     md_api_version l = md_api_version r \<and>
     md_kind l = md_kind r \<and>
     md_group l = md_group r \<and>
     md_namespace_name l = md_namespace_name r \<and>
     md_name l = md_name r \<and>
     md_uid l = md_uid r \<and>
     md_service_subset l = md_service_subset r \<and>
     list_all (\<lambda>(a, b). length (fst a) = length (fst b) \<and> length (snd a) = length (snd b) \<and>
                        fst a = fst b \<and> snd a = snd b)
       (zip (sort_string_map (md_labels l)) (sort_string_map (md_labels r)))"

definition filter_field :: "string \<Rightarrow> string \<Rightarrow> bool" where
  "filter_field rule value \<longleftrightarrow> rule = [] \<or> rule = value"

definition metadata_filter :: "atapp_metadata \<Rightarrow> atapp_metadata \<Rightarrow> bool" where
  "metadata_filter rule m \<longleftrightarrow>
     filter_field (md_api_version rule) (md_api_version m) \<and>
     filter_field (md_kind rule) (md_kind m) \<and>
     filter_field (md_group rule) (md_group m) \<and>
     filter_field (md_namespace_name rule) (md_namespace_name m) \<and>
     filter_field (md_name rule) (md_name m) \<and>
     filter_field (md_uid rule) (md_uid m) \<and>
     filter_field (md_service_subset rule) (md_service_subset m) \<and>
     list_all (\<lambda>(k, v). if v = [] then True
                        else case map_of (md_labels m) k of
                               None \<Rightarrow> False
                             | Some w \<Rightarrow> length w = length v \<and> w = v)
       (md_labels rule)"

text \<open>A protobuf map has one entry per key.\<close>

definition metadata_wf :: "atapp_metadata \<Rightarrow> bool" where
  "metadata_wf m \<longleftrightarrow> distinct (map fst (md_labels m))"

section \<open>Lemmas\<close>

interpretation label_order: compare_req "\<lambda>l r :: string \<times> string. fst l < fst r"
  by unfold_locales auto

lemma sort_string_map_unique:
  assumes "distinct (map fst xs)" and "mset xs = mset ys"
  shows "sort_string_map xs = sort_string_map ys"
  unfolding sort_string_map_def
proof (rule sorted_wrt_unique[OF label_order.sorted_std_sort label_order.sorted_std_sort])
  show "mset (std_sort (\<lambda>l r. fst l < fst r) xs) = mset (std_sort (\<lambda>l r. fst l < fst r) ys)"
    using assms(2) by simp
next
  fix x y
  assume "x \<in> set (std_sort (\<lambda>l r. fst l < fst r) xs)" "y \<in> set (std_sort (\<lambda>l r. fst l < fst r) xs)"
    and "\<not> fst x < fst y" "\<not> fst y < fst x"
  then show "x = y" using assms(1) by (auto simp: distinct_map inj_on_def)
qed

lemma list_all_zip_eq:
  assumes "length xs = length ys"
  shows "list_all (\<lambda>(a, b). length (fst a) = length (fst b) \<and> length (snd a) = length (snd b) \<and>
            fst a = fst b \<and> snd a = snd b) (zip xs ys) \<longleftrightarrow> xs = ys"
  using assms by (induction xs ys rule: list_induct2) (auto simp: prod_eq_iff)

lemma metadata_equal_iff:
  "metadata_equal l r \<longleftrightarrow>
     md_api_version l = md_api_version r \<and> md_kind l = md_kind r \<and> md_group l = md_group r \<and>
     md_namespace_name l = md_namespace_name r \<and> md_name l = md_name r \<and> md_uid l = md_uid r \<and>
     md_service_subset l = md_service_subset r \<and>
     sort_string_map (md_labels l) = sort_string_map (md_labels r)"
proof -
  let ?a = "sort_string_map (md_labels l)" and ?b = "sort_string_map (md_labels r)"
  have len: "length ?a = length (md_labels l)" "length ?b = length (md_labels r)"
    by (simp_all add: sort_string_map_def)
  have labels: "length (md_labels l) = length (md_labels r) \<and>
      list_all (\<lambda>(a, b). length (fst a) = length (fst b) \<and> length (snd a) = length (snd b) \<and>
        fst a = fst b \<and> snd a = snd b) (zip ?a ?b) \<longleftrightarrow> ?a = ?b"
  proof (cases "length (md_labels l) = length (md_labels r)")
    case True
    then show ?thesis using list_all_zip_eq[of ?a ?b] len by simp
  next
    case False
    then have "?a \<noteq> ?b" using len by (metis (no_types))
    with False show ?thesis by blast
  qed
  show ?thesis
  proof
    assume "metadata_equal l r"
    then show "md_api_version l = md_api_version r \<and> md_kind l = md_kind r \<and>
      md_group l = md_group r \<and> md_namespace_name l = md_namespace_name r \<and>
      md_name l = md_name r \<and> md_uid l = md_uid r \<and>
      md_service_subset l = md_service_subset r \<and> ?a = ?b"
      unfolding metadata_equal_def using labels by blast
  qed (use labels in \<open>simp add: metadata_equal_def\<close>)
qed

lemma sort_string_map_eq_Nil [simp]: "sort_string_map xs = [] \<longleftrightarrow> xs = []"
  by (simp add: sort_string_map_def)

lemma mset_sort_string_map [simp]: "mset (sort_string_map xs) = mset xs"
  by (simp add: sort_string_map_def)

lemma metadata_equal_hash:
  assumes "metadata_equal l r"
  shows "metadata_hash H l = metadata_hash H r"
proof -
  have "(length (md_labels l) > 0) = (length (md_labels r) > 0)"
    using assms by (auto simp: metadata_equal_def)
  then show ?thesis using assms by (simp add: metadata_equal_iff metadata_hash_def Let_def)
qed

interpretation metadata_key: hash_key_req metadata_equal "metadata_hash H" for H
  by unfold_locales (auto simp: metadata_equal_iff intro: metadata_equal_hash[unfolded metadata_equal_iff])

lemma metadata_equal_labels:
  assumes "metadata_equal l r"
  shows "mset (md_labels l) = mset (md_labels r)"
  using assms by (metis metadata_equal_iff mset_sort_string_map)

lemma metadata_filter_labels:
  "list_all (\<lambda>(k, v). if v = [] then True else case map_of al k of None \<Rightarrow> False
       | Some w \<Rightarrow> length w = length v \<and> w = v) rl
   \<longleftrightarrow> (\<forall>(k, v) \<in> set rl. v \<noteq> [] \<longrightarrow> map_of al k = Some v)"
  by (induction rl) (auto split: option.splits)

lemma filter_field_trans: "filter_field a b \<Longrightarrow> filter_field b c \<Longrightarrow> filter_field a c"
  by (auto simp: filter_field_def)

lemma metadata_filter_empty: "metadata_is_empty rule \<Longrightarrow> metadata_filter rule m"
  by (simp add: metadata_is_empty_def metadata_filter_def filter_field_def)

lemma metadata_filter_refl: "metadata_wf m \<Longrightarrow> metadata_filter m m"
  by (auto simp: metadata_filter_def metadata_filter_labels filter_field_def metadata_wf_def)

lemma metadata_filter_trans:
  assumes "metadata_filter a b" and "metadata_filter b c"
  shows "metadata_filter a c"
proof -
  have "map_of (md_labels c) k = Some v" if "(k, v) \<in> set (md_labels a)" "v \<noteq> []" for k v
  proof -
    have "map_of (md_labels b) k = Some v"
      using assms(1) that by (auto simp: metadata_filter_def metadata_filter_labels)
    then have "(k, v) \<in> set (md_labels b)" by (rule map_of_SomeD)
    then show ?thesis
      using assms(2) that(2) by (auto simp: metadata_filter_def metadata_filter_labels)
  qed
  then have "\<forall>(k, v) \<in> set (md_labels a). v \<noteq> [] \<longrightarrow> map_of (md_labels c) k = Some v"
    by blast
  with assms show ?thesis
    unfolding metadata_filter_def metadata_filter_labels by (meson filter_field_trans)
qed

lemma metadata_filter_equal_rule:
  assumes "metadata_equal a b"
  shows "metadata_filter a m = metadata_filter b m"
proof -
  have "set (md_labels a) = set (md_labels b)"
    using metadata_equal_labels[OF assms] by (metis set_mset_mset)
  then show ?thesis using assms
    by (simp add: metadata_filter_def metadata_filter_labels metadata_equal_iff)
qed

end
