(* ===== verification/Discovery_Node.thy ===== *)
theory Discovery_Node
  imports Metadata
begin

text \<open>
  One discovered service node (\<^verbatim>\<open>class etcd_discovery_node\<close>,
  \<^verbatim>\<open>src/atframe/etcdcli/etcd_discovery.cpp\<close>): the published discovery record, its etcd version,
  the ingress rotation over the gateways, and the comparators the discovery set sorts and
  searches with. Nodes are shared objects, so the comparators read them through a heap
  \<open>node_heap\<close> from addresses to nodes, in which address \<open>0\<close> is \<^verbatim>\<open>nullptr\<close>.
\<close>

section \<open>Data\<close>

record atapp_area =
  ar_region :: string
  ar_district :: string
  ar_zone_id :: u64

record atapp_gateway =
  gw_address :: string
  gw_match_hosts :: "string list"
  gw_match_namespaces :: "string list"
  gw_match_labels :: "(string \<times> string) list"

record atapp_discovery =
  di_id :: u64
  di_name :: string
  di_hostname :: string
  di_pid :: int
  di_listen :: "string list"
  di_hash_code :: string
  di_type_id :: u64
  di_type_name :: string
  di_area :: "atapp_area option"
  di_version :: string
  di_custom_data :: string
  di_identity :: string
  di_gateways :: "atapp_gateway list"
  di_stateful_pod_index :: int
  di_atbus_protocol_version :: u64
  di_atbus_protocol_min_version :: u64
  di_metadata :: "atapp_metadata option"

record etcd_data_version =
  dv_create_revision :: int
  dv_modify_revision :: int
  dv_version :: int

definition empty_gateway :: atapp_gateway where
  "empty_gateway = \<lparr>gw_address = [], gw_match_hosts = [], gw_match_namespaces = [], gw_match_labels = []\<rparr>"

definition empty_discovery :: atapp_discovery where
  "empty_discovery = \<lparr>di_id = 0, di_name = [], di_hostname = [], di_pid = 0, di_listen = [],
     di_hash_code = [], di_type_id = 0, di_type_name = [], di_area = None, di_version = [],
     di_custom_data = [], di_identity = [], di_gateways = [], di_stateful_pod_index = 0,
     di_atbus_protocol_version = 0, di_atbus_protocol_min_version = 0, di_metadata = None\<rparr>"

text \<open>\<^verbatim>\<open>on_destroy_fn_\<close> is kept as the identity of the stored callback.\<close>

record etcd_discovery_node =
  node_info :: atapp_discovery
  node_version :: etcd_data_version
  context_addr :: nat
  name_hash :: "u64 \<times> u64"
  private_data_u64 :: u64
  on_destroy_fn :: "nat option"
  ingress_index :: int
  ingress_for_listen :: atapp_gateway

type_synonym node_heap = "node_ptr \<Rightarrow> etcd_discovery_node"

definition di_metadata_or_default :: "atapp_discovery \<Rightarrow> atapp_metadata" where
  "di_metadata_or_default di = (case di_metadata di of None \<Rightarrow> default_metadata | Some m \<Rightarrow> m)"

section \<open>Operations of a node\<close>

definition etcd_discovery_node_create :: etcd_discovery_node where
  "etcd_discovery_node_create =
     \<lparr>node_info = empty_discovery,
      node_version = \<lparr>dv_create_revision = 0, dv_modify_revision = 0, dv_version = 0\<rparr>,
      context_addr = 0, name_hash = (0, 0), private_data_u64 = 0, on_destroy_fn = None,
      ingress_index = 0, ingress_for_listen = empty_gateway\<rparr>"

text \<open>The destructor: the callback it runs, if any.\<close>

definition etcd_discovery_node_destroy :: "etcd_discovery_node \<Rightarrow> nat option" where
  "etcd_discovery_node_destroy n = on_destroy_fn n"

definition copy_from ::
  "hash_api \<Rightarrow> etcd_discovery_node \<Rightarrow> atapp_discovery \<Rightarrow> etcd_data_version \<Rightarrow> nat \<Rightarrow> etcd_discovery_node"
where
  "copy_from H n input ver ctx =
     n\<lparr>node_info := input,
       name_hash := consistent_hash_calc H (di_name input) (hash_magic_number H),
       context_addr := ctx,
       node_version := ver\<rparr>"

definition upgrade_version :: "etcd_data_version \<Rightarrow> etcd_data_version \<Rightarrow> etcd_data_version" where
  "upgrade_version cur v =
     (let v1 = (if dv_create_revision v > dv_create_revision cur
                then cur\<lparr>dv_create_revision := dv_create_revision v, dv_version := dv_version v\<rparr>
                else cur);
          v2 = (if dv_modify_revision v > dv_modify_revision v1
                then v1\<lparr>dv_modify_revision := dv_modify_revision v, dv_version := dv_version v\<rparr>
                else v1)
      in if dv_version v > dv_version v2 then v2\<lparr>dv_version := dv_version v\<rparr> else v2)"

definition update_version :: "etcd_discovery_node \<Rightarrow> etcd_data_version \<Rightarrow> bool \<Rightarrow> etcd_discovery_node" where
  "update_version n v upgrade =
     n\<lparr>node_version := (if upgrade then upgrade_version (node_version n) v else v)\<rparr>"

definition copy_to :: "etcd_discovery_node \<Rightarrow> atapp_discovery" where
  "copy_to n = node_info n"

definition copy_key_to :: "etcd_discovery_node \<Rightarrow> atapp_discovery \<Rightarrow> atapp_discovery" where
  "copy_key_to n output =
     output\<lparr>di_id := di_id (node_info n), di_name := di_name (node_info n),
            di_identity := di_identity (node_info n), di_hash_code := di_hash_code (node_info n),
            di_type_name := di_type_name (node_info n), di_type_id := di_type_id (node_info n),
            di_pid := di_pid (node_info n), di_hostname := di_hostname (node_info n)\<rparr>"

text \<open>The private data is a union: the signed view stores the same 64 bits.\<close>

definition set_private_data_u64 :: "etcd_discovery_node \<Rightarrow> u64 \<Rightarrow> etcd_discovery_node" where
  "set_private_data_u64 n input = n\<lparr>private_data_u64 := input\<rparr>"

definition set_private_data_i64 :: "etcd_discovery_node \<Rightarrow> int \<Rightarrow> etcd_discovery_node" where
  "set_private_data_i64 n input = n\<lparr>private_data_u64 := word_of_int input\<rparr>"

definition set_on_destroy :: "etcd_discovery_node \<Rightarrow> nat option \<Rightarrow> etcd_discovery_node" where
  "set_on_destroy n fn = n\<lparr>on_destroy_fn := fn\<rparr>"

definition reset_on_destroy :: "etcd_discovery_node \<Rightarrow> etcd_discovery_node" where
  "reset_on_destroy n = n\<lparr>on_destroy_fn := None\<rparr>"

definition reset_ingress_index :: "etcd_discovery_node \<Rightarrow> etcd_discovery_node" where
  "reset_ingress_index n = n\<lparr>ingress_index := 0\<rparr>"

definition next_ingress_gateway :: "etcd_discovery_node \<Rightarrow> atapp_gateway \<times> etcd_discovery_node" where
  "next_ingress_gateway n =
     (let i0 = (if ingress_index n < 0 then 0 else ingress_index n);
          gws = di_gateways (node_info n);
          lst = di_listen (node_info n)
      in if length gws > 0
         then let i = (if i0 \<ge> int (length gws) then i0 mod int (length gws) else i0)
              in (gws ! nat i, n\<lparr>ingress_index := i + 1\<rparr>)
         else if length lst > 0
         then let i = (if i0 \<ge> int (length lst) then i0 mod int (length lst) else i0);
                  g = (ingress_for_listen n)\<lparr>gw_address := lst ! nat i\<rparr>
              in (g, n\<lparr>ingress_index := i + 1, ingress_for_listen := g\<rparr>)
         else (ingress_for_listen n, n\<lparr>ingress_index := i0\<rparr>))"

definition get_ingress_size :: "etcd_discovery_node \<Rightarrow> int" where
  "get_ingress_size n =
     (if length (di_gateways (node_info n)) > 0 then int (length (di_gateways (node_info n)))
      else int (length (di_listen (node_info n))))"

section \<open>Comparators\<close>

definition round_robin_compare_index :: "node_heap \<Rightarrow> node_ptr \<Rightarrow> node_ptr \<Rightarrow> bool" where
  "round_robin_compare_index h l r =
     (if l = 0 \<or> r = 0 then l < r
      else let ldi = node_info (h l); rdi = node_info (h r)
           in if di_stateful_pod_index ldi \<noteq> di_stateful_pod_index rdi
              then di_stateful_pod_index ldi < di_stateful_pod_index rdi
              else if di_id ldi \<noteq> di_id rdi then di_id ldi < di_id rdi
              else if name_hash (h l) \<noteq> name_hash (h r) then name_hash (h l) < name_hash (h r)
              else di_name ldi < di_name rdi)"

text \<open>A point of the hashing ring (\<^verbatim>\<open>node_hash_type\<close>).\<close>

record node_hash =
  nh_node :: node_ptr
  nh_hash_code :: "u64 \<times> u64"

definition consistent_hash_compare_find :: "node_hash \<Rightarrow> u64 \<times> u64 \<Rightarrow> bool" where
  "consistent_hash_compare_find l r \<longleftrightarrow> nh_hash_code l < r"

definition consistent_hash_compare_index :: "node_heap \<Rightarrow> node_hash \<Rightarrow> node_hash \<Rightarrow> bool" where
  "consistent_hash_compare_index h l r =
     (if nh_hash_code l \<noteq> nh_hash_code r then nh_hash_code l < nh_hash_code r
      else if nh_node l = 0 \<or> nh_node r = 0 then nh_node l < nh_node r
      else round_robin_compare_index h (nh_node l) (nh_node r))"

text \<open>\<^verbatim>\<open>strncmp(a, b, n) < 0\<close>, with the terminating NUL of \<^verbatim>\<open>std::string::data()\<close>.\<close>

fun strncmp_negative :: "string \<Rightarrow> string \<Rightarrow> nat \<Rightarrow> bool" where
  "strncmp_negative a b 0 = False"
| "strncmp_negative a b (Suc n) =
     (let ca = (case a of [] \<Rightarrow> CHR 0x00 | c # _ \<Rightarrow> c);
          cb = (case b of [] \<Rightarrow> CHR 0x00 | c # _ \<Rightarrow> c)
      in if ca \<noteq> cb then ca < cb else if ca = CHR 0x00 then False
         else strncmp_negative (tl a) (tl b) n)"

record lower_upper_bound_pred =
  lub_id :: u64
  lub_name :: string
  lub_hash_code :: "u64 \<times> u64"

definition lower_bound_compare_index :: "node_heap \<Rightarrow> node_ptr \<Rightarrow> lower_upper_bound_pred \<Rightarrow> bool" where
  "lower_bound_compare_index h l r =
     (if l = 0 then True
      else if di_id (node_info (h l)) \<noteq> lub_id r then di_id (node_info (h l)) < lub_id r
      else if lub_name r = [] then False
      else if name_hash (h l) \<noteq> lub_hash_code r then name_hash (h l) < lub_hash_code r
      else strncmp_negative (di_name (node_info (h l))) (lub_name r) (length (lub_name r)))"

definition upper_bound_compare_index :: "node_heap \<Rightarrow> lower_upper_bound_pred \<Rightarrow> node_ptr \<Rightarrow> bool" where
  "upper_bound_compare_index h l r =
     (if r = 0 then False
      else if lub_id l \<noteq> di_id (node_info (h r)) then lub_id l < di_id (node_info (h r))
      else if lub_name l = [] then True
      else if lub_hash_code l \<noteq> name_hash (h r) then lub_hash_code l < name_hash (h r)
      else strncmp_negative (lub_name l) (di_name (node_info (h r))) (length (lub_name l)))"

definition node_equal :: "node_heap \<Rightarrow> node_ptr \<Rightarrow> node_ptr \<Rightarrow> bool" where
  "node_equal h l r =
     (if l = r then True
      else if l = 0 \<or> r = 0 then False
      else if di_id (node_info (h l)) \<noteq> 0 \<and> di_id (node_info (h r)) \<noteq> 0
      then di_id (node_info (h l)) = di_id (node_info (h r))
      else di_name (node_info (h l)) = di_name (node_info (h r)))"

section \<open>The comparators satisfy the contract\<close>

definition rr_key :: "node_heap \<Rightarrow> node_ptr \<Rightarrow> bool \<times> int \<times> u64 \<times> (u64 \<times> u64) \<times> string" where
  "rr_key h p = (if p = 0 then (False, 0, 0, (0, 0), [])
     else (True, di_stateful_pod_index (node_info (h p)), di_id (node_info (h p)),
           name_hash (h p), di_name (node_info (h p))))"

lemma round_robin_key: "round_robin_compare_index h l r \<longleftrightarrow> rr_key h l < rr_key h r"
  by (auto simp: round_robin_compare_index_def rr_key_def Let_def less_prod_def')

interpretation rr_order: compare_req "round_robin_compare_index h" for h
  unfolding round_robin_key by (rule compare_req_key)

lemma consistent_hash_key:
  "consistent_hash_compare_index h l r \<longleftrightarrow>
     (nh_hash_code l, rr_key h (nh_node l)) < (nh_hash_code r, rr_key h (nh_node r))"
proof -
  have "consistent_hash_compare_index h l r =
      (if nh_hash_code l \<noteq> nh_hash_code r then nh_hash_code l < nh_hash_code r
       else round_robin_compare_index h (nh_node l) (nh_node r))"
    by (simp add: consistent_hash_compare_index_def round_robin_compare_index_def)
  then show ?thesis
    by (simp only: round_robin_key less_prod_simp) (auto simp del: less_prod_simp)
qed

interpretation ring_order: compare_req "consistent_hash_compare_index h" for h
  unfolding consistent_hash_key by (rule compare_req_key)

section \<open>The ingress rotation and the version upgrade\<close>

lemma next_ingress_frame [frame_simps]:
  "node_info (snd (next_ingress_gateway n)) = node_info n"
  by (simp add: next_ingress_gateway_def Let_def)

fun ingress_sequence :: "nat \<Rightarrow> etcd_discovery_node \<Rightarrow> atapp_gateway list" where
  "ingress_sequence 0 n = []"
| "ingress_sequence (Suc k) n =
     (let (g, n') = next_ingress_gateway n in g # ingress_sequence k n')"

lemma next_ingress_gateways:
  assumes "di_gateways (node_info n) = gws" "gws \<noteq> []" "0 \<le> ingress_index n"
  shows "next_ingress_gateway n =
    (gws ! nat (ingress_index n mod int (length gws)),
     n\<lparr>ingress_index := ingress_index n mod int (length gws) + 1\<rparr>)"
  using assms by (auto simp: next_ingress_gateway_def Let_def)

lemma ingress_sequence_nth:
  assumes "di_gateways (node_info n) = gws" and "gws \<noteq> []" and "0 \<le> ingress_index n" and "i < k"
  shows "ingress_sequence k n ! i = gws ! nat ((ingress_index n + int i) mod int (length gws))"
  using assms
proof (induction k arbitrary: n i)
  case 0
  then show ?case by simp
next
  case (Suc k)
  let ?L = "int (length gws)"
  let ?n' = "n\<lparr>ingress_index := ingress_index n mod ?L + 1\<rparr>"
  note step = next_ingress_gateways[OF Suc.prems(1,2,3)]
  show ?case
  proof (cases i)
    case 0
    then show ?thesis using step by (simp add: Let_def)
  next
    case (Suc j)
    have "ingress_sequence (Suc k) n ! i = ingress_sequence k ?n' ! j"
      using step Suc by (simp add: Let_def)
    also have "\<dots> = gws ! nat ((ingress_index ?n' + int j) mod ?L)"
      using Suc.prems \<open>i = Suc j\<close> by (intro Suc.IH) (auto intro: pos_mod_sign add_nonneg_nonneg)
    also have "(ingress_index ?n' + int j) mod ?L = (ingress_index n + int i) mod ?L"
      using \<open>i = Suc j\<close> by (simp add: mod_add_left_eq add.assoc)
    finally show ?thesis .
  qed
qed

lemma length_ingress_sequence [simp]: "length (ingress_sequence k n) = k"
  by (induction k arbitrary: n) (auto simp: Let_def split: prod.splits)

definition version_le :: "etcd_data_version \<Rightarrow> etcd_data_version \<Rightarrow> bool" where
  "version_le a b \<longleftrightarrow> dv_create_revision a \<le> dv_create_revision b \<and>
     dv_modify_revision a \<le> dv_modify_revision b"

lemma upgrade_version_fields:
  "dv_create_revision (upgrade_version c v) = max (dv_create_revision c) (dv_create_revision v)"
  "dv_modify_revision (upgrade_version c v) = max (dv_modify_revision c) (dv_modify_revision v)"
  "dv_version (upgrade_version c v) =
     (if dv_create_revision v > dv_create_revision c \<or> dv_modify_revision v > dv_modify_revision c
      then dv_version v else max (dv_version c) (dv_version v))"
  by (auto simp: upgrade_version_def Let_def)

end
