(* ===== verification/Discovery_Set.thy ===== *)
theory Discovery_Set
  imports Discovery_Node
begin

text \<open>
  The discovery set (\<^verbatim>\<open>class etcd_discovery_set\<close>,
  \<^verbatim>\<open>src/atframe/etcdcli/etcd_discovery.cpp\<close>): two indexes of the known nodes (by id and by
  name) and, per policy-routing rule, a lazily built cache with the consistent-hashing ring, its
  compact form and the sorted round-robin list. The const query functions of the source fill the
  mutable caches, so every operation returns the updated set.
\<close>

section \<open>State\<close>

record index_cache =
  normal_hashing_ring :: "node_hash list"
  compact_hashing_ring :: "node_hash list"
  round_robin_cache :: "node_ptr list"
  round_robin_index :: nat
  reference_cache :: "node_ptr list"

record discovery_set =
  node_by_name :: "(string \<times> node_ptr) list"
  node_by_id :: "(u64 \<times> node_ptr) list"
  default_index :: index_cache
  metadata_index :: "(atapp_metadata \<times> index_cache) list"

definition empty_cache :: index_cache where
  "empty_cache = \<lparr>normal_hashing_ring = [], compact_hashing_ring = [], round_robin_cache = [],
     round_robin_index = 0, reference_cache = []\<rparr>"

text \<open>\<^verbatim>\<open>etcd_discovery_set::etcd_discovery_set\<close> (the random generator is not state of the model).\<close>

definition discovery_set_create :: discovery_set where
  "discovery_set_create = \<lparr>node_by_name = [], node_by_id = [], default_index = empty_cache, metadata_index = []\<rparr>"

definition HASH_POINT_PER_INS :: nat where
  "HASH_POINT_PER_INS = 80"

text \<open>A pointer to one of the caches of the set.\<close>

datatype cache_ref = Default_index | Metadata_index atapp_metadata

definition read_cache :: "discovery_set \<Rightarrow> cache_ref \<Rightarrow> index_cache" where
  "read_cache ds ref = (case ref of Default_index \<Rightarrow> default_index ds
     | Metadata_index m \<Rightarrow> (case find_by metadata_equal m (metadata_index ds) of
         Some c \<Rightarrow> c | None \<Rightarrow> empty_cache))"

definition write_cache :: "discovery_set \<Rightarrow> cache_ref \<Rightarrow> index_cache \<Rightarrow> discovery_set" where
  "write_cache ds ref c = (case ref of Default_index \<Rightarrow> ds\<lparr>default_index := c\<rparr>
     | Metadata_index m \<Rightarrow> ds\<lparr>metadata_index := update_by metadata_equal m c (metadata_index ds)\<rparr>)"

section \<open>Lookup\<close>

definition ds_empty :: "discovery_set \<Rightarrow> bool" where
  "ds_empty ds \<longleftrightarrow> node_by_name ds = [] \<and> node_by_id ds = []"

definition metadata_index_size :: "discovery_set \<Rightarrow> nat" where
  "metadata_index_size ds = length (metadata_index ds)"

definition get_node_by_id :: "discovery_set \<Rightarrow> u64 \<Rightarrow> node_ptr" where
  "get_node_by_id ds i = (case map_of (node_by_id ds) i of None \<Rightarrow> 0 | Some p \<Rightarrow> p)"

definition get_node_by_name :: "discovery_set \<Rightarrow> string \<Rightarrow> node_ptr" where
  "get_node_by_name ds nm = (case map_of (node_by_name ds) nm of None \<Rightarrow> 0 | Some p \<Rightarrow> p)"

definition get_index_cache :: "discovery_set \<Rightarrow> atapp_metadata option \<Rightarrow> cache_ref option" where
  "get_index_cache ds md = (case md of None \<Rightarrow> Some Default_index
     | Some m \<Rightarrow> if metadata_is_empty m then Some Default_index
                else (case find_by metadata_equal m (metadata_index ds) of
                        None \<Rightarrow> None | Some _ \<Rightarrow> Some (Metadata_index m)))"

definition mutable_index_cache :: "discovery_set \<Rightarrow> atapp_metadata option \<Rightarrow> cache_ref \<times> discovery_set" where
  "mutable_index_cache ds md = (case get_index_cache ds md of Some r \<Rightarrow> (r, ds)
     | None \<Rightarrow> (case md of None \<Rightarrow> (Default_index, ds)
         | Some m \<Rightarrow> (Metadata_index m,
             ds\<lparr>metadata_index := update_by metadata_equal m empty_cache (metadata_index ds)\<rparr>)))"

section \<open>Building the caches\<close>

definition clear_cache_set :: "index_cache \<Rightarrow> index_cache" where
  "clear_cache_set cs = cs\<lparr>normal_hashing_ring := [], compact_hashing_ring := [],
     round_robin_cache := [], reference_cache := []\<rparr>"

definition rule_accepts :: "node_heap \<Rightarrow> atapp_metadata option \<Rightarrow> node_ptr \<Rightarrow> bool" where
  "rule_accepts h rule p = (case rule of None \<Rightarrow> True
     | Some r \<Rightarrow> metadata_filter r (di_metadata_or_default (node_info (h p))))"

definition hash_points :: "hash_api \<Rightarrow> string \<Rightarrow> node_ptr \<Rightarrow> node_hash list" where
  "hash_points H key p = map (\<lambda>i. \<lparr>nh_node = p, nh_hash_code = consistent_hash_calc H key (word_of_nat i)\<rparr>)
     [0..<HASH_POINT_PER_INS]"

definition push_node :: "hash_api \<Rightarrow> string \<Rightarrow> node_ptr \<Rightarrow> index_cache \<Rightarrow> index_cache" where
  "push_node H key p cs = cs\<lparr>round_robin_cache := round_robin_cache cs @ [p],
     reference_cache := List.insert p (reference_cache cs),
     normal_hashing_ring := normal_hashing_ring cs @ hash_points H key p\<rparr>"

definition rebuild_name_step ::
  "hash_api \<Rightarrow> node_heap \<Rightarrow> atapp_metadata option \<Rightarrow> string \<times> node_ptr \<Rightarrow> index_cache \<Rightarrow> index_cache" where
  "rebuild_name_step H h rule e cs =
     (if \<not> rule_accepts h rule (snd e) then cs
      else if di_name (node_info (h (snd e))) = [] then cs
      else push_node H (di_name (node_info (h (snd e)))) (snd e) cs)"

definition rebuild_id_step ::
  "hash_api \<Rightarrow> node_heap \<Rightarrow> atapp_metadata option \<Rightarrow> u64 \<times> node_ptr \<Rightarrow> index_cache \<Rightarrow> index_cache" where
  "rebuild_id_step H h rule e cs =
     (if \<not> rule_accepts h rule (snd e) then cs
      else if di_name (node_info (h (snd e))) \<noteq> [] then cs
      else push_node H (consistent_hash_to_span (di_id (node_info (h (snd e))))) (snd e) cs)"

definition rebuild_cache ::
  "hash_api \<Rightarrow> node_heap \<Rightarrow> discovery_set \<Rightarrow> atapp_metadata option \<Rightarrow> index_cache \<Rightarrow> index_cache" where
  "rebuild_cache H h ds rule cs =
     (if normal_hashing_ring cs \<noteq> [] then cs
      else if node_by_id ds = [] \<and> node_by_name ds = [] then cs
      else let c0 = clear_cache_set cs;
               c1 = fold (rebuild_name_step H h rule) (node_by_name ds) c0;
               c2 = fold (rebuild_id_step H h rule) (node_by_id ds) c1
           in c2\<lparr>round_robin_cache := std_sort (round_robin_compare_index h) (round_robin_cache c2),
                 round_robin_index := 0,
                 normal_hashing_ring := std_sort (consistent_hash_compare_index h) (normal_hashing_ring c2)\<rparr>)"

fun compact_loop ::
  "node_heap \<Rightarrow> node_hash \<Rightarrow> node_hash list \<Rightarrow> node_hash list \<Rightarrow> node_hash \<times> node_hash list" where
  "compact_loop h previous [] acc = (previous, acc)"
| "compact_loop h previous (x # xs) acc =
     compact_loop h x xs (if \<not> node_equal h (nh_node x) (nh_node previous) then acc @ [previous] else acc)"

definition compact_ring :: "node_heap \<Rightarrow> node_hash list \<Rightarrow> node_hash list" where
  "compact_ring h ring = (case ring of [] \<Rightarrow> []
     | first # rest \<Rightarrow>
         let (previous, acc) = compact_loop h first rest []
         in if acc = [] then [previous]
            else if \<not> node_equal h (nh_node previous) (nh_node (hd acc)) then acc @ [previous]
            else acc)"

definition rebuild_compact_cache ::
  "hash_api \<Rightarrow> node_heap \<Rightarrow> discovery_set \<Rightarrow> atapp_metadata option \<Rightarrow> index_cache \<Rightarrow> index_cache" where
  "rebuild_compact_cache H h ds rule cs =
     (if compact_hashing_ring cs \<noteq> [] then cs
      else if node_by_id ds = [] \<and> node_by_name ds = [] then cs
      else let c1 = rebuild_cache H h ds rule cs
           in if normal_hashing_ring c1 = [] then c1
              else c1\<lparr>compact_hashing_ring := compact_ring h (normal_hashing_ring c1)\<rparr>)"

text \<open>Dropping the caches a changed node may appear in.\<close>

definition cache_matched :: "node_ptr list \<Rightarrow> atapp_metadata option \<Rightarrow> atapp_metadata \<times> index_cache \<Rightarrow> bool" where
  "cache_matched ptrs md e \<longleftrightarrow>
     (\<exists>p \<in> set ptrs. p \<noteq> 0 \<and> p \<in> set (reference_cache (snd e))) \<or>
     (case md of None \<Rightarrow> False | Some m \<Rightarrow> metadata_filter (fst e) m)"

definition clear_cache :: "discovery_set \<Rightarrow> atapp_metadata option \<Rightarrow> node_ptr list \<Rightarrow> discovery_set" where
  "clear_cache ds md ptrs =
     (if md = None \<and> \<not> (\<exists>p \<in> set ptrs. p \<noteq> 0) then ds
      else ds\<lparr>default_index := clear_cache_set (default_index ds),
              metadata_index := filter (\<lambda>e. \<not> cache_matched ptrs md e) (metadata_index ds)\<rparr>)"

section \<open>Changing the set\<close>

text \<open>
  \<open>clear_cache_node_ptrs\<close> is the array of three pointers of the source together with its fill
  count: a replaced node is written at index \<open>size - 1\<close>, over the last entry.
\<close>

definition note_replaced :: "node_ptr list \<times> nat \<Rightarrow> node_ptr \<Rightarrow> node_ptr list \<times> nat" where
  "note_replaced st old = (case st of (ptrs, n) \<Rightarrow>
     if ptrs ! (n - 1) \<noteq> old then (ptrs[n - 1 := old], n + 1) else (ptrs, n))"

text \<open>The first part of \<^verbatim>\<open>add_node\<close>: the id index, \<^verbatim>\<open>has_insert\<close>, \<^verbatim>\<open>old_name\<close>, the pointers.\<close>

definition add_to_id_index ::
  "node_heap \<Rightarrow> (u64 \<times> node_ptr) list \<Rightarrow> node_ptr \<Rightarrow>
   (u64 \<times> node_ptr) list \<times> bool \<times> string \<times> node_ptr list \<times> nat" where
  "add_to_id_index h ids node =
     (let di = node_info (h node); st = ([node, 0, 0], 1)
      in if di_id di \<noteq> 0
         then (case map_of ids (di_id di) of
                 None \<Rightarrow> (AList.update (di_id di) node ids, True, [], st)
               | Some q \<Rightarrow>
                   if q \<noteq> node
                   then (AList.update (di_id di) node ids, True,
                         (if di_name (node_info (h q)) \<noteq> di_name di then di_name (node_info (h q)) else []),
                         note_replaced st q)
                   else (ids, False, [], st))
         else (ids, False, [], st))"

definition add_to_name_index ::
  "node_heap \<Rightarrow> (string \<times> node_ptr) list \<Rightarrow> node_ptr \<Rightarrow> bool \<Rightarrow> node_ptr list \<times> nat \<Rightarrow>
   (string \<times> node_ptr) list \<times> bool \<times> u64 \<times> node_ptr list \<times> nat" where
  "add_to_name_index h names node has_insert st =
     (let di = node_info (h node)
      in if di_name di \<noteq> []
         then (case map_of names (di_name di) of
                 None \<Rightarrow> (AList.update (di_name di) node names, True, 0, st)
               | Some q \<Rightarrow>
                   if q \<noteq> node
                   then (AList.update (di_name di) node names, True,
                         (if di_id (node_info (h q)) \<noteq> di_id di then di_id (node_info (h q)) else 0),
                         note_replaced st q)
                   else (names, has_insert, 0, st))
         else (names, has_insert, 0, st))"

text \<open>Erasing a key whose entry is another node.\<close>

definition erase_other :: "'k \<Rightarrow> node_ptr \<Rightarrow> ('k \<times> node_ptr) list \<Rightarrow> ('k \<times> node_ptr) list" where
  "erase_other k node al =
     (case map_of al k of Some q \<Rightarrow> if q \<noteq> node then AList.delete k al else al | None \<Rightarrow> al)"

definition add_node :: "node_heap \<Rightarrow> discovery_set \<Rightarrow> node_ptr \<Rightarrow> discovery_set" where
  "add_node h ds node =
     (if node = 0 then ds
      else
        let (ids, ins1, old_name, st1) = add_to_id_index h (node_by_id ds) node;
            (names, has_insert, old_id, st2) = add_to_name_index h (node_by_name ds) node ins1 st1;
            ids' = (if has_insert \<and> old_id \<noteq> 0 then erase_other old_id node ids else ids);
            names' = (if has_insert \<and> old_name \<noteq> [] then erase_other old_name node names else names)
        in clear_cache (ds\<lparr>node_by_id := ids', node_by_name := names'\<rparr>)
             (di_metadata (node_info (h node))) (fst st2))"

definition remove_node :: "node_heap \<Rightarrow> discovery_set \<Rightarrow> node_ptr \<Rightarrow> discovery_set" where
  "remove_node h ds node =
     (if node = 0 then ds
      else
        let di = node_info (h node);
            (ds1, c1) =
              (if di_name di \<noteq> [] \<and> map_of (node_by_name ds) (di_name di) = Some node
               then (ds\<lparr>node_by_name := AList.delete (di_name di) (node_by_name ds)\<rparr>, True) else (ds, False));
            (ds2, c2) =
              (if di_id di \<noteq> 0 \<and> map_of (node_by_id ds1) (di_id di) = Some node
               then (ds1\<lparr>node_by_id := AList.delete (di_id di) (node_by_id ds1)\<rparr>, True) else (ds1, c1))
        in if c2 then clear_cache ds2 (di_metadata di) [node] else ds2)"

definition remove_node_by_id :: "node_heap \<Rightarrow> discovery_set \<Rightarrow> u64 \<Rightarrow> discovery_set" where
  "remove_node_by_id h ds i =
     (case map_of (node_by_id ds) i of None \<Rightarrow> ds
      | Some p \<Rightarrow>
          let di = node_info (h p);
              ds1 = (if p \<noteq> 0 \<and> di_name di \<noteq> [] \<and> map_of (node_by_name ds) (di_name di) = Some p
                     then ds\<lparr>node_by_name := AList.delete (di_name di) (node_by_name ds)\<rparr> else ds);
              ds2 = clear_cache ds1 (di_metadata di) [p]
          in ds2\<lparr>node_by_id := AList.delete i (node_by_id ds2)\<rparr>)"

definition remove_node_by_name :: "node_heap \<Rightarrow> discovery_set \<Rightarrow> string \<Rightarrow> discovery_set" where
  "remove_node_by_name h ds nm =
     (case map_of (node_by_name ds) nm of None \<Rightarrow> ds
      | Some p \<Rightarrow>
          let di = node_info (h p);
              ds1 = (if p \<noteq> 0 \<and> di_id di \<noteq> 0 \<and> map_of (node_by_id ds) (di_id di) = Some p
                     then ds\<lparr>node_by_id := AList.delete (di_id di) (node_by_id ds)\<rparr> else ds);
              ds2 = clear_cache ds1 (di_metadata di) [p]
          in ds2\<lparr>node_by_name := AList.delete nm (node_by_name ds2)\<rparr>)"

section \<open>Invariant of the indexes\<close>

text \<open>
  Every entry of an index is a live node filed under its own key, and the two indexes agree: a
  node reachable by id is reachable by its name, and the other way round.
\<close>

definition files_under ::
  "(node_ptr \<Rightarrow> 'a) \<Rightarrow> 'a \<Rightarrow> (node_ptr \<Rightarrow> 'b) \<Rightarrow> 'b \<Rightarrow> ('a \<times> node_ptr) list \<Rightarrow> ('b \<times> node_ptr) list \<Rightarrow> bool" where
  "files_under key none key' none' al al' \<longleftrightarrow>
     (\<forall>k p. map_of al k = Some p \<longrightarrow> p \<noteq> 0 \<and> k \<noteq> none \<and> key p = k \<and>
        (key' p \<noteq> none' \<longrightarrow> map_of al' (key' p) = Some p))"

abbreviation node_id :: "node_heap \<Rightarrow> node_ptr \<Rightarrow> u64" where
  "node_id h p \<equiv> di_id (node_info (h p))"

abbreviation node_name :: "node_heap \<Rightarrow> node_ptr \<Rightarrow> string" where
  "node_name h p \<equiv> di_name (node_info (h p))"

definition index_inv :: "node_heap \<Rightarrow> discovery_set \<Rightarrow> bool" where
  "index_inv h ds \<longleftrightarrow>
     distinct (map fst (node_by_id ds)) \<and> distinct (map fst (node_by_name ds)) \<and>
     files_under (node_id h) 0 (node_name h) [] (node_by_id ds) (node_by_name ds) \<and>
     files_under (node_name h) [] (node_id h) 0 (node_by_name ds) (node_by_id ds)"

lemma clear_cache_frame [frame_simps, simp]:
  "node_by_id (clear_cache ds md ptrs) = node_by_id ds"
  "node_by_name (clear_cache ds md ptrs) = node_by_name ds"
  by (simp_all add: clear_cache_def)

lemma map_of_erase_other [simp]:
  "map_of (erase_other k node al) = (if map_of al k \<noteq> None \<and> map_of al k \<noteq> Some node
     then (map_of al)(k := None) else map_of al)"
  by (auto simp: erase_other_def split: option.splits)

lemma distinct_erase_other [invar_rules]:
  "distinct (map fst al) \<Longrightarrow> distinct (map fst (erase_other k node al))"
  by (auto simp: erase_other_def intro: distinct_keys_delete split: option.splits)

definition replaced_by_id :: "node_heap \<Rightarrow> (u64 \<times> node_ptr) list \<Rightarrow> node_ptr \<Rightarrow> node_ptr option" where
  "replaced_by_id h ids node =
     (if di_id (node_info (h node)) = 0 then None
      else case map_of ids (di_id (node_info (h node))) of None \<Rightarrow> None
           | Some q \<Rightarrow> if q = node then None else Some q)"

definition replaced_by_name :: "node_heap \<Rightarrow> (string \<times> node_ptr) list \<Rightarrow> node_ptr \<Rightarrow> node_ptr option" where
  "replaced_by_name h names node =
     (if di_name (node_info (h node)) = [] then None
      else case map_of names (di_name (node_info (h node))) of None \<Rightarrow> None
           | Some q \<Rightarrow> if q = node then None else Some q)"

lemma add_to_id_index_result:
  assumes "add_to_id_index h ids node = (ids', ins, old_name, st)"
  shows "ids' = (if di_id (node_info (h node)) \<noteq> 0 then AList.update (di_id (node_info (h node))) node ids else ids) \<or>
      ids' = ids \<and> map_of ids (di_id (node_info (h node))) = Some node"
    and "old_name = (case replaced_by_id h ids node of None \<Rightarrow> []
      | Some q \<Rightarrow> if di_name (node_info (h q)) \<noteq> di_name (node_info (h node)) then di_name (node_info (h q)) else [])"
    and "old_name \<noteq> [] \<Longrightarrow> ins"
    and "st = (case replaced_by_id h ids node of None \<Rightarrow> ([node, 0, 0], 1) | Some q \<Rightarrow> ([q, 0, 0], 2))"
  using assms
  by (auto simp: add_to_id_index_def replaced_by_id_def note_replaced_def Let_def split: option.splits if_splits)

lemma add_to_name_index_result:
  assumes "add_to_name_index h names node ins st = (names', has_insert, old_id, st')"
  shows "names' = (if di_name (node_info (h node)) \<noteq> [] then AList.update (di_name (node_info (h node))) node names else names) \<or>
      names' = names \<and> map_of names (di_name (node_info (h node))) = Some node"
    and "old_id = (case replaced_by_name h names node of None \<Rightarrow> 0
      | Some q \<Rightarrow> if di_id (node_info (h q)) \<noteq> di_id (node_info (h node)) then di_id (node_info (h q)) else 0)"
    and "old_id \<noteq> 0 \<Longrightarrow> has_insert" and "ins \<Longrightarrow> has_insert"
    and "st' = (case replaced_by_name h names node of None \<Rightarrow> st | Some q \<Rightarrow> note_replaced st q)"
  using assms
  by (auto simp: add_to_name_index_def replaced_by_name_def Let_def split: option.splits if_splits)

text \<open>
  The indexes after \<^verbatim>\<open>add_node\<close>: the node under its own keys, the stale key of a replaced
  node erased, everything else as it was.
\<close>

definition stale_name :: "node_heap \<Rightarrow> discovery_set \<Rightarrow> node_ptr \<Rightarrow> string" where
  "stale_name h ds node = (case replaced_by_id h (node_by_id ds) node of None \<Rightarrow> []
      | Some q \<Rightarrow> if di_name (node_info (h q)) \<noteq> di_name (node_info (h node)) then di_name (node_info (h q)) else [])"

definition stale_id :: "node_heap \<Rightarrow> discovery_set \<Rightarrow> node_ptr \<Rightarrow> u64" where
  "stale_id h ds node = (case replaced_by_name h (node_by_name ds) node of None \<Rightarrow> 0
      | Some q \<Rightarrow> if di_id (node_info (h q)) \<noteq> di_id (node_info (h node)) then di_id (node_info (h q)) else 0)"

definition put_key :: "'k \<Rightarrow> 'k \<Rightarrow> node_ptr \<Rightarrow> ('k \<times> node_ptr) list \<Rightarrow> ('k \<times> node_ptr) list" where
  "put_key none k node al = (if k = none \<or> map_of al k = Some node then al else AList.update k node al)"

definition erase_stale :: "'k \<Rightarrow> 'k \<Rightarrow> node_ptr \<Rightarrow> ('k \<times> node_ptr) list \<Rightarrow> ('k \<times> node_ptr) list" where
  "erase_stale none k node al = (if k \<noteq> none then erase_other k node al else al)"

lemma add_node_indexes:
  assumes "node \<noteq> 0"
  shows "node_by_id (add_node h ds node) =
      erase_stale 0 (stale_id h ds node) node (put_key 0 (di_id (node_info (h node))) node (node_by_id ds))"
    and "node_by_name (add_node h ds node) =
      erase_stale [] (stale_name h ds node) node (put_key [] (di_name (node_info (h node))) node (node_by_name ds))"
proof -
  obtain ids ins1 on st1 where 1: "add_to_id_index h (node_by_id ds) node = (ids, ins1, on, st1)"
    by (metis prod_cases4)
  obtain names ins2 oi st2 where
    2: "add_to_name_index h (node_by_name ds) node ins1 st1 = (names, ins2, oi, st2)"
    by (metis prod_cases4)
  have ids: "ids = put_key 0 (di_id (node_info (h node))) node (node_by_id ds)"
    using 1 by (auto simp: add_to_id_index_def put_key_def Let_def split: option.splits if_splits)
  have names: "names = put_key [] (di_name (node_info (h node))) node (node_by_name ds)"
    using 2 by (auto simp: add_to_name_index_def put_key_def Let_def split: option.splits if_splits)
  note r1 = add_to_id_index_result[OF 1] and r2 = add_to_name_index_result[OF 2]
  have oi: "oi = stale_id h ds node" using r2(2) by (simp add: stale_id_def)
  have on: "on = stale_name h ds node" using r1(2) by (simp add: stale_name_def)
  show "node_by_id (add_node h ds node) =
      erase_stale 0 (stale_id h ds node) node (put_key 0 (di_id (node_info (h node))) node (node_by_id ds))"
    using assms 1 2 r2(3) by (auto simp: add_node_def erase_stale_def ids oi)
  show "node_by_name (add_node h ds node) =
      erase_stale [] (stale_name h ds node) node (put_key [] (di_name (node_info (h node))) node (node_by_name ds))"
    using assms 1 2 r1(3) r2(4) by (auto simp: add_node_def erase_stale_def names on)
qed

lemma map_of_put_key [simp]:
  "map_of (put_key none k node al) = (if k = none then map_of al else (map_of al)(k \<mapsto> node))"
  by (auto simp: put_key_def fun_eq_iff)

lemma distinct_put_key [invar_rules]:
  "distinct (map fst al) \<Longrightarrow> distinct (map fst (put_key none k node al))"
  by (auto simp: put_key_def intro: distinct_keys_update)

lemma distinct_erase_stale [invar_rules]:
  "distinct (map fst al) \<Longrightarrow> distinct (map fst (erase_stale none k node al))"
  by (auto simp: erase_stale_def intro: distinct_erase_other)

text \<open>
  The key under which the node that \<open>node\<close> displaces from one index is still filed in the other
  one; both stale keys of \<^verbatim>\<open>add_node\<close> are of this form, so one lemma serves both indexes.
\<close>

definition stale_key :: "(node_ptr \<Rightarrow> 'a) \<Rightarrow> 'a \<Rightarrow> (node_ptr \<Rightarrow> 'b) \<Rightarrow> 'b \<Rightarrow> ('a \<times> node_ptr) list \<Rightarrow> node_ptr \<Rightarrow> 'b" where
  "stale_key key none key' none' al node =
     (if key node = none then none'
      else case map_of al (key node) of None \<Rightarrow> none'
           | Some q \<Rightarrow> if q \<noteq> node \<and> key' q \<noteq> key' node then key' q else none')"

lemma stale_name_key: "stale_name h ds node = stale_key (node_id h) 0 (node_name h) [] (node_by_id ds) node"
  by (auto simp: stale_name_def stale_key_def replaced_by_id_def split: option.splits)

lemma stale_id_key: "stale_id h ds node = stale_key (node_name h) [] (node_id h) 0 (node_by_name ds) node"
  by (auto simp: stale_id_def stale_key_def replaced_by_name_def split: option.splits)

lemma files_under_add:
  assumes f: "files_under key none key' none' al al'" and f': "files_under key' none' key none al' al"
    and node: "node \<noteq> 0"
  shows "files_under key none key' none'
      (erase_stale none (stale_key key' none' key none al' node) node (put_key none (key node) node al))
      (erase_stale none' (stale_key key none key' none' al node) node (put_key none' (key' node) node al'))"
    (is "files_under _ _ _ _ ?al ?al'")
  unfolding files_under_def
proof (intro allI impI)
  fix k p
  let ?s = "stale_key key' none' key none al' node" and ?s' = "stale_key key none key' none' al node"
  assume p: "map_of ?al k = Some p"
  have al': "map_of ?al' n = (if n = key' node \<and> n \<noteq> none' then Some node
      else if n = ?s' \<and> n \<noteq> none' \<and> map_of al' n \<noteq> Some node then None else map_of al' n)" for n
    by (auto simp: erase_stale_def stale_key_def split: option.splits if_splits)
  show "p \<noteq> 0 \<and> k \<noteq> none \<and> key p = k \<and> (key' p \<noteq> none' \<longrightarrow> map_of ?al' (key' p) = Some p)"
  proof (cases "k = key node \<and> k \<noteq> none")
    case True
    then have "p = node" using p by (auto simp: erase_stale_def stale_key_def split: option.splits if_splits)
    with True node show ?thesis by (auto simp: al')
  next
    case False
    then have old: "map_of al k = Some p" and ks: "k = ?s \<Longrightarrow> k \<noteq> none \<Longrightarrow> p = node"
      using p by (auto simp: erase_stale_def split: if_splits)
    then have pk: "p \<noteq> 0" "k \<noteq> none" "key p = k" using f by (auto simp: files_under_def)
    then have "p \<noteq> node" using False by auto
    have "map_of ?al' (key' p) = Some p" if k': "key' p \<noteq> none'"
    proof -
      have mp: "map_of al' (key' p) = Some p" using f old k' by (auto simp: files_under_def)
      have "key' p \<noteq> key' node"
      proof
        assume "key' p = key' node"
        then have "?s = k" using mp k' pk \<open>p \<noteq> node\<close> False by (auto simp: stale_key_def)
        then show False using ks pk \<open>p \<noteq> node\<close> by simp
      qed
      moreover have "key' p \<noteq> ?s'"
      proof
        assume eq: "key' p = ?s'"
        then obtain q where q: "key node \<noteq> none" "map_of al (key node) = Some q" "key' q = key' p"
          using k' by (auto simp: stale_key_def split: option.splits if_splits)
        then have "map_of al' (key' p) = Some q" using f k' unfolding files_under_def by metis
        then have "q = p" using mp by simp
        then show False using q pk f False unfolding files_under_def by metis
      qed
      ultimately show ?thesis using mp by (simp add: al')
    qed
    with pk show ?thesis by simp
  qed
qed

lemma add_node_index_inv [invar_rules]:
  assumes "index_inv h ds"
  shows "index_inv h (add_node h ds node)"
proof (cases "node = 0")
  case True
  then show ?thesis using assms by (simp add: add_node_def)
next
  case False
  with assms show ?thesis
    unfolding index_inv_def add_node_indexes[OF False] stale_name_key stale_id_key
    by (intro conjI distinct_erase_stale distinct_put_key files_under_add) auto
qed

subsection \<open>Removal\<close>

definition drop_key :: "'k \<Rightarrow> 'k \<Rightarrow> node_ptr \<Rightarrow> ('k \<times> node_ptr) list \<Rightarrow> ('k \<times> node_ptr) list" where
  "drop_key none k node al = (if k \<noteq> none \<and> map_of al k = Some node then AList.delete k al else al)"

lemma map_of_drop_key [simp]:
  "map_of (drop_key none k node al) = (if k \<noteq> none \<and> map_of al k = Some node then (map_of al)(k := None) else map_of al)"
  by (simp add: drop_key_def)

lemma distinct_drop_key [invar_rules]:
  "distinct (map fst al) \<Longrightarrow> distinct (map fst (drop_key none k node al))"
  by (auto simp: drop_key_def intro: distinct_keys_delete)

lemma files_under_drop:
  assumes f: "files_under key none key' none' al al'"
  shows "files_under key none key' none' (drop_key none (key node) node al) (drop_key none' (key' node) node al')"
  unfolding files_under_def
proof (intro allI impI)
  fix k p
  assume p: "map_of (drop_key none (key node) node al) k = Some p"
  then have old: "map_of al k = Some p" by (auto split: if_splits)
  then have pk: "p \<noteq> 0 \<and> k \<noteq> none \<and> key p = k" and pk': "key' p \<noteq> none' \<Longrightarrow> map_of al' (key' p) = Some p"
    using f by (auto simp: files_under_def)
  have "p \<noteq> node" using p old pk by (auto split: if_splits)
  then show "p \<noteq> 0 \<and> k \<noteq> none \<and> key p = k \<and>
      (key' p \<noteq> none' \<longrightarrow> map_of (drop_key none' (key' node) node al') (key' p) = Some p)"
    using pk pk' by auto
qed

lemma remove_node_indexes:
  assumes "node \<noteq> 0"
  shows "node_by_id (remove_node h ds node) = drop_key 0 (node_id h node) node (node_by_id ds)"
    and "node_by_name (remove_node h ds node) = drop_key [] (node_name h node) node (node_by_name ds)"
  using assms by (auto simp: remove_node_def drop_key_def Let_def)

lemma remove_node_index_inv [invar_rules]:
  assumes "index_inv h ds"
  shows "index_inv h (remove_node h ds node)"
proof (cases "node = 0")
  case True
  then show ?thesis using assms by (simp add: remove_node_def)
next
  case False
  with assms show ?thesis
    unfolding index_inv_def remove_node_indexes[OF False]
    by (intro conjI distinct_drop_key files_under_drop) auto
qed

lemma remove_node_by_id_indexes:
  assumes "index_inv h ds" and "map_of (node_by_id ds) i = Some p"
  shows "node_by_id (remove_node_by_id h ds i) = drop_key 0 (node_id h p) p (node_by_id ds)"
    and "node_by_name (remove_node_by_id h ds i) = drop_key [] (node_name h p) p (node_by_name ds)"
proof -
  have "p \<noteq> 0" "i \<noteq> 0" "node_id h p = i" using assms by (auto simp: index_inv_def files_under_def)
  with assms(2) show "node_by_id (remove_node_by_id h ds i) = drop_key 0 (node_id h p) p (node_by_id ds)"
    and "node_by_name (remove_node_by_id h ds i) = drop_key [] (node_name h p) p (node_by_name ds)"
    by (auto simp: remove_node_by_id_def drop_key_def Let_def)
qed

lemma remove_node_by_id_index_inv [invar_rules]:
  assumes "index_inv h ds"
  shows "index_inv h (remove_node_by_id h ds i)"
proof (cases "map_of (node_by_id ds) i")
  case None
  then show ?thesis using assms by (simp add: remove_node_by_id_def)
next
  case (Some p)
  with assms show ?thesis
    unfolding index_inv_def remove_node_by_id_indexes[OF assms Some]
    by (intro conjI distinct_drop_key files_under_drop) auto
qed

lemma remove_node_by_name_indexes:
  assumes "index_inv h ds" and "map_of (node_by_name ds) n = Some p"
  shows "node_by_id (remove_node_by_name h ds n) = drop_key 0 (node_id h p) p (node_by_id ds)"
    and "node_by_name (remove_node_by_name h ds n) = drop_key [] (node_name h p) p (node_by_name ds)"
proof -
  have "p \<noteq> 0" "n \<noteq> []" "node_name h p = n" using assms by (auto simp: index_inv_def files_under_def)
  with assms(2) show "node_by_id (remove_node_by_name h ds n) = drop_key 0 (node_id h p) p (node_by_id ds)"
    and "node_by_name (remove_node_by_name h ds n) = drop_key [] (node_name h p) p (node_by_name ds)"
    by (auto simp: remove_node_by_name_def drop_key_def Let_def)
qed

lemma remove_node_by_name_index_inv [invar_rules]:
  assumes "index_inv h ds"
  shows "index_inv h (remove_node_by_name h ds n)"
proof (cases "map_of (node_by_name ds) n")
  case None
  then show ?thesis using assms by (simp add: remove_node_by_name_def)
next
  case (Some p)
  with assms show ?thesis
    unfolding index_inv_def remove_node_by_name_indexes[OF assms Some]
    by (intro conjI distinct_drop_key files_under_drop) auto
qed

lemma index_inv_create [invar_rules]: "index_inv h discovery_set_create"
  by (simp add: index_inv_def discovery_set_create_def files_under_def)

lemma index_inv_cong:
  "node_by_id ds' = node_by_id ds \<Longrightarrow> node_by_name ds' = node_by_name ds \<Longrightarrow> index_inv h ds' = index_inv h ds"
  by (simp add: index_inv_def)

end
