(* ===== verification/Discovery_Query.thy ===== *)
theory Discovery_Query
  imports Discovery_Set
begin

text \<open>
  The queries of the discovery set (\<^verbatim>\<open>src/atframe/etcdcli/etcd_discovery.cpp\<close>): search on the
  consistent-hashing ring in the eight search modes, random and round-robin selection, and the
  sorted node list with its bounds. The second half shows that the lazily built caches always
  hold what the indexes say.
\<close>

section \<open>Consistent hashing\<close>

datatype search_mode =
    kAll | kCompact | kUniqueNode | kCompactUniqueNode
  | kNextNode | kNextCompact | kNextUniqueNode | kNextCompactUniqueNode

fun search_mode_bits :: "search_mode \<Rightarrow> u8" where
  "search_mode_bits kAll = 0"
| "search_mode_bits kCompact = 1"
| "search_mode_bits kUniqueNode = 2"
| "search_mode_bits kCompactUniqueNode = 3"
| "search_mode_bits kNextNode = 4"
| "search_mode_bits kNextCompact = 5"
| "search_mode_bits kNextUniqueNode = 6"
| "search_mode_bits kNextCompactUniqueNode = 7"

text \<open>\<^verbatim>\<open>search_mode_internal_flag\<close>: \<open>kCompact\<close>, \<open>kUnique\<close> and \<open>kNext\<close>.\<close>

definition flag_compact :: "search_mode \<Rightarrow> bool" where
  "flag_compact m \<longleftrightarrow> 0x01 AND search_mode_bits m \<noteq> 0"

definition flag_unique :: "search_mode \<Rightarrow> bool" where
  "flag_unique m \<longleftrightarrow> 0x02 AND search_mode_bits m \<noteq> 0"

definition flag_next :: "search_mode \<Rightarrow> bool" where
  "flag_next m \<longleftrightarrow> 0x04 AND search_mode_bits m \<noteq> 0"

text \<open>
  The search loop: \<open>it\<close> is \<^verbatim>\<open>hash_iter\<close> as an index, the recursion is on
  \<^verbatim>\<open>check_count\<close>, \<open>out\<close> is what was written to \<^verbatim>\<open>output\<close> so far and \<open>cache\<close> is
  \<^verbatim>\<open>unique_cache\<close>.
\<close>

fun ring_search ::
  "node_heap \<Rightarrow> node_hash list \<Rightarrow> node_hash \<Rightarrow> bool \<Rightarrow> bool \<Rightarrow> nat \<Rightarrow> nat \<Rightarrow>
   nat \<Rightarrow> nat \<Rightarrow> node_hash list \<Rightarrow> node_ptr list \<Rightarrow> node_hash list" where
  "ring_search h ring key exclude_self unique_node output_size max_output_size it 0 out cache = out"
| "ring_search h ring key exclude_self unique_node output_size max_output_size it (Suc check_count) out cache =
     (if \<not> (length out < output_size \<and> length out < max_output_size) then out
      else
        let it' = (if it = length ring then 0 else it);
            e = ring ! it'
        in if exclude_self \<and> (unique_node \<or> nh_hash_code key = nh_hash_code e) \<and>
              node_equal h (nh_node e) (nh_node key)
           then ring_search h ring key exclude_self unique_node output_size max_output_size (Suc it') check_count out cache
           else if unique_node \<and> nh_node e \<in> set cache
           then ring_search h ring key exclude_self unique_node output_size max_output_size (Suc it') check_count out cache
           else ring_search h ring key exclude_self unique_node output_size max_output_size (Suc it') check_count
                  (out @ [e]) (if unique_node then nh_node e # cache else cache))"

text \<open>The result is the part of \<^verbatim>\<open>output\<close> that was written; its length is the value returned.\<close>

definition lower_bound_node_hash_by_consistent_hash ::
  "hash_api \<Rightarrow> node_heap \<Rightarrow> discovery_set \<Rightarrow> nat \<Rightarrow> node_hash \<Rightarrow> atapp_metadata option \<Rightarrow> search_mode \<Rightarrow>
   node_hash list \<times> discovery_set" where
  "lower_bound_node_hash_by_consistent_hash H h ds output_size key md mode =
     (if output_size = 0 then ([], ds)
      else
        let (ref, ds1) = mutable_index_cache ds md;
            c0 = read_cache ds1 ref;
            c1 = (if flag_compact mode
                  then (if compact_hashing_ring c0 = [] then rebuild_compact_cache H h ds1 md c0 else c0)
                  else (if normal_hashing_ring c0 = [] then rebuild_cache H h ds1 md c0 else c0));
            ds2 = write_cache ds1 ref c1;
            ring = (if flag_compact mode then compact_hashing_ring c1 else normal_hashing_ring c1);
            max_output_size = (if flag_unique mode then length (round_robin_cache c1) else length ring)
        in if ring = [] then ([], ds2)
           else (ring_search h ring key (flag_next mode) (flag_unique mode) output_size max_output_size
                   (std_lower_bound consistent_hash_compare_find ring (nh_hash_code key)) (length ring) [] [],
                 ds2))"

definition get_node_hash_by_consistent_hash ::
  "hash_api \<Rightarrow> node_heap \<Rightarrow> discovery_set \<Rightarrow> string \<Rightarrow> atapp_metadata option \<Rightarrow> node_hash \<times> discovery_set" where
  "get_node_hash_by_consistent_hash H h ds buf md =
     (let hash_key = consistent_hash_calc H buf (hash_magic_number H);
          (out, ds') = lower_bound_node_hash_by_consistent_hash H h ds 1
                         \<lparr>nh_node = 0, nh_hash_code = hash_key\<rparr> md kAll
      in (case out of [] \<Rightarrow> \<lparr>nh_node = 0, nh_hash_code = hash_key\<rparr> | r # _ \<Rightarrow> r, ds'))"

definition get_node_hash_by_consistent_hash_u64 ::
  "hash_api \<Rightarrow> node_heap \<Rightarrow> discovery_set \<Rightarrow> u64 \<Rightarrow> atapp_metadata option \<Rightarrow> node_hash \<times> discovery_set" where
  "get_node_hash_by_consistent_hash_u64 H h ds key md =
     get_node_hash_by_consistent_hash H h ds (consistent_hash_to_span key) md"

definition get_node_hash_by_consistent_hash_i64 ::
  "hash_api \<Rightarrow> node_heap \<Rightarrow> discovery_set \<Rightarrow> int \<Rightarrow> atapp_metadata option \<Rightarrow> node_hash \<times> discovery_set" where
  "get_node_hash_by_consistent_hash_i64 H h ds key md =
     get_node_hash_by_consistent_hash H h ds (consistent_hash_to_span (word_of_int key)) md"

definition get_node_by_consistent_hash ::
  "hash_api \<Rightarrow> node_heap \<Rightarrow> discovery_set \<Rightarrow> string \<Rightarrow> atapp_metadata option \<Rightarrow> node_ptr \<times> discovery_set" where
  "get_node_by_consistent_hash H h ds buf md =
     map_prod nh_node id (get_node_hash_by_consistent_hash H h ds buf md)"

definition get_node_by_consistent_hash_u64 ::
  "hash_api \<Rightarrow> node_heap \<Rightarrow> discovery_set \<Rightarrow> u64 \<Rightarrow> atapp_metadata option \<Rightarrow> node_ptr \<times> discovery_set" where
  "get_node_by_consistent_hash_u64 H h ds key md =
     get_node_by_consistent_hash H h ds (consistent_hash_to_span key) md"

definition get_node_by_consistent_hash_i64 ::
  "hash_api \<Rightarrow> node_heap \<Rightarrow> discovery_set \<Rightarrow> int \<Rightarrow> atapp_metadata option \<Rightarrow> node_ptr \<times> discovery_set" where
  "get_node_by_consistent_hash_i64 H h ds key md =
     get_node_by_consistent_hash H h ds (consistent_hash_to_span (word_of_int key)) md"

section \<open>Round robin, random choice and the sorted list\<close>

text \<open>Fetch the cache of a rule, building it when its round-robin list is empty.\<close>

definition filled_cache ::
  "hash_api \<Rightarrow> node_heap \<Rightarrow> discovery_set \<Rightarrow> atapp_metadata option \<Rightarrow> cache_ref \<times> index_cache \<times> discovery_set" where
  "filled_cache H h ds md =
     (let (ref, ds1) = mutable_index_cache ds md;
          c0 = read_cache ds1 ref;
          c1 = (if round_robin_cache c0 = [] then rebuild_cache H h ds1 md c0 else c0)
      in (ref, c1, write_cache ds1 ref c1))"

text \<open>
  \<^verbatim>\<open>random_between(0, n)\<close> of atframe\_utils is the parameter \<open>rnd\<close>; it returns a value of the
  half-open range.
\<close>

definition get_node_by_random ::
  "(nat \<Rightarrow> nat) \<Rightarrow> hash_api \<Rightarrow> node_heap \<Rightarrow> discovery_set \<Rightarrow> atapp_metadata option \<Rightarrow> node_ptr \<times> discovery_set" where
  "get_node_by_random rnd H h ds md =
     (let (ref, c, ds') = filled_cache H h ds md
      in if round_robin_cache c = [] then (0, ds')
         else (round_robin_cache c ! rnd (length (round_robin_cache c)), ds'))"

definition get_node_by_round_robin ::
  "hash_api \<Rightarrow> node_heap \<Rightarrow> discovery_set \<Rightarrow> atapp_metadata option \<Rightarrow> node_ptr \<times> discovery_set" where
  "get_node_by_round_robin H h ds md =
     (let (ref, c, ds') = filled_cache H h ds md
      in if round_robin_cache c = [] then (0, ds')
         else let i = (if round_robin_index c \<ge> length (round_robin_cache c)
                       then round_robin_index c mod length (round_robin_cache c) else round_robin_index c)
              in (round_robin_cache c ! i, write_cache ds' ref (c\<lparr>round_robin_index := i + 1\<rparr>)))"

definition get_sorted_nodes ::
  "hash_api \<Rightarrow> node_heap \<Rightarrow> discovery_set \<Rightarrow> atapp_metadata option \<Rightarrow> node_ptr list \<times> discovery_set" where
  "get_sorted_nodes H h ds md =
     (let (ref, c, ds') = filled_cache H h ds md in (round_robin_cache c, ds'))"

definition bound_pred :: "hash_api \<Rightarrow> u64 \<Rightarrow> string \<Rightarrow> lower_upper_bound_pred" where
  "bound_pred H i name = \<lparr>lub_id = i, lub_name = name,
     lub_hash_code = (if name \<noteq> [] then consistent_hash_calc H name (hash_magic_number H) else (0, 0))\<rparr>"

text \<open>The bounds return an iterator, here the index into the sorted list.\<close>

definition lower_bound_sorted_nodes ::
  "hash_api \<Rightarrow> node_heap \<Rightarrow> discovery_set \<Rightarrow> u64 \<Rightarrow> string \<Rightarrow> atapp_metadata option \<Rightarrow> nat \<times> discovery_set" where
  "lower_bound_sorted_nodes H h ds i name md =
     (let (container, ds') = get_sorted_nodes H h ds md
      in (std_lower_bound (lower_bound_compare_index h) container (bound_pred H i name), ds'))"

definition upper_bound_sorted_nodes ::
  "hash_api \<Rightarrow> node_heap \<Rightarrow> discovery_set \<Rightarrow> u64 \<Rightarrow> string \<Rightarrow> atapp_metadata option \<Rightarrow> nat \<times> discovery_set" where
  "upper_bound_sorted_nodes H h ds i name md =
     (let (container, ds') = get_sorted_nodes H h ds md
      in (std_upper_bound (upper_bound_compare_index h) container (bound_pred H i name), ds'))"

section \<open>What a cache holds\<close>

text \<open>The nodes a rule selects, in the order the rebuild visits them.\<close>

definition matching_nodes :: "node_heap \<Rightarrow> discovery_set \<Rightarrow> atapp_metadata option \<Rightarrow> node_ptr list" where
  "matching_nodes h ds rule =
     filter (\<lambda>p. rule_accepts h rule p \<and> node_name h p \<noteq> []) (map snd (node_by_name ds)) @
     filter (\<lambda>p. rule_accepts h rule p \<and> node_name h p = []) (map snd (node_by_id ds))"

definition ring_points :: "hash_api \<Rightarrow> node_heap \<Rightarrow> node_ptr list \<Rightarrow> node_hash list" where
  "ring_points H h ps = concat (map (\<lambda>p. hash_points H
     (if node_name h p \<noteq> [] then node_name h p else consistent_hash_to_span (node_id h p)) p) ps)"

definition cache_exact :: "hash_api \<Rightarrow> node_heap \<Rightarrow> node_ptr list \<Rightarrow> index_cache \<Rightarrow> bool" where
  "cache_exact H h ps c \<longleftrightarrow>
     round_robin_cache c = std_sort (round_robin_compare_index h) ps \<and>
     normal_hashing_ring c = std_sort (consistent_hash_compare_index h) (ring_points H h ps) \<and>
     set (reference_cache c) = set ps \<and>
     (compact_hashing_ring c = [] \<or> compact_hashing_ring c = compact_ring h (normal_hashing_ring c))"

definition cache_cleared :: "index_cache \<Rightarrow> bool" where
  "cache_cleared c \<longleftrightarrow> normal_hashing_ring c = [] \<and> compact_hashing_ring c = [] \<and>
     round_robin_cache c = [] \<and> reference_cache c = []"

definition cache_ok :: "hash_api \<Rightarrow> node_heap \<Rightarrow> node_ptr list \<Rightarrow> index_cache \<Rightarrow> bool" where
  "cache_ok H h ps c \<longleftrightarrow> cache_cleared c \<or> cache_exact H h ps c"

definition caches_ok :: "hash_api \<Rightarrow> node_heap \<Rightarrow> discovery_set \<Rightarrow> bool" where
  "caches_ok H h ds \<longleftrightarrow> cache_ok H h (matching_nodes h ds None) (default_index ds) \<and>
     (\<forall>(m, c) \<in> set (metadata_index ds). cache_ok H h (matching_nodes h ds (Some m)) c)"

definition set_inv :: "hash_api \<Rightarrow> node_heap \<Rightarrow> discovery_set \<Rightarrow> bool" where
  "set_inv H h ds \<longleftrightarrow> index_inv h ds \<and> caches_ok H h ds"

lemma fold_rebuild_name:
  fixes H h rule al
  defines "ps \<equiv> filter (\<lambda>p. rule_accepts h rule p \<and> node_name h p \<noteq> []) (map snd al)"
  shows "round_robin_cache (fold (rebuild_name_step H h rule) al c) = round_robin_cache c @ ps"
    and "normal_hashing_ring (fold (rebuild_name_step H h rule) al c) = normal_hashing_ring c @ ring_points H h ps"
    and "set (reference_cache (fold (rebuild_name_step H h rule) al c)) = set (reference_cache c) \<union> set ps"
    and "compact_hashing_ring (fold (rebuild_name_step H h rule) al c) = compact_hashing_ring c"
  unfolding ps_def
  by (induction al arbitrary: c) (auto simp: rebuild_name_step_def push_node_def ring_points_def)

lemma fold_rebuild_id:
  fixes H h rule al
  defines "ps \<equiv> filter (\<lambda>p. rule_accepts h rule p \<and> node_name h p = []) (map snd al)"
  shows "round_robin_cache (fold (rebuild_id_step H h rule) al c) = round_robin_cache c @ ps"
    and "normal_hashing_ring (fold (rebuild_id_step H h rule) al c) = normal_hashing_ring c @ ring_points H h ps"
    and "set (reference_cache (fold (rebuild_id_step H h rule) al c)) = set (reference_cache c) \<union> set ps"
    and "compact_hashing_ring (fold (rebuild_id_step H h rule) al c) = compact_hashing_ring c"
  unfolding ps_def
  by (induction al arbitrary: c) (auto simp: rebuild_id_step_def push_node_def ring_points_def)

lemma ring_points_append [simp]: "ring_points H h (xs @ ys) = ring_points H h xs @ ring_points H h ys"
  by (simp add: ring_points_def)

lemma ring_points_Nil [simp]: "ring_points H h [] = []"
  by (simp add: ring_points_def)

lemma ring_points_eq_Nil [simp]: "ring_points H h ps = [] \<longleftrightarrow> ps = []"
  by (cases ps) (auto simp: ring_points_def hash_points_def HASH_POINT_PER_INS_def)

text \<open>Rebuilding a sound cache yields an exact one.\<close>

lemma rebuild_cache_exact:
  assumes "cache_ok H h (matching_nodes h ds rule) c"
  shows "cache_exact H h (matching_nodes h ds rule) (rebuild_cache H h ds rule c)"
proof (cases "normal_hashing_ring c \<noteq> []")
  case True
  then show ?thesis using assms by (auto simp: rebuild_cache_def cache_ok_def cache_cleared_def)
next
  case False
  show ?thesis
  proof (cases "node_by_id ds = [] \<and> node_by_name ds = []")
    case True
    then have "matching_nodes h ds rule = []" by (simp add: matching_nodes_def)
    then show ?thesis using assms False True
      by (auto simp: rebuild_cache_def cache_ok_def cache_cleared_def cache_exact_def ring_points_def)
  next
    case nonempty: False
    let ?c0 = "clear_cache_set c"
    let ?c1 = "fold (rebuild_name_step H h rule) (node_by_name ds) ?c0"
    let ?c2 = "fold (rebuild_id_step H h rule) (node_by_id ds) ?c1"
    have eq: "rebuild_cache H h ds rule c =
      ?c2\<lparr>round_robin_cache := std_sort (round_robin_compare_index h) (round_robin_cache ?c2),
          round_robin_index := 0,
          normal_hashing_ring := std_sort (consistent_hash_compare_index h) (normal_hashing_ring ?c2)\<rparr>"
      using False nonempty by (auto simp: rebuild_cache_def Let_def)
    show ?thesis
      unfolding eq cache_exact_def
      by (simp add: fold_rebuild_id fold_rebuild_name clear_cache_set_def matching_nodes_def)
  qed
qed

section \<open>Queries keep the caches sound\<close>

lemma matching_nodes_cong:
  "node_by_id ds' = node_by_id ds \<Longrightarrow> node_by_name ds' = node_by_name ds \<Longrightarrow>
   matching_nodes h ds' rule = matching_nodes h ds rule"
  by (simp add: matching_nodes_def)

lemma matching_nodes_empty_rule:
  "metadata_is_empty m \<Longrightarrow> matching_nodes h ds (Some m) = matching_nodes h ds None"
  by (simp add: matching_nodes_def rule_accepts_def metadata_filter_empty)

lemma matching_nodes_equal_rule:
  assumes "metadata_equal m m'"
  shows "matching_nodes h ds (Some m) = matching_nodes h ds (Some m')"
  by (simp add: matching_nodes_def rule_accepts_def metadata_filter_equal_rule[OF assms])

lemma cache_cleared_ok [simp]: "cache_cleared c \<Longrightarrow> cache_ok H h ps c"
  by (simp add: cache_ok_def)

lemma empty_cache_cleared [simp]: "cache_cleared empty_cache" "cache_cleared (clear_cache_set c)"
  by (simp_all add: cache_cleared_def empty_cache_def clear_cache_set_def)

definition ref_for :: "atapp_metadata option \<Rightarrow> cache_ref \<Rightarrow> bool" where
  "ref_for md ref = (case ref of
      Default_index \<Rightarrow> (case md of None \<Rightarrow> True | Some m \<Rightarrow> metadata_is_empty m)
    | Metadata_index m \<Rightarrow> md = Some m)"

lemma mutable_index_cache_frame:
  assumes "mutable_index_cache ds md = (ref, ds1)"
  shows "node_by_id ds1 = node_by_id ds" "node_by_name ds1 = node_by_name ds" "ref_for md ref"
  using assms
  by (auto simp: mutable_index_cache_def get_index_cache_def ref_for_def split: option.splits if_splits)

lemma mutable_index_cache_ok:
  assumes "caches_ok H h ds" and "mutable_index_cache ds md = (ref, ds1)"
  shows "caches_ok H h ds1"
proof -
  note frame = mutable_index_cache_frame[OF assms(2)]
  have "default_index ds1 = default_index ds"
    and "set (metadata_index ds1) \<subseteq> set (metadata_index ds) \<union> {(m, empty_cache) | m. True}"
    using assms(2) set_update_by_subset[of metadata_equal]
    by (force simp: mutable_index_cache_def get_index_cache_def split: option.splits if_splits)+
  then show ?thesis
    using assms(1) unfolding caches_ok_def matching_nodes_cong[OF frame(1,2)] by fastforce
qed

lemma read_cache_ok:
  assumes "caches_ok H h ds" and "ref_for md ref"
  shows "cache_ok H h (matching_nodes h ds md) (read_cache ds ref)"
proof (cases ref)
  case Default_index
  then show ?thesis using assms matching_nodes_empty_rule
    by (auto simp: read_cache_def ref_for_def caches_ok_def split: option.splits)
next
  case (Metadata_index m)
  then have md: "md = Some m" using assms(2) by (simp add: ref_for_def)
  show ?thesis
  proof (cases "find_by metadata_equal m (metadata_index ds)")
    case None
    then show ?thesis using Metadata_index by (simp add: read_cache_def)
  next
    case (Some c)
    then obtain k where "(k, c) \<in> set (metadata_index ds)" "metadata_equal m k"
      by (auto dest: find_by_SomeD)
    then have "cache_ok H h (matching_nodes h ds (Some m)) c"
      using assms(1) matching_nodes_equal_rule[of m k] by (fastforce simp: caches_ok_def)
    then show ?thesis using Some Metadata_index md by (simp add: read_cache_def)
  qed
qed

lemma write_cache_frame [simp]:
  "node_by_id (write_cache ds ref c) = node_by_id ds" "node_by_name (write_cache ds ref c) = node_by_name ds"
  by (simp_all add: write_cache_def split: cache_ref.splits)

lemma write_cache_ok:
  assumes "caches_ok H h ds" and "ref_for md ref" and c: "cache_ok H h (matching_nodes h ds md) c"
  shows "caches_ok H h (write_cache ds ref c)"
proof (cases ref)
  case Default_index
  then show ?thesis using assms matching_nodes_empty_rule
    by (auto simp: write_cache_def ref_for_def caches_ok_def matching_nodes_def split: option.splits)
next
  case (Metadata_index m)
  then have md: "md = Some m" using assms(2) by (simp add: ref_for_def)
  have "cache_ok H h (matching_nodes h ds (Some k)) c'"
    if "(k, c') \<in> set (update_by metadata_equal m c (metadata_index ds))" for k c'
  proof -
    have "(k, c') \<in> set (metadata_index ds) \<or> c' = c \<and> (k = m \<or> metadata_equal m k)"
      using that set_update_by_subset[of metadata_equal m c "metadata_index ds"] by auto
    then show ?thesis
      using assms(1) c md matching_nodes_equal_rule[of m k] by (fastforce simp: caches_ok_def)
  qed
  then show ?thesis using assms(1) Metadata_index
    by (auto simp: write_cache_def caches_ok_def matching_nodes_def)
qed

lemma set_inv_cong:
  assumes "set_inv H h ds" and "node_by_id ds' = node_by_id ds" and "node_by_name ds' = node_by_name ds"
    and "caches_ok H h ds'"
  shows "set_inv H h ds'"
  using assms index_inv_cong by (simp add: set_inv_def index_inv_def)

lemma filled_cache_ok:
  assumes inv: "set_inv H h ds" and f: "filled_cache H h ds md = (ref, c, ds')"
  shows "cache_exact H h (matching_nodes h ds md) c" and "set_inv H h ds'" and "ref_for md ref"
    and "node_by_id ds' = node_by_id ds" and "node_by_name ds' = node_by_name ds"
    and "read_cache ds' ref = c"
proof -
  obtain ds1 where m: "mutable_index_cache ds md = (ref, ds1)"
    and c: "c = (if round_robin_cache (read_cache ds1 ref) = [] then rebuild_cache H h ds1 md (read_cache ds1 ref)
                 else read_cache ds1 ref)"
    and ds': "ds' = write_cache ds1 ref c"
    using f by (auto simp: filled_cache_def Let_def split: prod.splits)
  note frame = mutable_index_cache_frame[OF m]
  have ok1: "caches_ok H h ds1" using mutable_index_cache_ok[OF _ m] inv by (simp add: set_inv_def)
  have mn: "matching_nodes h ds1 md = matching_nodes h ds md" by (rule matching_nodes_cong[OF frame(1,2)])
  have "cache_exact H h (matching_nodes h ds1 md) c"
    using rebuild_cache_exact[OF read_cache_ok[OF ok1 frame(3)]] read_cache_ok[OF ok1 frame(3)] c
    by (auto simp: cache_ok_def cache_cleared_def)
  then show exact: "cache_exact H h (matching_nodes h ds md) c" by (simp add: mn)
  have "caches_ok H h ds'"
    unfolding ds' using ok1 frame(3) exact mn by (intro write_cache_ok) (auto simp: cache_ok_def)
  then show "set_inv H h ds'" using inv frame by (auto intro: set_inv_cong simp: ds')
  show "ref_for md ref" by (rule frame(3))
  show "node_by_id ds' = node_by_id ds" "node_by_name ds' = node_by_name ds" using frame by (simp_all add: ds')
  show "read_cache ds' ref = c"
    by (auto simp: ds' read_cache_def write_cache_def metadata_key.find_update_same[OF metadata_key.eq_refl]
        split: cache_ref.splits)
qed

lemma compact_ring_Nil [simp]: "compact_ring h [] = []"
  by (simp add: compact_ring_def)

lemma rebuild_compact_cache_exact:
  assumes ok: "cache_ok H h (matching_nodes h ds rule) c"
  defines "c' \<equiv> rebuild_compact_cache H h ds rule c"
  shows "cache_exact H h (matching_nodes h ds rule) c' \<and>
    compact_hashing_ring c' = compact_ring h (normal_hashing_ring c')"
proof -
  let ?ps = "matching_nodes h ds rule"
  note r = rebuild_cache_exact[OF ok]
  consider (kept) "compact_hashing_ring c \<noteq> []"
    | (none) "compact_hashing_ring c = []" "node_by_id ds = [] \<and> node_by_name ds = []"
    | (built) "compact_hashing_ring c = []" "\<not> (node_by_id ds = [] \<and> node_by_name ds = [])"
    by blast
  then show ?thesis
  proof cases
    case kept
    then have "c' = c" by (simp add: c'_def rebuild_compact_cache_def)
    with kept ok show ?thesis by (auto simp: cache_ok_def cache_cleared_def cache_exact_def)
  next
    case none
    then have "c' = c" and "?ps = []"
      by (simp_all add: c'_def rebuild_compact_cache_def matching_nodes_def)
    with none ok show ?thesis
      by (auto simp: cache_ok_def cache_cleared_def cache_exact_def)
  next
    case built
    let ?c1 = "rebuild_cache H h ds rule c"
    have "c' = (if normal_hashing_ring ?c1 = [] then ?c1
        else ?c1\<lparr>compact_hashing_ring := compact_ring h (normal_hashing_ring ?c1)\<rparr>)"
      using built by (auto simp: c'_def rebuild_compact_cache_def Let_def)
    with r show ?thesis by (auto simp: cache_exact_def)
  qed
qed

end
