(* ===== verification/Discovery_Cache.thy ===== *)
theory Discovery_Cache
  imports Discovery_Query
begin

text \<open>
  Changes of the discovery set keep its caches sound: \<^verbatim>\<open>add_node\<close> and the three
  \<^verbatim>\<open>remove_node\<close> drop every cache whose content they change. \<^verbatim>\<open>add_node\<close> needs a side
  condition (\<open>rules_see\<close>): a node published without metadata invalidates no rule cache by
  filter, so a rule that also accepts the default metadata would keep a stale cache.
\<close>

section \<open>Entries that a rule does not select\<close>

lemma filter_snd_update:
  assumes "\<not> P node" and "\<forall>q. map_of al k = Some q \<longrightarrow> \<not> P q"
  shows "filter P (map snd (AList.update k node al)) = filter P (map snd al)"
  using assms by (induction al) auto

lemma filter_snd_delete:
  assumes "distinct (map fst al)" and "\<forall>q. map_of al k = Some q \<longrightarrow> \<not> P q"
  shows "filter P (map snd (AList.delete k al)) = filter P (map snd al)"
  using assms
proof (induction al)
  case (Cons e al)
  obtain k' v where e: "e = (k', v)" by (cases e)
  show ?case
  proof (cases "k' = k")
    case True
    then have "AList.delete k al = al" using Cons.prems(1) e by (simp add: delete_id image_iff)
    moreover have "\<not> P v" using Cons.prems(2) e True by simp
    ultimately show ?thesis using e True by (simp add: AList.delete_eq)
  next
    case False
    then have "filter P (map snd (AList.delete k al)) = filter P (map snd al)"
      using Cons e by (intro Cons.IH) auto
    with False e show ?thesis by (simp add: AList.delete_eq)
  qed
qed simp

lemma filter_snd_put_key:
  assumes "\<not> P node" and "\<forall>q. k \<noteq> none \<longrightarrow> map_of al k = Some q \<longrightarrow> q \<noteq> node \<longrightarrow> \<not> P q"
  shows "filter P (map snd (put_key none k node al)) = filter P (map snd al)"
proof (cases "k = none")
  case False
  then show ?thesis using assms filter_snd_update[of P node al k] by (auto simp: put_key_def)
qed (simp add: put_key_def)

lemma filter_snd_erase_stale:
  assumes "distinct (map fst al)" and "\<forall>q. k \<noteq> none \<longrightarrow> map_of al k = Some q \<longrightarrow> q \<noteq> node \<longrightarrow> \<not> P q"
  shows "filter P (map snd (erase_stale none k node al)) = filter P (map snd al)"
  using assms filter_snd_delete[of al k P] by (auto simp: erase_stale_def erase_other_def split: option.splits)

lemma filter_snd_drop_key:
  assumes "distinct (map fst al)" and "\<not> P node"
  shows "filter P (map snd (drop_key none k node al)) = filter P (map snd al)"
  using assms filter_snd_delete[of al k P] by (auto simp: drop_key_def)

section \<open>The pointers handed to the cache invalidation\<close>

lemma replaced_index_lookup:
  assumes "index_inv h ds"
  shows "replaced_by_id h (node_by_id ds) node = Some q \<Longrightarrow> q \<noteq> 0 \<and> q \<noteq> node \<and> map_of (node_by_id ds) (node_id h node) = Some q"
    and "replaced_by_name h (node_by_name ds) node = Some q \<Longrightarrow> q \<noteq> 0 \<and> q \<noteq> node \<and> map_of (node_by_name ds) (node_name h node) = Some q"
  using assms unfolding index_inv_def files_under_def replaced_by_id_def replaced_by_name_def
  by (force split: option.splits if_splits)+

definition cleared_ptrs :: "node_heap \<Rightarrow> discovery_set \<Rightarrow> node_ptr \<Rightarrow> node_ptr list" where
  "cleared_ptrs h ds node =
     (case (replaced_by_id h (node_by_id ds) node, replaced_by_name h (node_by_name ds) node) of
        (None, None) \<Rightarrow> [node, 0, 0]
      | (Some q, None) \<Rightarrow> [q, 0, 0]
      | (None, Some q) \<Rightarrow> [q, 0, 0]
      | (Some q, Some q') \<Rightarrow> [q, q', 0])"

lemma add_node_clear:
  assumes inv: "index_inv h ds" and "node \<noteq> 0"
  shows "\<exists>ds0. add_node h ds node = clear_cache ds0 (di_metadata (node_info (h node))) (cleared_ptrs h ds node) \<and>
     default_index ds0 = default_index ds \<and> metadata_index ds0 = metadata_index ds"
proof -
  obtain ids ins1 on st1 where 1: "add_to_id_index h (node_by_id ds) node = (ids, ins1, on, st1)"
    by (metis prod_cases4)
  obtain names ins2 oi st2 where
    2: "add_to_name_index h (node_by_name ds) node ins1 st1 = (names, ins2, oi, st2)"
    by (metis prod_cases4)
  have "fst st2 = cleared_ptrs h ds node"
    using add_to_id_index_result(4)[OF 1] add_to_name_index_result(5)[OF 2]
      replaced_index_lookup(2)[OF inv]
    by (auto simp: cleared_ptrs_def note_replaced_def split: option.splits)
  then show ?thesis using assms(2) 1 2 by (auto simp: add_node_def)
qed

section \<open>Soundness of the caches after a change\<close>

definition rules_see :: "node_heap \<Rightarrow> discovery_set \<Rightarrow> node_ptr \<Rightarrow> bool" where
  "rules_see h ds node \<longleftrightarrow> di_metadata (node_info (h node)) \<noteq> None \<or>
     list_all (\<lambda>(m, c). \<not> metadata_filter m default_metadata) (metadata_index ds)"

lemma clear_cache_ok:
  assumes some: "\<exists>p \<in> set ptrs. p \<noteq> 0"
    and kept: "\<And>m c. (m, c) \<in> set (metadata_index ds) \<Longrightarrow> \<not> cache_matched ptrs md (m, c) \<Longrightarrow>
      cache_ok H h (matching_nodes h ds (Some m)) c"
  shows "caches_ok H h (clear_cache ds md ptrs)"
proof -
  have "clear_cache ds md ptrs = ds\<lparr>default_index := clear_cache_set (default_index ds),
      metadata_index := filter (\<lambda>e. \<not> cache_matched ptrs md e) (metadata_index ds)\<rparr>"
    using some by (auto simp: clear_cache_def)
  then show ?thesis using kept
    by (auto simp: caches_ok_def matching_nodes_def)
qed

text \<open>A cache that is kept does not select a pointer of an index that is in the cleared list.\<close>

lemma index_inv_filed:
  assumes "index_inv h ds" and "map_of (node_by_id ds) i = Some q \<or> map_of (node_by_name ds) n = Some q"
  shows "q \<noteq> 0" and "node_name h q \<noteq> [] \<Longrightarrow> map_of (node_by_name ds) (node_name h q) = Some q"
    and "node_name h q = [] \<Longrightarrow> map_of (node_by_id ds) (node_id h q) = Some q"
    and "node_id h q \<noteq> 0 \<Longrightarrow> map_of (node_by_id ds) (node_id h q) = Some q"
  using assms by (auto simp: index_inv_def files_under_def)

lemma kept_cache_rejects:
  assumes inv: "index_inv h ds" and ex: "cache_exact H h (matching_nodes h ds (Some m)) c"
    and kept: "\<not> cache_matched ptrs md (m, c)" and q: "q \<in> set ptrs"
    and idx: "map_of (node_by_id ds) i = Some q \<or> map_of (node_by_name ds) n = Some q"
  shows "\<not> rule_accepts h (Some m) q"
proof
  assume acc: "rule_accepts h (Some m) q"
  note f = index_inv_filed[OF inv idx]
  have "q \<in> set (matching_nodes h ds (Some m))"
  proof (cases "node_name h q = []")
    case True
    then have "q \<in> snd ` set (node_by_id ds)" using f(3) by (force dest: map_of_SomeD)
    with True acc show ?thesis by (simp add: matching_nodes_def)
  next
    case False
    then have "q \<in> snd ` set (node_by_name ds)" using f(2) by (force dest: map_of_SomeD)
    with False acc show ?thesis by (simp add: matching_nodes_def)
  qed
  then have "q \<in> set (reference_cache c)" using ex by (simp add: cache_exact_def)
  then show False using kept q f(1) by (auto simp: cache_matched_def)
qed

lemma add_node_matching:
  assumes inv: "index_inv h ds" and node: "node \<noteq> 0"
    and rej: "\<not> rule_accepts h rule node"
    and rej_id: "\<And>q. replaced_by_id h (node_by_id ds) node = Some q \<Longrightarrow> \<not> rule_accepts h rule q"
    and rej_name: "\<And>q. replaced_by_name h (node_by_name ds) node = Some q \<Longrightarrow> \<not> rule_accepts h rule q"
  shows "matching_nodes h (add_node h ds node) rule = matching_nodes h ds rule"
proof -
  have d: "distinct (map fst (node_by_id ds))" "distinct (map fst (node_by_name ds))"
    using inv by (auto simp: index_inv_def)
  have r1: "\<not> rule_accepts h rule q" if "node_id h node \<noteq> 0" "map_of (node_by_id ds) (node_id h node) = Some q" "q \<noteq> node" for q
    using that by (intro rej_id) (simp add: replaced_by_id_def)
  have r2: "\<not> rule_accepts h rule q" if "node_name h node \<noteq> []" "map_of (node_by_name ds) (node_name h node) = Some q" "q \<noteq> node" for q
    using that by (intro rej_name) (simp add: replaced_by_name_def)
  have s1: "\<not> rule_accepts h rule q"
    if st0: "stale_id h ds node \<noteq> 0" and mp: "map_of (put_key 0 (node_id h node) node (node_by_id ds)) (stale_id h ds node) = Some q" for q
  proof -
    obtain q' where q': "replaced_by_name h (node_by_name ds) node = Some q'"
      using st0 by (auto simp: stale_id_def split: option.splits)
    then have st: "stale_id h ds node = node_id h q'" "node_id h q' \<noteq> node_id h node"
      using st0 by (auto simp: stale_id_def split: if_splits)
    have "map_of (node_by_id ds) (node_id h q') = Some q'"
      using index_inv_filed(4)[OF inv] replaced_index_lookup(2)[OF inv q'] st st0 by metis
    then have "q = q'" using mp st by (auto split: if_splits)
    then show ?thesis using rej_name[OF q'] by simp
  qed
  have s2: "\<not> rule_accepts h rule q"
    if st0: "stale_name h ds node \<noteq> []" and mp: "map_of (put_key [] (node_name h node) node (node_by_name ds)) (stale_name h ds node) = Some q" for q
  proof -
    obtain q' where q': "replaced_by_id h (node_by_id ds) node = Some q'"
      using st0 by (auto simp: stale_name_def split: option.splits)
    then have st: "stale_name h ds node = node_name h q'" "node_name h q' \<noteq> node_name h node"
      using st0 by (auto simp: stale_name_def split: if_splits)
    have "map_of (node_by_name ds) (node_name h q') = Some q'"
      using index_inv_filed(2)[OF inv] replaced_index_lookup(1)[OF inv q'] st st0 by metis
    then have "q = q'" using mp st by (auto split: if_splits)
    then show ?thesis using rej_id[OF q'] by simp
  qed
  show ?thesis
    unfolding matching_nodes_def add_node_indexes[OF node] using rej r1 r2 s1 s2 d
    by (simp add: filter_snd_erase_stale filter_snd_put_key distinct_put_key)
qed

lemma add_node_set_inv [invar_rules]:
  assumes inv: "set_inv H h ds" and see: "rules_see h ds node"
  shows "set_inv H h (add_node h ds node)"
proof (cases "node = 0")
  case True
  then show ?thesis using inv by (simp add: add_node_def)
next
  case False
  have ii: "index_inv h ds" and co: "caches_ok H h ds" using inv by (auto simp: set_inv_def)
  let ?ptrs = "cleared_ptrs h ds node" and ?md = "di_metadata (node_info (h node))"
  obtain ds0 where ds0: "add_node h ds node = clear_cache ds0 ?md ?ptrs"
    "metadata_index ds0 = metadata_index ds" using add_node_clear[OF ii False] by blast
  note lk = replaced_index_lookup[OF ii]
  have "caches_ok H h (clear_cache ds0 ?md ?ptrs)"
  proof (rule clear_cache_ok)
    show "\<exists>p \<in> set ?ptrs. p \<noteq> 0"
      using False lk by (auto simp: cleared_ptrs_def split: option.splits)
  next
    fix m c
    assume mc: "(m, c) \<in> set (metadata_index ds0)" and kept: "\<not> cache_matched ?ptrs ?md (m, c)"
    have ok: "cache_ok H h (matching_nodes h ds (Some m)) c"
      using co mc ds0(2) by (auto simp: caches_ok_def)
    have "matching_nodes h (add_node h ds node) (Some m) = matching_nodes h ds (Some m)"
      if ex: "cache_exact H h (matching_nodes h ds (Some m)) c"
    proof (rule add_node_matching[OF ii False])
      show "\<not> rule_accepts h (Some m) node"
        using see kept mc ds0(2)
        by (auto simp: rules_see_def rule_accepts_def di_metadata_or_default_def cache_matched_def
            list_all_iff split: option.splits)
      show "\<And>q. replaced_by_id h (node_by_id ds) node = Some q \<Longrightarrow> \<not> rule_accepts h (Some m) q"
        using lk(1) by (intro kept_cache_rejects[OF ii ex kept]) (auto simp: cleared_ptrs_def split: option.splits)
      show "\<And>q. replaced_by_name h (node_by_name ds) node = Some q \<Longrightarrow> \<not> rule_accepts h (Some m) q"
        using lk(2) by (intro kept_cache_rejects[OF ii ex kept]) (auto simp: cleared_ptrs_def split: option.splits)
    qed
    moreover have "matching_nodes h (add_node h ds node) (Some m) = matching_nodes h ds0 (Some m)"
      unfolding ds0(1) by (rule matching_nodes_cong) simp_all
    ultimately show "cache_ok H h (matching_nodes h ds0 (Some m)) c"
      using ok by (auto simp: cache_ok_def)
  qed
  then show ?thesis using add_node_index_inv[OF ii] by (simp add: set_inv_def ds0(1)[symmetric])
qed

lemma drop_matching:
  assumes "index_inv h ds" and "\<not> rule_accepts h rule p"
    and "node_by_id ds' = drop_key 0 (node_id h p) p (node_by_id ds)"
    and "node_by_name ds' = drop_key [] (node_name h p) p (node_by_name ds)"
  shows "matching_nodes h ds' rule = matching_nodes h ds rule"
  using assms by (simp add: matching_nodes_def filter_snd_drop_key index_inv_def)

text \<open>One lemma for the three removals: the node leaves both indexes and the caches that hold it go.\<close>

lemma drop_set_inv:
  assumes inv: "set_inv H h ds"
    and idx: "map_of (node_by_id ds) i = Some p \<or> map_of (node_by_name ds) n = Some p"
    and ds': "ds' = clear_cache ds0 md [p]" and mi: "metadata_index ds0 = metadata_index ds"
    and ids: "node_by_id ds0 = drop_key 0 (node_id h p) p (node_by_id ds)"
    and nms: "node_by_name ds0 = drop_key [] (node_name h p) p (node_by_name ds)"
  shows "caches_ok H h ds'"
  unfolding ds'
proof (rule clear_cache_ok)
  have ii: "index_inv h ds" and co: "caches_ok H h ds" using inv by (auto simp: set_inv_def)
  show "\<exists>q \<in> set [p]. q \<noteq> 0" using index_inv_filed(1)[OF ii idx] by simp
  fix m c
  assume mc: "(m, c) \<in> set (metadata_index ds0)" and kept: "\<not> cache_matched [p] md (m, c)"
  have ok: "cache_ok H h (matching_nodes h ds (Some m)) c" using co mc mi by (auto simp: caches_ok_def)
  have "matching_nodes h ds0 (Some m) = matching_nodes h ds (Some m)"
    if "cache_exact H h (matching_nodes h ds (Some m)) c"
    using kept_cache_rejects[OF ii that kept _ idx] by (intro drop_matching[OF ii _ ids nms]) simp
  then show "cache_ok H h (matching_nodes h ds0 (Some m)) c" using ok by (auto simp: cache_ok_def)
qed

lemma remove_node_set_inv [invar_rules]:
  assumes inv: "set_inv H h ds"
  shows "set_inv H h (remove_node h ds node)"
proof (cases "node \<noteq> 0 \<and> (map_of (node_by_id ds) (node_id h node) = Some node \<or>
    map_of (node_by_name ds) (node_name h node) = Some node)")
  case True
  have ii: "index_inv h ds" using inv by (simp add: set_inv_def)
  have "node_id h node \<noteq> 0 \<and> map_of (node_by_id ds) (node_id h node) = Some node \<or>
      node_name h node \<noteq> [] \<and> map_of (node_by_name ds) (node_name h node) = Some node"
    using True ii by (auto simp: index_inv_def files_under_def)
  then have eq: "remove_node h ds node = clear_cache
      (ds\<lparr>node_by_name := drop_key [] (node_name h node) node (node_by_name ds),
          node_by_id := drop_key 0 (node_id h node) node (node_by_id ds)\<rparr>)
      (di_metadata (node_info (h node))) [node]"
    using True by (auto simp: remove_node_def drop_key_def Let_def)
  have "caches_ok H h (remove_node h ds node)"
    using True by (intro drop_set_inv[OF inv _ eq]) auto
  then show ?thesis using remove_node_index_inv[OF ii] by (simp add: set_inv_def)
next
  case False
  then have "remove_node h ds node = ds" by (auto simp: remove_node_def Let_def)
  then show ?thesis using inv by simp
qed

lemma clear_cache_then_id:
  "(clear_cache ds md ptrs)\<lparr>node_by_id := ids\<rparr> = clear_cache (ds\<lparr>node_by_id := ids\<rparr>) md ptrs"
  by (auto simp: clear_cache_def)

lemma clear_cache_then_name:
  "(clear_cache ds md ptrs)\<lparr>node_by_name := ns\<rparr> = clear_cache (ds\<lparr>node_by_name := ns\<rparr>) md ptrs"
  by (auto simp: clear_cache_def)

lemma remove_node_by_id_set_inv [invar_rules]:
  assumes inv: "set_inv H h ds"
  shows "set_inv H h (remove_node_by_id h ds i)"
proof (cases "map_of (node_by_id ds) i")
  case None
  then show ?thesis using inv by (simp add: remove_node_by_id_def)
next
  case (Some p)
  have ii: "index_inv h ds" using inv by (simp add: set_inv_def)
  note ix = remove_node_by_id_indexes[OF ii Some]
  obtain ds0 where ds0: "remove_node_by_id h ds i = clear_cache ds0 (di_metadata (node_info (h p))) [p]"
    "metadata_index ds0 = metadata_index ds"
    using Some by (auto simp: remove_node_by_id_def Let_def clear_cache_then_id)
  have "caches_ok H h (remove_node_by_id h ds i)"
    using Some ix ds0 by (intro drop_set_inv[OF inv _ ds0]) auto
  then show ?thesis using remove_node_by_id_index_inv[OF ii] by (simp add: set_inv_def)
qed

lemma remove_node_by_name_set_inv [invar_rules]:
  assumes inv: "set_inv H h ds"
  shows "set_inv H h (remove_node_by_name h ds n)"
proof (cases "map_of (node_by_name ds) n")
  case None
  then show ?thesis using inv by (simp add: remove_node_by_name_def)
next
  case (Some p)
  have ii: "index_inv h ds" using inv by (simp add: set_inv_def)
  note ix = remove_node_by_name_indexes[OF ii Some]
  obtain ds0 where ds0: "remove_node_by_name h ds n = clear_cache ds0 (di_metadata (node_info (h p))) [p]"
    "metadata_index ds0 = metadata_index ds"
    using Some by (auto simp: remove_node_by_name_def Let_def clear_cache_then_name)
  have "caches_ok H h (remove_node_by_name h ds n)"
    using Some ix ds0 by (intro drop_set_inv[OF inv _ ds0]) auto
  then show ?thesis using remove_node_by_name_index_inv[OF ii] by (simp add: set_inv_def)
qed

end
