(* ===== verification/Discovery_Search.thy ===== *)
theory Discovery_Search
  imports Discovery_Cache
begin

text \<open>
  What the queries of the discovery set return: the search loop walks the ring once, starting at
  the lower bound of the key (\<open>ring_search_pick\<close>); the first point found does not move when other
  nodes are removed; repeated round-robin calls rotate through the sorted list.
\<close>

section \<open>The search loop as a selection from the rotated ring\<close>

fun pick :: "(node_hash \<Rightarrow> bool) \<Rightarrow> bool \<Rightarrow> nat \<Rightarrow> node_hash list \<Rightarrow> node_ptr list \<Rightarrow> node_hash list" where
  "pick skip uniq lim [] cache = []"
| "pick skip uniq lim (e # es) cache =
     (if lim = 0 then []
      else if skip e \<or> uniq \<and> nh_node e \<in> set cache then pick skip uniq lim es cache
      else e # pick skip uniq (lim - 1) es (if uniq then nh_node e # cache else cache))"

definition skipped :: "node_heap \<Rightarrow> node_hash \<Rightarrow> bool \<Rightarrow> bool \<Rightarrow> node_hash \<Rightarrow> bool" where
  "skipped h key excl uniq e \<longleftrightarrow> excl \<and> (uniq \<or> nh_hash_code key = nh_hash_code e) \<and>
     node_equal h (nh_node e) (nh_node key)"

lemma pick_0 [simp]: "pick skip uniq 0 es cache = []"
  by (cases es) auto

lemma rotate_step:
  assumes "ring \<noteq> []" and "it \<le> length ring" and "cc < length ring"
  defines "it' \<equiv> (if it = length ring then 0 else it)"
  shows "take (Suc cc) (rotate it ring) = ring ! it' # take cc (rotate (Suc it') ring)"
proof -
  have r: "rotate it ring = rotate it' ring" by (simp add: it'_def)
  have lt: "it' < length ring" using assms by auto
  obtain e es where es: "rotate it' ring = e # es" using assms(1) by (cases "rotate it' ring") auto
  have "e = ring ! it'" using lt es hd_rotate_conv_nth[OF assms(1), of it'] by simp
  moreover have "cc \<le> length es" using es assms(3) length_rotate[of it' ring] by simp
  ultimately show ?thesis using es r by simp
qed

lemma ring_search_pick:
  assumes "ring \<noteq> []" and "it \<le> length ring" and "cc \<le> length ring"
  shows "ring_search h ring key excl uniq osz mx it cc out cache =
    out @ pick (skipped h key excl uniq) uniq (min osz mx - length out) (take cc (rotate it ring)) cache"
  using assms(2,3)
proof (induction cc arbitrary: it out cache)
  case 0
  then show ?case by simp
next
  case (Suc cc)
  let ?it = "if it = length ring then 0 else it"
  let ?e = "ring ! ?it"
  have it: "Suc ?it \<le> length ring" "cc \<le> length ring" using Suc.prems assms(1) by auto
  have vis: "take (Suc cc) (rotate it ring) = ?e # take cc (rotate (Suc ?it) ring)"
    using Suc.prems by (intro rotate_step[OF assms(1)]) auto
  show ?case
  proof (cases "length out < osz \<and> length out < mx")
    case True
    then have lim: "min osz mx - length out \<noteq> 0"
      "min osz mx - length out - 1 = min osz mx - Suc (length out)" by auto
    let ?S = "skipped h key excl uniq"
    consider (skip) "?S ?e" | (dup) "\<not> ?S ?e" "uniq" "nh_node ?e \<in> set cache"
      | (new) "\<not> ?S ?e" "\<not> (uniq \<and> nh_node ?e \<in> set cache)" by blast
    then show ?thesis
    proof cases
      case skip
      then have "ring_search h ring key excl uniq osz mx it (Suc cc) out cache =
          ring_search h ring key excl uniq osz mx (Suc ?it) cc out cache"
        using True unfolding skipped_def ring_search.simps(2) Let_def by (simp del: ring_search.simps)
      then show ?thesis unfolding vis Suc.IH[OF it] using lim skip by simp
    next
      case dup
      then have "ring_search h ring key excl uniq osz mx it (Suc cc) out cache =
          ring_search h ring key excl uniq osz mx (Suc ?it) cc out cache"
        using True unfolding skipped_def ring_search.simps(2) Let_def by (simp del: ring_search.simps)
      then show ?thesis unfolding vis Suc.IH[OF it] using lim dup by simp
    next
      case new
      then have "ring_search h ring key excl uniq osz mx it (Suc cc) out cache =
          ring_search h ring key excl uniq osz mx (Suc ?it) cc (out @ [?e]) (if uniq then nh_node ?e # cache else cache)"
        using True unfolding skipped_def ring_search.simps(2) Let_def by (auto simp del: ring_search.simps)
      then show ?thesis unfolding vis Suc.IH[OF it] using lim new by (auto simp del: ring_search.simps)
    qed
  next
    case False
    then have "min osz mx - length out = 0" by auto
    moreover have "ring_search h ring key excl uniq osz mx it (Suc cc) out cache = out"
      using False by auto
    ultimately show ?thesis by (simp only: pick_0) simp
  qed
qed

lemma pick_no_skip: "\<forall>e \<in> set es. \<not> skip e \<Longrightarrow> pick skip False lim es cache = take lim es"
  by (induction es arbitrary: lim) (auto simp: take_Cons' simp del: take_Cons)

lemma length_pick: "length (pick skip uniq lim es cache) \<le> lim"
  by (induction skip uniq lim es cache rule: pick.induct) auto

lemma set_pick: "set (pick skip uniq lim es cache) \<subseteq> {e \<in> set es. \<not> skip e}"
  by (induction skip uniq lim es cache rule: pick.induct) auto

lemma pick_unique:
  "distinct (map nh_node (pick skip True lim es cache)) \<and>
   nh_node ` set (pick skip True lim es cache) \<inter> set cache = {}"
  by (induction skip True lim es cache rule: pick.induct) auto

text \<open>With room for every node, unique mode reports each node that has a point not skipped.\<close>

lemma pick_complete:
  "card (nh_node ` {e \<in> set es. \<not> skip e} - set cache) \<le> lim \<Longrightarrow>
   nh_node ` set (pick skip True lim es cache) = nh_node ` {e \<in> set es. \<not> skip e} - set cache"
proof (induction es arbitrary: lim cache)
  case Nil
  then show ?case by simp
next
  case (Cons e es)
  let ?N = "\<lambda>xs. nh_node ` {e \<in> set xs. \<not> skip e}"
  have fin: "finite (?N xs - c)" for xs c by simp
  show ?case
  proof (cases "skip e \<or> nh_node e \<in> set cache")
    case True
    then have eq: "?N (e # es) - set cache = ?N es - set cache" by auto
    show ?thesis
    proof (cases "lim = 0")
      case True
      then have "?N (e # es) - set cache = {}" using Cons.prems fin[of "e # es" "set cache"] by (simp only: card_0_eq le_zero_eq)
      then show ?thesis using True by simp
    next
      case False
      have "nh_node ` set (pick skip True lim es cache) = ?N es - set cache"
        using True Cons.prems eq False by (intro Cons.IH) auto
      then show ?thesis using True False eq by simp
    qed
  next
    case False
    then have eq: "?N (e # es) - set cache = insert (nh_node e) (?N es - set (nh_node e # cache))" by auto
    then have card: "card (?N (e # es) - set cache) = Suc (card (?N es - set (nh_node e # cache)))"
      using fin by simp
    then have lim: "lim \<noteq> 0" "card (?N es - set (nh_node e # cache)) \<le> lim - 1" using Cons.prems by auto
    have "nh_node ` set (pick skip True (lim - 1) es (nh_node e # cache)) = ?N es - set (nh_node e # cache)"
      using False lim by (intro Cons.IH) auto
    then show ?thesis using False lim eq by simp
  qed
qed

section \<open>The ring a query searches\<close>

definition ring_of :: "hash_api \<Rightarrow> node_heap \<Rightarrow> node_ptr list \<Rightarrow> bool \<Rightarrow> node_hash list" where
  "ring_of H h ps compact =
     (let ring = std_sort (consistent_hash_compare_index h) (ring_points H h ps)
      in if compact then compact_ring h ring else ring)"

text \<open>The points of the ring from a hash code on, clockwise, each once.\<close>

definition clockwise :: "u64 \<times> u64 \<Rightarrow> node_hash list \<Rightarrow> node_hash list" where
  "clockwise k ring = dropWhile (\<lambda>e. nh_hash_code e < k) ring @ takeWhile (\<lambda>e. nh_hash_code e < k) ring"

abbreviation hash_sorted :: "node_hash list \<Rightarrow> bool" where
  "hash_sorted \<equiv> sorted_wrt (\<lambda>x y. nh_hash_code x \<le> nh_hash_code y)"

lemma hash_sorted_ring: "hash_sorted (std_sort (consistent_hash_compare_index h) es)"
  using ring_order.sorted_std_sort
  by (rule sorted_wrt_mono_rel[rotated]) (auto simp: consistent_hash_key less_prod_simp not_less split: if_splits)

lemma hash_sorted_below: "hash_sorted ring \<Longrightarrow> sorted_wrt (\<lambda>x y. nh_hash_code y < k \<longrightarrow> nh_hash_code x < k) ring"
  by (erule sorted_wrt_mono_rel[rotated]) auto

lemma set_clockwise [simp]: "set (clockwise k ring) = set ring"
  using arg_cong[OF takeWhile_dropWhile_id, of set "\<lambda>e. nh_hash_code e < k" ring]
  unfolding clockwise_def set_append by (simp only: Un_commute)

lemma length_clockwise [simp]: "length (clockwise k ring) = length ring"
  using arg_cong[OF takeWhile_dropWhile_id, of length "\<lambda>e. nh_hash_code e < k" ring]
  unfolding clockwise_def length_append by (simp only: add.commute)

lemma clockwise_eq_Nil [simp]: "clockwise k ring = [] \<longleftrightarrow> ring = []"
  by (metis length_0_conv length_clockwise)

lemma rotate_lower_bound:
  assumes "hash_sorted ring"
  shows "rotate (std_lower_bound consistent_hash_compare_find ring k) ring = clockwise k ring"
proof -
  let ?p = "\<lambda>e. nh_hash_code e < k"
  have "std_lower_bound consistent_hash_compare_find ring k = length (takeWhile ?p ring)"
    unfolding std_lower_bound_def consistent_hash_compare_find_def
    by (rule bsearch_takeWhile[OF partitioned_sorted[OF hash_sorted_below[OF assms]]])
  moreover have "ring = takeWhile ?p ring @ dropWhile ?p ring" by simp
  ultimately show ?thesis unfolding clockwise_def by (metis rotate_append)
qed

section \<open>The compact ring\<close>

text \<open>The last point of every run of points of the same node.\<close>

fun run_ends :: "node_hash list \<Rightarrow> node_hash list" where
  "run_ends [] = []"
| "run_ends [x] = [x]"
| "run_ends (x # y # ys) = (if nh_node x = nh_node y then run_ends (y # ys) else x # run_ends (y # ys))"

lemma run_ends_subset: "set (run_ends xs) \<subseteq> set xs"
  by (induction xs rule: run_ends.induct) auto

lemma run_ends_eq_Nil [simp]: "run_ends xs = [] \<longleftrightarrow> xs = []"
  by (induction xs rule: run_ends.induct) auto

lemma run_ends_hd: "xs \<noteq> [] \<Longrightarrow> nh_node (hd (run_ends xs)) = nh_node (hd xs)"
  by (induction xs rule: run_ends.induct) auto

lemma run_ends_last: "xs \<noteq> [] \<Longrightarrow> last (run_ends xs) = last xs"
  by (induction xs rule: run_ends.induct) auto

lemma run_ends_sorted: "sorted_wrt R xs \<Longrightarrow> sorted_wrt R (run_ends xs)"
  using run_ends_subset by (induction xs rule: run_ends.induct) fastforce+

text \<open>On the nodes of a sound set \<^verbatim>\<open>node_equal\<close> is pointer equality.\<close>

definition node_equal_exact :: "node_heap \<Rightarrow> node_hash list \<Rightarrow> bool" where
  "node_equal_exact h es \<longleftrightarrow>
     (\<forall>x \<in> set es. \<forall>y \<in> set es. node_equal h (nh_node x) (nh_node y) \<longleftrightarrow> nh_node x = nh_node y)"

lemma compact_loop_run_ends:
  "node_equal_exact h (x # xs) \<Longrightarrow>
   compact_loop h x xs acc = (last (x # xs), acc @ butlast (run_ends (x # xs)))"
proof (induction xs arbitrary: x acc)
  case Nil
  then show ?case by simp
next
  case (Cons y ys)
  have "node_equal_exact h (y # ys)" "node_equal h (nh_node y) (nh_node x) \<longleftrightarrow> nh_node x = nh_node y"
    using Cons.prems by (auto simp: node_equal_exact_def)
  then show ?case by (auto simp: Cons.IH)
qed

lemma compact_ring_run_ends:
  assumes "node_equal_exact h ring"
  defines "r \<equiv> run_ends ring"
  shows "compact_ring h ring = (if 2 \<le> length r \<and> nh_node (last r) = nh_node (hd r) then butlast r else r)"
proof (cases ring)
  case Nil
  then show ?thesis by (simp add: r_def)
next
  case (Cons x xs)
  have ne: "r \<noteq> []" and l: "last r = last ring" using Cons by (auto simp: r_def run_ends_last)
  have loop: "compact_loop h x xs [] = (last r, butlast r)"
    using compact_loop_run_ends[of h x xs "[]"] assms(1) Cons l by (simp add: r_def)
  show ?thesis
  proof (cases "butlast r = []")
    case True
    then have "r = [last r]" using ne by (metis append_butlast_last_id append_Nil)
    then have "length r = 1" by (metis length_Cons list.size(3) One_nat_def)
    then show ?thesis using loop Cons True \<open>r = [last r]\<close> by (simp add: compact_ring_def)
  next
    case False
    then have "2 \<le> length r" "hd (butlast r) = hd r"
      by (cases r; cases "tl r"; auto)+
    moreover have "hd r \<in> set ring" "last r \<in> set ring"
      using ne run_ends_subset[of ring] by (auto simp: r_def subset_iff)
    then have "node_equal h (nh_node (last r)) (nh_node (hd r)) \<longleftrightarrow> nh_node (last r) = nh_node (hd r)"
      using assms(1) by (simp add: node_equal_exact_def)
    ultimately show ?thesis using loop Cons False ne by (auto simp: compact_ring_def)
  qed
qed

lemma run_ends_dropWhile:
  assumes "sorted_wrt (\<lambda>x y. p y \<longrightarrow> p x) xs" and "dropWhile p xs \<noteq> []"
  shows "dropWhile p (run_ends xs) \<noteq> [] \<and>
    nh_node (hd (dropWhile p (run_ends xs))) = nh_node (hd (dropWhile p xs))"
  using assms
proof (induction xs rule: run_ends.induct)
  case (3 x y ys)
  show ?case
  proof (cases "p x")
    case True
    then show ?thesis using "3.IH" "3.prems" by auto
  next
    case False
    then have none: "\<not> p z" if "z \<in> set (x # y # ys)" for z using "3.prems"(1) that by auto
    then have "dropWhile p (run_ends (x # y # ys)) = run_ends (x # y # ys)"
      using run_ends_subset[of "x # y # ys"] by (metis hd_dropWhile hd_in_set subsetD dropWhile_eq_self_iff)
    then show ?thesis using False run_ends_hd[of "x # y # ys"] by (auto simp del: run_ends.simps)
  qed
qed auto

lemma dropWhile_snoc:
  "dropWhile p (xs @ [x]) = (if dropWhile p xs = [] then dropWhile p [x] else dropWhile p xs @ [x])"
  by (induction xs) auto

lemma hd_clockwise:
  "ring \<noteq> [] \<Longrightarrow> hd (clockwise k ring) =
     (let after = dropWhile (\<lambda>e. nh_hash_code e < k) ring in if after = [] then hd ring else hd after)"
  by (cases ring) (auto simp: clockwise_def Let_def)

lemma compact_ring_same_node:
  assumes ex: "node_equal_exact h ring" and sorted: "hash_sorted ring" and ne: "ring \<noteq> []"
  shows "compact_ring h ring \<noteq> [] \<and>
    nh_node (hd (clockwise k (compact_ring h ring))) = nh_node (hd (clockwise k ring))"
proof -
  let ?p = "\<lambda>e. nh_hash_code e < k" and ?r = "run_ends ring"
  have rne: "?r \<noteq> []" using ne by simp
  have r: "nh_node (hd (clockwise k ?r)) = nh_node (hd (clockwise k ring))"
  proof (cases "dropWhile ?p ring = []")
    case True
    then have "dropWhile ?p ?r = []" using run_ends_subset[of ring] by (auto simp: dropWhile_eq_Nil_conv)
    with True show ?thesis using ne run_ends_hd by (simp add: hd_clockwise)
  next
    case False
    then show ?thesis using run_ends_dropWhile[OF hash_sorted_below[OF sorted] False] ne
      by (simp add: hd_clockwise del: dropWhile_eq_Nil_conv)
  qed
  have b: "butlast ?r \<noteq> [] \<and> nh_node (hd (clockwise k (butlast ?r))) = nh_node (hd (clockwise k ?r))"
    if two: "2 \<le> length ?r" and wrap: "nh_node (last ?r) = nh_node (hd ?r)"
  proof -
    have ne2: "butlast ?r \<noteq> []" and hd2: "hd (butlast ?r) = hd ?r"
      using two by (cases ?r; cases "tl ?r"; auto)+
    have split: "dropWhile ?p ?r = (if dropWhile ?p (butlast ?r) = [] then dropWhile ?p [last ?r]
        else dropWhile ?p (butlast ?r) @ [last ?r])"
      using dropWhile_snoc[of ?p "butlast ?r" "last ?r"] by (simp only: append_butlast_last_id[OF rne])
    show ?thesis
      using ne2 hd2 wrap rne split by (simp add: hd_clockwise Let_def del: dropWhile_eq_Nil_conv)
  qed
  show ?thesis unfolding compact_ring_run_ends[OF ex] using rne r b by auto
qed

lemma run_ends_nodes: "nh_node ` set (run_ends xs) = nh_node ` set xs"
  by (induction xs rule: run_ends.induct) auto

lemma compact_ring_nodes:
  assumes "node_equal_exact h ring"
  shows "nh_node ` set (compact_ring h ring) = nh_node ` set ring"
proof (cases "2 \<le> length (run_ends ring) \<and> nh_node (last (run_ends ring)) = nh_node (hd (run_ends ring))")
  case True
  then obtain xs y where r: "run_ends ring = xs @ [y]" "xs \<noteq> []"
    by (cases "run_ends ring" rule: rev_cases) (auto simp: Suc_le_eq)
  then have "nh_node y \<in> nh_node ` set xs" using True by (cases xs) auto
  then have "nh_node ` set xs = nh_node ` set (run_ends ring)" using r by auto
  moreover have "compact_ring h ring = xs" using True r by (simp add: compact_ring_run_ends[OF assms])
  ultimately show ?thesis by (simp add: run_ends_nodes)
next
  case False
  then show ?thesis by (auto simp: compact_ring_run_ends[OF assms] run_ends_nodes)
qed

lemma compact_ring_sorted:
  "node_equal_exact h ring \<Longrightarrow> sorted_wrt R ring \<Longrightarrow> sorted_wrt R (compact_ring h ring)"
  using run_ends_sorted[of R ring] by (auto simp: compact_ring_run_ends butlast_conv_take sorted_wrt_take)

text \<open>Neighbours on the compact ring are points of different nodes, around the end as well.\<close>

lemma run_ends_adjacent: "Suc i < length (run_ends xs) \<Longrightarrow> nh_node (run_ends xs ! i) \<noteq> nh_node (run_ends xs ! Suc i)"
proof (induction xs arbitrary: i rule: run_ends.induct)
  case (3 x y ys)
  show ?case
  proof (cases "nh_node x = nh_node y")
    case True
    then show ?thesis using 3 by simp
  next
    case False
    then show ?thesis using 3 run_ends_hd[of "y # ys"] hd_conv_nth[of "run_ends (y # ys)"]
      by (cases i) auto
  qed
qed auto

lemma compact_ring_adjacent:
  assumes "node_equal_exact h ring" and "Suc i < length (compact_ring h ring)"
  shows "nh_node (compact_ring h ring ! i) \<noteq> nh_node (compact_ring h ring ! Suc i)"
  using assms(2) run_ends_adjacent[of i ring]
  by (auto simp: compact_ring_run_ends[OF assms(1)] nth_butlast split: if_splits)

end
