(* ===== verification/Discovery_Properties.thy ===== *)
theory Discovery_Properties
  imports Discovery_Search
begin

text \<open>
  The service-discovery set as its users see it: what a sequence of changes leaves behind, and
  what every query returns, stated over the nodes that are filed in the two indexes.
\<close>

section \<open>The nodes a rule selects\<close>

definition filed_nodes :: "discovery_set \<Rightarrow> node_ptr set" where
  "filed_nodes ds = snd ` set (node_by_id ds) \<union> snd ` set (node_by_name ds)"

lemma filed_nodes_map_of:
  assumes "index_inv h ds"
  shows "p \<in> filed_nodes ds \<longleftrightarrow>
    (\<exists>i. map_of (node_by_id ds) i = Some p) \<or> (\<exists>n. map_of (node_by_name ds) n = Some p)"
  using assms by (force simp: filed_nodes_def index_inv_def in_set_map_of[symmetric])

lemma filed_node_keys:
  assumes inv: "index_inv h ds" and p: "p \<in> filed_nodes ds"
  shows "p \<noteq> 0"
    and "node_id h p \<noteq> 0 \<Longrightarrow> map_of (node_by_id ds) (node_id h p) = Some p"
    and "node_name h p \<noteq> [] \<Longrightarrow> map_of (node_by_name ds) (node_name h p) = Some p"
    and "node_name h p = [] \<Longrightarrow> node_id h p \<noteq> 0"
  using inv p unfolding filed_nodes_map_of[OF inv] by (auto simp: index_inv_def files_under_def)

lemma set_matching_nodes:
  assumes inv: "index_inv h ds"
  shows "set (matching_nodes h ds rule) = {p \<in> filed_nodes ds. rule_accepts h rule p}"
proof (rule set_eqI, rule iffI)
  fix p
  assume "p \<in> set (matching_nodes h ds rule)"
  then show "p \<in> {p \<in> filed_nodes ds. rule_accepts h rule p}"
    by (auto simp: matching_nodes_def filed_nodes_def)
next
  fix p
  assume p: "p \<in> {p \<in> filed_nodes ds. rule_accepts h rule p}"
  then have "node_name h p \<noteq> [] \<Longrightarrow> p \<in> snd ` set (node_by_name ds)"
    and "node_name h p = [] \<Longrightarrow> p \<in> snd ` set (node_by_id ds)"
    using filed_node_keys(2-4)[OF inv, of p] by (force dest: map_of_SomeD)+
  with p show "p \<in> set (matching_nodes h ds rule)" by (auto simp: matching_nodes_def)
qed

lemma distinct_snd_keys:
  assumes "distinct (map fst al)" and "\<And>k p. (k, p) \<in> set al \<Longrightarrow> key p = k"
  shows "distinct (map snd al)"
  using assms
proof (induction al)
  case (Cons e al)
  then have "distinct (map snd al)" by auto
  moreover have "snd e \<notin> snd ` set al"
  proof
    assume "snd e \<in> snd ` set al"
    then obtain k where "(k, snd e) \<in> set al" by auto
    then have "fst e = k" using Cons.prems(2)[of k "snd e"] Cons.prems(2)[of "fst e" "snd e"] by (cases e) auto
    then show False using Cons.prems(1) \<open>(k, snd e) \<in> set al\<close> by (cases e) force
  qed
  ultimately show ?case by simp
qed simp

lemma index_entry_keys:
  assumes "index_inv h ds"
  shows "(i, p) \<in> set (node_by_id ds) \<Longrightarrow> node_id h p = i"
    and "(n, p) \<in> set (node_by_name ds) \<Longrightarrow> node_name h p = n"
proof -
  have f: "files_under (node_id h) 0 (node_name h) [] (node_by_id ds) (node_by_name ds)"
    "files_under (node_name h) [] (node_id h) 0 (node_by_name ds) (node_by_id ds)"
    and d: "distinct (map fst (node_by_id ds))" "distinct (map fst (node_by_name ds))"
    using assms unfolding index_inv_def by blast+
  show "(i, p) \<in> set (node_by_id ds) \<Longrightarrow> node_id h p = i"
    using f(1) unfolding files_under_def in_set_map_of[OF d(1)] by blast
  show "(n, p) \<in> set (node_by_name ds) \<Longrightarrow> node_name h p = n"
    using f(2) unfolding files_under_def in_set_map_of[OF d(2)] by blast
qed

lemma distinct_matching_nodes:
  assumes "index_inv h ds"
  shows "distinct (matching_nodes h ds rule)"
proof -
  have d: "distinct (map fst (node_by_id ds))" "distinct (map fst (node_by_name ds))"
    using assms unfolding index_inv_def by blast+
  have "distinct (map snd (node_by_id ds))"
    by (rule distinct_snd_keys[OF d(1) index_entry_keys(1)[OF assms]])
  moreover have "distinct (map snd (node_by_name ds))"
    by (rule distinct_snd_keys[OF d(2) index_entry_keys(2)[OF assms]])
  ultimately show ?thesis by (auto simp: matching_nodes_def)
qed

text \<open>No two filed nodes are \<^verbatim>\<open>node_equal\<close>.\<close>

lemma filed_node_equal:
  assumes inv: "index_inv h ds" and p: "p \<in> filed_nodes ds" and q: "q \<in> filed_nodes ds"
  shows "node_equal h p q \<longleftrightarrow> p = q"
proof
  assume eq: "node_equal h p q"
  note kp = filed_node_keys[OF inv p] and kq = filed_node_keys[OF inv q]
  show "p = q"
  proof (cases "node_id h p \<noteq> 0 \<and> node_id h q \<noteq> 0")
    case True
    then have "p = q \<or> node_id h p = node_id h q" using eq kp(1) kq(1) by (auto simp: node_equal_def split: if_splits)
    then show ?thesis
    proof
      assume same: "node_id h p = node_id h q"
      show ?thesis using kp(2)[OF conjunct1[OF True], unfolded same] kq(2)[OF conjunct2[OF True]] by simp
    qed
  next
    case False
    then have "p = q \<or> node_name h p = node_name h q" using eq kp(1) kq(1) by (auto simp: node_equal_def split: if_splits)
    then show ?thesis
    proof
      assume same: "node_name h p = node_name h q"
      have ne: "node_name h p \<noteq> []" using False kp(4) kq(4) same by metis
      show ?thesis using kp(3)[OF ne, unfolded same] kq(3)[OF ne[unfolded same]] by simp
    qed
  qed
qed (simp add: node_equal_def)

lemma nodes_ring_points: "nh_node ` set (ring_points H h ps) = set ps"
proof -
  have "\<exists>i. i < HASH_POINT_PER_INS" by (rule exI[of _ 0]) (simp add: HASH_POINT_PER_INS_def)
  then show ?thesis by (auto simp: ring_points_def hash_points_def image_iff)
qed

lemma length_ring_points: "length (ring_points H h ps) = HASH_POINT_PER_INS * length ps"
  by (induction ps) (auto simp: ring_points_def hash_points_def)

lemma node_equal_exact_ring:
  assumes inv: "index_inv h ds"
  shows "node_equal_exact h (std_sort lt (ring_points H h (matching_nodes h ds rule)))"
proof -
  have "nh_node e \<in> filed_nodes ds" if "e \<in> set (ring_points H h (matching_nodes h ds rule))" for e
    using that nodes_ring_points[of H h "matching_nodes h ds rule"] set_matching_nodes[OF inv, of rule] by auto
  then show ?thesis by (simp add: node_equal_exact_def filed_node_equal[OF inv])
qed

lemma ring_of_matching:
  fixes H md
  assumes inv: "index_inv h ds"
  defines "ring \<equiv> ring_of H h (matching_nodes h ds md)"
  shows "nh_node ` set (ring compact) = set (matching_nodes h ds md)" and "hash_sorted (ring compact)"
proof -
  let ?r = "std_sort (consistent_hash_compare_index h) (ring_points H h (matching_nodes h ds md))"
  note ex = node_equal_exact_ring[OF inv, of "consistent_hash_compare_index h" H md]
  have nodes: "nh_node ` set ?r = set (matching_nodes h ds md)" by (simp add: nodes_ring_points)
  show "nh_node ` set (ring compact) = set (matching_nodes h ds md)"
    using compact_ring_nodes[OF ex] nodes by (simp add: ring_def ring_of_def Let_def)
  show "hash_sorted (ring compact)"
    using hash_sorted_ring compact_ring_sorted[OF ex] by (simp add: ring_def ring_of_def Let_def)
qed

section \<open>What a search returns\<close>

lemma search_cache:
  fixes compact
  assumes inv: "set_inv H h ds" and m: "mutable_index_cache ds md = (ref, ds1)"
  defines "c0 \<equiv> read_cache ds1 ref"
  defines "c1 \<equiv> (if compact
      then (if compact_hashing_ring c0 = [] then rebuild_compact_cache H h ds1 md c0 else c0)
      else (if normal_hashing_ring c0 = [] then rebuild_cache H h ds1 md c0 else c0))"
  shows "cache_exact H h (matching_nodes h ds md) c1"
    and "(if compact then compact_hashing_ring c1 else normal_hashing_ring c1) =
      ring_of H h (matching_nodes h ds md) compact"
    and "set_inv H h (write_cache ds1 ref c1)"
proof -
  note frame = mutable_index_cache_frame[OF m]
  have ok1: "caches_ok H h ds1" using mutable_index_cache_ok[OF _ m] inv by (simp add: set_inv_def)
  have mn: "matching_nodes h ds1 md = matching_nodes h ds md" by (rule matching_nodes_cong[OF frame(1,2)])
  have ok0: "cache_ok H h (matching_nodes h ds1 md) c0" unfolding c0_def by (rule read_cache_ok[OF ok1 frame(3)])
  show exact: "cache_exact H h (matching_nodes h ds md) c1"
    using ok0 rebuild_cache_exact[OF ok0] rebuild_compact_cache_exact[OF ok0]
    by (auto simp: c1_def mn cache_ok_def cache_cleared_def)
  have "compact \<Longrightarrow> compact_hashing_ring c1 = compact_ring h (normal_hashing_ring c1)"
    using ok0 rebuild_compact_cache_exact[OF ok0]
    by (auto simp: c1_def mn cache_ok_def cache_cleared_def cache_exact_def)
  then show "(if compact then compact_hashing_ring c1 else normal_hashing_ring c1) =
      ring_of H h (matching_nodes h ds md) compact"
    using exact by (simp add: ring_of_def cache_exact_def Let_def)
  have "caches_ok H h (write_cache ds1 ref c1)"
    using exact mn by (intro write_cache_ok[OF ok1 frame(3)]) (simp add: cache_ok_def)
  then show "set_inv H h (write_cache ds1 ref c1)" using inv frame by (auto intro: set_inv_cong)
qed

lemma search_result:
  fixes md
  assumes inv: "set_inv H h ds"
    and call: "lower_bound_node_hash_by_consistent_hash H h ds osz key md mode = (out, ds')"
  defines "ring \<equiv> ring_of H h (matching_nodes h ds md) (flag_compact mode)"
  shows "out = pick (skipped h key (flag_next mode) (flag_unique mode)) (flag_unique mode)
      (min osz (if flag_unique mode then length (matching_nodes h ds md) else length ring))
      (clockwise (nh_hash_code key) ring) []"
    and "set_inv H h ds'" and "node_by_id ds' = node_by_id ds" and "node_by_name ds' = node_by_name ds"
proof -
  obtain ref ds1 where m: "mutable_index_cache ds md = (ref, ds1)" by (cases "mutable_index_cache ds md")
  note frame = mutable_index_cache_frame[OF m]
  let ?c0 = "read_cache ds1 ref"
  define c1 where "c1 = (if flag_compact mode
      then (if compact_hashing_ring ?c0 = [] then rebuild_compact_cache H h ds1 md ?c0 else ?c0)
      else (if normal_hashing_ring ?c0 = [] then rebuild_cache H h ds1 md ?c0 else ?c0))"
  note sc = search_cache[OF inv m, of "flag_compact mode", folded c1_def ring_def]
  have len: "length (round_robin_cache c1) = length (matching_nodes h ds md)"
    using sc(1) by (simp add: cache_exact_def)
  let ?mx = "if flag_unique mode then length (matching_nodes h ds md) else length ring"
  have sorted: "hash_sorted ring" using inv by (simp add: ring_def ring_of_matching(2) set_inv_def)
  have search: "ring_search h ring key (flag_next mode) (flag_unique mode) osz ?mx
      (std_lower_bound consistent_hash_compare_find ring (nh_hash_code key)) (length ring) [] [] =
      pick (skipped h key (flag_next mode) (flag_unique mode)) (flag_unique mode) (min osz ?mx)
        (clockwise (nh_hash_code key) ring) []" if "ring \<noteq> []"
    using bsearch_bounds[of 0 _ ring "length ring"]
    by (subst ring_search_pick[OF that]) (simp_all add: std_lower_bound_def rotate_lower_bound[OF sorted, symmetric])
  have eq: "(out, ds') = (if osz = 0 then ([], ds)
      else if ring = [] then ([], write_cache ds1 ref c1)
      else (ring_search h ring key (flag_next mode) (flag_unique mode) osz ?mx
        (std_lower_bound consistent_hash_compare_find ring (nh_hash_code key)) (length ring) [] [],
        write_cache ds1 ref c1))"
    unfolding call[symmetric] lower_bound_node_hash_by_consistent_hash_def Let_def m prod.case
      c1_def[symmetric] sc(2) len by (rule refl)
  then show "out = pick (skipped h key (flag_next mode) (flag_unique mode)) (flag_unique mode) (min osz ?mx)
      (clockwise (nh_hash_code key) ring) []"
    using search by (auto simp: clockwise_def split: if_splits)
  have "ds' = (if osz = 0 then ds else write_cache ds1 ref c1)"
    using eq by (auto split: if_splits)
  then show "set_inv H h ds'" "node_by_id ds' = node_by_id ds" "node_by_name ds' = node_by_name ds"
    using inv sc(3) frame by auto
qed

section \<open>Removing a node\<close>

lemma snd_drop_key:
  assumes d: "distinct (map fst al)" and key: "\<And>k q. (k, q) \<in> set al \<Longrightarrow> k \<noteq> none \<and> key q = k"
  shows "map snd (drop_key none (key p) p al) = filter (\<lambda>q. q \<noteq> p) (map snd al)"
proof (cases "key p \<noteq> none \<and> map_of al (key p) = Some p")
  case True
  have "filter (\<lambda>q. q \<noteq> p) (map snd (AList.delete (key p) al)) = filter (\<lambda>q. q \<noteq> p) (map snd al)"
    using True by (intro filter_snd_delete[OF d]) simp
  moreover have "\<forall>e \<in> set (AList.delete (key p) al). snd e \<noteq> p"
    using key by (fastforce simp: AList.delete_eq)
  then have "filter (\<lambda>q. q \<noteq> p) (map snd (AList.delete (key p) al)) = map snd (AList.delete (key p) al)"
    by (intro filter_True) auto
  ultimately show ?thesis using True by (simp add: drop_key_def)
next
  case False
  have "\<forall>e \<in> set al. snd e \<noteq> p"
    using key False by (fastforce simp: in_set_map_of[OF d])
  then have "filter (\<lambda>q. q \<noteq> p) (map snd al) = map snd al" by (intro filter_True) auto
  then show ?thesis using False by (auto simp: drop_key_def)
qed

lemma remove_node_matching:
  assumes inv: "index_inv h ds" and "p \<noteq> 0"
  shows "matching_nodes h (remove_node h ds p) rule = filter (\<lambda>q. q \<noteq> p) (matching_nodes h ds rule)"
proof -
  have d: "distinct (map fst (node_by_id ds))" "distinct (map fst (node_by_name ds))"
    and f: "files_under (node_id h) 0 (node_name h) [] (node_by_id ds) (node_by_name ds)"
      "files_under (node_name h) [] (node_id h) 0 (node_by_name ds) (node_by_id ds)"
    using inv unfolding index_inv_def by blast+
  have "map snd (drop_key 0 (node_id h p) p (node_by_id ds)) = filter (\<lambda>q. q \<noteq> p) (map snd (node_by_id ds))"
    using f(1) by (intro snd_drop_key[where key = "node_id h", OF d(1)])
      (simp add: files_under_def in_set_map_of[OF d(1)])
  moreover have "map snd (drop_key [] (node_name h p) p (node_by_name ds)) = filter (\<lambda>q. q \<noteq> p) (map snd (node_by_name ds))"
    using f(2) by (intro snd_drop_key[where key = "node_name h", OF d(2)])
      (simp add: files_under_def in_set_map_of[OF d(2)])
  ultimately show ?thesis
    unfolding matching_nodes_def remove_node_indexes[OF assms(2)]
    by (simp add: conj_commute)
qed

lemma ring_points_filter:
  "ring_points H h (filter (\<lambda>q. q \<noteq> p) ps) = filter (\<lambda>e. nh_node e \<noteq> p) (ring_points H h ps)"
proof (induction ps)
  case (Cons a ps)
  have "filter (\<lambda>e. nh_node e \<noteq> p) (hash_points H k a) = (if a = p then [] else hash_points H k a)" for k
    by (auto simp: hash_points_def filter_map comp_def)
  with Cons show ?case by (simp add: ring_points_def)
qed (simp add: ring_points_def)

lemma clockwise_filter:
  assumes "hash_sorted ring"
  shows "clockwise k (filter P ring) = filter P (clockwise k ring)"
  using partitioned_filter[OF hash_sorted_below[OF assms, of k], of P] by (simp add: clockwise_def)

text \<open>Without \<^verbatim>\<open>kNext\<close> and \<^verbatim>\<open>kUnique\<close> the search copies the points clockwise.\<close>

lemma plain_search:
  assumes inv: "set_inv H h ds" and "\<not> flag_unique mode" "\<not> flag_next mode"
  shows "fst (lower_bound_node_hash_by_consistent_hash H h ds osz key md mode) =
    take osz (clockwise (nh_hash_code key) (ring_of H h (matching_nodes h ds md) (flag_compact mode)))"
proof -
  obtain out ds' where call: "lower_bound_node_hash_by_consistent_hash H h ds osz key md mode = (out, ds')"
    by (cases "lower_bound_node_hash_by_consistent_hash H h ds osz key md mode")
  have "skipped h key False False = (\<lambda>e. False)" by (simp add: skipped_def fun_eq_iff)
  then have "out = take (min osz (length (ring_of H h (matching_nodes h ds md) (flag_compact mode))))
      (clockwise (nh_hash_code key) (ring_of H h (matching_nodes h ds md) (flag_compact mode)))"
    using search_result(1)[OF inv call] assms(2,3) by (simp add: pick_no_skip)
  then show ?thesis using call by (simp add: min_def)
qed

lemmas mode_flags = flag_compact_def flag_unique_def flag_next_def

lemma search_set_inv [invar_rules]:
  "set_inv H h ds \<Longrightarrow> set_inv H h (snd (lower_bound_node_hash_by_consistent_hash H h ds osz key md mode))"
  by (cases "lower_bound_node_hash_by_consistent_hash H h ds osz key md mode") (auto dest: search_result(2))

text \<open>The node responsible for a key.\<close>

definition responsible :: "hash_api \<Rightarrow> node_heap \<Rightarrow> node_ptr list \<Rightarrow> u64 \<times> u64 \<Rightarrow> node_ptr" where
  "responsible H h ps k =
     (if ps = [] then 0 else nh_node (hd (clockwise k (ring_of H h ps False))))"

lemma take_1_hd: "take (Suc 0) xs = (if xs = [] then [] else [hd xs])"
  by (cases xs) auto

lemma ring_of_Nil [simp]: "ring_of H h ps False = [] \<longleftrightarrow> ps = []"
  by (simp add: ring_of_def Let_def)

lemma lookup_first:
  assumes inv: "set_inv H h ds"
  shows "fst (get_node_by_consistent_hash H h ds buf md) =
    responsible H h (matching_nodes h ds md) (consistent_hash_calc H buf (hash_magic_number H))"
proof -
  let ?k = "consistent_hash_calc H buf (hash_magic_number H)"
  let ?pts = "clockwise ?k (ring_of H h (matching_nodes h ds md) False)"
  have "fst (lower_bound_node_hash_by_consistent_hash H h ds 1 \<lparr>nh_node = 0, nh_hash_code = ?k\<rparr> md kAll) =
      (if ?pts = [] then [] else [hd ?pts])"
    using plain_search[OF inv, of kAll 1 "\<lparr>nh_node = 0, nh_hash_code = ?k\<rparr>" md]
    by (simp add: mode_flags take_1_hd del: take_0 clockwise_eq_Nil)
  then show ?thesis
    by (auto simp: get_node_by_consistent_hash_def get_node_hash_by_consistent_hash_def responsible_def
        Let_def split: prod.splits)
qed

lemma responsible_in: "ps \<noteq> [] \<Longrightarrow> responsible H h ps k \<in> set ps"
proof -
  assume ne: "ps \<noteq> []"
  let ?r = "ring_of H h ps False"
  have "hd (clockwise k ?r) \<in> set (clockwise k ?r)" using ne by (intro hd_in_set) simp
  then have "nh_node (hd (clockwise k ?r)) \<in> nh_node ` set (ring_points H h ps)"
    by (simp add: ring_of_def Let_def)
  then show ?thesis using ne by (simp add: responsible_def nodes_ring_points)
qed

lemma responsible_filter:
  assumes "responsible H h ps k = p" "p \<noteq> q" "ps \<noteq> []"
  shows "responsible H h (filter (\<lambda>r. r \<noteq> q) ps) k = p"
proof -
  let ?r = "ring_of H h ps False" and ?P = "\<lambda>e. nh_node e \<noteq> q"
  have "ring_of H h (filter (\<lambda>r. r \<noteq> q) ps) False = filter ?P ?r"
    by (simp add: ring_of_def ring_points_filter ring_order.filter_std_sort)
  moreover have "hash_sorted ?r" by (simp add: ring_of_def hash_sorted_ring Let_def)
  ultimately have c: "clockwise k (ring_of H h (filter (\<lambda>r. r \<noteq> q) ps) False) = filter ?P (clockwise k ?r)"
    by (simp add: clockwise_filter)
  have "p \<in> set (filter (\<lambda>r. r \<noteq> q) ps)" using responsible_in[OF assms(3), of H h k] assms(1,2) by auto
  then have ne: "filter (\<lambda>r. r \<noteq> q) ps \<noteq> []" by (metis empty_iff empty_set)
  obtain e es where e: "clockwise k ?r = e # es" using assms(3) by (cases "clockwise k ?r") auto
  then show ?thesis using assms ne c by (simp add: responsible_def)
qed

section \<open>Round robin\<close>

lemma filled_cache_settled:
  assumes inv: "set_inv H h ds" and f: "filled_cache H h ds md = (ref, c, ds')" and "ref_for md ref"
    and c': "round_robin_cache c' \<noteq> []"
  shows "filled_cache H h (write_cache ds' ref c') md = (ref, c', write_cache ds' ref c')"
proof -
  let ?ds = "write_cache ds' ref c'"
  obtain ds1 where m: "mutable_index_cache ds md = (ref, ds1)"
    using f by (auto simp: filled_cache_def Let_def split: prod.splits)
  have read: "read_cache ?ds ref = c'"
    by (auto simp: read_cache_def write_cache_def metadata_key.find_update_same[OF metadata_key.eq_refl]
        split: cache_ref.splits)
  have again: "mutable_index_cache ?ds md = (ref, ?ds)"
  proof (cases ref)
    case Default_index
    then show ?thesis using assms(3)
      by (auto simp: mutable_index_cache_def get_index_cache_def ref_for_def split: option.splits)
  next
    case (Metadata_index x)
    then have md: "md = Some x" using assms(3) by (simp add: ref_for_def)
    moreover have "\<not> metadata_is_empty x"
      using m md Metadata_index by (auto simp: mutable_index_cache_def get_index_cache_def split: if_splits option.splits)
    ultimately show ?thesis using Metadata_index
      by (simp add: mutable_index_cache_def get_index_cache_def write_cache_def
          metadata_key.find_update_same[OF metadata_key.eq_refl])
  qed
  have "write_cache ?ds ref c' = ?ds"
    by (auto simp: write_cache_def update_by_same metadata_key.find_update_same[OF metadata_key.eq_refl]
        split: cache_ref.splits)
  then show ?thesis using again read c' by (simp add: filled_cache_def)
qed

lemma write_cursor_set_inv:
  assumes "set_inv H h ds" and f: "filled_cache H h ds md = (ref, c, ds')"
  shows "set_inv H h (write_cache ds' ref (c\<lparr>round_robin_index := i\<rparr>))"
proof (rule set_inv_cong)
  note ok = filled_cache_ok[OF assms]
  show "set_inv H h ds'" by (rule ok(2))
  show "caches_ok H h (write_cache ds' ref (c\<lparr>round_robin_index := i\<rparr>))"
    using ok(1-3) matching_nodes_cong[OF ok(4,5), of h md]
    by (intro write_cache_ok[where md = md]) (auto simp: set_inv_def cache_ok_def cache_exact_def)
qed simp_all

text \<open>The nodes that consecutive calls return.\<close>

fun round_robin_calls ::
  "nat \<Rightarrow> hash_api \<Rightarrow> node_heap \<Rightarrow> discovery_set \<Rightarrow> atapp_metadata option \<Rightarrow> node_ptr list" where
  "round_robin_calls 0 H h ds md = []"
| "round_robin_calls (Suc k) H h ds md =
     (let (p, ds') = get_node_by_round_robin H h ds md in p # round_robin_calls k H h ds' md)"

lemma round_robin_calls_nth:
  assumes inv: "set_inv H h ds" and ne: "matching_nodes h ds md \<noteq> []"
    and f: "filled_cache H h ds md = (ref, c, ds')" and j: "j < k"
  shows "round_robin_calls k H h ds md ! j =
    round_robin_cache c ! ((round_robin_index c + j) mod length (round_robin_cache c))"
  using assms
proof (induction k arbitrary: ds c ds' j)
  case 0
  then show ?case by simp
next
  case (Suc k)
  note ok = filled_cache_ok[OF Suc.prems(1,3)]
  let ?n = "length (round_robin_cache c)"
  define i where "i = (if round_robin_index c \<ge> ?n then round_robin_index c mod ?n else round_robin_index c)"
  let ?c = "c\<lparr>round_robin_index := i + 1\<rparr>" and ?ds = "write_cache ds' ref (c\<lparr>round_robin_index := i + 1\<rparr>)"
  have n0: "round_robin_cache c \<noteq> []" using ok(1) Suc.prems(2) by (simp add: cache_exact_def)
  have i: "i = round_robin_index c mod ?n" by (simp add: i_def)
  have call: "get_node_by_round_robin H h ds md = (round_robin_cache c ! i, ?ds)"
    using Suc.prems(3) n0 by (simp add: get_node_by_round_robin_def i_def Let_def)
  show ?case
  proof (cases j)
    case 0
    then show ?thesis using call i by simp
  next
    case (Suc j')
    have mn: "matching_nodes h ?ds md = matching_nodes h ds md"
      using ok(4,5) by (intro matching_nodes_cong) simp_all
    have "set_inv H h ?ds" by (rule write_cursor_set_inv[OF Suc.prems(1,3)])
    moreover have "filled_cache H h ?ds md = (ref, ?c, ?ds)"
      using n0 by (intro filled_cache_settled[OF Suc.prems(1,3) ok(3)]) simp
    ultimately have "round_robin_calls k H h ?ds md ! j' =
        round_robin_cache ?c ! ((round_robin_index ?c + j') mod length (round_robin_cache ?c))"
      using Suc.prems(2,4) mn \<open>j = Suc j'\<close> by (intro Suc.IH) auto
    moreover have "(i + 1 + j') mod ?n = (round_robin_index c + j) mod ?n"
      unfolding i \<open>j = Suc j'\<close> using mod_add_left_eq[of "round_robin_index c" ?n "1 + j'"] by (simp add: add.assoc)
    ultimately show ?thesis using call \<open>j = Suc j'\<close> by simp
  qed
qed

lemma length_round_robin_calls [simp]: "length (round_robin_calls k H h ds md) = k"
  by (induction k arbitrary: ds) (auto split: prod.splits)

lemma rotated_indices: "map (\<lambda>j. xs ! ((i + j) mod length xs)) [0..<length xs] = rotate i xs"
  by (rule nth_equalityI) (auto simp: nth_rotate)

lemma round_robin_rotation:
  fixes md
  assumes inv: "set_inv H h ds"
  defines "nodes \<equiv> std_sort (round_robin_compare_index h) (matching_nodes h ds md)"
  shows "\<exists>i. round_robin_calls (length nodes) H h ds md = rotate i nodes"
proof (cases "matching_nodes h ds md = []")
  case True
  then show ?thesis by (simp add: nodes_def)
next
  case False
  obtain ref c ds' where f: "filled_cache H h ds md = (ref, c, ds')" by (cases "filled_cache H h ds md")
  have c: "round_robin_cache c = nodes" using filled_cache_ok(1)[OF inv f] by (simp add: cache_exact_def nodes_def)
  have "round_robin_calls (length nodes) H h ds md =
      map (\<lambda>j. nodes ! ((round_robin_index c + j) mod length nodes)) [0..<length nodes]"
    using round_robin_calls_nth[OF inv False f] c by (intro nth_equalityI) auto
  then show ?thesis unfolding rotated_indices by blast
qed

end
