(* ===== verification/Discovery_Claims.thy ===== *)
theory Discovery_Claims
  imports Discovery_Properties
begin

text \<open>
  The properties of service discovery: states reachable through the public operations, lookup,
  the node lists, consistent hashing, round robin, and the two places where the code falls short
  of its own contract (the sorted bounds and the cache of a rule with empty label values).
\<close>

section \<open>Reachable sets\<close>

text \<open>
  The public operations as steps. The heap of nodes is fixed: nodes are filled by
  \<^verbatim>\<open>copy_from\<close> before they are added. An insertion is a step when every cached rule sees the
  metadata of the node (\<open>rules_see\<close>): a node that carries a metadata message always qualifies.
\<close>

inductive reachable :: "hash_api \<Rightarrow> node_heap \<Rightarrow> discovery_set \<Rightarrow> bool" for H h where
  create: "reachable H h discovery_set_create"
| add: "reachable H h ds \<Longrightarrow> rules_see h ds p \<Longrightarrow> reachable H h (add_node h ds p)"
| remove: "reachable H h ds \<Longrightarrow> reachable H h (remove_node h ds p)"
| remove_id: "reachable H h ds \<Longrightarrow> reachable H h (remove_node_by_id h ds i)"
| remove_name: "reachable H h ds \<Longrightarrow> reachable H h (remove_node_by_name h ds n)"
| search: "reachable H h ds \<Longrightarrow>
    reachable H h (snd (lower_bound_node_hash_by_consistent_hash H h ds osz key md mode))"
| round_robin: "reachable H h ds \<Longrightarrow> reachable H h (snd (get_node_by_round_robin H h ds md))"
| random: "reachable H h ds \<Longrightarrow> reachable H h (snd (get_node_by_random rnd H h ds md))"
| sorted: "reachable H h ds \<Longrightarrow> reachable H h (snd (get_sorted_nodes H h ds md))"

lemma create_set_inv [invar_rules]: "set_inv H h discovery_set_create"
  unfolding set_inv_def by (intro conjI index_inv_create) (simp add: caches_ok_def discovery_set_create_def)

lemma filled_set_inv: "set_inv H h ds \<Longrightarrow> filled_cache H h ds md = (ref, c, ds') \<Longrightarrow> set_inv H h ds'"
  by (rule filled_cache_ok(2))

lemma round_robin_set_inv [invar_rules]:
  assumes "set_inv H h ds"
  shows "set_inv H h (snd (get_node_by_round_robin H h ds md))"
proof -
  obtain ref c ds' where f: "filled_cache H h ds md = (ref, c, ds')" by (cases "filled_cache H h ds md")
  show ?thesis using f filled_set_inv[OF assms f] write_cursor_set_inv[OF assms f]
    by (simp add: get_node_by_round_robin_def Let_def)
qed

lemma random_set_inv [invar_rules]:
  "set_inv H h ds \<Longrightarrow> set_inv H h (snd (get_node_by_random rnd H h ds md))"
  by (cases "filled_cache H h ds md") (auto simp: get_node_by_random_def dest: filled_set_inv)

lemma sorted_set_inv [invar_rules]:
  "set_inv H h ds \<Longrightarrow> set_inv H h (snd (get_sorted_nodes H h ds md))"
  by (cases "filled_cache H h ds md") (auto simp: get_sorted_nodes_def dest: filled_set_inv)

lemma reachable_set_inv: "reachable H h ds \<Longrightarrow> set_inv H h ds"
  by (induction rule: reachable.induct) (auto intro: invar_rules)

lemma sorted_nodes_result:
  assumes "set_inv H h ds"
  shows "fst (get_sorted_nodes H h ds md) = std_sort (round_robin_compare_index h) (matching_nodes h ds md)"
  using filled_cache_ok(1)[OF assms]
  by (cases "filled_cache H h ds md") (auto simp: get_sorted_nodes_def cache_exact_def)

subsection \<open>A small set\<close>

definition sample_api :: hash_api where
  "sample_api = \<lparr>murmur_hash3_x64_128 = (\<lambda>buf seed. (word_of_nat (length buf), ucast seed)), hash_magic_number = 0\<rparr>"

definition sample_node :: "u64 \<Rightarrow> string \<Rightarrow> int \<Rightarrow> etcd_discovery_node" where
  "sample_node i n pod = copy_from sample_api etcd_discovery_node_create
     (empty_discovery\<lparr>di_id := i, di_name := n, di_stateful_pod_index := pod\<rparr>)
     \<lparr>dv_create_revision = 1, dv_modify_revision = 1, dv_version = 1\<rparr> 0"

definition sample_heap :: node_heap where
  "sample_heap = (\<lambda>p. etcd_discovery_node_create)
     (1 := sample_node 20 ''a'' 0, 2 := sample_node 10 ''bc'' 1, 3 := sample_node 20 ''d'' 0, 4 := sample_node 30 ''e'' 0,
      5 := (sample_node 50 ''f'' 0)\<lparr>node_info :=
        (node_info (sample_node 50 ''f'' 0))\<lparr>di_metadata := Some default_metadata\<rparr>\<rparr>)"

definition sample_set :: discovery_set where
  "sample_set = add_node sample_heap (add_node sample_heap discovery_set_create 1) 2"

lemma sample_nodes:
  "node_info (sample_heap 1) = empty_discovery\<lparr>di_id := 20, di_name := ''a'', di_stateful_pod_index := 0\<rparr>"
  "node_info (sample_heap 2) = empty_discovery\<lparr>di_id := 10, di_name := ''bc'', di_stateful_pod_index := 1\<rparr>"
  "node_info (sample_heap 3) = empty_discovery\<lparr>di_id := 20, di_name := ''d'', di_stateful_pod_index := 0\<rparr>"
  "node_info (sample_heap 4) = empty_discovery\<lparr>di_id := 30, di_name := ''e'', di_stateful_pod_index := 0\<rparr>"
  "node_info (sample_heap 5) = empty_discovery\<lparr>di_id := 50, di_name := ''f'', di_stateful_pod_index := 0,
     di_metadata := Some default_metadata\<rparr>"
  by (simp_all add: sample_heap_def sample_node_def copy_from_def)

lemmas sample_keys = sample_nodes sample_nodes(1)[unfolded One_nat_def]

lemma sample_indexes:
  "node_by_id sample_set = [(20, 1), (10, 2)]" "node_by_name sample_set = [(''a'', 1), (''bc'', 2)]"
  "metadata_index sample_set = []"
  by (simp_all add: sample_set_def add_node_def add_to_id_index_def add_to_name_index_def erase_other_def
      note_replaced_def discovery_set_create_def sample_heap_def sample_node_def copy_from_def clear_cache_def
      empty_discovery_def Let_def)

lemma sample_reachable: "reachable sample_api sample_heap sample_set"
  unfolding sample_set_def
  by (intro reachable.add reachable.create)
    (simp_all add: rules_see_def discovery_set_create_def add_node_def add_to_id_index_def add_to_name_index_def
      clear_cache_def sample_heap_def sample_node_def copy_from_def empty_discovery_def Let_def)

lemmas sample_set_inv = reachable_set_inv[OF sample_reachable]

section \<open>Node lists\<close>



section \<open>The indexes\<close>

definition conflicts :: "node_heap \<Rightarrow> node_ptr \<Rightarrow> node_ptr \<Rightarrow> bool" where
  "conflicts h p q \<longleftrightarrow> node_id h p \<noteq> 0 \<and> node_id h q = node_id h p \<or>
     node_name h p \<noteq> [] \<and> node_name h q = node_name h p"

lemma filed_lookup:
  assumes "index_inv h ds"
  shows "q \<in> filed_nodes ds \<longleftrightarrow> q \<noteq> 0 \<and>
    (node_id h q \<noteq> 0 \<and> map_of (node_by_id ds) (node_id h q) = Some q \<or>
     node_name h q \<noteq> [] \<and> map_of (node_by_name ds) (node_name h q) = Some q)"
  using filed_node_keys[OF assms, of q] filed_nodes_map_of[OF assms, of q] by blast

lemma add_node_lookup:
  assumes "p \<noteq> 0"
  shows "node_id h p \<noteq> 0 \<Longrightarrow> map_of (node_by_id (add_node h ds p)) (node_id h p) = Some p"
    and "node_name h p \<noteq> [] \<Longrightarrow> map_of (node_by_name (add_node h ds p)) (node_name h p) = Some p"
  unfolding add_node_indexes[OF assms] by (auto simp: erase_stale_def)

lemma add_node_new_entry:
  assumes "p \<noteq> 0" and "q \<noteq> p"
  shows "map_of (node_by_id (add_node h ds p)) i = Some q \<Longrightarrow> map_of (node_by_id ds) i = Some q"
    and "map_of (node_by_name (add_node h ds p)) n = Some q \<Longrightarrow> map_of (node_by_name ds) n = Some q"
  using assms unfolding add_node_indexes[OF assms(1)] by (auto simp: erase_stale_def split: if_splits)

lemma add_node_keeps:
  assumes inv: "index_inv h ds" and p: "p \<noteq> 0" and q: "q \<in> filed_nodes ds" and no: "\<not> conflicts h p q"
  shows "node_id h q \<noteq> 0 \<Longrightarrow> map_of (node_by_id (add_node h ds p)) (node_id h q) = Some q"
    and "node_name h q \<noteq> [] \<Longrightarrow> map_of (node_by_name (add_node h ds p)) (node_name h q) = Some q"
proof -
  note k = filed_node_keys[OF inv q]
  show "map_of (node_by_id (add_node h ds p)) (node_id h q) = Some q" if id0: "node_id h q \<noteq> 0"
  proof -
    have ne: "node_id h q \<noteq> node_id h p" using no id0 by (auto simp: conflicts_def)
    have "stale_id h ds p \<noteq> node_id h q"
    proof
      assume eq: "stale_id h ds p = node_id h q"
      then obtain r where r: "replaced_by_name h (node_by_name ds) p = Some r" "node_id h r = node_id h q"
        using id0 by (auto simp: stale_id_def split: option.splits if_splits)
      have lk: "map_of (node_by_name ds) (node_name h p) = Some r" and "node_name h p \<noteq> []"
        using r(1) by (auto simp: replaced_by_name_def split: if_splits option.splits)
      have "map_of (node_by_id ds) (node_id h r) = Some r"
        using index_inv_filed(4)[OF inv disjI2[OF lk]] r(2) id0 by simp
      then have "r = q" unfolding r(2) using k(2)[OF id0] by simp
      moreover have "node_name h r = node_name h p" using lk inv by (auto simp: index_inv_def files_under_def)
      ultimately show False using no \<open>node_name h p \<noteq> []\<close> by (simp add: conflicts_def)
    qed
    then show ?thesis unfolding add_node_indexes[OF p] using k(2)[OF id0] ne by (auto simp: erase_stale_def)
  qed
  show "map_of (node_by_name (add_node h ds p)) (node_name h q) = Some q" if n0: "node_name h q \<noteq> []"
  proof -
    have ne: "node_name h q \<noteq> node_name h p" using no n0 by (auto simp: conflicts_def)
    have "stale_name h ds p \<noteq> node_name h q"
    proof
      assume eq: "stale_name h ds p = node_name h q"
      then obtain r where r: "replaced_by_id h (node_by_id ds) p = Some r" "node_name h r = node_name h q"
        using n0 by (auto simp: stale_name_def split: option.splits if_splits)
      have lk: "map_of (node_by_id ds) (node_id h p) = Some r" and "node_id h p \<noteq> 0"
        using r(1) by (auto simp: replaced_by_id_def split: if_splits option.splits)
      have "map_of (node_by_name ds) (node_name h r) = Some r"
        using index_inv_filed(2)[OF inv disjI1[OF lk]] r(2) n0 by simp
      then have "r = q" unfolding r(2) using k(3)[OF n0] by simp
      moreover have "node_id h r = node_id h p" using lk inv by (auto simp: index_inv_def files_under_def)
      ultimately show False using no \<open>node_id h p \<noteq> 0\<close> by (simp add: conflicts_def)
    qed
    then show ?thesis unfolding add_node_indexes[OF p] using k(3)[OF n0] ne by (auto simp: erase_stale_def)
  qed
qed

text \<open>C18: Adding a node that has an id or a name files it under its keys, evicts exactly the nodes
  that share its id or its name (from both indexes) and keeps every other node.\<close>

theorem add_node_filed:
  assumes "reachable H h ds" and "p \<noteq> 0" and "node_id h p \<noteq> 0 \<or> node_name h p \<noteq> []"
  shows "filed_nodes (add_node h ds p) = insert p {q \<in> filed_nodes ds. \<not> conflicts h p q} \<and>
    (node_id h p \<noteq> 0 \<longrightarrow> get_node_by_id (add_node h ds p) (node_id h p) = p) \<and>
    (node_name h p \<noteq> [] \<longrightarrow> get_node_by_name (add_node h ds p) (node_name h p) = p)"
proof -
  have inv: "index_inv h ds" using reachable_set_inv[OF assms(1)] by (simp add: set_inv_def)
  have inv': "index_inv h (add_node h ds p)" by (rule add_node_index_inv[OF inv])
  note lk = add_node_lookup[OF assms(2), of h ds]
  have "q \<in> filed_nodes (add_node h ds p) \<longleftrightarrow> q = p \<or> q \<in> filed_nodes ds \<and> \<not> conflicts h p q" for q
  proof (cases "q = p")
    case True
    then show ?thesis using lk assms(2,3) by (auto simp: filed_lookup[OF inv'])
  next
    case False
    have "\<not> conflicts h p q" if q: "q \<in> filed_nodes (add_node h ds p)"
      using filed_node_keys(2,3)[OF inv' q] lk False by (auto simp: conflicts_def)
    moreover have "q \<in> filed_nodes ds" if q: "q \<in> filed_nodes (add_node h ds p)"
      using q add_node_new_entry[OF assms(2) False]
      unfolding filed_nodes_map_of[OF inv'] filed_nodes_map_of[OF inv] by blast
    moreover have "q \<in> filed_nodes (add_node h ds p)" if q: "q \<in> filed_nodes ds" "\<not> conflicts h p q"
      using add_node_keeps[OF inv assms(2) q] filed_node_keys(1,4)[OF inv q(1)]
      unfolding filed_lookup[OF inv'] by blast
    ultimately show ?thesis using False by blast
  qed
  then have "filed_nodes (add_node h ds p) = insert p {q \<in> filed_nodes ds. \<not> conflicts h p q}" by blast
  then show ?thesis using lk by (simp add: get_node_by_id_def get_node_by_name_def)
qed

theorem add_node_filed_witness:
  "reachable sample_api sample_heap sample_set \<and> filed_nodes (add_node sample_heap sample_set 3) = {2, 3} \<and>
   get_node_by_id (add_node sample_heap sample_set 3) 20 = 3"
  using sample_reachable add_node_filed[OF sample_reachable, of 3]
  by (auto simp: filed_nodes_def sample_indexes conflicts_def sample_keys)

text \<open>C19: Removing a node takes it out of both indexes and keeps every other node; in every
  reachable set the two indexes agree (\<open>index_inv\<close>).\<close>

theorem remove_node_filed:
  assumes "reachable H h ds"
  shows "index_inv h ds \<and> filed_nodes (remove_node h ds p) = filed_nodes ds - {p}"
proof -
  have inv: "index_inv h ds" using reachable_set_inv[OF assms] by (simp add: set_inv_def)
  have "filed_nodes (remove_node h ds p) = set (matching_nodes h (remove_node h ds p) None)"
    using set_matching_nodes[OF remove_node_index_inv[OF inv], of p None] by (simp add: rule_accepts_def)
  also have "\<dots> = filed_nodes ds - {p}"
  proof (cases "p = 0")
    case True
    then show ?thesis using set_matching_nodes[OF inv, of None] filed_node_keys(1)[OF inv]
      by (auto simp: remove_node_def rule_accepts_def)
  next
    case False
    then show ?thesis using set_matching_nodes[OF inv, of None]
      by (auto simp: remove_node_matching[OF inv] rule_accepts_def)
  qed
  finally show ?thesis using inv by simp
qed

theorem remove_node_filed_witness:
  "reachable sample_api sample_heap sample_set \<and>
   filed_nodes (remove_node sample_heap sample_set 1) = {2}"
  using sample_reachable remove_node_filed[OF sample_reachable, of 1]
  by (auto simp: filed_nodes_def sample_indexes)

section \<open>Consistent hashing\<close>

text \<open>C8: Mode \<open>kAll\<close> returns the points of the ring of the accepted nodes in clockwise order from the
  first point whose hash code is not below the key, each once, cut to the size of the output.\<close>

theorem consistent_hash_all:
  assumes "reachable H h ds"
  shows "fst (lower_bound_node_hash_by_consistent_hash H h ds output_size key md kAll) =
    take output_size (clockwise (nh_hash_code key)
      (std_sort (consistent_hash_compare_index h) (ring_points H h (matching_nodes h ds md))))"
  using plain_search[OF reachable_set_inv[OF assms], of kAll output_size key md]
  by (simp add: mode_flags ring_of_def)

theorem consistent_hash_all_witness:
  "reachable sample_api sample_heap sample_set \<and>
   length (fst (lower_bound_node_hash_by_consistent_hash sample_api sample_heap sample_set 200
     \<lparr>nh_node = 0, nh_hash_code = (1, 3)\<rparr> None kAll)) = 160"
  using sample_reachable
  by (simp add: consistent_hash_all[OF sample_reachable] length_ring_points HASH_POINT_PER_INS_def
      matching_nodes_def rule_accepts_def sample_indexes sample_keys)



text \<open>C15: The compact ring selects for every key the same node as the full ring, and no two
  neighbouring points of it belong to the same node.\<close>

theorem compact_ring_equivalent:
  assumes "reachable H h ds"
  shows "map nh_node (fst (lower_bound_node_hash_by_consistent_hash H h ds 1 key md kCompact)) =
      map nh_node (fst (lower_bound_node_hash_by_consistent_hash H h ds 1 key md kAll)) \<and>
    (\<forall>i. Suc i < length (ring_of H h (matching_nodes h ds md) True) \<longrightarrow>
       nh_node (ring_of H h (matching_nodes h ds md) True ! i) \<noteq>
       nh_node (ring_of H h (matching_nodes h ds md) True ! Suc i))"
proof -
  have inv: "set_inv H h ds" and ii: "index_inv h ds"
    using reachable_set_inv[OF assms] by (auto simp: set_inv_def)
  let ?r = "std_sort (consistent_hash_compare_index h) (ring_points H h (matching_nodes h ds md))"
  note ex = node_equal_exact_ring[OF ii, of "consistent_hash_compare_index h" H md]
  have ring: "ring_of H h (matching_nodes h ds md) True = compact_ring h ?r"
    "ring_of H h (matching_nodes h ds md) False = ?r" by (simp_all add: ring_of_def Let_def)
  have "map nh_node (take (Suc 0) (clockwise k (compact_ring h ?r))) = map nh_node (take (Suc 0) (clockwise k ?r))" for k
  proof (cases "?r = []")
    case True
    then show ?thesis by (simp only: compact_ring_Nil)
  next
    case False
    then show ?thesis using compact_ring_same_node[OF ex hash_sorted_ring False, of k] by (simp add: take_1_hd)
  qed
  then show ?thesis
    using plain_search[OF inv, of kCompact 1 key md] plain_search[OF inv, of kAll 1 key md] compact_ring_adjacent[OF ex]
    by (simp add: mode_flags ring)
qed

theorem compact_ring_equivalent_witness:
  "reachable sample_api sample_heap sample_set \<and>
   map nh_node (fst (lower_bound_node_hash_by_consistent_hash sample_api sample_heap sample_set 1
     \<lparr>nh_node = 0, nh_hash_code = (1, 3)\<rparr> None kCompact)) =
   map nh_node (fst (lower_bound_node_hash_by_consistent_hash sample_api sample_heap sample_set 1
     \<lparr>nh_node = 0, nh_hash_code = (1, 3)\<rparr> None kAll))"
  using sample_reachable compact_ring_equivalent[OF sample_reachable] by blast



section \<open>Round robin and random choice\<close>



text \<open>When some node is accepted, a random choice (from a generator that respects its range)
  returns an accepted node, and otherwise the null pointer.\<close>

theorem random_choice_accepted:
  assumes "reachable H h ds" and "\<And>n. 0 < n \<Longrightarrow> rnd n < n"
  shows "fst (get_node_by_random rnd H h ds md) \<in>
    (if {p \<in> filed_nodes ds. rule_accepts h md p} = {} then {0} else {p \<in> filed_nodes ds. rule_accepts h md p})"
proof -
  have inv: "set_inv H h ds" and ii: "index_inv h ds"
    using reachable_set_inv[OF assms(1)] by (auto simp: set_inv_def)
  obtain ref c ds' where f: "filled_cache H h ds md = (ref, c, ds')" by (cases "filled_cache H h ds md")
  have c: "set (round_robin_cache c) = {p \<in> filed_nodes ds. rule_accepts h md p}"
    using filled_cache_ok(1)[OF inv f] by (simp add: cache_exact_def set_matching_nodes[OF ii])
  have "round_robin_cache c ! rnd (length (round_robin_cache c)) \<in> set (round_robin_cache c)"
    if "round_robin_cache c \<noteq> []" using assms(2)[of "length (round_robin_cache c)"] that by (intro nth_mem) simp
  then show ?thesis unfolding c[symmetric] using f by (simp add: get_node_by_random_def)
qed

theorem random_choice_accepted_witness:
  "reachable sample_api sample_heap sample_set \<and>
   fst (get_node_by_random (\<lambda>n. n - 1) sample_api sample_heap sample_set None) \<in> {1, 2}"
proof -
  have "{p \<in> filed_nodes sample_set. rule_accepts sample_heap None p} = {1, 2}"
    by (auto simp: filed_nodes_def sample_indexes rule_accepts_def)
  then show ?thesis
    using random_choice_accepted[OF sample_reachable, of "\<lambda>n. n - 1" None] sample_reachable by simp
qed

section \<open>Bounds of the sorted list\<close>

lemma bound_by_id:
  assumes inv: "set_inv H h ds" and pod: "\<forall>p \<in> set (matching_nodes h ds md). di_stateful_pod_index (node_info (h p)) = c"
  defines "ns \<equiv> fst (get_sorted_nodes H h ds md)"
  shows "fst (lower_bound_sorted_nodes H h ds i [] md) = length (takeWhile (\<lambda>p. node_id h p < i) ns)"
    and "sorted_wrt (\<lambda>p q. node_id h q < i \<longrightarrow> node_id h p < i) ns"
proof -
  have ii: "index_inv h ds" using inv by (simp add: set_inv_def)
  have r: "ns = std_sort (round_robin_compare_index h) (matching_nodes h ds md)"
    by (simp add: ns_def sorted_nodes_result[OF inv])
  have nz: "p \<noteq> 0" if "p \<in> set ns" for p
    using that filed_node_keys(1)[OF ii] by (auto simp: r set_matching_nodes[OF ii])
  have "sorted_wrt (\<lambda>p q. \<not> round_robin_compare_index h q p) ns" by (simp add: r rr_order.sorted_std_sort)
  then show sorted: "sorted_wrt (\<lambda>p q. node_id h q < i \<longrightarrow> node_id h p < i) ns"
  proof (rule sorted_wrt_mono_rel[rotated])
    fix p q
    assume "p \<in> set ns" "q \<in> set ns" and n: "\<not> round_robin_compare_index h q p"
    then show "node_id h q < i \<longrightarrow> node_id h p < i"
      using nz[of p] nz[of q] pod by (auto simp: r round_robin_compare_index_def Let_def split: if_splits)
  qed
  have "lower_bound_compare_index h p (bound_pred H i []) \<longleftrightarrow> node_id h p < i" if "p \<in> set ns" for p
    using nz[OF that] by (simp add: lower_bound_compare_index_def bound_pred_def)
  note cmp = this
  have eq: "takeWhile (\<lambda>p. lower_bound_compare_index h p (bound_pred H i [])) ns = takeWhile (\<lambda>p. node_id h p < i) ns"
    by (rule takeWhile_cong) (simp_all add: cmp)
  have part: "sorted_wrt (\<lambda>p q. lower_bound_compare_index h q (bound_pred H i []) \<longrightarrow>
      lower_bound_compare_index h p (bound_pred H i [])) ns"
    using sorted by (rule sorted_wrt_mono_rel[rotated]) (simp add: cmp)
  have "fst (lower_bound_sorted_nodes H h ds i [] md) = std_lower_bound (lower_bound_compare_index h) ns (bound_pred H i [])"
    by (simp add: lower_bound_sorted_nodes_def ns_def split: prod.splits)
  then show "fst (lower_bound_sorted_nodes H h ds i [] md) = length (takeWhile (\<lambda>p. node_id h p < i) ns)"
    using bsearch_takeWhile[OF partitioned_sorted[OF part]] eq by (simp add: std_lower_bound_def)
qed

text \<open>When all accepted nodes have the same stateful pod index, the lower bound by id splits the
  sorted list: the nodes before it have smaller ids, the nodes from it on do not.\<close>

theorem lower_bound_same_pod:
  assumes "reachable H h ds"
    and "\<forall>p \<in> filed_nodes ds. rule_accepts h md p \<longrightarrow> di_stateful_pod_index (node_info (h p)) = c"
  shows "let ns = fst (get_sorted_nodes H h ds md); b = fst (lower_bound_sorted_nodes H h ds i [] md) in
    (\<forall>p \<in> set (take b ns). node_id h p < i) \<and> (\<forall>p \<in> set (drop b ns). i \<le> node_id h p)"
proof -
  have inv: "set_inv H h ds" and ii: "index_inv h ds"
    using reachable_set_inv[OF assms(1)] by (auto simp: set_inv_def)
  let ?ns = "fst (get_sorted_nodes H h ds md)" and ?P = "\<lambda>p. node_id h p < i"
  have "\<forall>p \<in> set (matching_nodes h ds md). di_stateful_pod_index (node_info (h p)) = c"
    using assms(2) by (simp add: set_matching_nodes[OF ii])
  note b = bound_by_id[OF inv this, of i]
  have "\<not> ?P q" if "q \<in> set (dropWhile ?P ?ns)" for q
  proof (cases "dropWhile ?P ?ns")
    case Nil
    then show ?thesis using that unfolding Nil by simp
  next
    case (Cons x xs)
    have "sorted_wrt (\<lambda>p q. ?P q \<longrightarrow> ?P p) (dropWhile ?P ?ns)" using b(2) by (simp add: dropWhile_eq_drop sorted_wrt_drop)
    moreover have "\<not> ?P x" using hd_dropWhile[of ?P ?ns] Cons by simp
    ultimately show ?thesis using that Cons by auto
  qed
  then show ?thesis using b(1) by (auto simp: takeWhile_eq_take[symmetric] dropWhile_eq_drop[symmetric] not_less
        dest: set_takeWhileD)
qed

definition sample_pair :: discovery_set where
  "sample_pair = add_node sample_heap (add_node sample_heap discovery_set_create 4) 1"

lemma sample_pair_indexes:
  "node_by_id sample_pair = [(30, 4), (20, 1)]" "node_by_name sample_pair = [(''e'', 4), (''a'', 1)]"
  by (simp_all add: sample_pair_def add_node_def add_to_id_index_def add_to_name_index_def erase_other_def
      note_replaced_def discovery_set_create_def sample_heap_def sample_node_def copy_from_def clear_cache_def
      empty_discovery_def Let_def)

lemma sample_pair_reachable: "reachable sample_api sample_heap sample_pair"
  unfolding sample_pair_def
  by (intro reachable.add reachable.create)
    (simp_all add: rules_see_def discovery_set_create_def add_node_def add_to_id_index_def add_to_name_index_def
      clear_cache_def sample_heap_def sample_node_def copy_from_def empty_discovery_def Let_def)

theorem lower_bound_same_pod_witness:
  "reachable sample_api sample_heap sample_pair \<and> filed_nodes sample_pair = {1, 4} \<and>
   (let ns = fst (get_sorted_nodes sample_api sample_heap sample_pair None);
        b = fst (lower_bound_sorted_nodes sample_api sample_heap sample_pair 25 [] None) in
    list_all (\<lambda>p. node_id sample_heap p < 25) (take b ns) \<and> list_all (\<lambda>p. 25 \<le> node_id sample_heap p) (drop b ns))"
proof -
  have filed: "filed_nodes sample_pair = {1, 4}" by (auto simp: filed_nodes_def sample_pair_indexes)
  have pod: "\<forall>p \<in> filed_nodes sample_pair. rule_accepts sample_heap None p \<longrightarrow>
      di_stateful_pod_index (node_info (sample_heap p)) = 0"
    by (simp add: filed sample_keys)
  show ?thesis using sample_pair_reachable filed lower_bound_same_pod[OF sample_pair_reachable pod, of 25]
    unfolding Let_def list_all_iff by blast
qed

text \<open>Without that restriction the lower bound is wrong: the list is sorted by pod index first,
  so with the ids 20 (pod 0) and 10 (pod 1) the bound of 15 is the end of the list although a node
  with a larger id is in it.\<close>

theorem lower_bound_mixed_pods:
  "reachable sample_api sample_heap sample_set \<and>
   fst (get_sorted_nodes sample_api sample_heap sample_set None) = [1, 2] \<and>
   fst (lower_bound_sorted_nodes sample_api sample_heap sample_set 15 [] None) = 2 \<and>
   node_id sample_heap 1 = 20"
proof -
  have m: "matching_nodes sample_heap sample_set None = [1, 2]"
    by (simp add: matching_nodes_def rule_accepts_def sample_indexes sample_keys)
  have l: "fst (get_sorted_nodes sample_api sample_heap sample_set None) = [1, 2]"
    by (simp add: sorted_nodes_result[OF sample_set_inv] m round_robin_compare_index_def sample_keys)
  obtain ds' where "get_sorted_nodes sample_api sample_heap sample_set None = ([1, 2], ds')"
    using l by (metis prod.collapse)
  then show ?thesis using l sample_reachable
    by (simp add: lower_bound_sorted_nodes_def std_lower_bound_def bsearch.simps lower_bound_compare_index_def
        bound_pred_def sample_keys)
qed

section \<open>A rule the invalidation does not see\<close>

definition sample_rule :: atapp_metadata where
  "sample_rule = default_metadata\<lparr>md_labels := [(''k'', [])]\<rparr>"

definition sample_one :: discovery_set where
  "sample_one = add_node sample_heap discovery_set_create 5"

lemma sample_one_indexes:
  "node_by_id sample_one = [(50, 5)]" "node_by_name sample_one = [(''f'', 5)]" "metadata_index sample_one = []"
  by (simp_all add: sample_one_def add_node_def add_to_id_index_def add_to_name_index_def erase_other_def
      note_replaced_def discovery_set_create_def clear_cache_def Let_def sample_keys empty_discovery_def)

lemma sample_one_reachable: "reachable sample_api sample_heap sample_one"
  unfolding sample_one_def
  by (intro reachable.add reachable.create) (simp add: rules_see_def discovery_set_create_def)

lemma sample_rule_accepts:
  "rule_accepts sample_heap (Some sample_rule) 5" "rule_accepts sample_heap (Some sample_rule) 2"
  by (simp_all add: rule_accepts_def sample_rule_def metadata_filter_def filter_field_def default_metadata_def
      di_metadata_or_default_def sample_keys empty_discovery_def)

text \<open>C29: A rule whose labels all have empty values accepts a node without metadata, but adding such
  a node does not drop the cache of the rule: the list of the rule misses the new node.\<close>

theorem stale_rule_cache:
  "let ds1 = snd (get_sorted_nodes sample_api sample_heap sample_one (Some sample_rule));
       ds2 = add_node sample_heap ds1 2
   in rule_accepts sample_heap (Some sample_rule) 2 \<and> get_node_by_id ds2 10 = 2 \<and>
      fst (get_sorted_nodes sample_api sample_heap ds2 (Some sample_rule)) = [5]"
proof -
  obtain ref c ds1 where f: "filled_cache sample_api sample_heap sample_one (Some sample_rule) = (ref, c, ds1)"
    by (cases "filled_cache sample_api sample_heap sample_one (Some sample_rule)")
  note ok = filled_cache_ok[OF reachable_set_inv[OF sample_one_reachable] f]
  have m: "matching_nodes sample_heap sample_one (Some sample_rule) = [5]"
    by (simp add: matching_nodes_def sample_one_indexes sample_rule_accepts sample_keys)
  have c: "round_robin_cache c = [5]" "set (reference_cache c) = {5}" using ok(1) by (simp_all add: cache_exact_def m)
  have ne: "\<not> metadata_is_empty sample_rule" by (simp add: sample_rule_def metadata_is_empty_def)
  then have mi: "metadata_index ds1 = [(sample_rule, c)]" and "ref = Metadata_index sample_rule"
    using f by (auto simp: filled_cache_def mutable_index_cache_def get_index_cache_def sample_one_indexes
        write_cache_def metadata_key.eq_refl Let_def split: if_splits)
  have ix: "node_by_id ds1 = [(50, 5)]" "node_by_name ds1 = [(''f'', 5)]" using ok(4,5) by (simp_all add: sample_one_indexes)
  have "add_node sample_heap ds1 2 = ds1\<lparr>node_by_id := [(50, 5), (10, 2)], node_by_name := [(''f'', 5), (''bc'', 2)],
      default_index := clear_cache_set (default_index ds1)\<rparr>"
    using c mi by (simp add: add_node_def add_to_id_index_def add_to_name_index_def Let_def ix sample_keys
        empty_discovery_def clear_cache_def cache_matched_def)
  then have "metadata_index (add_node sample_heap ds1 2) = [(sample_rule, c)]"
    "get_node_by_id (add_node sample_heap ds1 2) 10 = 2" using mi by (simp_all add: get_node_by_id_def)
  moreover have "snd (get_sorted_nodes sample_api sample_heap sample_one (Some sample_rule)) = ds1"
    using f by (simp add: get_sorted_nodes_def)
  ultimately show ?thesis
    using ne c sample_rule_accepts(2)
    by (simp add: get_sorted_nodes_def filled_cache_def mutable_index_cache_def get_index_cache_def
        read_cache_def metadata_key.eq_refl Let_def)
qed

section \<open>Metadata keys and ingress gateways\<close>

text \<open>C30: The equality of metadata keys is compatible with their hash (the contract of
  \<^verbatim>\<open>std::unordered_map\<close>), and equal rules accept the same nodes.\<close>

theorem metadata_key_contract:
  assumes "metadata_equal l r"
  shows "metadata_hash H l = metadata_hash H r \<and> metadata_filter l m = metadata_filter r m"
  using metadata_equal_hash[OF assms] metadata_filter_equal_rule[OF assms] by simp

theorem metadata_key_contract_witness:
  "metadata_equal (default_metadata\<lparr>md_labels := [(''a'', ''1''), (''b'', ''2'')]\<rparr>)
     (default_metadata\<lparr>md_labels := [(''b'', ''2''), (''a'', ''1'')]\<rparr>) \<and>
   metadata_hash sample_api (default_metadata\<lparr>md_labels := [(''a'', ''1''), (''b'', ''2'')]\<rparr>) =
   metadata_hash sample_api (default_metadata\<lparr>md_labels := [(''b'', ''2''), (''a'', ''1'')]\<rparr>)"
proof -
  have eq: "metadata_equal (default_metadata\<lparr>md_labels := [(''a'', ''1''), (''b'', ''2'')]\<rparr>)
     (default_metadata\<lparr>md_labels := [(''b'', ''2''), (''a'', ''1'')]\<rparr>)"
    unfolding metadata_equal_iff
    by (simp add: default_metadata_def sort_string_map_def std_sort_def)
  show ?thesis using eq metadata_key_contract[OF eq, of sample_api] by blast
qed

text \<open>Consecutive requests for an ingress address rotate through the gateways of the node:
  one turn returns every gateway once, in order.\<close>

theorem ingress_rotation:
  assumes "di_gateways (node_info n) \<noteq> []" and "0 \<le> ingress_index n"
  shows "ingress_sequence (length (di_gateways (node_info n))) n =
    rotate (nat (ingress_index n)) (di_gateways (node_info n))"
proof (rule nth_equalityI)
  let ?g = "di_gateways (node_info n)"
  fix i
  assume "i < length (ingress_sequence (length ?g) n)"
  then have i: "i < length ?g" by simp
  have "nat ((ingress_index n + int i) mod int (length ?g)) = (nat (ingress_index n) + i) mod length ?g"
    using assms(2) by (simp add: nat_mod_distrib nat_add_distrib)
  then show "ingress_sequence (length ?g) n ! i = rotate (nat (ingress_index n)) ?g ! i"
    using ingress_sequence_nth[OF refl assms i] i by (simp add: nth_rotate)
qed simp

theorem ingress_rotation_witness:
  "let g = (\<lambda>a. empty_gateway\<lparr>gw_address := a\<rparr>);
       n = etcd_discovery_node_create\<lparr>node_info := empty_discovery\<lparr>di_gateways := [g ''x'', g ''y'']\<rparr>, ingress_index := 1\<rparr>
   in ingress_sequence 2 n = [g ''y'', g ''x'']"
  using ingress_rotation[of "etcd_discovery_node_create\<lparr>node_info := empty_discovery\<lparr>di_gateways :=
      [empty_gateway\<lparr>gw_address := ''x''\<rparr>, empty_gateway\<lparr>gw_address := ''y''\<rparr>]\<rparr>, ingress_index := 1\<rparr>"]
  by (simp add: Let_def numeral_2_eq_2)

end
