(* ===== verification/Worker_Thread.thy ===== *)
theory Worker_Thread
  imports Prelude
begin

text \<open>
  A worker of the pool (\<^verbatim>\<open>src/atframe/modules/worker_pool_module.cpp\<close>, class
  \<^verbatim>\<open>worker_pool_module::worker\<close>): the load key by which workers are compared, the
  collection of CPU time, the tick callbacks, one round of \<^verbatim>\<open>background_job_tick\<close> and one
  iteration of the loop that the thread runs. Atomics are fields, clock readings are arguments,
  running a job or a callback appends to a trace.
\<close>

section \<open>Data\<close>

datatype worker_status = kCreated | kRunning | kSleeping | kExiting | kExited

text \<open>
  \<^verbatim>\<open>worker_job_data::action\<close> points to a \<^verbatim>\<open>std::function\<close>: no pointer, a pointer to an
  empty function, or a pointer to a function, named by a number.
\<close>

type_synonym job_action = "nat option option"

record worker_job_data =
  jd_action :: job_action

text \<open>What was run: the action and the worker id of the context it was given.\<close>

type_synonym run_trace = "(nat \<times> nat) list"

datatype worker_tick_handle_type = kWorkerTickHandleAny | kWorkerTickHandleSpecify

record worker_tick_handle =
  tk_type :: worker_tick_handle_type
  tk_action :: "nat option"

text \<open>
  \<^verbatim>\<open>worker_tick_action_container_type\<close>: a \<^verbatim>\<open>std::list\<close> whose iterators stay valid, so every
  element has an identity, and the identity of the next element is kept.
\<close>

record tick_container =
  tc_version :: nat
  tc_data :: "(nat \<times> worker_tick_handle) list"
  tc_next :: nat

text \<open>\<^verbatim>\<open>worker_tick_action_handle_data\<close>; \<open>None\<close> as the iterator is \<^verbatim>\<open>end()\<close>.\<close>

record tick_action_handle =
  ah_type :: worker_tick_handle_type
  ah_specify_worker :: nat
  ah_version :: nat
  ah_iter :: "nat option"
  ah_owner :: nat

text \<open>Times are in microseconds where the source has \<^verbatim>\<open>microseconds::rep\<close>.\<close>

record worker =
  wk_ptr :: nat
  wk_id :: nat
  wk_status :: worker_status
  wk_created_time :: timepoint
  wk_thread :: bool
  private_jobs :: "worker_job_data list"
  tick_handles :: tick_container
  current_tick_interval_us :: int
  current_tick_second_busy_us :: int
  current_tick_second_waited_us :: int
  cpu_time_busy_us :: int
  cpu_time_sleep_us :: int
  cpu_time_last_second_busy_us :: int
  cpu_time_last_minute_busy_us :: int
  cpu_checkpoint_last_second :: int
  cpu_checkpoint_last_minute :: int
  cpu_time_collect_scaling_up_us :: int
  cpu_time_collect_scaling_down_us :: int

record worker_set =
  need_scaling_up :: bool
  closing :: bool
  cleaning :: bool
  current_expect_workers :: nat
  configure_tick_min_interval :: int
  configure_tick_max_interval :: int
  configure_tick_preserve :: int
  workers :: "worker list"
  removed_scaling_up_time :: int
  removed_scaling_down_time :: int
  shared_jobs :: "worker_job_data list"

definition SECOND_NS :: int where "SECOND_NS = 1000000000"
definition MINITE_SECONDS :: int where "MINITE_SECONDS = 60"

definition us_to_ns :: "int \<Rightarrow> int" where "us_to_ns t = t * 1000"
definition ns_to_us :: "int \<Rightarrow> int" where "ns_to_us t = cdiv t 1000"
definition to_time_t :: "timepoint \<Rightarrow> int" where "to_time_t t = cdiv t SECOND_NS"
definition from_time_t :: "int \<Rightarrow> timepoint" where "from_time_t s = s * SECOND_NS"

section \<open>The load key\<close>

record worker_compare_key =
  ck_pending_job_size :: nat
  ck_last_second_busy_us :: int
  ck_last_minute_busy_us :: int
  ck_worker_id :: nat
  ck_worker_ptr :: nat

definition key_min :: worker_compare_key where
  "key_min = \<lparr>ck_pending_job_size = 0, ck_last_second_busy_us = 0, ck_last_minute_busy_us = 0,
     ck_worker_id = 0, ck_worker_ptr = 0\<rparr>"

definition key_max :: worker_compare_key where
  "key_max = \<lparr>ck_pending_job_size = 2 ^ 64 - 1, ck_last_second_busy_us = 2 ^ 63 - 1,
     ck_last_minute_busy_us = 2 ^ 63 - 1, ck_worker_id = 2 ^ 32 - 1, ck_worker_ptr = 0\<rparr>"

definition key_less :: "worker_compare_key \<Rightarrow> worker_compare_key \<Rightarrow> bool" where
  "key_less l r =
     (if ck_pending_job_size l \<noteq> ck_pending_job_size r then ck_pending_job_size l < ck_pending_job_size r
      else if (ck_last_second_busy_us l \<ge> 8000 \<or> ck_last_second_busy_us r \<ge> 8000) \<and>
              ck_last_second_busy_us l \<noteq> ck_last_second_busy_us r
      then ck_last_second_busy_us l < ck_last_second_busy_us r
      else if ck_last_minute_busy_us l \<noteq> ck_last_minute_busy_us r
      then ck_last_minute_busy_us l < ck_last_minute_busy_us r
      else if ck_worker_id l \<noteq> ck_worker_id r then ck_worker_id l < ck_worker_id r
      else ck_worker_ptr l < ck_worker_ptr r)"

definition make_compare_key :: "worker \<Rightarrow> worker_compare_key" where
  "make_compare_key w = \<lparr>ck_pending_job_size = length (private_jobs w),
     ck_last_second_busy_us = cpu_time_last_second_busy_us w,
     ck_last_minute_busy_us = cpu_time_last_minute_busy_us w,
     ck_worker_id = wk_id w, ck_worker_ptr = wk_ptr w\<rparr>"

section \<open>Operations of a worker\<close>

definition worker_create :: "nat \<Rightarrow> worker_set \<Rightarrow> nat \<Rightarrow> timepoint \<Rightarrow> worker" where
  "worker_create ptr owner worker_id now =
     \<lparr>wk_ptr = ptr, wk_id = worker_id, wk_status = kCreated, wk_created_time = now, wk_thread = False,
      private_jobs = [], tick_handles = \<lparr>tc_version = 1, tc_data = [], tc_next = 0\<rparr>,
      current_tick_interval_us = (if configure_tick_min_interval owner < 1000 then 4000
                                  else configure_tick_min_interval owner),
      current_tick_second_busy_us = 0, current_tick_second_waited_us = 0,
      cpu_time_busy_us = 0, cpu_time_sleep_us = 0, cpu_time_last_second_busy_us = 0,
      cpu_time_last_minute_busy_us = 0, cpu_checkpoint_last_second = 0, cpu_checkpoint_last_minute = 0,
      cpu_time_collect_scaling_up_us = 0, cpu_time_collect_scaling_down_us = 0\<rparr>"

definition worker_emplace :: "worker \<Rightarrow> worker_job_data \<Rightarrow> worker" where
  "worker_emplace w job = w\<lparr>private_jobs := private_jobs w @ [job]\<rparr>"

text \<open>Whether \<^verbatim>\<open>emplace\<close> wakes the thread up.\<close>

definition emplace_wakeup :: "worker \<Rightarrow> bool" where
  "emplace_wakeup w \<longleftrightarrow> private_jobs w = []"

definition collect_scaling_up_cpu_time :: "worker \<Rightarrow> int \<times> worker" where
  "collect_scaling_up_cpu_time w =
     (let current_value = cpu_time_busy_us w; before_value = cpu_time_collect_scaling_up_us w
      in (if current_value > before_value then us_to_ns (current_value - before_value) else 0,
          w\<lparr>cpu_time_collect_scaling_up_us := current_value\<rparr>))"

definition collect_scaling_down_cpu_time :: "worker \<Rightarrow> int \<times> worker" where
  "collect_scaling_down_cpu_time w =
     (let current_value = cpu_time_busy_us w; before_value = cpu_time_collect_scaling_down_us w
      in (if current_value > before_value then us_to_ns (current_value - before_value) else 0,
          w\<lparr>cpu_time_collect_scaling_down_us := current_value\<rparr>))"

text \<open>Created but not started for more than half a minute.\<close>

definition never_started :: "timepoint \<Rightarrow> worker \<Rightarrow> bool" where
  "never_started now w \<longleftrightarrow> wk_status w = kCreated \<and>
     (now - wk_created_time w < -30 * SECOND_NS \<or> now - wk_created_time w > 30 * SECOND_NS)"

definition is_exiting :: "timepoint \<Rightarrow> worker \<Rightarrow> bool" where
  "is_exiting now w \<longleftrightarrow> wk_status w = kExited \<or> wk_status w = kExiting \<or> never_started now w"

definition is_exited :: "timepoint \<Rightarrow> worker \<Rightarrow> bool" where
  "is_exited now w \<longleftrightarrow> wk_status w = kExited \<or> never_started now w"

definition worker_add_tick_callback ::
  "worker \<Rightarrow> worker_tick_handle_type \<Rightarrow> nat option \<Rightarrow> tick_action_handle \<times> worker" where
  "worker_add_tick_callback w type action =
     (let t = tick_handles w
      in (\<lparr>ah_type = type,
           ah_specify_worker = (if type = kWorkerTickHandleSpecify then wk_id w else 0),
           ah_version = tc_version t, ah_iter = Some (tc_next t), ah_owner = wk_ptr w\<rparr>,
          w\<lparr>tick_handles := t\<lparr>tc_data := tc_data t @ [(tc_next t, \<lparr>tk_type = type, tk_action = action\<rparr>)],
                               tc_next := Suc (tc_next t)\<rparr>\<rparr>))"

text \<open>Returns whether a callback was removed, the handle as it is left, and the worker.\<close>

definition worker_remove_tick_callback ::
  "worker \<Rightarrow> tick_action_handle \<Rightarrow> bool \<times> tick_action_handle \<times> worker" where
  "worker_remove_tick_callback w handle =
     (if ah_owner handle \<noteq> wk_ptr w then (False, handle, w)
      else if ah_version handle \<noteq> tc_version (tick_handles w) then (False, handle\<lparr>ah_iter := None\<rparr>, w)
      else case ah_iter handle of
             None \<Rightarrow> (False, handle, w)
           | Some i \<Rightarrow> (True, handle\<lparr>ah_iter := None, ah_version := 0\<rparr>,
               w\<lparr>tick_handles := (tick_handles w)\<lparr>tc_data :=
                   filter (\<lambda>e. fst e \<noteq> i) (tc_data (tick_handles w))\<rparr>\<rparr>))"

definition worker_reset_tick_interval :: "worker \<Rightarrow> int \<Rightarrow> worker" where
  "worker_reset_tick_interval w new_tick_interval = w\<lparr>current_tick_interval_us := new_tick_interval\<rparr>"

section \<open>Running jobs\<close>

text \<open>
  The pop loop shared by \<^verbatim>\<open>background_job_tick\<close> and \<^verbatim>\<open>do_shared_job_on_main_thread\<close>.
  \<open>elapsed n\<close> is what the \<open>n\<close>-th clock reading of the loop gives for
  \<^verbatim>\<open>end_time - start_time\<close>; the result is the rest of the queue and what was run.
\<close>

fun run_jobs :: "(nat \<Rightarrow> int) \<Rightarrow> int \<Rightarrow> nat \<Rightarrow> int \<Rightarrow> nat \<Rightarrow> worker_job_data list \<Rightarrow> run_trace \<Rightarrow>
    worker_job_data list \<times> run_trace" where
  "run_jobs elapsed interval ctx no_action_counter n [] tr = ([], tr)"
| "run_jobs elapsed interval ctx no_action_counter n (job # jobs) tr =
     (let (counter, tr') = (case jd_action job of
            None \<Rightarrow> (no_action_counter, tr)
          | Some None \<Rightarrow> (no_action_counter - 1, tr)
          | Some (Some a) \<Rightarrow> (0, tr @ [(a, ctx)]))
      in if counter \<le> 0
         then (if elapsed n \<ge> interval then (jobs, tr')
               else run_jobs elapsed interval ctx counter (Suc n) jobs tr')
         else run_jobs elapsed interval ctx counter n jobs tr')"

text \<open>\<^verbatim>\<open>/=\<close> and \<^verbatim>\<open>*=\<close> on the interval, then the clamping to the configured range.\<close>

definition next_tick_interval :: "int \<Rightarrow> int \<Rightarrow> int \<Rightarrow> int \<Rightarrow> int" where
  "next_tick_interval tick_cost cur mn mx =
     (let cur1 = (if tick_cost + tick_cost \<le> cur then cdiv cur 2
                  else if tick_cost \<ge> cur then cur * 2 else cur);
          mn1 = (if mn < 1 then 4 else mn);
          mx1 = (if mx < mn1 then mn1 else mx);
          cur2 = (if cur1 < mn1 then mn1 else cur1)
      in if cur2 > mx1 then mx1 else cur2)"

definition run_tick_handles :: "worker \<Rightarrow> run_trace" where
  "run_tick_handles w = concat (map (\<lambda>(i, t). case tk_action t of None \<Rightarrow> [] | Some a \<Rightarrow> [(a, wk_id w)])
     (tc_data (tick_handles w)))"

text \<open>
  \<open>tick_cost\<close> is the time from the start of the round to the end of the callbacks. The result is
  what the jobs ran, what the tick callbacks ran after them, and the worker.
\<close>

definition background_job_tick ::
  "(nat \<Rightarrow> int) \<Rightarrow> int \<Rightarrow> worker \<Rightarrow> int \<Rightarrow> int \<Rightarrow> int \<Rightarrow> run_trace \<times> run_trace \<times> worker" where
  "background_job_tick elapsed tick_cost w cur mn mx =
     (let (rest, tr) = run_jobs elapsed cur (wk_id w) 256 0 (private_jobs w) [];
          w1 = w\<lparr>private_jobs := rest\<rparr>
      in if tc_data (tick_handles w1) = [] then (tr, [], w1)
         else (tr, run_tick_handles w1,
               w1\<lparr>current_tick_interval_us := next_tick_interval tick_cost cur mn mx\<rparr>))"

section \<open>The thread\<close>

text \<open>The clock readings of one iteration, in the order of the source.\<close>

record loop_clock =
  lc_elapsed :: "nat \<Rightarrow> int"
  lc_tick_cost :: int
  lc_start :: timepoint
  lc_busy_end :: timepoint
  lc_sleep_end :: timepoint
  lc_preserve_start :: timepoint
  lc_preserve_end :: timepoint

text \<open>The condition under which the loop ends.\<close>

definition loop_ends :: "worker_set \<Rightarrow> worker \<Rightarrow> bool" where
  "loop_ends owner w \<longleftrightarrow> cleaning owner \<or>
     (wk_id w > current_expect_workers owner \<or> closing owner) \<and> tc_data (tick_handles w) = []"

definition account_busy :: "worker \<Rightarrow> timepoint \<Rightarrow> int \<Rightarrow> worker" where
  "account_busy w busy_end busy_rep =
     (let w1 = w\<lparr>cpu_time_busy_us := cpu_time_busy_us w + busy_rep\<rparr>; sec = to_time_t busy_end
      in if sec \<noteq> cpu_checkpoint_last_second w1
         then let w2 = w1\<lparr>cpu_checkpoint_last_second := sec,
                          cpu_time_last_second_busy_us := ns_to_us (busy_end - from_time_t sec)\<rparr>
              in if cpu_checkpoint_last_minute w2 > sec \<or> cpu_checkpoint_last_minute w2 + MINITE_SECONDS < sec
                 then let m = sec - (sec - cdiv sec MINITE_SECONDS * MINITE_SECONDS)
                      in w2\<lparr>cpu_checkpoint_last_minute := m,
                            cpu_time_last_minute_busy_us := ns_to_us (busy_end - from_time_t m)\<rparr>
                 else w2\<lparr>cpu_time_last_minute_busy_us := cpu_time_last_minute_busy_us w2 + busy_rep\<rparr>
         else w1\<lparr>cpu_time_last_second_busy_us := cpu_time_last_second_busy_us w1 + busy_rep,
                 cpu_time_last_minute_busy_us := cpu_time_last_minute_busy_us w1 + busy_rep\<rparr>)"

definition account_sleep :: "worker \<Rightarrow> timepoint \<Rightarrow> timepoint \<Rightarrow> worker" where
  "account_sleep w from until =
     (if until > from
      then w\<lparr>cpu_time_sleep_us := cpu_time_sleep_us w + ns_to_us (until - from),
             current_tick_second_waited_us := current_tick_second_waited_us w + ns_to_us (until - from)\<rparr>
      else w)"

text \<open>
  One iteration after the exit check. The status is \<^verbatim>\<open>kSleeping\<close> only while the thread waits,
  so it is \<^verbatim>\<open>kRunning\<close> at the end.
\<close>

definition worker_loop_body :: "worker_set \<Rightarrow> loop_clock \<Rightarrow> worker \<Rightarrow> run_trace \<times> run_trace \<times> worker" where
  "worker_loop_body owner clk w =
     (let tick_interval = current_tick_interval_us w;
          (tr, ticks, w1) = background_job_tick (lc_elapsed clk) (lc_tick_cost clk) w tick_interval
                       (configure_tick_min_interval owner) (configure_tick_max_interval owner);
          busy_end = (if lc_busy_end clk \<le> lc_start clk then lc_start clk else lc_busy_end clk);
          busy_rep = ns_to_us (busy_end - lc_start clk);
          w2 = account_busy w1 busy_end busy_rep;
          w3 = w2\<lparr>current_tick_second_busy_us := current_tick_second_busy_us w2 + busy_rep\<rparr>;
          w4 = (if busy_end - lc_start clk < us_to_ns tick_interval
                then account_sleep (w3\<lparr>wk_status := kRunning\<rparr>) busy_end (lc_sleep_end clk) else w3);
          w5 = (if current_tick_second_busy_us w4 + current_tick_second_waited_us w4 \<ge> 1000000
                then account_sleep (w4\<lparr>current_tick_second_busy_us := 0, current_tick_second_waited_us := 0,
                                       wk_status := kRunning\<rparr>)
                       (lc_preserve_start clk) (lc_preserve_end clk)
                else w4)
      in (tr, ticks, w5))"

text \<open>How long the thread waits at the end of a full second of work.\<close>

definition preserve_wait :: "worker_set \<Rightarrow> int" where
  "preserve_wait owner = (if configure_tick_preserve owner \<le> 0 then 8000 else configure_tick_preserve owner)"

text \<open>The end of the thread: the jobs that are left go back to the shared queue.\<close>

definition worker_exiting :: "worker \<Rightarrow> worker" where
  "worker_exiting w = w\<lparr>wk_status := kExiting\<rparr>"

fun drain_jobs :: "worker_job_data list \<Rightarrow> worker_job_data list \<Rightarrow> worker_job_data list" where
  "drain_jobs [] shared = shared"
| "drain_jobs (job # jobs) shared = drain_jobs jobs (shared @ [job])"

definition worker_drain :: "worker_set \<Rightarrow> worker \<Rightarrow> worker_set \<times> worker" where
  "worker_drain owner w =
     (owner\<lparr>shared_jobs := drain_jobs (private_jobs w) (shared_jobs owner)\<rparr>, w\<lparr>private_jobs := []\<rparr>)"

definition worker_exited :: "worker \<Rightarrow> worker" where
  "worker_exited w = w\<lparr>wk_status := kExited\<rparr>"

definition worker_start :: "worker \<Rightarrow> worker" where
  "worker_start w = (if wk_thread w then w else w\<lparr>wk_thread := True\<rparr>)"

definition worker_thread_begin :: "worker \<Rightarrow> worker" where
  "worker_thread_begin w = w\<lparr>wk_status := kRunning\<rparr>"

definition worker_destroy :: "worker \<Rightarrow> worker" where
  "worker_destroy w = (if wk_status w \<noteq> kExited then w\<lparr>wk_thread := False, wk_status := kExited\<rparr> else w\<lparr>wk_thread := False\<rparr>)"

section \<open>The load key satisfies the comparator contract\<close>

text \<open>
  The rule that ignores the last second below 8 ms is an ordering because it compares the
  values clamped from below.
\<close>

definition ck_rank :: "worker_compare_key \<Rightarrow> nat \<times> int \<times> int \<times> nat \<times> nat" where
  "ck_rank k = (ck_pending_job_size k, max 7999 (ck_last_second_busy_us k), ck_last_minute_busy_us k,
     ck_worker_id k, ck_worker_ptr k)"

lemma key_less_rank: "key_less l r \<longleftrightarrow> ck_rank l < ck_rank r"
  by (auto simp: key_less_def ck_rank_def less_prod_def' max_def)

interpretation load_order: compare_req key_less
  unfolding key_less_rank by (rule compare_req_key)

section \<open>What a round does\<close>

lemma drain_jobs_append: "drain_jobs jobs shared = shared @ jobs"
  by (induction jobs arbitrary: shared) auto

lemma next_tick_interval_bounds:
  assumes "1 \<le> mn" and "mn \<le> mx"
  shows "mn \<le> next_tick_interval cost cur mn mx \<and> next_tick_interval cost cur mn mx \<le> mx"
  using assms by (auto simp: next_tick_interval_def Let_def)

definition actions_of :: "worker_job_data list \<Rightarrow> nat list" where
  "actions_of jobs = List.map_filter (\<lambda>j. case jd_action j of Some (Some a) \<Rightarrow> Some a | _ \<Rightarrow> None) jobs"

lemma actions_of_simps [simp]:
  "actions_of [] = []"
  "actions_of (j # js) = (case jd_action j of Some (Some a) \<Rightarrow> a # actions_of js | _ \<Rightarrow> actions_of js)"
  by (auto simp: actions_of_def map_filter_simps split: option.splits)

lemma actions_of_append [simp]: "actions_of (xs @ ys) = actions_of xs @ actions_of ys"
  by (induction xs) (auto split: option.splits)

text \<open>Jobs are popped in order, each is run once, and what is not popped stays.\<close>

lemma run_jobs_prefix:
  "run_jobs elapsed interval ctx counter n jobs tr = (rest, tr') \<Longrightarrow>
   \<exists>ran. jobs = ran @ rest \<and> tr' = tr @ map (\<lambda>a. (a, ctx)) (actions_of ran)"
proof (induction jobs arbitrary: counter n tr)
  case Nil
  then show ?case by simp
next
  case (Cons job jobs)
  obtain c tr1 where step: "(case jd_action job of None \<Rightarrow> (counter, tr) | Some None \<Rightarrow> (counter - 1, tr)
      | Some (Some a) \<Rightarrow> (0, tr @ [(a, ctx)])) = (c, tr1)" by (metis surj_pair)
  then have tr1: "tr1 = tr @ map (\<lambda>a. (a, ctx)) (actions_of [job])" by (auto split: option.splits)
  have "rest = jobs \<and> tr' = tr1 \<or> (\<exists>c' n'. run_jobs elapsed interval ctx c' n' jobs tr1 = (rest, tr'))"
    using Cons.prems step by (auto simp: Let_def split: if_splits)
  then obtain ran where "jobs = ran @ rest" "tr' = tr1 @ map (\<lambda>a. (a, ctx)) (actions_of ran)"
    using Cons.IH by fastforce
  then show ?case using tr1 by (intro exI[of _ "job # ran"]) (auto split: option.splits)
qed

text \<open>The loop gives up only when the time is over: with time left it empties the queue.\<close>

lemma run_jobs_all:
  assumes "\<And>n. elapsed n < interval"
  shows "fst (run_jobs elapsed interval ctx counter n jobs tr) = []"
proof -
  have "\<not> interval \<le> elapsed n" for n using assms by (simp add: not_le)
  then show ?thesis by (induction jobs arbitrary: counter n tr) (auto simp: Let_def split: prod.splits)
qed

lemma account_frame [simp]:
  "private_jobs (account_busy w t r) = private_jobs w" "private_jobs (account_sleep w s t) = private_jobs w"
  "wk_id (account_busy w t r) = wk_id w" "wk_id (account_sleep w s t) = wk_id w"
  "tick_handles (account_busy w t r) = tick_handles w" "tick_handles (account_sleep w s t) = tick_handles w"
  "wk_status (account_busy w t r) = wk_status w" "wk_status (account_sleep w s t) = wk_status w"
  "wk_ptr (account_busy w t r) = wk_ptr w" "wk_ptr (account_sleep w s t) = wk_ptr w"
  "current_tick_interval_us (account_busy w t r) = current_tick_interval_us w"
  "current_tick_interval_us (account_sleep w s t) = current_tick_interval_us w"
  by (simp_all add: account_busy_def account_sleep_def Let_def)

end
