(* ===== verification/Worker_Pool.thy ===== *)
theory Worker_Pool
  imports Worker_Thread
begin

text \<open>
  The module \<^verbatim>\<open>worker_pool_module\<close>
  (\<^verbatim>\<open>src/atframe/modules/worker_pool_module.cpp\<close>): configuration, selection of a worker,
  spawning of jobs, scaling, rebalancing, shutdown. The pointers \<^verbatim>\<open>worker_set_\<close>,
  \<^verbatim>\<open>scaling_configure_\<close> and \<^verbatim>\<open>scaling_statistics_\<close> are set by the constructor and never
  reset, and the worker vector only receives results of \<^verbatim>\<open>make_shared\<close>: their null checks have
  no branch in the model. A worker pointer is an index into the vector. \<open>clk\<close> is what the system
  clock reads during a call; \<^verbatim>\<open>uint32_t\<close> counts are \<open>nat\<close> with the casts written out.
\<close>

section \<open>State\<close>

record scaling_configure =
  queue_size_limit :: nat
  max_workers :: nat
  min_workers :: nat
  scaling_up_cpu_permillage :: int
  scaling_up_queue_size :: nat
  scaling_up_stable_window_seconds :: int
  scaling_down_cpu_permillage :: int
  scaling_down_queue_size :: nat
  scaling_down_stable_window_seconds :: int
  leak_scan_interval_seconds :: int

record scaling_statistics =
  last_scaling_up_checkpoint :: timepoint
  last_scaling_down_checkpoint :: timepoint
  leak_scan_checkpoint :: timepoint

record worker_pool =
  pool_set :: worker_set
  pool_conf :: scaling_configure
  pool_stat :: scaling_statistics
  pool_actived :: bool
  pool_next_ptr :: nat

definition worker_set_create :: worker_set where
  "worker_set_create = \<lparr>need_scaling_up = False, closing = False, cleaning = False,
     current_expect_workers = 2, configure_tick_min_interval = 4, configure_tick_max_interval = 128,
     configure_tick_preserve = 8000, workers = [], removed_scaling_up_time = 0,
     removed_scaling_down_time = 0, shared_jobs = []\<rparr>"

definition scaling_configure_create :: scaling_configure where
  "scaling_configure_create = \<lparr>queue_size_limit = 20480, max_workers = 4, min_workers = 2,
     scaling_up_cpu_permillage = 600, scaling_up_queue_size = 16, scaling_up_stable_window_seconds = 10,
     scaling_down_cpu_permillage = 500, scaling_down_queue_size = 12,
     scaling_down_stable_window_seconds = 10, leak_scan_interval_seconds = 300\<rparr>"

definition scaling_statistics_create :: "timepoint \<Rightarrow> scaling_statistics" where
  "scaling_statistics_create now = \<lparr>last_scaling_up_checkpoint = now, last_scaling_down_checkpoint = now,
     leak_scan_checkpoint = now\<rparr>"

definition worker_pool_create :: "timepoint \<Rightarrow> worker_pool" where
  "worker_pool_create now = \<lparr>pool_set = worker_set_create, pool_conf = scaling_configure_create,
     pool_stat = scaling_statistics_create now, pool_actived = False, pool_next_ptr = 1\<rparr>"

abbreviation set_workers :: "worker_pool \<Rightarrow> worker list \<Rightarrow> worker_pool" where
  "set_workers p ws \<equiv> p\<lparr>pool_set := (pool_set p)\<lparr>workers := ws\<rparr>\<rparr>"

section \<open>Configuration\<close>

text \<open>A \<^verbatim>\<open>google.protobuf.Duration\<close>: seconds and nanoseconds.\<close>

type_synonym duration = "int \<times> int"

record worker_pool_cfg =
  cf_queue_size :: nat
  cf_tick_min_interval :: duration
  cf_tick_max_interval :: duration
  cf_tick_preserve_interval :: duration
  cf_worker_number_min :: nat
  cf_worker_number_max :: nat
  cf_scaling_up_stabilization_window :: duration
  cf_scaling_up_cpu_permillage :: int
  cf_scaling_up_queue_size :: nat
  cf_scaling_down_stabilization_window :: duration
  cf_scaling_down_cpu_permillage :: int
  cf_scaling_down_queue_size :: nat
  cf_leak_scan_interval :: duration

definition duration_us :: "duration \<Rightarrow> int" where
  "duration_us d = cdiv (snd d) 1000 + fst d * 1000000"

definition to_int32 :: "int \<Rightarrow> int" where
  "to_int32 x = (x + 2 ^ 31) mod 2 ^ 32 - 2 ^ 31"

definition reload_tick_intervals :: "worker_pool_cfg \<Rightarrow> worker_set \<Rightarrow> worker_set" where
  "reload_tick_intervals cfg ws =
     (let mx = duration_us (cf_tick_max_interval cfg);
          mn = duration_us (cf_tick_min_interval cfg);
          pr = duration_us (cf_tick_preserve_interval cfg)
      in ws\<lparr>configure_tick_max_interval := (if mx \<le> 1000 then 128000 else mx),
            configure_tick_min_interval := (if mn < 1000 then 4000 else mn),
            configure_tick_preserve := (if pr < 1000 then 8000 else pr)\<rparr>)"

definition reload_scaling :: "worker_pool_cfg \<Rightarrow> scaling_configure" where
  "reload_scaling cfg =
     (let mx0 = cf_worker_number_max cfg;
          mn0 = cf_worker_number_min cfg;
          mn1 = (if mn0 > mx0 then mx0 else mn0);
          mn2 = (if mn1 \<le> 0 then 1 else mn1);
          mx1 = (if mn2 > mx0 then mn2 else mx0);
          up0 = cf_scaling_down_cpu_permillage cfg;
          up1 = (if up0 \<le> 0 then 600 else up0);
          upw = to_int32 (fst (cf_scaling_up_stabilization_window cfg));
          dn0 = cf_scaling_down_cpu_permillage cfg;
          dn1 = (if dn0 \<le> 0 then 500 else dn0);
          dnw = to_int32 (fst (cf_scaling_down_stabilization_window cfg));
          lk = to_int32 (fst (cf_leak_scan_interval cfg))
      in \<lparr>queue_size_limit = cf_queue_size cfg, max_workers = mx1, min_workers = mn2,
          scaling_up_cpu_permillage = up1, scaling_up_queue_size = cf_scaling_up_queue_size cfg,
          scaling_up_stable_window_seconds = (if upw \<le> 0 then 10 else upw),
          scaling_down_cpu_permillage = (if dn1 > up1 then up1 else dn1),
          scaling_down_queue_size = cf_scaling_down_queue_size cfg,
          scaling_down_stable_window_seconds = (if dnw \<le> 0 then 10 else dnw),
          leak_scan_interval_seconds = (if lk \<le> 0 then 300 else lk)\<rparr>)"

definition apply_configure :: "worker_pool \<Rightarrow> worker_pool" where
  "apply_configure p = p\<lparr>pool_stat := (pool_stat p)\<lparr>last_scaling_up_checkpoint := from_time_t 0,
     last_scaling_down_checkpoint := from_time_t 0\<rparr>\<rparr>"

definition pool_init :: "worker_pool \<Rightarrow> worker_pool" where
  "pool_init p = apply_configure p"

definition pool_reload :: "worker_pool_cfg \<Rightarrow> worker_pool \<Rightarrow> worker_pool" where
  "pool_reload cfg p =
     (let p1 = p\<lparr>pool_set := reload_tick_intervals cfg (pool_set p), pool_conf := reload_scaling cfg\<rparr>
      in if pool_actived p1 then apply_configure p1
         else p1\<lparr>pool_set := (pool_set p1)\<lparr>need_scaling_up := True\<rparr>\<rparr>)"

section \<open>Selecting a worker\<close>

definition do_scaling_up :: "timepoint \<Rightarrow> worker_pool \<Rightarrow> worker_pool" where
  "do_scaling_up clk p =
     (let s = pool_set p
      in if \<not> need_scaling_up s then p
         else let n = length (workers s);
                  new = map (\<lambda>i. worker_start (worker_create (pool_next_ptr p + (i - n)) s ((i + 1) mod 2 ^ 32) clk))
                          [n..<current_expect_workers s]
              in p\<lparr>pool_set := s\<lparr>need_scaling_up := False, workers := workers s @ new\<rparr>,
                   pool_next_ptr := pool_next_ptr p + length new\<rparr>)"

fun find_worker_id :: "nat \<Rightarrow> nat \<Rightarrow> worker list \<Rightarrow> nat option" where
  "find_worker_id i k [] = None"
| "find_worker_id i k (w # ws) = (if wk_id w = k then Some i else find_worker_id (Suc i) k ws)"

text \<open>\<^verbatim>\<open>select_worker(context, output)\<close>: the result code and the worker found.\<close>

definition select_worker_context ::
  "timepoint \<Rightarrow> nat \<Rightarrow> worker_pool \<Rightarrow> (err_code \<times> nat option) \<times> worker_pool" where
  "select_worker_context clk worker_id p0 =
     (let p = do_scaling_up clk p0; s = pool_set p
      in if worker_id \<le> 0 then ((EN_ATBUS_ERR_PARAMS, None), p)
         else if worker_id > current_expect_workers s
         then ((if closing s then EN_ATAPP_ERR_WORKER_POOL_CLOSED
                else EN_ATAPP_ERR_WORKER_POOL_NO_AVAILABLE_WORKER, None), p)
         else
           let o1 = (if worker_id \<le> length (workers s) \<and> wk_id (workers s ! (worker_id - 1)) = worker_id
                     then Some (worker_id - 1) else None);
               o2 = (case o1 of Some i \<Rightarrow> Some i | None \<Rightarrow> find_worker_id 0 worker_id (workers s));
               o3 = (case o2 of Some i \<Rightarrow> if is_exiting clk (workers s ! i) then None else Some i | None \<Rightarrow> None)
           in case o3 of Some i \<Rightarrow> ((EN_SUCCESS, Some i), p)
              | None \<Rightarrow> ((if closing s then EN_ATAPP_ERR_WORKER_POOL_CLOSED
                         else EN_ATAPP_ERR_WORKER_POOL_NO_AVAILABLE_WORKER, None), p))"

fun select_loop ::
  "timepoint \<Rightarrow> nat \<Rightarrow> nat \<Rightarrow> worker list \<Rightarrow> worker_compare_key \<Rightarrow> nat option \<Rightarrow> nat option" where
  "select_loop clk expect i [] min_key ret = ret"
| "select_loop clk expect i (w # ws) min_key ret =
     (if is_exiting clk w then select_loop clk expect (Suc i) ws min_key ret
      else if wk_id w > expect then ret
      else if key_less (make_compare_key w) min_key
      then select_loop clk expect (Suc i) ws (make_compare_key w) (Some i)
      else select_loop clk expect (Suc i) ws min_key ret)"

definition select_worker :: "timepoint \<Rightarrow> worker_pool \<Rightarrow> nat option \<times> worker_pool" where
  "select_worker clk p0 =
     (let p = do_scaling_up clk p0; s = pool_set p
      in (select_loop clk (current_expect_workers s) 0 (workers s) key_max None, p))"

section \<open>Spawning jobs\<close>

definition emplace_to :: "nat \<Rightarrow> worker_job_data \<Rightarrow> worker_pool \<Rightarrow> worker_pool" where
  "emplace_to i job p = set_workers p ((workers (pool_set p))[i := worker_emplace (workers (pool_set p) ! i) job])"

text \<open>The result is the code, the selected context and the pool.\<close>

definition pool_spawn :: "timepoint \<Rightarrow> job_action \<Rightarrow> worker_pool \<Rightarrow> err_code \<times> nat option \<times> worker_pool" where
  "pool_spawn clk action p0 =
     (if action = None then (EN_ATBUS_ERR_PARAMS, None, p0)
      else
        let (worker, p) = select_worker clk p0; s = pool_set p; job = \<lparr>jd_action = action\<rparr>
        in case worker of
             None \<Rightarrow> if cleaning s then (EN_ATAPP_ERR_WORKER_POOL_CLOSED, None, p)
                     else (EN_SUCCESS, Some 0, p\<lparr>pool_set := s\<lparr>shared_jobs := shared_jobs s @ [job]\<rparr>\<rparr>)
           | Some i \<Rightarrow> if length (private_jobs (workers s ! i)) \<ge> queue_size_limit (pool_conf p)
                       then (EN_ATAPP_ERR_WORKER_POOL_BUSY, None, p)
                       else (EN_SUCCESS, Some (wk_id (workers s ! i)), emplace_to i job p))"

definition pool_spawn_context ::
  "timepoint \<Rightarrow> job_action \<Rightarrow> nat \<Rightarrow> worker_pool \<Rightarrow> err_code \<times> worker_pool" where
  "pool_spawn_context clk action ctx p0 =
     (if action = None then (EN_ATBUS_ERR_PARAMS, p0)
      else
        let ((code, worker), p) = select_worker_context clk ctx p0
        in case worker of
             None \<Rightarrow> (code, p)
           | Some i \<Rightarrow> if length (private_jobs (workers (pool_set p) ! i)) \<ge> queue_size_limit (pool_conf p)
                       then (EN_ATAPP_ERR_WORKER_POOL_BUSY, p)
                       else (EN_SUCCESS, emplace_to i \<lparr>jd_action = action\<rparr> p))"

section \<open>Tick callbacks and intervals\<close>

definition pool_add_tick_callback ::
  "timepoint \<Rightarrow> nat option \<Rightarrow> nat \<Rightarrow> worker_pool \<Rightarrow> tick_action_handle option \<times> worker_pool" where
  "pool_add_tick_callback clk action ctx p0 =
     (let ((code, worker), p) = select_worker_context clk ctx p0; ws = workers (pool_set p)
      in case worker of None \<Rightarrow> (None, p)
         | Some i \<Rightarrow> let (ah, w) = worker_add_tick_callback (ws ! i) kWorkerTickHandleSpecify action
                    in (Some ah, set_workers p (ws[i := w])))"

definition pool_remove_tick_callback ::
  "timepoint \<Rightarrow> tick_action_handle option \<Rightarrow> worker_pool \<Rightarrow> bool \<times> tick_action_handle option \<times> worker_pool" where
  "pool_remove_tick_callback clk handle p0 =
     (case handle of None \<Rightarrow> (False, None, p0)
      | Some ah \<Rightarrow>
          if ah_type ah \<noteq> kWorkerTickHandleSpecify then (False, Some ah, p0)
          else let ((code, worker), p) = select_worker_context clk (ah_specify_worker ah) p0; ws = workers (pool_set p)
               in case worker of None \<Rightarrow> (False, Some ah, p)
                  | Some i \<Rightarrow> let (r, ah', w) = worker_remove_tick_callback (ws ! i) ah
                             in (r, Some ah', set_workers p (ws[i := w])))"

definition pool_reset_tick_interval :: "timepoint \<Rightarrow> nat \<Rightarrow> int \<Rightarrow> worker_pool \<Rightarrow> bool \<times> worker_pool" where
  "pool_reset_tick_interval clk ctx new_tick_interval p0 =
     (let ((code, worker), p) = select_worker_context clk ctx p0; s = pool_set p
      in case worker of None \<Rightarrow> (False, p)
         | Some i \<Rightarrow>
             let t1 = (if new_tick_interval < configure_tick_min_interval s
                       then configure_tick_min_interval s else new_tick_interval);
                 t2 = (if t1 > configure_tick_max_interval s then configure_tick_max_interval s else t1)
             in (True, set_workers p ((workers s)[i := worker_reset_tick_interval (workers s ! i) t2])))"

definition pool_get_tick_interval :: "timepoint \<Rightarrow> nat \<Rightarrow> worker_pool \<Rightarrow> int \<times> worker_pool" where
  "pool_get_tick_interval clk ctx p0 =
     (let ((code, worker), p) = select_worker_context clk ctx p0
      in (case worker of None \<Rightarrow> 0 | Some i \<Rightarrow> current_tick_interval_us (workers (pool_set p) ! i), p))"

section \<open>Enumeration and statistics\<close>

datatype worker_scaling_mode = kStable | kDynamic | kPendingToDestroy

definition get_current_worker_count :: "worker_pool \<Rightarrow> nat" where
  "get_current_worker_count p = length (workers (pool_set p))"

fun stable_loop :: "(nat \<Rightarrow> worker_scaling_mode \<Rightarrow> bool) \<Rightarrow> nat list \<Rightarrow> (nat \<times> worker_scaling_mode) list \<times> bool" where
  "stable_loop fn [] = ([], True)"
| "stable_loop fn (i # is) =
     (if fn i kStable then let (vs, c) = stable_loop fn is in ((i, kStable) # vs, c)
      else ([(i, kStable)], False))"

fun dynamic_loop ::
  "(nat \<Rightarrow> worker_scaling_mode \<Rightarrow> bool) \<Rightarrow> timepoint \<Rightarrow> nat \<Rightarrow> nat \<Rightarrow> worker list \<Rightarrow> (nat \<times> worker_scaling_mode) list" where
  "dynamic_loop fn clk min_count except_count [] = []"
| "dynamic_loop fn clk min_count except_count (w # ws) =
     (if is_exiting clk w then dynamic_loop fn clk min_count except_count ws
      else if wk_id w \<le> min_count then dynamic_loop fn clk min_count except_count ws
      else let m = (if wk_id w \<le> except_count then kDynamic else kPendingToDestroy)
           in (wk_id w, m) # (if fn (wk_id w) m then dynamic_loop fn clk min_count except_count ws else []))"

text \<open>
  \<^verbatim>\<open>foreach_worker_quickly\<close> and \<^verbatim>\<open>foreach_worker\<close> visit the same workers (the second one
  works on a copy of the vector): the visits, where \<open>fn\<close> says whether to go on.
\<close>

definition foreach_worker ::
  "(nat \<Rightarrow> worker_scaling_mode \<Rightarrow> bool) \<Rightarrow> timepoint \<Rightarrow> worker_pool \<Rightarrow> (nat \<times> worker_scaling_mode) list" where
  "foreach_worker fn clk p =
     (let except_count = current_expect_workers (pool_set p); min_count = min_workers (pool_conf p);
          (vs, should_continue) = stable_loop fn [1..<Suc min_count]
      in if should_continue then vs @ dynamic_loop fn clk min_count except_count (workers (pool_set p)) else vs)"

definition foreach_worker_quickly ::
  "(nat \<Rightarrow> worker_scaling_mode \<Rightarrow> bool) \<Rightarrow> timepoint \<Rightarrow> worker_pool \<Rightarrow> (nat \<times> worker_scaling_mode) list" where
  "foreach_worker_quickly fn clk p =
     (let except_count = current_expect_workers (pool_set p); min_count = min_workers (pool_conf p);
          (vs, should_continue) = stable_loop fn [1..<Suc min_count]
      in if \<not> should_continue then vs
         else vs @ dynamic_loop fn clk min_count except_count (workers (pool_set p)))"

definition get_configure_worker_except_count :: "worker_pool \<Rightarrow> nat" where
  "get_configure_worker_except_count p = current_expect_workers (pool_set p)"

definition get_configure_worker_min_count :: "worker_pool \<Rightarrow> nat" where
  "get_configure_worker_min_count p = min_workers (pool_conf p)"

definition get_configure_worker_max_count :: "worker_pool \<Rightarrow> nat" where
  "get_configure_worker_max_count p = max_workers (pool_conf p)"

definition get_configure_worker_queue_size :: "worker_pool \<Rightarrow> nat" where
  "get_configure_worker_queue_size p = queue_size_limit (pool_conf p)"

definition get_configure_tick_min_interval :: "worker_pool \<Rightarrow> int" where
  "get_configure_tick_min_interval p = configure_tick_min_interval (pool_set p)"

definition get_configure_tick_max_interval :: "worker_pool \<Rightarrow> int" where
  "get_configure_tick_max_interval p = configure_tick_max_interval (pool_set p)"

definition get_statistics_last_second_busy_cpu_time :: "worker_pool \<Rightarrow> int" where
  "get_statistics_last_second_busy_cpu_time p = sum_list (map cpu_time_last_second_busy_us (workers (pool_set p)))"

definition get_statistics_last_minute_busy_cpu_time :: "worker_pool \<Rightarrow> int" where
  "get_statistics_last_minute_busy_cpu_time p = sum_list (map cpu_time_last_minute_busy_us (workers (pool_set p)))"

definition context_is_valid :: "nat \<Rightarrow> bool" where
  "context_is_valid worker_id \<longleftrightarrow> worker_id > 0"

section \<open>Shrinking and repair\<close>

text \<open>The loop over the back of the vector; the list is the vector from its end.\<close>

fun reduce_loop :: "timepoint \<Rightarrow> nat \<Rightarrow> worker list \<Rightarrow> int \<Rightarrow> int \<Rightarrow> worker list \<times> int \<times> int" where
  "reduce_loop clk expect [] up down = ([], up, down)"
| "reduce_loop clk expect (w # ws) up down =
     (if \<not> length (w # ws) > expect then (w # ws, up, down)
      else if \<not> is_exited clk w then (w # ws, up, down)
      else reduce_loop clk expect ws (up + fst (collect_scaling_up_cpu_time w))
             (down + fst (collect_scaling_down_cpu_time w)))"

definition internal_reduce_workers :: "timepoint \<Rightarrow> worker_pool \<Rightarrow> bool \<times> worker_pool" where
  "internal_reduce_workers clk p =
     (let s = pool_set p;
          expect = (if closing s then 0 else current_expect_workers s);
          (rest, up, down) = reduce_loop clk expect (rev (workers s)) (removed_scaling_up_time s)
                               (removed_scaling_down_time s)
      in (rest \<noteq> [], p\<lparr>pool_set := s\<lparr>workers := rev rest, removed_scaling_up_time := up,
                                      removed_scaling_down_time := down\<rparr>\<rparr>))"

fun renumber :: "nat \<Rightarrow> worker list \<Rightarrow> worker list" where
  "renumber i [] = []"
| "renumber i (w # ws) = w\<lparr>wk_id := (i + 1) mod 2 ^ 32\<rparr> # renumber (Suc i) ws"

definition internal_autofix_workers :: "timepoint \<Rightarrow> worker_pool \<Rightarrow> worker_pool" where
  "internal_autofix_workers clk p =
     (let s = pool_set p;
          expect = (if closing s then 0 else current_expect_workers s)
      in if \<not> list_ex (is_exited clk) (take expect (workers s)) then p
         else let dead = filter (is_exited clk) (workers s);
                  alive = filter (\<lambda>w. \<not> is_exited clk w) (workers s)
              in p\<lparr>pool_set := s\<lparr>workers := renumber 0 alive,
                     removed_scaling_up_time := removed_scaling_up_time s +
                       sum_list (map (fst \<circ> collect_scaling_up_cpu_time) dead),
                     removed_scaling_down_time := removed_scaling_down_time s +
                       sum_list (map (fst \<circ> collect_scaling_down_cpu_time) dead)\<rparr>\<rparr>)"

section \<open>Rebalancing\<close>

text \<open>\<^verbatim>\<open>std::map<worker_compare_key, worker>\<close>: sorted by key, one entry per key.\<close>

type_synonym load_map = "(worker_compare_key \<times> nat) list"

definition map_put :: "worker_compare_key \<Rightarrow> nat \<Rightarrow> load_map \<Rightarrow> load_map" where
  "map_put k i m = insert_by (\<lambda>a b. key_less (fst a) (fst b)) (k, i)
     (filter (\<lambda>e. key_less (fst e) k \<or> key_less k (fst e)) m)"

fun collect_loads :: "timepoint \<Rightarrow> nat \<Rightarrow> nat \<Rightarrow> worker list \<Rightarrow> load_map \<Rightarrow> load_map" where
  "collect_loads clk expect i [] m = m"
| "collect_loads clk expect i (w # ws) m =
     (if is_exiting clk w then collect_loads clk expect (Suc i) ws m
      else if wk_id w > expect then m
      else collect_loads clk expect (Suc i) ws (map_put (make_compare_key w) i m))"

fun rebalance_loop :: "worker_job_data list \<Rightarrow> worker list \<Rightarrow> load_map \<Rightarrow> worker list" where
  "rebalance_loop [] ws m = ws"
| "rebalance_loop (job # jobs) ws m =
     (let i = snd (hd m); w = worker_emplace (ws ! i) job
      in rebalance_loop jobs (ws[i := w]) (map_put (make_compare_key w) i (tl m)))"

definition rebalance_jobs :: "timepoint \<Rightarrow> worker_pool \<Rightarrow> worker_pool" where
  "rebalance_jobs clk p0 =
     (if shared_jobs (pool_set p0) = [] then p0
      else
        let p = do_scaling_up clk p0; s = pool_set p;
            m = collect_loads clk (current_expect_workers s) 0 (workers s) []
        in if m = [] then p
           else p\<lparr>pool_set := s\<lparr>shared_jobs := [], workers := rebalance_loop (shared_jobs s) (workers s) m\<rparr>\<rparr>)"

definition do_shared_job_on_main_thread :: "(nat \<Rightarrow> int) \<Rightarrow> worker_pool \<Rightarrow> run_trace \<times> worker_pool" where
  "do_shared_job_on_main_thread elapsed p =
     (let s = pool_set p;
          tick_interval_us = (if configure_tick_max_interval s \<le> 0 then 8000 else configure_tick_max_interval s);
          (rest, tr) = run_jobs elapsed tick_interval_us 0 256 0 (shared_jobs s) []
      in (tr, p\<lparr>pool_set := s\<lparr>shared_jobs := rest\<rparr>\<rparr>))"

section \<open>Ticks and shutdown\<close>

definition collect_up :: "worker list \<Rightarrow> int \<times> worker list" where
  "collect_up ws = (sum_list (map (fst \<circ> collect_scaling_up_cpu_time) ws),
                    map (snd \<circ> collect_scaling_up_cpu_time) ws)"

definition collect_down :: "worker list \<Rightarrow> int \<times> worker list" where
  "collect_down ws = (sum_list (map (fst \<circ> collect_scaling_down_cpu_time) ws),
                      map (snd \<circ> collect_scaling_down_cpu_time) ws)"

definition queue_total :: "worker list \<Rightarrow> nat" where
  "queue_total ws = sum_list (map (length \<circ> private_jobs) ws)"

definition to_uint32 :: "int \<Rightarrow> nat" where
  "to_uint32 x = nat (x mod 2 ^ 32)"

definition scaling_up_target :: "scaling_configure \<Rightarrow> int \<Rightarrow> int \<Rightarrow> nat \<Rightarrow> nat" where
  "scaling_up_target cf collect_cpu_time offset queue_size =
     (let t1 = (to_uint32 (cdiv (cdiv (collect_cpu_time * 1000) offset) (scaling_up_cpu_permillage cf)) + 1) mod 2 ^ 32;
          q = (queue_size div scaling_up_queue_size cf + 1) mod 2 ^ 32;
          t2 = (if scaling_up_queue_size cf > 0 \<and> q > t1 then q else t1)
      in if t2 > max_workers cf then max_workers cf else t2)"

definition scaling_down_target :: "scaling_configure \<Rightarrow> int \<Rightarrow> int \<Rightarrow> nat \<Rightarrow> nat" where
  "scaling_down_target cf collect_cpu_time offset queue_size =
     (let t1 = to_uint32 (cdiv (cdiv (collect_cpu_time * 1000) offset) (scaling_down_cpu_permillage cf));
          q = (queue_size div scaling_down_queue_size cf) mod 2 ^ 32;
          t2 = (if scaling_down_queue_size cf > 0 \<and> q > t1 then q else t1)
      in if t2 < min_workers cf then min_workers cf else t2)"

definition calculate_scaling_up :: "timepoint \<Rightarrow> nat \<Rightarrow> worker_pool \<Rightarrow> nat \<times> worker_pool" where
  "calculate_scaling_up now expect p =
     (let st = pool_stat p; s = pool_set p; cf = pool_conf p
      in if now < last_scaling_up_checkpoint st
         then (expect, p\<lparr>pool_stat := st\<lparr>last_scaling_up_checkpoint := now\<rparr>\<rparr>)
         else if now < last_scaling_up_checkpoint st + scaling_up_stable_window_seconds cf * SECOND_NS
         then (expect, p)
         else
           let offset = now - last_scaling_up_checkpoint st;
               p1 = p\<lparr>pool_stat := st\<lparr>last_scaling_up_checkpoint := now\<rparr>\<rparr>
           in if offset \<le> 0 then (expect, p1)
              else
                let (t, ws) = collect_up (workers s);
                    target = scaling_up_target cf (removed_scaling_up_time s + t) offset (queue_total (workers s))
                in (if target > expect then target else expect,
                    p1\<lparr>pool_set := s\<lparr>workers := ws, removed_scaling_up_time := 0\<rparr>\<rparr>))"

definition calculate_scaling_down :: "timepoint \<Rightarrow> nat \<Rightarrow> worker_pool \<Rightarrow> nat \<times> worker_pool" where
  "calculate_scaling_down now expect p =
     (let st = pool_stat p; s = pool_set p; cf = pool_conf p
      in if now < last_scaling_down_checkpoint st
         then (expect, p\<lparr>pool_stat := st\<lparr>last_scaling_down_checkpoint := now\<rparr>\<rparr>)
         else if now < last_scaling_down_checkpoint st + scaling_down_stable_window_seconds cf * SECOND_NS
         then (expect, p)
         else
           let offset = now - last_scaling_down_checkpoint st;
               p1 = p\<lparr>pool_stat := st\<lparr>last_scaling_down_checkpoint := now\<rparr>\<rparr>
           in if offset \<le> 0 then (expect, p1)
              else
                let (t, ws) = collect_down (workers s);
                    target = scaling_down_target cf (removed_scaling_down_time s + t) offset (queue_total (workers s))
                in (if target < expect then target else expect,
                    p1\<lparr>pool_set := s\<lparr>workers := ws, removed_scaling_down_time := 0\<rparr>\<rparr>))"

text \<open>\<^verbatim>\<open>tick(now)\<close>; the trace is what ran on the main thread.\<close>

definition pool_tick :: "timepoint \<Rightarrow> timepoint \<Rightarrow> (nat \<Rightarrow> int) \<Rightarrow> worker_pool \<Rightarrow> run_trace \<times> worker_pool" where
  "pool_tick clk now elapsed p =
     (if closing (pool_set p)
      then do_shared_job_on_main_thread elapsed (rebalance_jobs clk (snd (internal_reduce_workers clk p)))
      else
        let expect0 = current_expect_workers (pool_set p);
            expect1 = (if expect0 \<le> 0 then min_workers (pool_conf p) else expect0);
            (expect2, p1) = calculate_scaling_up now expect1 p;
            (expect3, p2) = calculate_scaling_down now expect2 p1;
            s = pool_set p2;
            p3 = p2\<lparr>pool_set := s\<lparr>current_expect_workers := expect3,
                     need_scaling_up := need_scaling_up s \<or> expect3 \<noteq> current_expect_workers s\<rparr>\<rparr>;
            interval = leak_scan_interval_seconds (pool_conf p3) * SECOND_NS;
            p4 = (if now \<ge> leak_scan_checkpoint (pool_stat p3) - interval \<and>
                     now < leak_scan_checkpoint (pool_stat p3) + interval
                  then snd (internal_reduce_workers clk p3)
                  else internal_autofix_workers clk (p3\<lparr>pool_stat := (pool_stat p3)\<lparr>leak_scan_checkpoint := now\<rparr>\<rparr>))
        in ([], rebalance_jobs clk p4))"

text \<open>\<^verbatim>\<open>stop()\<close> returns 1 while there is something left to do.\<close>

definition pool_stop :: "timepoint \<Rightarrow> worker_pool \<Rightarrow> int \<times> worker_pool" where
  "pool_stop clk p =
     (let s = pool_set p;
          p1 = (if closing s then p else p\<lparr>pool_set := s\<lparr>closing := True, current_expect_workers := 0\<rparr>\<rparr>);
          p2 = snd (internal_reduce_workers clk p1)
      in if list_ex (\<lambda>w. \<not> is_exiting clk w \<and> length (private_jobs w) > 0) (workers (pool_set p2)) then (1, p2)
         else if length (shared_jobs (pool_set p2)) > 0 then (1, p2)
         else (0, p2))"

text \<open>
  \<^verbatim>\<open>internal_cleanup()\<close>: the loop waits for the worker threads; \<open>env n\<close> is what they do to the
  pool during the \<open>n\<close>-th wait, \<open>clk n\<close> the clock at the \<open>n\<close>-th check. \<open>None\<close> when the fuel is
  used up before the last worker is gone.
\<close>

fun cleanup_loop ::
  "nat \<Rightarrow> nat \<Rightarrow> (nat \<Rightarrow> timepoint) \<Rightarrow> (nat \<Rightarrow> worker_pool \<Rightarrow> worker_pool) \<Rightarrow> worker_pool \<Rightarrow> worker_pool option" where
  "cleanup_loop 0 n clk env p = None"
| "cleanup_loop (Suc fuel) n clk env p =
     (let (left, p') = internal_reduce_workers (clk n) p
      in if left then cleanup_loop fuel (Suc n) clk env (env n p') else Some p')"

definition internal_cleanup ::
  "nat \<Rightarrow> (nat \<Rightarrow> timepoint) \<Rightarrow> (nat \<Rightarrow> worker_pool \<Rightarrow> worker_pool) \<Rightarrow> worker_pool \<Rightarrow> worker_pool option" where
  "internal_cleanup fuel clk env p =
     cleanup_loop fuel 0 clk env (p\<lparr>pool_set := (pool_set p)\<lparr>closing := True, cleaning := True\<rparr>\<rparr>)"

text \<open>How the waits of \<^verbatim>\<open>internal_cleanup\<close> grow.\<close>

definition next_sleep_interval :: "worker_set \<Rightarrow> int \<Rightarrow> int" where
  "next_sleep_interval s t = (if t * 2 > configure_tick_max_interval s then configure_tick_max_interval s else t * 2)"

end
