(* ===== verification/Worker_Jobs.thy ===== *)
theory Worker_Jobs
  imports Worker_Pool
begin

text \<open>
  Invariant of the worker pool and the fate of a job: a step relation interleaves the calls of the
  module with the steps of the worker threads, and every accepted job is either still queued or
  was run.
\<close>

section \<open>The invariant\<close>

abbreviation pool_workers :: "worker_pool \<Rightarrow> worker list" where
  "pool_workers p \<equiv> workers (pool_set p)"

definition conf_ok :: "scaling_configure \<Rightarrow> bool" where
  "conf_ok cf \<longleftrightarrow> 1 \<le> min_workers cf \<and> min_workers cf \<le> max_workers cf \<and> max_workers cf < 2 ^ 32 \<and>
     0 < scaling_down_cpu_permillage cf \<and> scaling_down_cpu_permillage cf \<le> scaling_up_cpu_permillage cf"

definition worker_ok :: "worker \<Rightarrow> bool" where
  "worker_ok w \<longleftrightarrow> (wk_status w = kExited \<longrightarrow> private_jobs w = [])"

definition ids_from :: "nat \<Rightarrow> worker list \<Rightarrow> bool" where
  "ids_from n ws \<longleftrightarrow> (\<forall>i < length ws. wk_id (ws ! i) = n + i)"

definition pool_inv :: "worker_pool \<Rightarrow> bool" where
  "pool_inv p \<longleftrightarrow> ids_from 1 (pool_workers p) \<and> length (pool_workers p) < 2 ^ 32 \<and>
     current_expect_workers (pool_set p) < 2 ^ 32 \<and> list_all worker_ok (pool_workers p) \<and> conf_ok (pool_conf p)"

text \<open>The clock does not call a worker leaked whose thread is about to start.\<close>

definition all_started :: "timepoint \<Rightarrow> worker_pool \<Rightarrow> bool" where
  "all_started clk p \<longleftrightarrow> list_all (\<lambda>w. \<not> never_started clk w) (pool_workers p)"

lemma ids_from_Nil [simp]: "ids_from n []"
  by (simp add: ids_from_def)

lemma ids_from_Cons [simp]: "ids_from n (w # ws) \<longleftrightarrow> wk_id w = n \<and> ids_from (Suc n) ws"
  by (auto simp: ids_from_def nth_Cons' less_Suc_eq_0_disj all_conj_distrib)

lemma ids_from_append [simp]: "ids_from n (xs @ ys) \<longleftrightarrow> ids_from n xs \<and> ids_from (n + length xs) ys"
  by (induction xs arbitrary: n) auto

lemma ids_from_update: "ids_from n ws \<Longrightarrow> wk_id w = wk_id (ws ! i) \<Longrightarrow> ids_from n (ws[i := w])"
  by (cases "i < length ws") (auto simp: ids_from_def nth_list_update)

lemma ids_from_map: "(\<And>w. wk_id (f w) = wk_id w) \<Longrightarrow> ids_from n (map f ws) = ids_from n ws"
  by (auto simp: ids_from_def)

section \<open>Pending jobs\<close>

definition queued :: "worker_pool \<Rightarrow> worker_job_data multiset" where
  "queued p = mset (shared_jobs (pool_set p)) + mset (concat (map private_jobs (pool_workers p)))"

lemma concat_update:
  assumes "i < length ws"
  shows "mset (concat (map f (ws[i := w]))) + mset (f (ws ! i)) = mset (concat (map f ws)) + mset (f w)"
proof -
  have "concat (map f ws) = concat (map f (take i ws)) @ f (ws ! i) @ concat (map f (drop (Suc i) ws))"
    using id_take_nth_drop[OF assms] by (metis concat.simps(2) concat_append list.simps(9) map_append)
  moreover have "concat (map f (ws[i := w])) = concat (map f (take i ws)) @ f w @ concat (map f (drop (Suc i) ws))"
    unfolding upd_conv_take_nth_drop[OF assms] by simp
  ultimately show ?thesis by simp
qed

lemma concat_emplace:
  assumes "i < length ws"
  shows "mset (concat (map private_jobs (ws[i := worker_emplace (ws ! i) job]))) =
    add_mset job (mset (concat (map private_jobs ws)))"
  using concat_update[OF assms, of private_jobs "worker_emplace (ws ! i) job"]
  by (simp add: worker_emplace_def)

subsection \<open>Scaling up\<close>

lemma scaled_up_ids:
  "n \<le> e \<Longrightarrow> e < 2 ^ 32 \<Longrightarrow>
   ids_from (Suc n) (map (\<lambda>i. worker_start (worker_create (f i) s ((i + 1) mod 2 ^ 32) clk)) [n..<e])"
  by (auto simp: ids_from_def worker_start_def worker_create_def)

lemma worker_fresh [simp]:
  "private_jobs (worker_start (worker_create a s b clk)) = []"
  "wk_status (worker_start (worker_create a s b clk)) = kCreated"
  "wk_created_time (worker_start (worker_create a s b clk)) = clk"
  by (simp_all add: worker_start_def worker_create_def)

lemma do_scaling_up_frame [simp]:
  "shared_jobs (pool_set (do_scaling_up clk p)) = shared_jobs (pool_set p)"
  "closing (pool_set (do_scaling_up clk p)) = closing (pool_set p)"
  "cleaning (pool_set (do_scaling_up clk p)) = cleaning (pool_set p)"
  "current_expect_workers (pool_set (do_scaling_up clk p)) = current_expect_workers (pool_set p)"
  "pool_conf (do_scaling_up clk p) = pool_conf p"
  by (simp_all add: do_scaling_up_def Let_def)

lemma do_scaling_up_workers:
  obtains new where "pool_workers (do_scaling_up clk p) = pool_workers p @ new"
    and "list_all (\<lambda>w. private_jobs w = [] \<and> wk_status w = kCreated \<and> wk_created_time w = clk) new"
    and "current_expect_workers (pool_set p) < 2 ^ 32 \<longrightarrow> ids_from (Suc (length (pool_workers p))) new"
    and "length (pool_workers p) + length new \<le> max (length (pool_workers p)) (current_expect_workers (pool_set p))"
proof (cases "need_scaling_up (pool_set p) \<and> length (pool_workers p) \<le> current_expect_workers (pool_set p)")
  case True
  let ?n = "length (pool_workers p)" and ?e = "current_expect_workers (pool_set p)"
  let ?new = "map (\<lambda>i. worker_start (worker_create (pool_next_ptr p + (i - ?n)) (pool_set p) ((i + 1) mod 2 ^ 32) clk)) [?n..<?e]"
  show ?thesis
  proof (rule that[of ?new])
    show "pool_workers (do_scaling_up clk p) = pool_workers p @ ?new" using True by (simp add: do_scaling_up_def Let_def)
    show "?e < 2 ^ 32 \<longrightarrow> ids_from (Suc ?n) ?new" using True by (intro impI scaled_up_ids) auto
  qed (auto simp: list_all_iff)
next
  case False
  then show ?thesis by (intro that[of "[]"]) (auto simp: do_scaling_up_def Let_def)
qed

lemma do_scaling_up_queued [simp]: "queued (do_scaling_up clk p) = queued p"
proof -
  obtain new where w: "pool_workers (do_scaling_up clk p) = pool_workers p @ new"
    and n: "list_all (\<lambda>w. private_jobs w = [] \<and> wk_status w = kCreated \<and> wk_created_time w = clk) new"
    by (rule do_scaling_up_workers)
  have "concat (map private_jobs new) = []" using n by (auto simp: list_all_iff)
  then show ?thesis by (simp add: queued_def w del: concat_eq_Nil_conv)
qed

lemma do_scaling_up_inv [invar_rules]:
  assumes "pool_inv p"
  shows "pool_inv (do_scaling_up clk p)"
proof -
  obtain new where w: "pool_workers (do_scaling_up clk p) = pool_workers p @ new"
    and n: "list_all (\<lambda>w. private_jobs w = [] \<and> wk_status w = kCreated \<and> wk_created_time w = clk) new"
    and "current_expect_workers (pool_set p) < 2 ^ 32 \<longrightarrow> ids_from (Suc (length (pool_workers p))) new"
    and "length (pool_workers p) + length new \<le> max (length (pool_workers p)) (current_expect_workers (pool_set p))"
    by (rule do_scaling_up_workers)
  then show ?thesis using assms by (auto simp: pool_inv_def worker_ok_def list_all_iff)
qed

lemma do_scaling_up_started: "all_started clk p \<Longrightarrow> all_started clk (do_scaling_up clk p)"
  by (rule do_scaling_up_workers[of clk p]) (auto simp: all_started_def never_started_def list_all_iff SECOND_NS_def)

section \<open>Selecting and spawning\<close>

definition eligible :: "timepoint \<Rightarrow> nat \<Rightarrow> worker \<Rightarrow> bool" where
  "eligible clk expect w \<longleftrightarrow> \<not> is_exiting clk w \<and> wk_id w \<le> expect"

lemma select_loop_spec:
  assumes "ids_from n ws"
  shows "select_loop clk e i ws k ret = ret \<and> (\<forall>w \<in> set ws. eligible clk e w \<longrightarrow> \<not> key_less (make_compare_key w) k) \<or>
    (\<exists>j < length ws. select_loop clk e i ws k ret = Some (i + j) \<and> eligible clk e (ws ! j) \<and>
       key_less (make_compare_key (ws ! j)) k \<and>
       (\<forall>w \<in> set ws. eligible clk e w \<longrightarrow> \<not> key_less (make_compare_key w) (make_compare_key (ws ! j))))"
  using assms
proof (induction ws arbitrary: n i k ret)
  case Nil
  then show ?case by simp
next
  case (Cons w ws)
  have ids: "wk_id w = n" "ids_from (Suc n) ws" using Cons.prems by auto
  note IH = Cons.IH[OF ids(2), of "Suc i"]
  consider (skip) "is_exiting clk w" | (stop) "\<not> is_exiting clk w" "wk_id w > e"
    | (take) "eligible clk e w" "key_less (make_compare_key w) k"
    | (leave) "eligible clk e w" "\<not> key_less (make_compare_key w) k"
    unfolding eligible_def not_le[symmetric] by blast
  then show ?case
  proof cases
    case skip
    then have "\<not> eligible clk e w" by (simp add: eligible_def)
    then show ?thesis using IH[of k ret] skip by (auto intro: exI[of _ "Suc _"])
  next
    case stop
    have "\<not> eligible clk e x" if "x \<in> set ws" for x
      using that ids stop by (auto simp: ids_from_def in_set_conv_nth eligible_def)
    then show ?thesis using stop by (auto simp: eligible_def)
  next
    case leave
    then have step: "select_loop clk e i (w # ws) k ret = select_loop clk e (Suc i) ws k ret"
      by (simp add: eligible_def)
    from IH[of k ret] show ?thesis
    proof (elim disjE exE conjE)
      assume "select_loop clk e (Suc i) ws k ret = ret" and "\<forall>x \<in> set ws. eligible clk e x \<longrightarrow> \<not> key_less (make_compare_key x) k"
      then show ?thesis using step leave by (intro disjI1) auto
    next
      fix j
      assume j: "j < length ws" "select_loop clk e (Suc i) ws k ret = Some (Suc i + j)" "eligible clk e (ws ! j)"
        "key_less (make_compare_key (ws ! j)) k"
        "\<forall>x \<in> set ws. eligible clk e x \<longrightarrow> \<not> key_less (make_compare_key x) (make_compare_key (ws ! j))"
      have "\<not> key_less (make_compare_key w) (make_compare_key (ws ! j))"
        using load_order.lt_trans[OF _ j(4)] leave(2) by blast
      then show ?thesis using step j by (intro disjI2 exI[of _ "Suc j"]) auto
    qed
  next
    case take
    let ?k = "make_compare_key w"
    have step: "select_loop clk e i (w # ws) k ret = select_loop clk e (Suc i) ws ?k (Some i)"
      using take by (simp add: eligible_def)
    from IH[of ?k "Some i"] show ?thesis
    proof (elim disjE exE conjE)
      assume "select_loop clk e (Suc i) ws ?k (Some i) = Some i" and "\<forall>x \<in> set ws. eligible clk e x \<longrightarrow> \<not> key_less (make_compare_key x) ?k"
      then show ?thesis using step take load_order.lt_irrefl by (intro disjI2 exI[of _ 0]) auto
    next
      fix j
      assume j: "j < length ws" "select_loop clk e (Suc i) ws ?k (Some i) = Some (Suc i + j)" "eligible clk e (ws ! j)"
        "key_less (make_compare_key (ws ! j)) ?k"
        "\<forall>x \<in> set ws. eligible clk e x \<longrightarrow> \<not> key_less (make_compare_key x) (make_compare_key (ws ! j))"
      then show ?thesis using step take load_order.lt_asym[OF j(4)] load_order.lt_trans[OF j(4) take(2)]
        by (intro disjI2 exI[of _ "Suc j"]) auto
    qed
  qed
qed

lemma find_worker_id_Some: "find_worker_id i k ws = Some j \<Longrightarrow> i \<le> j \<and> j < i + length ws \<and> wk_id (ws ! (j - i)) = k"
  by (induction i k ws rule: find_worker_id.induct) (auto split: if_splits simp: Suc_diff_le nth_Cons')

lemma select_worker_context_some:
  assumes "select_worker_context clk ctx p0 = ((code, Some i), p)"
  shows "code = EN_SUCCESS \<and> p = do_scaling_up clk p0 \<and> i < length (pool_workers p) \<and>
    \<not> is_exiting clk (pool_workers p ! i) \<and> wk_id (pool_workers p ! i) = ctx"
  using assms
  by (auto simp: select_worker_context_def Let_def split: if_splits option.splits dest: find_worker_id_Some)

lemma select_worker_context_pool: "snd (select_worker_context clk ctx p0) = do_scaling_up clk p0"
  by (simp add: select_worker_context_def Let_def split: option.splits)

lemma select_worker_some:
  assumes "pool_inv p0" and "select_worker clk p0 = (Some i, p)"
  shows "p = do_scaling_up clk p0 \<and> i < length (pool_workers p) \<and>
    eligible clk (current_expect_workers (pool_set p)) (pool_workers p ! i)"
proof -
  have "ids_from 1 (pool_workers (do_scaling_up clk p0))" using do_scaling_up_inv[OF assms(1)] by (simp add: pool_inv_def)
  from select_loop_spec[OF this, of clk "current_expect_workers (pool_set (do_scaling_up clk p0))" 0 key_max None] show ?thesis
    using assms(2) by (auto simp: select_worker_def Let_def)
qed

lemma emplace_to_inv:
  assumes "pool_inv p" and "i < length (pool_workers p)" and "\<not> is_exiting clk (pool_workers p ! i)"
  shows "pool_inv (emplace_to i job p)" and "queued (emplace_to i job p) = add_mset job (queued p)"
proof -
  have "ids_from 1 ((pool_workers p)[i := worker_emplace (pool_workers p ! i) job])"
    using assms(1) by (intro ids_from_update) (auto simp: pool_inv_def worker_emplace_def)
  moreover have "list_all worker_ok ((pool_workers p)[i := worker_emplace (pool_workers p ! i) job])"
    using assms by (auto simp: pool_inv_def list_all_iff worker_ok_def worker_emplace_def is_exiting_def
        dest!: subsetD[OF set_update_subset_insert])
  ultimately show "pool_inv (emplace_to i job p)" using assms(1) by (simp add: pool_inv_def emplace_to_def)
  show "queued (emplace_to i job p) = add_mset job (queued p)"
    using assms(2) by (simp add: queued_def emplace_to_def concat_emplace)
qed

lemma pool_spawn_effect:
  assumes inv: "pool_inv p" and call: "pool_spawn clk (Some a) p = (code, ctx, p')"
  shows "pool_inv p'" and "queued p' = (if code = EN_SUCCESS then add_mset \<lparr>jd_action = Some a\<rparr> (queued p) else queued p)"
proof -
  obtain r p1 where sel: "select_worker clk p = (r, p1)" by (cases "select_worker clk p")
  have p1: "p1 = do_scaling_up clk p" using sel by (simp add: select_worker_def Let_def)
  have inv1: "pool_inv p1" unfolding p1 by (rule do_scaling_up_inv[OF inv])
  show "pool_inv p'" and "queued p' = (if code = EN_SUCCESS then add_mset \<lparr>jd_action = Some a\<rparr> (queued p) else queued p)"
  proof (atomize(full), cases r)
    case None
    then show "pool_inv p' \<and> queued p' = (if code = EN_SUCCESS then add_mset \<lparr>jd_action = Some a\<rparr> (queued p) else queued p)"
      using call sel inv1 p1 do_scaling_up_queued[of clk p]
      by (auto simp: pool_spawn_def pool_inv_def queued_def Let_def split: if_splits)
  next
    case (Some i)
    have i: "i < length (pool_workers p1)" "\<not> is_exiting clk (pool_workers p1 ! i)"
      using select_worker_some[OF inv sel[unfolded Some]] by (auto simp: eligible_def)
    show "pool_inv p' \<and> queued p' = (if code = EN_SUCCESS then add_mset \<lparr>jd_action = Some a\<rparr> (queued p) else queued p)"
      using call sel Some inv1 p1 emplace_to_inv[OF inv1 i] by (auto simp: pool_spawn_def Let_def split: if_splits)
  qed
qed

lemma pool_spawn_context_effect:
  assumes inv: "pool_inv p" and call: "pool_spawn_context clk (Some a) ctx p = (code, p')"
  shows "pool_inv p' \<and> queued p' = (if code = EN_SUCCESS then add_mset \<lparr>jd_action = Some a\<rparr> (queued p) else queued p)"
proof -
  obtain c r p1 where sel: "select_worker_context clk ctx p = ((c, r), p1)" by (metis surj_pair)
  have p1: "p1 = do_scaling_up clk p" using select_worker_context_pool[of clk ctx p] sel by simp
  have inv1: "pool_inv p1" unfolding p1 by (rule do_scaling_up_inv[OF inv])
  show ?thesis
  proof (cases r)
    case None
    then have "c \<noteq> EN_SUCCESS" using sel
      by (auto simp: select_worker_context_def Let_def split: if_splits option.splits)
    moreover have "queued p1 = queued p" by (simp add: p1)
    ultimately show ?thesis using call sel inv1 None by (auto simp: pool_spawn_context_def)
  next
    case (Some i)
    have i: "i < length (pool_workers p1)" "\<not> is_exiting clk (pool_workers p1 ! i)"
      using select_worker_context_some[OF sel[unfolded Some]] by auto
    show ?thesis using call sel Some inv1 p1 emplace_to_inv[OF inv1 i] by (auto simp: pool_spawn_context_def Let_def split: if_splits)
  qed
qed

section \<open>Shrinking and repair\<close>

lemma reduce_loop_spec:
  "reduce_loop clk e ws up down = (rest, up', down') \<Longrightarrow>
   \<exists>gone. ws = gone @ rest \<and> list_all (is_exited clk) gone \<and> (rest = [] \<or> length rest \<le> e \<or> \<not> is_exited clk (hd rest))"
proof (induction ws arbitrary: up down)
  case Nil
  then show ?case by simp
next
  case (Cons w ws)
  show ?case
  proof (cases "length (w # ws) > e \<and> is_exited clk w")
    case True
    with Cons.prems have "reduce_loop clk e ws (up + fst (collect_scaling_up_cpu_time w))
        (down + fst (collect_scaling_down_cpu_time w)) = (rest, up', down')" by auto
    from Cons.IH[OF this] obtain gone where "ws = gone @ rest \<and> list_all (is_exited clk) gone \<and>
        (rest = [] \<or> length rest \<le> e \<or> \<not> is_exited clk (hd rest))" by blast
    with True show ?thesis by (intro exI[of _ "w # gone"]) auto
  next
    case False
    with Cons.prems have "rest = w # ws" by (auto split: if_splits)
    with False show ?thesis by (intro exI[of _ "[]"]) auto
  qed
qed

lemma exited_no_jobs:
  "worker_ok w \<Longrightarrow> \<not> never_started clk w \<Longrightarrow> is_exited clk w \<Longrightarrow> private_jobs w = []"
  by (auto simp: is_exited_def worker_ok_def)

lemma internal_reduce_workers_spec:
  assumes "internal_reduce_workers clk p = (left, p')"
  shows "\<exists>gone. pool_workers p = pool_workers p' @ gone \<and> list_all (is_exited clk) gone" and "left \<longleftrightarrow> pool_workers p' \<noteq> []"
    and "shared_jobs (pool_set p') = shared_jobs (pool_set p)" "pool_conf p' = pool_conf p"
    "current_expect_workers (pool_set p') = current_expect_workers (pool_set p)"
    "closing (pool_set p') = closing (pool_set p)"
proof -
  let ?e = "if closing (pool_set p) then 0 else current_expect_workers (pool_set p)"
  obtain rest up down where r: "reduce_loop clk ?e (rev (pool_workers p)) (removed_scaling_up_time (pool_set p))
      (removed_scaling_down_time (pool_set p)) = (rest, up, down)" by (metis prod_cases3)
  have p': "p' = p\<lparr>pool_set := (pool_set p)\<lparr>workers := rev rest, removed_scaling_up_time := up,
      removed_scaling_down_time := down\<rparr>\<rparr>" "left = (rest \<noteq> [])"
    using assms r by (auto simp: internal_reduce_workers_def Let_def)
  obtain gone where "rev (pool_workers p) = gone @ rest" "list_all (is_exited clk) gone" using reduce_loop_spec[OF r] by blast
  then have "pool_workers p = rev rest @ rev gone" by (metis rev_append rev_rev_ident)
  then show "\<exists>gone. pool_workers p = pool_workers p' @ gone \<and> list_all (is_exited clk) gone"
    using \<open>list_all (is_exited clk) gone\<close> by (intro exI[of _ "rev gone"]) (simp add: p')
  show "left \<longleftrightarrow> pool_workers p' \<noteq> []" by (simp add: p')
  show "shared_jobs (pool_set p') = shared_jobs (pool_set p)" "pool_conf p' = pool_conf p"
    "current_expect_workers (pool_set p') = current_expect_workers (pool_set p)"
    "closing (pool_set p') = closing (pool_set p)" by (simp_all add: p')
qed

lemma dropped_workers:
  assumes "list_all worker_ok gone" and "list_all (\<lambda>w. \<not> never_started clk w) gone" and "list_all (is_exited clk) gone"
  shows "concat (map private_jobs gone) = []"
  using assms exited_no_jobs by (auto simp: list_all_iff)

lemma internal_reduce_workers_effect:
  assumes "pool_inv p" and "all_started clk p"
  defines "p' \<equiv> snd (internal_reduce_workers clk p)"
  shows "pool_inv p' \<and> queued p' = queued p \<and> all_started clk p'"
proof -
  have call: "internal_reduce_workers clk p = (fst (internal_reduce_workers clk p), p')" by (simp add: p'_def)
  note sp = internal_reduce_workers_spec[OF call]
  obtain gone where g: "pool_workers p = pool_workers p' @ gone" "list_all (is_exited clk) gone" using sp(1) by blast
  have "concat (map private_jobs gone) = []"
    using assms(1,2) g by (intro dropped_workers[of gone clk]) (auto simp: pool_inv_def all_started_def)
  then have "queued p' = queued p" using g sp by (simp add: queued_def del: concat_eq_Nil_conv)
  then show ?thesis using assms(1,2) sp g by (auto simp: pool_inv_def all_started_def)
qed

lemma renumber_spec:
  "i + length ws < 2 ^ 32 \<Longrightarrow> ids_from (Suc i) (renumber i ws)"
  by (induction i ws rule: renumber.induct) auto

lemma renumber_frame [simp]:
  "length (renumber i ws) = length ws" "map private_jobs (renumber i ws) = map private_jobs ws"
  by (induction i ws rule: renumber.induct) auto

lemma list_all_renumber:
  "(\<And>w k. P (w\<lparr>wk_id := k\<rparr>) = P w) \<Longrightarrow> list_all P (renumber i ws) = list_all P ws"
  by (induction i ws rule: renumber.induct) auto

lemma concat_filter_jobs:
  assumes "list_all (\<lambda>w. P w \<longrightarrow> private_jobs w = []) ws"
  shows "concat (map private_jobs (filter (\<lambda>w. \<not> P w) ws)) = concat (map private_jobs ws)"
  using assms by (induction ws) auto

lemma internal_autofix_workers_effect:
  assumes "pool_inv p" and "all_started clk p"
  defines "p' \<equiv> internal_autofix_workers clk p"
  shows "pool_inv p' \<and> queued p' = queued p \<and> all_started clk p'"
proof (cases "p' = p")
  case True
  then show ?thesis using assms by simp
next
  case False
  let ?alive = "filter (\<lambda>w. \<not> is_exited clk w) (pool_workers p)"
  have w: "pool_workers p' = renumber 0 ?alive" and fr: "shared_jobs (pool_set p') = shared_jobs (pool_set p)"
    "current_expect_workers (pool_set p') = current_expect_workers (pool_set p)" "pool_conf p' = pool_conf p"
    using False by (auto simp: p'_def internal_autofix_workers_def Let_def split: if_splits)
  have len: "0 + length ?alive < 2 ^ 32"
    using assms(1) le_less_trans[OF length_filter_le] by (auto simp: pool_inv_def)
  have ids: "ids_from 1 (pool_workers p')" using renumber_spec[OF len] by (simp add: w)
  have ok: "list_all worker_ok (pool_workers p')"
    unfolding w using assms(1) by (subst list_all_renumber) (auto simp: worker_ok_def pool_inv_def list_all_iff)
  have "concat (map private_jobs ?alive) = concat (map private_jobs (pool_workers p))"
    using assms(1,2) exited_no_jobs by (intro concat_filter_jobs) (auto simp: pool_inv_def all_started_def list_all_iff)
  then have "queued p' = queued p" by (simp add: queued_def w fr)
  moreover have "all_started clk p'"
    unfolding all_started_def w using assms(2)
    by (subst list_all_renumber) (auto simp: never_started_def all_started_def list_all_iff)
  ultimately show ?thesis using assms(1) ids ok len by (auto simp: pool_inv_def fr w)
qed

section \<open>Rebalancing\<close>

definition loads_ok :: "worker list \<Rightarrow> load_map \<Rightarrow> bool" where
  "loads_ok ws m \<longleftrightarrow> list_all (\<lambda>e. snd e < length ws \<and> wk_status (ws ! snd e) \<noteq> kExited) m"

lemma set_map_put: "set (map_put k i m) \<subseteq> insert (k, i) (set m)" "map_put k i m \<noteq> []"
  by (auto simp: map_put_def dest: arg_cong[of _ "[]" set])

lemma collect_loads_ok:
  assumes "loads_ok (pre @ ws) m" and "i = length pre"
  shows "loads_ok (pre @ ws) (collect_loads clk e i ws m)"
  using assms
proof (induction ws arbitrary: pre i m)
  case (Cons w ws)
  note IH = Cons.IH[of "pre @ [w]" _ "Suc i", simplified]
  consider (skip) "is_exiting clk w" | (stop) "\<not> is_exiting clk w" "wk_id w > e"
    | (take) "\<not> is_exiting clk w" "\<not> wk_id w > e" by blast
  then show ?case
  proof cases
    case take
    have "loads_ok (pre @ w # ws) (map_put (make_compare_key w) i m)"
      using Cons.prems take set_map_put(1)[of "make_compare_key w" i m]
      by (auto simp: loads_ok_def list_all_iff is_exiting_def)
    then show ?thesis using IH Cons.prems(2) take by simp
  qed (use IH Cons.prems in simp_all)
qed simp

lemma rebalance_loop_spec:
  assumes "loads_ok ws m" and "m \<noteq> []"
  shows "let ws' = rebalance_loop jobs ws m in
    mset (concat (map private_jobs ws')) = mset (concat (map private_jobs ws)) + mset jobs \<and>
    length ws' = length ws \<and> (ids_from n ws \<longrightarrow> ids_from n ws') \<and> (list_all worker_ok ws \<longrightarrow> list_all worker_ok ws') \<and>
    (list_all (\<lambda>w. \<not> never_started clk w) ws \<longrightarrow> list_all (\<lambda>w. \<not> never_started clk w) ws')"
  unfolding Let_def using assms
proof (induction jobs arbitrary: ws m)
  case Nil
  then show ?case by simp
next
  case (Cons job jobs)
  let ?i = "snd (hd m)"
  let ?w = "worker_emplace (ws ! ?i) job"
  let ?ws = "ws[?i := ?w]" and ?m = "map_put (make_compare_key ?w) ?i (tl m)"
  have "hd m \<in> set m" using Cons.prems(2) by simp
  then have i: "?i < length ws" "wk_status (ws ! ?i) \<noteq> kExited" using Cons.prems(1) by (auto simp: loads_ok_def list_all_iff)
  have ok: "loads_ok ?ws ?m"
    using Cons.prems i set_map_put(1)[of "make_compare_key ?w" ?i "tl m"] list.set_sel(2)[OF Cons.prems(2)]
    by (fastforce simp: loads_ok_def list_all_iff nth_list_update worker_emplace_def)
  have keep: "ids_from n ws \<Longrightarrow> ids_from n ?ws" by (rule ids_from_update) (simp_all add: worker_emplace_def)
  have "worker_ok ?w" "\<not> never_started clk (ws ! ?i) \<Longrightarrow> \<not> never_started clk ?w"
    using i by (auto simp: worker_ok_def worker_emplace_def never_started_def)
  then have w: "list_all worker_ok ws \<longrightarrow> list_all worker_ok ?ws"
    "list_all (\<lambda>w. \<not> never_started clk w) ws \<longrightarrow> list_all (\<lambda>w. \<not> never_started clk w) ?ws"
    using i(1) by (auto simp: list_all_length nth_list_update)
  have step: "rebalance_loop (job # jobs) ws m = rebalance_loop jobs ?ws ?m" by (simp add: Let_def)
  show ?case
    unfolding step using Cons.IH[OF ok set_map_put(2)] keep w by (auto simp: concat_emplace[OF i(1)])
qed

lemma rebalance_jobs_effect:
  assumes inv: "pool_inv p" and st: "all_started clk p"
  defines "p' \<equiv> rebalance_jobs clk p"
  shows "pool_inv p' \<and> queued p' = queued p \<and> all_started clk p'"
proof (cases "shared_jobs (pool_set p) = []")
  case True
  then show ?thesis using assms by (simp add: rebalance_jobs_def)
next
  case False
  let ?p = "do_scaling_up clk p"
  let ?m = "collect_loads clk (current_expect_workers (pool_set ?p)) 0 (pool_workers ?p) []"
  have inv1: "pool_inv ?p" and st1: "all_started clk ?p" by (auto intro: do_scaling_up_inv[OF inv] do_scaling_up_started[OF st])
  show ?thesis
  proof (cases "?m = []")
    case True
    then have "p' = ?p" using False by (simp add: p'_def rebalance_jobs_def Let_def)
    then show ?thesis using inv1 st1 by simp
  next
    case m: False
    have "loads_ok (pool_workers ?p) ?m"
      using collect_loads_ok[of "[]" "pool_workers ?p" "[]" 0] by (simp add: loads_ok_def)
    note sp = rebalance_loop_spec[OF this m, of "shared_jobs (pool_set ?p)" 1 clk, unfolded Let_def]
    have "p' = ?p\<lparr>pool_set := (pool_set ?p)\<lparr>shared_jobs := [],
        workers := rebalance_loop (shared_jobs (pool_set ?p)) (pool_workers ?p) ?m\<rparr>\<rparr>"
      using False m by (simp add: p'_def rebalance_jobs_def Let_def)
    moreover have "queued ?p = queued p" by simp
    ultimately show ?thesis using sp inv1 st1
      by (auto simp: pool_inv_def all_started_def queued_def)
  qed
qed

end
