(* ===== verification/Worker_Run.thy ===== *)
theory Worker_Run
  imports Worker_Jobs
begin

text \<open>
  The worker pool as a transition system: the calls of the module and the steps of the worker
  threads interleave, each as one step. Every state keeps the invariant, and every accepted job is
  accounted for.
\<close>

section \<open>Ticks\<close>

lemma collect_worker [simp]:
  "private_jobs (snd (collect_scaling_up_cpu_time w)) = private_jobs w"
  "private_jobs (snd (collect_scaling_down_cpu_time w)) = private_jobs w"
  "wk_id (snd (collect_scaling_up_cpu_time w)) = wk_id w" "wk_id (snd (collect_scaling_down_cpu_time w)) = wk_id w"
  "worker_ok (snd (collect_scaling_up_cpu_time w)) = worker_ok w"
  "worker_ok (snd (collect_scaling_down_cpu_time w)) = worker_ok w"
  "never_started clk (snd (collect_scaling_up_cpu_time w)) = never_started clk w"
  "never_started clk (snd (collect_scaling_down_cpu_time w)) = never_started clk w"
  by (simp_all add: collect_scaling_up_cpu_time_def collect_scaling_down_cpu_time_def worker_ok_def
      never_started_def Let_def)

text \<open>The statistics of a tick change neither jobs nor workers.\<close>

definition same_workers :: "worker_pool \<Rightarrow> worker_pool \<Rightarrow> bool" where
  "same_workers p p' \<longleftrightarrow> queued p' = queued p \<and> pool_conf p' = pool_conf p \<and>
     length (pool_workers p') = length (pool_workers p) \<and>
     current_expect_workers (pool_set p') = current_expect_workers (pool_set p) \<and>
     closing (pool_set p') = closing (pool_set p) \<and>
     (ids_from 1 (pool_workers p) \<longrightarrow> ids_from 1 (pool_workers p')) \<and>
     (list_all worker_ok (pool_workers p) \<longrightarrow> list_all worker_ok (pool_workers p')) \<and>
     (\<forall>clk. all_started clk p \<longrightarrow> all_started clk p')"

lemma same_workers_refl [simp]: "same_workers p p"
  by (simp add: same_workers_def)

lemma same_workers_stat [simp]: "same_workers p (p\<lparr>pool_stat := st\<rparr>)"
  by (simp add: same_workers_def queued_def all_started_def)

lemma same_workers_trans: "same_workers p q \<Longrightarrow> same_workers q r \<Longrightarrow> same_workers p r"
  by (auto simp: same_workers_def)

lemma same_workers_inv: "same_workers p p' \<Longrightarrow> pool_inv p \<Longrightarrow> pool_inv p'"
  by (auto simp: same_workers_def pool_inv_def)

lemma calculate_scaling_up_same:
  assumes "calculate_scaling_up now e p = (e', p')"
  shows "same_workers p p'" and "e \<le> e'" and "e' \<le> max e (max_workers (pool_conf p))"
proof -
  show "same_workers p p'"
    using assms
    by (auto simp: calculate_scaling_up_def collect_up_def Let_def same_workers_def queued_def all_started_def
        list_all_iff ids_from_map comp_def split: if_splits)
  show "e \<le> e'" "e' \<le> max e (max_workers (pool_conf p))"
    using assms by (auto simp: calculate_scaling_up_def scaling_up_target_def collect_up_def Let_def split: if_splits)
qed

lemma calculate_scaling_down_same:
  assumes "calculate_scaling_down now e p = (e', p')"
  shows "same_workers p p'" and "e' \<le> e" and "min e (min_workers (pool_conf p)) \<le> e'"
proof -
  show "same_workers p p'"
    using assms
    by (auto simp: calculate_scaling_down_def collect_down_def Let_def same_workers_def queued_def all_started_def
        list_all_iff ids_from_map comp_def split: if_splits)
  show "e' \<le> e" "min e (min_workers (pool_conf p)) \<le> e'"
    using assms by (auto simp: calculate_scaling_down_def scaling_down_target_def collect_down_def Let_def split: if_splits)
qed

section \<open>Callable jobs\<close>

definition callable :: "worker_job_data multiset \<Rightarrow> nat multiset" where
  "callable M = image_mset (\<lambda>j. the (the (jd_action j))) (filter_mset (\<lambda>j. \<exists>a. jd_action j = Some (Some a)) M)"

lemma callable_simps [simp]:
  "callable {#} = {#}" "callable (M + N) = callable M + callable N"
  by (simp_all add: callable_def)

lemma callable_mset: "callable (mset jobs) = mset (actions_of jobs)"
  by (induction jobs) (auto simp: callable_def split: option.splits)

lemma run_jobs_callable:
  assumes "run_jobs elapsed interval ctx counter n jobs [] = (rest, tr)"
  shows "callable (mset jobs) = callable (mset rest) + mset (map fst tr)"
proof -
  obtain ran where "jobs = ran @ rest" "tr = map (\<lambda>a. (a, ctx)) (actions_of ran)"
    using run_jobs_prefix[OF assms] by auto
  then show ?thesis by (simp add: callable_mset comp_def)
qed

lemma do_shared_job_effect:
  assumes "do_shared_job_on_main_thread elapsed p = (tr, p')"
  shows "callable (queued p) = callable (queued p') + mset (map fst tr)"
    and "pool_inv p \<Longrightarrow> pool_inv p'"
proof -
  obtain rest where r: "run_jobs elapsed (if configure_tick_max_interval (pool_set p) \<le> 0 then 8000
      else configure_tick_max_interval (pool_set p)) 0 256 0 (shared_jobs (pool_set p)) [] = (rest, tr)"
    and p': "p' = p\<lparr>pool_set := (pool_set p)\<lparr>shared_jobs := rest\<rparr>\<rparr>"
    using assms by (auto simp: do_shared_job_on_main_thread_def Let_def split: prod.splits)
  show "callable (queued p) = callable (queued p') + mset (map fst tr)"
    using run_jobs_callable[OF r] by (simp add: queued_def p')
  show "pool_inv p \<Longrightarrow> pool_inv p'" by (simp add: pool_inv_def p')
qed

lemma set_expect_same:
  fixes b
  assumes "same_workers p p2" "pool_inv p" "e < 2 ^ 32"
  defines "p3 \<equiv> p2\<lparr>pool_set := (pool_set p2)\<lparr>current_expect_workers := e, need_scaling_up := b\<rparr>\<rparr>"
  shows "pool_inv p3" "queued p3 = queued p" "all_started clk p \<Longrightarrow> all_started clk p3"
  using assms by (auto simp: same_workers_def pool_inv_def queued_def all_started_def)

lemma pool_tick_effect:
  assumes inv: "pool_inv p" and st: "all_started clk p" and call: "pool_tick clk now elapsed p = (tr, p')"
  shows "pool_inv p' \<and> callable (queued p) = callable (queued p') + mset (map fst tr)"
proof (cases "closing (pool_set p)")
  case True
  let ?p1 = "snd (internal_reduce_workers clk p)"
  note r = internal_reduce_workers_effect[OF inv st]
  note rb = rebalance_jobs_effect[OF conjunct1[OF r] conjunct2[OF conjunct2[OF r]]]
  have "do_shared_job_on_main_thread elapsed (rebalance_jobs clk ?p1) = (tr, p')"
    using call True by (simp add: pool_tick_def)
  from do_shared_job_effect[OF this] show ?thesis using r rb by simp
next
  case False
  define e1 where "e1 = (if current_expect_workers (pool_set p) \<le> 0 then min_workers (pool_conf p) else current_expect_workers (pool_set p))"
  obtain e2 p1 where up: "calculate_scaling_up now e1 p = (e2, p1)" by (cases "calculate_scaling_up now e1 p")
  obtain e3 p2 where dn: "calculate_scaling_down now e2 p1 = (e3, p2)" by (cases "calculate_scaling_down now e2 p1")
  have same: "same_workers p p2"
    using same_workers_trans calculate_scaling_up_same(1)[OF up] calculate_scaling_down_same(1)[OF dn] by blast
  have "max_workers (pool_conf p) < 2 ^ 32" "e1 < 2 ^ 32" using inv by (auto simp: pool_inv_def conf_ok_def e1_def)
  then have e3: "e3 < 2 ^ 32" using calculate_scaling_up_same(3)[OF up] calculate_scaling_down_same(2)[OF dn] by linarith
  define p3 where "p3 = p2\<lparr>pool_set := (pool_set p2)\<lparr>current_expect_workers := e3,
      need_scaling_up := need_scaling_up (pool_set p2) \<or> e3 \<noteq> current_expect_workers (pool_set p2)\<rparr>\<rparr>"
  note s3 = set_expect_same[OF same inv e3, where b = "need_scaling_up (pool_set p2) \<or> e3 \<noteq> current_expect_workers (pool_set p2)",
      folded p3_def]
  have st3: "all_started clk p3" by (rule s3(3)[OF st])
  define p4 where "p4 = (if now \<ge> leak_scan_checkpoint (pool_stat p3) - leak_scan_interval_seconds (pool_conf p3) * SECOND_NS \<and>
      now < leak_scan_checkpoint (pool_stat p3) + leak_scan_interval_seconds (pool_conf p3) * SECOND_NS
    then snd (internal_reduce_workers clk p3)
    else internal_autofix_workers clk (p3\<lparr>pool_stat := (pool_stat p3)\<lparr>leak_scan_checkpoint := now\<rparr>\<rparr>))"
  let ?p3 = "p3\<lparr>pool_stat := (pool_stat p3)\<lparr>leak_scan_checkpoint := now\<rparr>\<rparr>"
  have p3': "pool_inv ?p3" "all_started clk ?p3" "queued ?p3 = queued p3"
    using s3(1) st3 by (simp_all add: pool_inv_def all_started_def queued_def)
  have p4: "pool_inv p4 \<and> queued p4 = queued p \<and> all_started clk p4"
    using internal_reduce_workers_effect[OF s3(1) st3] internal_autofix_workers_effect[OF p3'(1,2)] p3'(3) s3(2)
    by (simp add: p4_def)
  have "pool_tick clk now elapsed p = ([], rebalance_jobs clk p4)"
    unfolding pool_tick_def Let_def if_not_P[OF False] e1_def[symmetric] up dn prod.case
      p3_def[symmetric] p4_def[symmetric] by (rule refl)
  then have "tr = [] \<and> p' = rebalance_jobs clk p4" using call by simp
  then show ?thesis using rebalance_jobs_effect[of p4 clk] p4 by simp
qed

lemma pool_stop_effect:
  assumes inv: "pool_inv p" and st: "all_started clk p"
  shows "pool_inv (snd (pool_stop clk p)) \<and> queued (snd (pool_stop clk p)) = queued p"
proof -
  let ?p1 = "if closing (pool_set p) then p else p\<lparr>pool_set := (pool_set p)\<lparr>closing := True, current_expect_workers := 0\<rparr>\<rparr>"
  have "pool_inv ?p1" "all_started clk ?p1" "queued ?p1 = queued p"
    using inv st by (auto simp: pool_inv_def all_started_def queued_def)
  moreover have "snd (pool_stop clk p) = snd (internal_reduce_workers clk ?p1)" by (simp add: pool_stop_def Let_def)
  ultimately show ?thesis using internal_reduce_workers_effect[of ?p1 clk] by simp
qed

section \<open>Updating one worker\<close>

lemma update_worker_inv:
  assumes "pool_inv p" and "i < length (pool_workers p)" and "wk_id w = wk_id (pool_workers p ! i)" and "worker_ok w"
  shows "pool_inv (set_workers p ((pool_workers p)[i := w]))"
  using assms ids_from_update[of 1 "pool_workers p" w i]
  by (auto simp: pool_inv_def list_all_iff dest!: subsetD[OF set_update_subset_insert])

lemma update_worker_queued:
  assumes "i < length (pool_workers p)"
  shows "queued (set_workers p ((pool_workers p)[i := w])) + mset (private_jobs (pool_workers p ! i)) =
    queued p + mset (private_jobs w)"
  using concat_update[OF assms, of private_jobs w] by (simp add: queued_def)

lemma update_worker_same_jobs:
  assumes "i < length (pool_workers p)" and "private_jobs w = private_jobs (pool_workers p ! i)"
  shows "queued (set_workers p ((pool_workers p)[i := w])) = queued p"
  using update_worker_queued[OF assms(1), of w] assms(2) by simp

lemma worker_loop_body_effect:
  assumes "worker_loop_body owner clk w = (tr, ticks, w')"
  shows "callable (mset (private_jobs w)) = callable (mset (private_jobs w')) + mset (map fst tr)"
    and "wk_id w' = wk_id w" and "wk_status w = kRunning \<Longrightarrow> wk_status w' = kRunning"
    and "tick_handles w' = tick_handles w" and "wk_ptr w' = wk_ptr w"
proof -
  obtain rest where r: "run_jobs (lc_elapsed clk) (current_tick_interval_us w) (wk_id w) 256 0 (private_jobs w) [] = (rest, tr)"
    and w': "private_jobs w' = rest" "wk_id w' = wk_id w" "wk_status w = kRunning \<Longrightarrow> wk_status w' = kRunning"
      "tick_handles w' = tick_handles w" "wk_ptr w' = wk_ptr w"
    using assms by (auto simp: worker_loop_body_def background_job_tick_def Let_def split: prod.splits if_splits)
  show "callable (mset (private_jobs w)) = callable (mset (private_jobs w')) + mset (map fst tr)"
    using run_jobs_callable[OF r] w'(1) by simp
  show "wk_id w' = wk_id w" "wk_status w = kRunning \<Longrightarrow> wk_status w' = kRunning" "tick_handles w' = tick_handles w"
    "wk_ptr w' = wk_ptr w"
    using w' by auto
qed

section \<open>Runs of the pool\<close>

text \<open>
  \<open>pool_run p S D\<close>: the pool \<open>p\<close> is reached, \<open>S\<close> are the callable actions that were accepted and
  \<open>D\<close> those that were run. A call of the module and a step of a thread are atomic; calls whose
  clock decides whether a worker has leaked assume that no thread takes half a minute to start.
\<close>

inductive pool_run :: "worker_pool \<Rightarrow> nat multiset \<Rightarrow> nat multiset \<Rightarrow> bool" where
  create: "pool_run (worker_pool_create t) {#} {#}"
| init: "pool_run p S D \<Longrightarrow> pool_run (pool_init p) S D"
| reload: "pool_run p S D \<Longrightarrow> cf_worker_number_max cfg < 2 ^ 32 \<Longrightarrow> cf_worker_number_min cfg < 2 ^ 32 \<Longrightarrow>
    pool_run (pool_reload cfg p) S D"
| active: "pool_run p S D \<Longrightarrow> pool_run (p\<lparr>pool_actived := b\<rparr>) S D"
| spawn: "pool_run p S D \<Longrightarrow> pool_spawn clk (Some a) p = (code, ctx, p') \<Longrightarrow>
    pool_run p' (if code = EN_SUCCESS then S + callable {#\<lparr>jd_action = Some a\<rparr>#} else S) D"
| spawn_context: "pool_run p S D \<Longrightarrow> pool_spawn_context clk (Some a) wid p = (code, p') \<Longrightarrow>
    pool_run p' (if code = EN_SUCCESS then S + callable {#\<lparr>jd_action = Some a\<rparr>#} else S) D"
| add_tick: "pool_run p S D \<Longrightarrow> pool_add_tick_callback clk action wid p = (handle, p') \<Longrightarrow> pool_run p' S D"
| remove_tick: "pool_run p S D \<Longrightarrow> pool_remove_tick_callback clk handle p = (r, handle', p') \<Longrightarrow> pool_run p' S D"
| reset_tick: "pool_run p S D \<Longrightarrow> pool_reset_tick_interval clk wid interval p = (r, p') \<Longrightarrow> pool_run p' S D"
| tick: "pool_run p S D \<Longrightarrow> all_started clk p \<Longrightarrow> pool_tick clk now elapsed p = (tr, p') \<Longrightarrow>
    pool_run p' S (D + mset (map fst tr))"
| stop: "pool_run p S D \<Longrightarrow> all_started clk p \<Longrightarrow> pool_run (snd (pool_stop clk p)) S D"
| cleanup: "pool_run p S D \<Longrightarrow>
    pool_run (p\<lparr>pool_set := (pool_set p)\<lparr>closing := True, cleaning := True\<rparr>\<rparr>) S D"
| cleanup_check: "pool_run p S D \<Longrightarrow> all_started clk p \<Longrightarrow> pool_run (snd (internal_reduce_workers clk p)) S D"
| thread_begin: "pool_run p S D \<Longrightarrow> i < length (pool_workers p) \<Longrightarrow> wk_status (pool_workers p ! i) = kCreated \<Longrightarrow>
    pool_run (set_workers p ((pool_workers p)[i := worker_thread_begin (pool_workers p ! i)])) S D"
| thread_round: "pool_run p S D \<Longrightarrow> i < length (pool_workers p) \<Longrightarrow> wk_status (pool_workers p ! i) = kRunning \<Longrightarrow>
    \<not> loop_ends (pool_set p) (pool_workers p ! i) \<Longrightarrow>
    worker_loop_body (pool_set p) lclk (pool_workers p ! i) = (tr, ticks, w) \<Longrightarrow>
    pool_run (set_workers p ((pool_workers p)[i := w])) S (D + mset (map fst tr))"
| thread_exiting: "pool_run p S D \<Longrightarrow> i < length (pool_workers p) \<Longrightarrow> wk_status (pool_workers p ! i) = kRunning \<Longrightarrow>
    loop_ends (pool_set p) (pool_workers p ! i) \<Longrightarrow>
    pool_run (set_workers p ((pool_workers p)[i := worker_exiting (pool_workers p ! i)])) S D"
| thread_drain: "pool_run p S D \<Longrightarrow> i < length (pool_workers p) \<Longrightarrow> wk_status (pool_workers p ! i) = kExiting \<Longrightarrow>
    worker_drain (pool_set p) (pool_workers p ! i) = (s, w) \<Longrightarrow>
    pool_run (p\<lparr>pool_set := s\<lparr>workers := (pool_workers p)[i := w]\<rparr>\<rparr>) S D"
| thread_exited: "pool_run p S D \<Longrightarrow> i < length (pool_workers p) \<Longrightarrow> wk_status (pool_workers p ! i) = kExiting \<Longrightarrow>
    private_jobs (pool_workers p ! i) = [] \<Longrightarrow>
    pool_run (set_workers p ((pool_workers p)[i := worker_exited (pool_workers p ! i)])) S D"

section \<open>Every step keeps the books\<close>

lemma reload_scaling_ok:
  assumes "cf_worker_number_max cfg < 2 ^ 32" and "cf_worker_number_min cfg < 2 ^ 32"
  shows "conf_ok (reload_scaling cfg)"
  using assms by (auto simp: conf_ok_def reload_scaling_def Let_def)

lemma tick_callback_ops [simp]:
  "private_jobs (snd (worker_add_tick_callback w t a)) = private_jobs w"
  "wk_id (snd (worker_add_tick_callback w t a)) = wk_id w"
  "worker_ok (snd (worker_add_tick_callback w t a)) = worker_ok w"
  "private_jobs (snd (snd (worker_remove_tick_callback w ah))) = private_jobs w"
  "wk_id (snd (snd (worker_remove_tick_callback w ah))) = wk_id w"
  "worker_ok (snd (snd (worker_remove_tick_callback w ah))) = worker_ok w"
  "private_jobs (worker_reset_tick_interval w d) = private_jobs w"
  "wk_id (worker_reset_tick_interval w d) = wk_id w"
  "worker_ok (worker_reset_tick_interval w d) = worker_ok w"
  by (simp_all add: worker_add_tick_callback_def worker_remove_tick_callback_def worker_reset_tick_interval_def
      worker_ok_def Let_def split: option.splits)

text \<open>The calls that pick a worker by its id and change something other than its jobs.\<close>

lemma context_update_effect:
  assumes inv: "pool_inv p0" and sel: "select_worker_context clk wid p0 = ((code, Some i), p)"
    and w: "private_jobs w = private_jobs (pool_workers p ! i)" "wk_id w = wk_id (pool_workers p ! i)"
      "worker_ok w = worker_ok (pool_workers p ! i)"
  shows "pool_inv (set_workers p ((pool_workers p)[i := w])) \<and>
    queued (set_workers p ((pool_workers p)[i := w])) = queued p0"
proof -
  have p: "p = do_scaling_up clk p0" and i: "i < length (pool_workers p)" using select_worker_context_some[OF sel] by auto
  have inv': "pool_inv p" unfolding p by (rule do_scaling_up_inv[OF inv])
  then have "worker_ok w" using w(3) i by (auto simp: pool_inv_def list_all_length)
  then show ?thesis
    using update_worker_inv[OF inv' i w(2)] update_worker_same_jobs[OF i w(1)] by (simp add: p)
qed

lemma scaled_effect: "pool_inv p0 \<Longrightarrow> p = do_scaling_up clk p0 \<Longrightarrow> pool_inv p \<and> queued p = queued p0"
  by (simp add: do_scaling_up_inv)

lemma add_tick_effect:
  assumes inv: "pool_inv p" and call: "pool_add_tick_callback clk action wid p = (handle, p')"
  shows "pool_inv p' \<and> queued p' = queued p"
proof -
  obtain code r p1 where sel: "select_worker_context clk wid p = ((code, r), p1)" by (metis surj_pair)
  show ?thesis
  proof (cases r)
    case None
    then show ?thesis using call sel select_worker_context_pool[of clk wid p] scaled_effect[OF inv, of p' clk]
      by (simp add: pool_add_tick_callback_def)
  next
    case (Some i)
    let ?w = "snd (worker_add_tick_callback (pool_workers p1 ! i) kWorkerTickHandleSpecify action)"
    have "p' = set_workers p1 ((pool_workers p1)[i := ?w])"
      using call sel Some by (auto simp: pool_add_tick_callback_def Let_def split: prod.splits)
    then show ?thesis using context_update_effect[OF inv sel[unfolded Some], of ?w] by simp
  qed
qed

lemma remove_tick_effect:
  assumes inv: "pool_inv p" and call: "pool_remove_tick_callback clk handle p = (res, handle', p')"
  shows "pool_inv p' \<and> queued p' = queued p"
proof (cases handle)
  case None
  then show ?thesis using call inv by (simp add: pool_remove_tick_callback_def)
next
  case (Some ah)
  obtain code r p1 where sel: "select_worker_context clk (ah_specify_worker ah) p = ((code, r), p1)" by (metis surj_pair)
  show ?thesis
  proof (cases "ah_type ah \<noteq> kWorkerTickHandleSpecify")
    case True
    then show ?thesis using call inv Some by (simp add: pool_remove_tick_callback_def)
  next
    case type: False
    show ?thesis
    proof (cases r)
      case None
      then show ?thesis using call sel Some type select_worker_context_pool[of clk "ah_specify_worker ah" p]
          scaled_effect[OF inv, of p' clk]
        by (simp add: pool_remove_tick_callback_def)
    next
      case ri: (Some i)
      let ?w = "snd (snd (worker_remove_tick_callback (pool_workers p1 ! i) ah))"
      have "p' = set_workers p1 ((pool_workers p1)[i := ?w])"
        using call sel Some ri type by (auto simp: pool_remove_tick_callback_def Let_def split: prod.splits)
      then show ?thesis using context_update_effect[OF inv sel[unfolded ri], of ?w] by simp
    qed
  qed
qed

lemma reset_tick_effect:
  assumes inv: "pool_inv p" and call: "pool_reset_tick_interval clk wid interval p = (res, p')"
  shows "pool_inv p' \<and> queued p' = queued p"
proof -
  obtain code r p1 where sel: "select_worker_context clk wid p = ((code, r), p1)" by (metis surj_pair)
  show ?thesis
  proof (cases r)
    case None
    then show ?thesis using call sel select_worker_context_pool[of clk wid p] scaled_effect[OF inv, of p' clk]
      by (simp add: pool_reset_tick_interval_def)
  next
    case (Some i)
    obtain d where "p' = set_workers p1 ((pool_workers p1)[i := worker_reset_tick_interval (pool_workers p1 ! i) d])"
      using call sel Some by (auto simp: pool_reset_tick_interval_def Let_def)
    then show ?thesis
      using context_update_effect[OF inv sel[unfolded Some], of "worker_reset_tick_interval (pool_workers p1 ! i) d"] by simp
  qed
qed

lemma thread_update_effect:
  assumes "pool_inv p" and "i < length (pool_workers p)" and "wk_id w = wk_id (pool_workers p ! i)" and "worker_ok w"
    and "private_jobs w = private_jobs (pool_workers p ! i)"
  shows "pool_inv (set_workers p ((pool_workers p)[i := w])) \<and> queued (set_workers p ((pool_workers p)[i := w])) = queued p"
  using update_worker_inv[OF assms(1-4)] update_worker_same_jobs[OF assms(2,5)] by simp

lemma thread_round_effect:
  assumes inv: "pool_inv p" and i: "i < length (pool_workers p)" and st: "wk_status (pool_workers p ! i) = kRunning"
    and body: "worker_loop_body owner lclk (pool_workers p ! i) = (tr, ticks, w)"
  defines "p' \<equiv> set_workers p ((pool_workers p)[i := w])"
  shows "pool_inv p' \<and> callable (queued p) = callable (queued p') + mset (map fst tr)"
proof -
  note b = worker_loop_body_effect[OF body]
  have "pool_inv p'" unfolding p'_def using b(2) b(3)[OF st] by (intro update_worker_inv[OF inv i]) (simp_all add: worker_ok_def)
  moreover have "callable (queued p') + callable (mset (private_jobs (pool_workers p ! i))) =
      callable (queued p) + callable (mset (private_jobs w))"
    using arg_cong[OF update_worker_queued[OF i, of w], of callable] by (simp add: p'_def)
  ultimately show ?thesis using b(1) by (simp add: add.assoc add.commute)
qed

lemma thread_drain_effect:
  assumes inv: "pool_inv p" and i: "i < length (pool_workers p)" and st: "wk_status (pool_workers p ! i) = kExiting"
    and dr: "worker_drain (pool_set p) (pool_workers p ! i) = (s, w)"
  shows "pool_inv (p\<lparr>pool_set := s\<lparr>workers := (pool_workers p)[i := w]\<rparr>\<rparr>) \<and>
    queued (p\<lparr>pool_set := s\<lparr>workers := (pool_workers p)[i := w]\<rparr>\<rparr>) = queued p"
proof -
  let ?w = "(pool_workers p ! i)\<lparr>private_jobs := []\<rparr>"
  have e: "s = (pool_set p)\<lparr>shared_jobs := shared_jobs (pool_set p) @ private_jobs (pool_workers p ! i)\<rparr>" "w = ?w"
    using dr by (auto simp: worker_drain_def drain_jobs_append)
  have "pool_inv (set_workers p ((pool_workers p)[i := ?w]))" using st by (intro update_worker_inv[OF inv i]) (simp_all add: worker_ok_def)
  moreover have "mset (private_jobs (pool_workers p ! i)) + mset (concat (map private_jobs ((pool_workers p)[i := ?w]))) =
      mset (concat (map private_jobs (pool_workers p)))"
    using concat_update[OF i, of private_jobs ?w] by (simp add: add.commute)
  ultimately show ?thesis by (simp add: e pool_inv_def queued_def add.assoc)
qed

lemma pool_run_books: "pool_run p S D \<Longrightarrow> pool_inv p \<and> callable (queued p) + D = S"
proof (induction rule: pool_run.induct)
  case (create t)
  show ?case by (simp add: worker_pool_create_def worker_set_create_def scaling_configure_create_def pool_inv_def
        conf_ok_def queued_def)
next
  case (init p S D)
  then show ?case by (simp add: pool_init_def apply_configure_def pool_inv_def queued_def)
next
  case (reload p S D cfg)
  then show ?case using reload_scaling_ok[of cfg]
    by (auto simp: pool_reload_def apply_configure_def reload_tick_intervals_def pool_inv_def queued_def Let_def)
next
  case (active p S D b)
  then show ?case by (simp add: pool_inv_def queued_def)
next
  case (spawn p S D clk a code ctx p')
  then show ?case using pool_spawn_effect[of p clk a code ctx p']
    by (auto simp: add.commute add.left_commute simp flip: callable_simps(2))
next
  case (spawn_context p S D clk a wid code p')
  then show ?case using pool_spawn_context_effect[of p clk a wid code p']
    by (auto simp: add.commute add.left_commute simp flip: callable_simps(2))
next
  case (add_tick p S D clk action wid handle p')
  then show ?case using add_tick_effect[of p clk action wid handle p'] by simp
next
  case (remove_tick p S D clk handle r handle' p')
  then show ?case using remove_tick_effect[of p clk handle r handle' p'] by simp
next
  case (reset_tick p S D clk wid interval r p')
  then show ?case using reset_tick_effect[of p clk wid interval r p'] by simp
next
  case (tick p S D clk now elapsed tr p')
  then show ?case using pool_tick_effect[of p clk now elapsed tr p'] by (auto simp: ac_simps)
next
  case (stop p S D clk)
  then show ?case using pool_stop_effect[of p clk] by simp
next
  case (cleanup p S D)
  then show ?case by (simp add: pool_inv_def queued_def)
next
  case (cleanup_check p S D clk)
  then show ?case using internal_reduce_workers_effect[of p clk] by simp
next
  case (thread_begin p S D i)
  then show ?case using thread_update_effect[of p i "worker_thread_begin (pool_workers p ! i)"]
    by (simp add: worker_thread_begin_def worker_ok_def)
next
  case (thread_round p S D i lclk tr ticks w)
  then show ?case using thread_round_effect[of p i "pool_set p" lclk tr ticks w] by (auto simp: ac_simps)
next
  case (thread_exiting p S D i)
  then show ?case using thread_update_effect[of p i "worker_exiting (pool_workers p ! i)"]
    by (simp add: worker_exiting_def worker_ok_def)
next
  case (thread_drain p S D i s w)
  then show ?case using thread_drain_effect[of p i s w] by simp
next
  case (thread_exited p S D i)
  then show ?case using thread_update_effect[of p i "worker_exited (pool_workers p ! i)"]
    by (simp add: worker_exited_def worker_ok_def)
qed

end
