(* ===== verification/Worker_Claims.thy ===== *)
theory Worker_Claims
  imports Worker_Run
begin

text \<open>
  The properties of the worker pool: no accepted job is lost while calls are atomic, the selection
  of the least loaded worker, the limits that scaling respects, tick callbacks, shutdown; and the
  places where the code does less than it says.
\<close>

section \<open>Jobs\<close>


definition sample_spawned :: worker_pool where
  "sample_spawned = snd (snd (pool_spawn 0 (Some (Some 7)) (worker_pool_create 0)))"

lemma sample_spawned_run: "pool_run sample_spawned {#7#} {#}"
proof -
  have "pool_spawn 0 (Some (Some 7)) (worker_pool_create 0) = (EN_SUCCESS, Some 0, sample_spawned)"
    by (simp add: sample_spawned_def pool_spawn_def select_worker_def do_scaling_up_def worker_pool_create_def
        worker_set_create_def Let_def)
  from pool_run.spawn[OF pool_run.create this] show ?thesis by (simp add: callable_def)
qed


text \<open>C20: The pool hands a job to an eligible worker (not exiting, within the expected count) such that
  no eligible worker has a smaller load key; it finds none only if no eligible worker has a key below
  the maximum.\<close>

theorem select_least_loaded:
  assumes "pool_run p0 submitted run" and "select_worker clk p0 = (sel, p)"
  shows "case sel of
      None \<Rightarrow> (\<forall>w \<in> set (pool_workers p). eligible clk (current_expect_workers (pool_set p)) w \<longrightarrow>
        \<not> key_less (make_compare_key w) key_max)
    | Some i \<Rightarrow> i < length (pool_workers p) \<and>
        eligible clk (current_expect_workers (pool_set p)) (pool_workers p ! i) \<and>
        (\<forall>w \<in> set (pool_workers p). eligible clk (current_expect_workers (pool_set p)) w \<longrightarrow>
          \<not> key_less (make_compare_key w) (make_compare_key (pool_workers p ! i)))"
proof -
  have p: "p = do_scaling_up clk p0"
    "sel = select_loop clk (current_expect_workers (pool_set p)) 0 (pool_workers p) key_max None"
    using assms(2) by (auto simp: select_worker_def Let_def)
  have "ids_from 1 (pool_workers p)"
    unfolding p(1) using do_scaling_up_inv pool_run_books[OF assms(1)] by (auto simp: pool_inv_def)
  from select_loop_spec[OF this, of clk "current_expect_workers (pool_set p)" 0 key_max None] show ?thesis
    unfolding p(2)[symmetric] by (auto split: option.splits)
qed

lemma created_expect: "current_expect_workers (pool_set (pool_reload cfg (worker_pool_create t))) = 2"
  "closing (pool_set (pool_reload cfg (worker_pool_create t))) = False"
  "pool_workers (pool_reload cfg (worker_pool_create t)) = []"
  "need_scaling_up (pool_set (pool_reload cfg (worker_pool_create t))) = True"
  "shared_jobs (pool_set (pool_reload cfg (worker_pool_create t))) = []"
  by (simp_all add: pool_reload_def worker_pool_create_def worker_set_create_def reload_tick_intervals_def Let_def)

text \<open>A configuration that asks for at least three workers.\<close>

definition sample_cfg :: worker_pool_cfg where
  "sample_cfg = \<lparr>cf_queue_size = 20480, cf_tick_min_interval = (0, 4000000), cf_tick_max_interval = (0, 100000000),
     cf_tick_preserve_interval = (0, 8000000), cf_worker_number_min = 3, cf_worker_number_max = 4,
     cf_scaling_up_stabilization_window = (10, 0), cf_scaling_up_cpu_permillage = 600,
     cf_scaling_up_queue_size = 16, cf_scaling_down_stabilization_window = (10, 0),
     cf_scaling_down_cpu_permillage = 500, cf_scaling_down_queue_size = 12, cf_leak_scan_interval = (300, 0)\<rparr>"

definition sample_pool :: worker_pool where
  "sample_pool = pool_reload sample_cfg (worker_pool_create 0)"

lemma sample_pool_run: "pool_run sample_pool {#} {#}"
  unfolding sample_pool_def by (rule pool_run.reload[OF pool_run.create]) (simp_all add: sample_cfg_def)

lemma sample_pool_conf:
  "pool_conf sample_pool = \<lparr>queue_size_limit = 20480, max_workers = 4, min_workers = 3,
     scaling_up_cpu_permillage = 500, scaling_up_queue_size = 16, scaling_up_stable_window_seconds = 10,
     scaling_down_cpu_permillage = 500, scaling_down_queue_size = 12,
     scaling_down_stable_window_seconds = 10, leak_scan_interval_seconds = 300\<rparr>"
  by (simp add: sample_pool_def pool_reload_def reload_scaling_def sample_cfg_def worker_pool_create_def to_int32_def Let_def)

lemma sample_pool_set:
  "pool_set sample_pool = \<lparr>need_scaling_up = True, closing = False, cleaning = False,
     current_expect_workers = 2, configure_tick_min_interval = 4000, configure_tick_max_interval = 100000,
     configure_tick_preserve = 8000, workers = [], removed_scaling_up_time = 0,
     removed_scaling_down_time = 0, shared_jobs = []\<rparr>"
  by (simp add: sample_pool_def pool_reload_def reload_tick_intervals_def duration_us_def sample_cfg_def
      worker_pool_create_def worker_set_create_def Let_def)

abbreviation sample_worker :: "nat \<Rightarrow> nat \<Rightarrow> worker" where
  "sample_worker ptr i \<equiv> worker_start (worker_create ptr (pool_set sample_pool) i 0)"

lemma sample_scaled:
  "do_scaling_up 0 sample_pool = sample_pool\<lparr>pool_set := (pool_set sample_pool)\<lparr>need_scaling_up := False,
     workers := [sample_worker (pool_next_ptr sample_pool) 1, sample_worker (Suc (pool_next_ptr sample_pool)) 2]\<rparr>,
     pool_next_ptr := pool_next_ptr sample_pool + 2\<rparr>"
proof -
  have two: "[0..<2] = [0, 1 :: nat]" by (simp add: upt_rec)
  show ?thesis by (simp add: do_scaling_up_def Let_def sample_pool_set two flip: numeral_2_eq_2)
qed

lemma started_worker_facts [simp]:
  "is_exiting clk (worker_start (worker_create a s i clk)) = False" "wk_id (worker_start (worker_create a s i clk)) = i"
  "make_compare_key (worker_start (worker_create a s i clk)) = \<lparr>ck_pending_job_size = 0,
     ck_last_second_busy_us = 0, ck_last_minute_busy_us = 0, ck_worker_id = i, ck_worker_ptr = a\<rparr>"
  by (simp_all add: is_exiting_def never_started_def worker_start_def worker_create_def make_compare_key_def SECOND_NS_def)

lemma sample_select: "select_worker 0 sample_pool = (Some 0, do_scaling_up 0 sample_pool)"
  by (simp add: select_worker_def sample_scaled Let_def key_less_def key_max_def sample_pool_set)

theorem select_least_loaded_witness:
  "pool_run sample_pool {#} {#} \<and> select_worker 0 sample_pool = (Some 0, do_scaling_up 0 sample_pool) \<and>
   eligible 0 2 (pool_workers (do_scaling_up 0 sample_pool) ! 0)"
  using sample_pool_run sample_select select_least_loaded[OF sample_pool_run sample_select]
  by (simp add: sample_pool_set)




lemma collect_loads_some:
  assumes "ids_from n ws" and "w \<in> set ws" and "eligible clk e w"
  shows "collect_loads clk e i ws m \<noteq> []"
  using assms
proof (induction ws arbitrary: n i m)
  case (Cons x ws)
  have grow: "m \<noteq> [] \<Longrightarrow> collect_loads clk e i us m \<noteq> []" for i us m
    by (induction us arbitrary: i m) (auto simp: set_map_put(2))
  show ?case
  proof (cases "is_exiting clk x")
    case True
    then show ?thesis using Cons by (auto simp: eligible_def)
  next
    case False
    have "\<forall>y \<in> set ws. n \<le> wk_id y" using Cons.prems(1) by (fastforce simp: ids_from_def in_set_conv_nth)
    then have "wk_id x \<le> wk_id w" using Cons.prems(1,2) by auto
    then show ?thesis using False Cons.prems(3) grow[OF set_map_put(2)] by (auto simp: eligible_def)
  qed
qed simp

text \<open>Rebalancing moves every shared job to the workers when some worker is eligible, and changes
  nothing but the place of the jobs.\<close>

theorem rebalance_moves_all:
  assumes "pool_run p submitted run" and "all_started clk p" and "w \<in> set (pool_workers (do_scaling_up clk p))"
    and "eligible clk (current_expect_workers (pool_set p)) w"
  shows "shared_jobs (pool_set (rebalance_jobs clk p)) = [] \<and> queued (rebalance_jobs clk p) = queued p"
proof -
  have inv: "pool_inv p" using pool_run_books[OF assms(1)] by simp
  let ?p = "do_scaling_up clk p"
  have "ids_from 1 (pool_workers ?p)" using do_scaling_up_inv[OF inv] by (simp add: pool_inv_def)
  then have "collect_loads clk (current_expect_workers (pool_set ?p)) 0 (pool_workers ?p) [] \<noteq> []"
    using assms(3,4) by (intro collect_loads_some) auto
  then have "shared_jobs (pool_set (rebalance_jobs clk p)) = []" by (simp add: rebalance_jobs_def Let_def)
  then show ?thesis using rebalance_jobs_effect[OF inv assms(2)] by simp
qed

definition sample_shared :: worker_pool where
  "sample_shared = pool_reload sample_cfg sample_spawned"

lemma sample_shared_run: "pool_run sample_shared {#7#} {#}"
  unfolding sample_shared_def by (rule pool_run.reload[OF sample_spawned_run]) (simp_all add: sample_cfg_def)

theorem rebalance_moves_all_witness:
  "pool_run sample_shared {#7#} {#} \<and> shared_jobs (pool_set sample_shared) \<noteq> [] \<and>
   shared_jobs (pool_set (rebalance_jobs 0 sample_shared)) = []"
proof -
  have s: "shared_jobs (pool_set sample_shared) = [\<lparr>jd_action = Some (Some 7)\<rparr>]" "pool_workers sample_shared = []"
    "current_expect_workers (pool_set sample_shared) = 2" "need_scaling_up (pool_set sample_shared)"
    by (simp_all add: sample_shared_def sample_spawned_def pool_spawn_def select_worker_def do_scaling_up_def
        worker_pool_create_def worker_set_create_def pool_reload_def reload_tick_intervals_def Let_def)
  have w: "worker_start (worker_create (pool_next_ptr sample_shared) (pool_set sample_shared) 1 0) \<in>
      set (pool_workers (do_scaling_up 0 sample_shared))"
    by (simp add: do_scaling_up_def Let_def s upt_rec)
  have "all_started 0 sample_shared" by (simp add: all_started_def s)
  from rebalance_moves_all[OF sample_shared_run this w] show ?thesis
    using sample_shared_run by (simp add: s eligible_def)
qed


section \<open>Scaling\<close>

lemma expect_frames [simp]:
  "current_expect_workers (pool_set (rebalance_jobs clk p)) = current_expect_workers (pool_set p)"
  "current_expect_workers (pool_set (internal_autofix_workers clk p)) = current_expect_workers (pool_set p)"
  "current_expect_workers (pool_set (snd (internal_reduce_workers clk p))) = current_expect_workers (pool_set p)"
  "pool_conf (rebalance_jobs clk p) = pool_conf p" "pool_conf (internal_autofix_workers clk p) = pool_conf p"
  "pool_conf (snd (internal_reduce_workers clk p)) = pool_conf p"
  by (simp_all add: rebalance_jobs_def internal_autofix_workers_def internal_reduce_workers_def Let_def split: prod.splits)

lemma pool_tick_expect:
  fixes clk now elapsed
  assumes "\<not> closing (pool_set p)"
  defines "e \<equiv> (if current_expect_workers (pool_set p) = 0 then min_workers (pool_conf p) else current_expect_workers (pool_set p))"
  defines "e' \<equiv> current_expect_workers (pool_set (snd (pool_tick clk now elapsed p)))"
  shows "min e (min_workers (pool_conf p)) \<le> e'" and "e' \<le> max e (max_workers (pool_conf p))"
    and "pool_conf (snd (pool_tick clk now elapsed p)) = pool_conf p"
proof -
  obtain e2 p1 where up: "calculate_scaling_up now e p = (e2, p1)" by (cases "calculate_scaling_up now e p")
  obtain e3 p2 where dn: "calculate_scaling_down now e2 p1 = (e3, p2)" by (cases "calculate_scaling_down now e2 p1")
  have conf: "pool_conf p1 = pool_conf p" "pool_conf p2 = pool_conf p"
    using calculate_scaling_up_same(1)[OF up] calculate_scaling_down_same(1)[OF dn] by (auto simp: same_workers_def)
  have e': "e' = e3" "pool_conf (snd (pool_tick clk now elapsed p)) = pool_conf p"
    using assms(1) up dn conf by (auto simp: e'_def e_def pool_tick_def Let_def)
  show "min e (min_workers (pool_conf p)) \<le> e'"
    using calculate_scaling_up_same(2)[OF up] calculate_scaling_down_same(3)[OF dn] conf e' by (auto simp: min_def split: if_splits)
  show "e' \<le> max e (max_workers (pool_conf p))"
    using calculate_scaling_up_same(3)[OF up] calculate_scaling_down_same(2)[OF dn] e' by linarith
  show "pool_conf (snd (pool_tick clk now elapsed p)) = pool_conf p" by (rule e'(2))
qed

text \<open>A tick keeps the expected number of workers between the configured minimum and maximum, once
  it is there.\<close>

theorem tick_keeps_limits:
  assumes "pool_run p submitted run" and "\<not> closing (pool_set p)"
    and "min_workers (pool_conf p) \<le> current_expect_workers (pool_set p)"
    and "current_expect_workers (pool_set p) \<le> max_workers (pool_conf p)"
  shows "let p' = snd (pool_tick clk now elapsed p) in min_workers (pool_conf p') \<le> current_expect_workers (pool_set p') \<and>
    current_expect_workers (pool_set p') \<le> max_workers (pool_conf p')"
proof -
  have "1 \<le> min_workers (pool_conf p)" using pool_run_books[OF assms(1)] by (simp add: pool_inv_def conf_ok_def)
  then show ?thesis using pool_tick_expect[OF assms(2), of clk now elapsed] assms(3,4) by (simp add: Let_def)
qed

theorem tick_keeps_limits_witness:
  "pool_run (worker_pool_create 0) {#} {#} \<and>
   2 \<le> current_expect_workers (pool_set (snd (pool_tick 0 99 (\<lambda>n. 0) (worker_pool_create 0)))) \<and>
   current_expect_workers (pool_set (snd (pool_tick 0 99 (\<lambda>n. 0) (worker_pool_create 0)))) \<le> 4"
proof -
  have c: "\<not> closing (pool_set (worker_pool_create 0))" "min_workers (pool_conf (worker_pool_create 0)) = 2"
    "max_workers (pool_conf (worker_pool_create 0)) = 4" "current_expect_workers (pool_set (worker_pool_create 0)) = 2"
    by (simp_all add: worker_pool_create_def worker_set_create_def scaling_configure_create_def)
  show ?thesis
    using tick_keeps_limits[OF pool_run.create[of 0] c(1), of 0 99 "\<lambda>n. 0"] pool_tick_expect(3)[OF c(1), of 0 99 "\<lambda>n. 0"]
      pool_run.create[of 0] by (simp add: c Let_def)
qed

text \<open>The minimum is not enforced upwards: with at least three workers configured, an idle pool
  keeps expecting two, so the third one, which the enumeration reports as stable, does not exist and a
  job for it is refused.\<close>

theorem minimum_not_reached:
  "min_workers (pool_conf sample_pool) = 3 \<and>
   current_expect_workers (pool_set (snd (pool_tick 0 (20 * SECOND_NS) (\<lambda>n. 0) sample_pool))) = 2 \<and>
   (3, kStable) \<in> set (foreach_worker (\<lambda>i m. True) 0 sample_pool) \<and>
   fst (pool_spawn_context 0 (Some (Some 7)) 3 sample_pool) = EN_ATAPP_ERR_WORKER_POOL_NO_AVAILABLE_WORKER"
proof -
  have st: "pool_stat sample_pool = scaling_statistics_create 0"
    by (simp add: sample_pool_def pool_reload_def worker_pool_create_def Let_def)
  have "calculate_scaling_up (20 * SECOND_NS) 2 sample_pool =
      (2, sample_pool\<lparr>pool_stat := (pool_stat sample_pool)\<lparr>last_scaling_up_checkpoint := 20 * SECOND_NS\<rparr>\<rparr>)"
    by (simp add: calculate_scaling_up_def st scaling_statistics_create_def sample_pool_conf sample_pool_set SECOND_NS_def
        collect_up_def queue_total_def scaling_up_target_def to_uint32_def Let_def)
  moreover have "fst (calculate_scaling_down (20 * SECOND_NS) 2
      (sample_pool\<lparr>pool_stat := (pool_stat sample_pool)\<lparr>last_scaling_up_checkpoint := 20 * SECOND_NS\<rparr>\<rparr>)) = 2"
    by (simp add: calculate_scaling_down_def st scaling_statistics_create_def sample_pool_conf sample_pool_set SECOND_NS_def
        collect_down_def queue_total_def scaling_down_target_def to_uint32_def Let_def)
  ultimately have "current_expect_workers (pool_set (snd (pool_tick 0 (20 * SECOND_NS) (\<lambda>n. 0) sample_pool))) = 2"
    by (cases "calculate_scaling_down (20 * SECOND_NS) 2
          (sample_pool\<lparr>pool_stat := (pool_stat sample_pool)\<lparr>last_scaling_up_checkpoint := 20 * SECOND_NS\<rparr>\<rparr>)")
      (simp add: pool_tick_def sample_pool_set Let_def)
  moreover have "(3, kStable) \<in> set (foreach_worker (\<lambda>i m. True) 0 sample_pool)"
    by (simp add: foreach_worker_def sample_pool_conf sample_pool_set upt_rec)
  moreover have "fst (pool_spawn_context 0 (Some (Some 7)) 3 sample_pool) = EN_ATAPP_ERR_WORKER_POOL_NO_AVAILABLE_WORKER"
    by (simp add: pool_spawn_context_def select_worker_context_def sample_pool_set Let_def)
  ultimately show ?thesis by (simp add: sample_pool_conf)
qed

text \<open>Whatever the configuration file says, a reload leaves valid limits: one worker at least, the
  minimum not above the maximum, positive CPU thresholds with the lower one not above the upper one.\<close>

theorem reload_gives_valid_limits:
  assumes "cf_worker_number_max cfg < 2 ^ 32" and "cf_worker_number_min cfg < 2 ^ 32"
  shows "conf_ok (pool_conf (pool_reload cfg p))"
  using reload_scaling_ok[OF assms] by (simp add: pool_reload_def apply_configure_def Let_def)

theorem reload_gives_valid_limits_witness:
  "conf_ok (pool_conf (pool_reload (sample_cfg\<lparr>cf_worker_number_max := 0, cf_worker_number_min := 9\<rparr>) sample_pool))"
  by (rule reload_gives_valid_limits) (simp_all add: sample_cfg_def)

text \<open>The configured upper CPU threshold is never used: a reload takes the upper threshold from
  the setting of the lower one.\<close>

theorem scaling_up_threshold_ignored:
  "reload_scaling (cfg\<lparr>cf_scaling_up_cpu_permillage := v\<rparr>) = reload_scaling cfg \<and>
   scaling_up_cpu_permillage (reload_scaling cfg) =
     (if cf_scaling_down_cpu_permillage cfg \<le> 0 then 600 else cf_scaling_down_cpu_permillage cfg)"
  by (simp add: reload_scaling_def Let_def)

section \<open>Ticks of a worker\<close>

text \<open>With valid limits the adaptive tick interval of a worker stays within them, however long a
  tick takes.\<close>

theorem tick_interval_bounded:
  assumes "1 \<le> mn" and "mn \<le> mx" and "tc_data (tick_handles w) \<noteq> []"
    and "background_job_tick elapsed cost w cur mn mx = (tr, ticks, w')"
  shows "mn \<le> current_tick_interval_us w' \<and> current_tick_interval_us w' \<le> mx"
  using assms(3,4) next_tick_interval_bounds[OF assms(1,2), of cost cur]
  by (auto simp: background_job_tick_def Let_def split: prod.splits)

theorem tick_interval_bounded_witness:
  "let w = snd (worker_add_tick_callback (worker_create 1 worker_set_create 1 0) kWorkerTickHandleSpecify (Some 9));
       (tr, ticks, w') = background_job_tick (\<lambda>n. 0) 50000 w 4000 1000 8000
   in ticks = [(9, 1)] \<and> 1000 \<le> current_tick_interval_us w' \<and> current_tick_interval_us w' \<le> 8000"
proof -
  let ?w = "snd (worker_add_tick_callback (worker_create 1 worker_set_create 1 0) kWorkerTickHandleSpecify (Some 9))"
  obtain tr ticks w' where b: "background_job_tick (\<lambda>n. 0) 50000 ?w 4000 1000 8000 = (tr, ticks, w')" by (metis prod_cases3)
  have h: "tc_data (tick_handles ?w) \<noteq> []" by (simp add: worker_add_tick_callback_def Let_def)
  have "ticks = [(9, 1)]" using b
    by (auto simp: background_job_tick_def worker_add_tick_callback_def worker_create_def run_tick_handles_def Let_def)
  then show ?thesis using tick_interval_bounded[OF _ _ h b] b by (simp add: Let_def)
qed

definition callbacks_ok :: "worker \<Rightarrow> bool" where
  "callbacks_ok w \<longleftrightarrow> 1 \<le> tc_version (tick_handles w) \<and> list_all (\<lambda>e. fst e < tc_next (tick_handles w)) (tc_data (tick_handles w))"

text \<open>Removing a tick callback by the handle of its registration succeeds once, restores the list
  of callbacks, and a second removal by the same handle is refused.\<close>

theorem tick_callback_roundtrip:
  assumes "callbacks_ok w" and "worker_add_tick_callback w type action = (handle, w1)"
  shows "\<exists>handle' w2. worker_remove_tick_callback w1 handle = (True, handle', w2) \<and>
    tc_data (tick_handles w2) = tc_data (tick_handles w) \<and> callbacks_ok w1 \<and> callbacks_ok w2 \<and>
    fst (worker_remove_tick_callback w2 handle') = False"
proof -
  have "filter (\<lambda>e. fst e \<noteq> tc_next (tick_handles w)) (tc_data (tick_handles w)) = tc_data (tick_handles w)"
    using assms(1) by (intro filter_True) (auto simp: callbacks_ok_def list_all_iff)
  then have rem: "worker_remove_tick_callback w1 handle = (True, handle\<lparr>ah_iter := None, ah_version := 0\<rparr>,
      w1\<lparr>tick_handles := (tick_handles w1)\<lparr>tc_data := tc_data (tick_handles w)\<rparr>\<rparr>)"
    using assms(2) by (auto simp: worker_add_tick_callback_def worker_remove_tick_callback_def Let_def)
  have "callbacks_ok w1" "callbacks_ok (w1\<lparr>tick_handles := (tick_handles w1)\<lparr>tc_data := tc_data (tick_handles w)\<rparr>\<rparr>)"
    and "1 \<le> tc_version (tick_handles w1)"
    using assms by (fastforce simp: worker_add_tick_callback_def callbacks_ok_def Let_def list_all_iff)+
  then show ?thesis unfolding rem by (auto simp: worker_remove_tick_callback_def)
qed

theorem tick_callback_roundtrip_witness:
  "let (handle, w1) = worker_add_tick_callback (worker_create 1 worker_set_create 1 0) kWorkerTickHandleSpecify (Some 9)
   in \<exists>handle' w2. worker_remove_tick_callback w1 handle = (True, handle', w2) \<and> tc_data (tick_handles w2) = []"
proof -
  have ok: "callbacks_ok (worker_create 1 worker_set_create 1 0)" by (simp add: callbacks_ok_def worker_create_def)
  obtain handle w1 where a: "worker_add_tick_callback (worker_create 1 worker_set_create 1 0) kWorkerTickHandleSpecify (Some 9) = (handle, w1)"
    by (metis surj_pair)
  show ?thesis using tick_callback_roundtrip[OF ok a] a by (auto simp: worker_create_def)
qed

section \<open>Shutdown\<close>



lemma sample_pool_spawn:
  "pool_spawn 0 (Some (Some 7)) sample_pool =
     (EN_SUCCESS, Some 1, emplace_to 0 \<lparr>jd_action = Some (Some 7)\<rparr> (do_scaling_up 0 sample_pool))"
  by (simp add: pool_spawn_def sample_select sample_scaled sample_pool_conf Let_def)

lemma reduce_keeps_unexited:
  "pool_workers p \<noteq> [] \<Longrightarrow> \<not> is_exited clk (last (pool_workers p)) \<Longrightarrow> snd (internal_reduce_workers clk p) = p"
  by (cases "rev (pool_workers p)") (auto simp: internal_reduce_workers_def Let_def last_rev[symmetric] dest: arg_cong[of _ _ rev])

definition spawned_pool :: worker_pool where
  "spawned_pool = emplace_to 0 \<lparr>jd_action = Some (Some 7)\<rparr> (do_scaling_up 0 sample_pool)"

lemma spawned_pool_run: "pool_run spawned_pool {#7#} {#}"
  using pool_run.spawn[OF sample_pool_run sample_pool_spawn] by (simp add: spawned_pool_def callable_def)

lemma spawned_workers:
  "pool_workers spawned_pool = [worker_emplace (sample_worker (pool_next_ptr sample_pool) 1) \<lparr>jd_action = Some (Some 7)\<rparr>,
     sample_worker (Suc (pool_next_ptr sample_pool)) 2]"
  "shared_jobs (pool_set spawned_pool) = []" "closing (pool_set spawned_pool) = False"
  by (simp_all add: spawned_pool_def emplace_to_def sample_scaled sample_pool_set)

lemmas worker_defs = worker_emplace_def worker_start_def worker_create_def worker_thread_begin_def worker_exiting_def
  is_exited_def is_exiting_def never_started_def

text \<open>\<open>stop\<close> skips a worker that is exiting but has not yet handed back its queue: it reports
  that it is done although an accepted job is still queued.\<close>

theorem stop_ignores_exiting_worker:
  "\<exists>p. pool_run p {#7#} {#} \<and> all_started 0 p \<and> fst (pool_stop 0 p) = 0 \<and> callable (queued p) = {#7#}"
proof -
  let ?w1 = "worker_emplace (sample_worker (pool_next_ptr sample_pool) 1) \<lparr>jd_action = Some (Some 7)\<rparr>"
  let ?w2 = "sample_worker (Suc (pool_next_ptr sample_pool)) 2"
  define p2 where "p2 = set_workers spawned_pool [worker_thread_begin ?w1, ?w2]"
  have r2: "pool_run p2 {#7#} {#}"
    using pool_run.thread_begin[OF spawned_pool_run, of 0] by (simp add: spawned_workers p2_def worker_defs)
  define p3 where "p3 = p2\<lparr>pool_set := (pool_set p2)\<lparr>closing := True, current_expect_workers := 0\<rparr>\<rparr>"
  have w3: "pool_workers p3 = [worker_thread_begin ?w1, ?w2]" by (simp add: p3_def p2_def)
  have st: "all_started 0 p2" by (simp add: all_started_def p2_def worker_defs SECOND_NS_def)
  have "snd (internal_reduce_workers 0 p3) = p3"
    using w3 by (intro reduce_keeps_unexited) (simp_all add: worker_defs SECOND_NS_def)
  then have "snd (pool_stop 0 p2) = p3"
    by (simp add: pool_stop_def p3_def p2_def spawned_workers Let_def)
  then have r3: "pool_run p3 {#7#} {#}" using pool_run.stop[OF r2 st] by simp
  define p4 where "p4 = set_workers p3 [worker_exiting (worker_thread_begin ?w1), ?w2]"
  have "wk_status (pool_workers p3 ! 0) = kRunning" "loop_ends (pool_set p3) (pool_workers p3 ! 0)"
    unfolding w3 by (simp_all add: p3_def loop_ends_def worker_defs)
  then have r4: "pool_run p4 {#7#} {#}"
    using pool_run.thread_exiting[OF r3, of 0] by (simp add: w3 p4_def)
  have w4: "pool_workers p4 = [worker_exiting (worker_thread_begin ?w1), ?w2]" "closing (pool_set p4)"
    "shared_jobs (pool_set p4) = []"
    by (simp_all add: p4_def p3_def p2_def spawned_workers)
  have st4: "all_started 0 p4" unfolding all_started_def w4 by (simp add: worker_defs SECOND_NS_def)
  have "snd (internal_reduce_workers 0 p4) = p4"
    using w4 by (intro reduce_keeps_unexited) (simp_all add: worker_defs SECOND_NS_def)
  then have "fst (pool_stop 0 p4) = 0"
    by (simp add: pool_stop_def w4 Let_def) (simp add: worker_defs)
  moreover have "callable (queued p4) = {#7#}" using pool_run_books[OF r4] by simp
  ultimately show ?thesis using r4 st4 by blast
qed

text \<open>A thread that starts, finds that it has to end, hands back its jobs and exits.\<close>

definition thread_run_out :: "nat \<Rightarrow> worker_pool \<Rightarrow> worker_pool" where
  "thread_run_out i p =
     (let (s, w) = worker_drain (pool_set p) (worker_exiting (worker_thread_begin (pool_workers p ! i)))
      in p\<lparr>pool_set := s\<lparr>workers := (pool_workers p)[i := worker_exited w]\<rparr>\<rparr>)"

text \<open>C31: \<open>spawn\<close> selects a worker under the lock but enqueues outside of it. If the pool is stopped
  and the worker exits in between, the job lands in the queue of a finished worker, and removing the
  worker drops it.\<close>

theorem spawn_race_loses_job:
  "let (sel, p1) = select_worker 0 sample_pool;
       p2 = snd (pool_stop 0 p1);
       p3 = thread_run_out 1 (thread_run_out 0 p2);
       p4 = emplace_to 0 \<lparr>jd_action = Some (Some 7)\<rparr> p3;
       p5 = snd (internal_reduce_workers 0 p4)
   in sel = Some 0 \<and> list_all (loop_ends (pool_set p2)) (pool_workers p2) \<and>
      callable (queued p4) = {#7#} \<and> queued p5 = {#}"
proof -
  let ?w1 = "sample_worker (pool_next_ptr sample_pool) 1" and ?w2 = "sample_worker (Suc (pool_next_ptr sample_pool)) 2"
  define p1 where "p1 = do_scaling_up 0 sample_pool"
  have w1: "pool_workers p1 = [?w1, ?w2]" "shared_jobs (pool_set p1) = []" "closing (pool_set p1) = False"
    by (simp_all add: p1_def sample_scaled sample_pool_set)
  define p2 where "p2 = p1\<lparr>pool_set := (pool_set p1)\<lparr>closing := True, current_expect_workers := 0\<rparr>\<rparr>"
  have "snd (internal_reduce_workers 0 p2) = p2"
    by (intro reduce_keeps_unexited) (simp_all add: p2_def w1 worker_defs SECOND_NS_def)
  then have p2: "snd (pool_stop 0 p1) = p2" by (simp add: pool_stop_def w1 p2_def Let_def)
  have e2: "list_all (loop_ends (pool_set p2)) (pool_workers p2)"
    by (simp add: p2_def w1 loop_ends_def worker_defs)
  let ?x = "\<lambda>w. w\<lparr>wk_status := kExited\<rparr>"
  define p3 where "p3 = thread_run_out 1 (thread_run_out 0 p2)"
  have w3: "pool_workers p3 = [?x ?w1, ?x ?w2]" "shared_jobs (pool_set p3) = []" "closing (pool_set p3)"
    by (simp_all add: p3_def p2_def thread_run_out_def w1 worker_drain_def worker_exited_def worker_exiting_def
        worker_thread_begin_def worker_start_def worker_create_def)
  define p4 where "p4 = emplace_to 0 \<lparr>jd_action = Some (Some 7)\<rparr> p3"
  have w4: "pool_workers p4 = [worker_emplace (?x ?w1) \<lparr>jd_action = Some (Some 7)\<rparr>, ?x ?w2]"
    "shared_jobs (pool_set p4) = []" "closing (pool_set p4)"
    by (simp_all add: p4_def emplace_to_def w3)
  have "pool_workers (snd (internal_reduce_workers 0 p4)) = [] \<and> shared_jobs (pool_set (snd (internal_reduce_workers 0 p4))) = []"
    by (simp add: internal_reduce_workers_def w4 Let_def is_exited_def worker_emplace_def)
  then have "queued (snd (internal_reduce_workers 0 p4)) = {#}" by (simp add: queued_def)
  moreover have "callable (queued p4) = {#7#}"
    by (simp add: queued_def w4 callable_def) (simp add: worker_defs)
  ultimately show ?thesis
    using e2 unfolding sample_select p1_def[symmetric] prod.case Let_def p2 p3_def[symmetric] p4_def[symmetric] by simp
qed

lemma cleanup_loop_returns:
  assumes env: "\<And>k q. closing (pool_set (env k q)) = closing (pool_set q)"
    and last: "\<And>q. list_all (is_exited (clk (Suc (k + n)))) (pool_workers (env (k + n) q))"
    and "closing (pool_set p)"
  shows "\<exists>p'. cleanup_loop (n + 2) k clk env p = Some p' \<and> pool_workers p' = []"
  using last assms(3)
proof (induction n arbitrary: k p)
  case 0
  obtain left p1 where r: "internal_reduce_workers (clk k) p = (left, p1)" by (metis surj_pair)
  obtain left2 p2 where r2: "internal_reduce_workers (clk (Suc k)) (env k p1) = (left2, p2)" by (metis surj_pair)
  have cl: "closing (pool_set (env k p1))" using env internal_reduce_workers_spec(6)[OF r] 0(2) by simp
  have all: "list_all (is_exited (clk (Suc k))) (pool_workers (env k p1))" using 0(1) by simp
  have gone: "fst (reduce_loop (clk (Suc k)) 0 ws up down) = []" if "list_all (is_exited (clk (Suc k))) ws" for ws up down
    using that by (induction ws arbitrary: up down) auto
  have "fst (reduce_loop (clk (Suc k)) 0 (rev (pool_workers (env k p1))) (removed_scaling_up_time (pool_set (env k p1)))
      (removed_scaling_down_time (pool_set (env k p1)))) = []" using all by (intro gone) (simp add: list_all_iff)
  then have "pool_workers p2 = [] \<and> \<not> left2"
    using r2 cl by (auto simp: internal_reduce_workers_def Let_def split: prod.splits)
  moreover have "\<not> left \<Longrightarrow> pool_workers p1 = []" using internal_reduce_workers_spec(2)[OF r] by simp
  ultimately show ?case using r r2 by (auto simp: numeral_2_eq_2)
next
  case (Suc n)
  obtain left p1 where r: "internal_reduce_workers (clk k) p = (left, p1)" by (metis surj_pair)
  have "\<exists>p'. cleanup_loop (n + 2) (Suc k) clk env (env k p1) = Some p' \<and> pool_workers p' = []"
  proof (rule Suc.IH)
    show "\<And>q. list_all (is_exited (clk (Suc (Suc k + n)))) (pool_workers (env (Suc k + n) q))" using Suc.prems(1) by simp
    show "closing (pool_set (env k p1))" using env internal_reduce_workers_spec(6)[OF r] Suc.prems(2) by simp
  qed
  moreover have "\<not> left \<Longrightarrow> pool_workers p1 = []" using internal_reduce_workers_spec(2)[OF r] by simp
  ultimately show ?case using r by auto
qed

text \<open>C32: The wait of the cleanup ends as soon as the threads are gone: if during the \<open>n\<close>-th wait
  the last threads exit, the loop returns after at most \<open>n + 2\<close> checks with no worker left.\<close>

theorem cleanup_terminates:
  assumes "\<And>k q. closing (pool_set (env k q)) = closing (pool_set q)"
    and "\<And>q. list_all (is_exited (clk (Suc n))) (pool_workers (env n q))"
  shows "\<exists>p'. internal_cleanup (n + 2) clk env p = Some p' \<and> pool_workers p' = []"
  unfolding internal_cleanup_def using cleanup_loop_returns[of env clk 0 n, OF assms(1)] assms(2) by simp

theorem cleanup_terminates_witness:
  "\<exists>p'. internal_cleanup 3 (\<lambda>n. 0) (\<lambda>n q. set_workers q (map worker_exited (pool_workers q))) spawned_pool = Some p' \<and>
    pool_workers p' = []"
  using cleanup_terminates[of "\<lambda>n q. set_workers q (map worker_exited (pool_workers q))" "\<lambda>n. 0" 1 spawned_pool]
  by (simp add: list_all_iff is_exited_def worker_exited_def numeral_3_eq_3)

end
