(* ===== verification/Connection.thy ===== *)
theory Connection
  imports Discovery_Node
begin

text \<open>
  Connection handles and connectors (\<^verbatim>\<open>class atapp_connection_handle\<close>,
  \<^verbatim>\<open>class atapp_connector_impl\<close> and the bind helpers of
  \<^verbatim>\<open>src/atframe/connectors/atapp_connector_impl.cpp\<close>), with the part of the application
  object they reach through \<^verbatim>\<open>owner_\<close>. Handles, endpoints and connectors point to each
  other with raw pointers, and closing a handle runs a mutual recursion between \<^verbatim>\<open>close\<close>
  and the two \<^verbatim>\<open>unbind\<close> helpers that may end in the destruction of the handle. The model is
  therefore an object store: an operation returns \<open>Inr\<close> of the new store, or \<open>Inl\<close> a
  fault when it follows a pointer to a destroyed object. The recursion carries fuel, and the
  lemmas show that eight levels always suffice.

  \<^verbatim>\<open>owner_\<close> of endpoints and connectors is initialised from a reference and never
  assigned again, so the tests of it for null have one outcome and are not repeated here.
\<close>

section \<open>Data\<close>

type_synonym addr = nat

record message =
  msg_type :: int
  message_sequence :: u64
  msg_data :: "u8 list"
  msg_metadata :: "atapp_metadata option"

record pending_message = message +
  expired_timepoint :: timepoint

record message_sender =
  direct_source_id :: u64
  sender_id :: u64
  sender_name :: string
  sender_remote :: addr

text \<open>
  A handle is owned by \<^verbatim>\<open>std::shared_ptr\<close>: \<open>h_refs\<close> lists the owners (the creating
  scope, or a connector that stores the handle), so \<^verbatim>\<open>use_count()\<close> is its length.
  \<open>h_on_destroy_fn\<close> is the identity of the stored callback.
\<close>

datatype ref_holder = LocalRef | ConnectorRef addr

record conn_handle =
  h_flags :: u32
  h_private_data :: u64
  h_connector :: addr
  h_endpiont :: addr
  h_on_destroy_fn :: "nat option"
  h_refs :: "ref_holder list"

text \<open>
  The dynamic class of a connector: the defaults of the base class, the loopback connector, or a
  connector outside the repository's own transport-free code, with whether it drops its
  reference to the handle when the connection is closed.
\<close>

datatype connector_class = BaseConnector | Loopback | External bool

record connector =
  c_class :: connector_class
  c_destroying :: bool
  c_handles :: "addr list"
  c_protocols :: "string list"
  c_stored :: "addr list"
  lb_pending :: "message list"
  lb_pending_size :: u64

record endpoint =
  ep_closing :: bool
  ep_nearest_waker :: timepoint
  ep_gc_timepoint :: timepoint
  ep_connections :: "addr list"
  ep_discovery :: node_ptr
  ep_pending :: "pending_message list"
  ep_pending_size :: u64

record app_conf =
  app_id :: u64
  app_name :: string
  timer_tick_interval :: int
  endpoint_gc_seconds :: int
  endpoint_gc_nanos :: int
  message_timeout_seconds :: int
  message_timeout_nanos :: int
  send_buffer_number :: u64
  send_buffer_size :: u64
  loop_times :: int

text \<open>The calls the code makes into user callbacks and virtual functions, in order.\<close>

datatype event =
    OnDestroy nat addr
  | OnClose addr addr
  | ForwardSend addr addr message err_code
  | ForwardRequest message_sender message
  | ForwardResponse message_sender message err_code

record app_state =
  hmap :: "addr \<Rightarrow> conn_handle option"
  emap :: "addr \<Rightarrow> endpoint option"
  cmap :: "addr \<Rightarrow> connector"
  a_nodes :: node_heap
  a_closing :: bool
  last_tick_timepoint :: timepoint
  a_conf :: app_conf
  endpoint_index_by_id :: "(u64 \<times> addr) list"
  endpoint_index_by_name :: "(string \<times> addr) list"
  endpoint_waker :: "(timepoint \<times> addr) list"
  loopback_connector :: addr
  connector_protocols :: "(string \<times> addr) list"
  next_addr :: addr
  a_events :: "event list"

section \<open>Results and store access\<close>

datatype fault = OutOfFuel | UseAfterFree addr

type_synonym 'a res = "fault + 'a"

definition and_then :: "'a res \<Rightarrow> ('a \<Rightarrow> 'b res) \<Rightarrow> 'b res" where
  "and_then m f = (case m of Inl e \<Rightarrow> Inl e | Inr x \<Rightarrow> f x)"

definition deref_handle :: "addr \<Rightarrow> app_state \<Rightarrow> conn_handle res" where
  "deref_handle h s = (case hmap s h of None \<Rightarrow> Inl (UseAfterFree h) | Some H \<Rightarrow> Inr H)"

definition deref_endpoint :: "addr \<Rightarrow> app_state \<Rightarrow> endpoint res" where
  "deref_endpoint e s = (case emap s e of None \<Rightarrow> Inl (UseAfterFree e) | Some E \<Rightarrow> Inr E)"

definition upd_handle :: "addr \<Rightarrow> (conn_handle \<Rightarrow> conn_handle) \<Rightarrow> app_state \<Rightarrow> app_state" where
  "upd_handle h f s = s\<lparr>hmap := (hmap s)(h := map_option f (hmap s h))\<rparr>"

definition upd_endpoint :: "addr \<Rightarrow> (endpoint \<Rightarrow> endpoint) \<Rightarrow> app_state \<Rightarrow> app_state" where
  "upd_endpoint e f s = s\<lparr>emap := (emap s)(e := map_option f (emap s e))\<rparr>"

definition upd_connector :: "addr \<Rightarrow> (connector \<Rightarrow> connector) \<Rightarrow> app_state \<Rightarrow> app_state" where
  "upd_connector c f s = s\<lparr>cmap := (cmap s)(c := f (cmap s c))\<rparr>"

definition emit :: "event \<Rightarrow> app_state \<Rightarrow> app_state" where
  "emit ev s = s\<lparr>a_events := a_events s @ [ev]\<rparr>"

section \<open>Time and wakers of the application\<close>

definition nanos_per_second :: int where
  "nanos_per_second = 1000000000"

definition get_next_tick_time :: "app_state \<Rightarrow> timepoint" where
  "get_next_tick_time s = last_tick_timepoint s + timer_tick_interval (a_conf s)"

definition get_configure_message_timeout :: "app_conf \<Rightarrow> int" where
  "get_configure_message_timeout cf =
     (if message_timeout_seconds cf \<le> 0 \<and> message_timeout_nanos cf \<le> 0 then 5 * nanos_per_second
      else message_timeout_seconds cf * nanos_per_second + message_timeout_nanos cf)"

text \<open>The delay both the constructor and \<^verbatim>\<open>unbind\<close> add to the collection time.\<close>

definition endpoint_gc_delay :: "app_conf \<Rightarrow> int" where
  "endpoint_gc_delay cf =
     (if endpoint_gc_seconds cf < 0 then 60 * nanos_per_second
      else endpoint_gc_seconds cf * nanos_per_second + endpoint_gc_nanos cf)"

text \<open>\<^verbatim>\<open>weak_ptr::lock\<close> on the watcher of an endpoint: null once the endpoint is destroyed.\<close>

definition watcher_lock :: "addr \<Rightarrow> app_state \<Rightarrow> addr" where
  "watcher_lock e s =
     (case emap s e of None \<Rightarrow> 0 | Some E \<Rightarrow> e)"

text \<open>
  \<^verbatim>\<open>endpoint_waker_\<close> is a \<^verbatim>\<open>std::map\<close> ordered by time and address; its value is the
  weak pointer whose address is in the key, so the model keeps the sorted keys.
\<close>

definition add_endpoint_waker :: "timepoint \<Rightarrow> addr \<Rightarrow> timepoint \<Rightarrow> app_state \<Rightarrow> bool \<times> app_state" where
  "add_endpoint_waker wakeup_time e previous_time s =
     (if a_closing s then (False, s)
      else let ep_ptr = watcher_lock e s;
               ws = insort_insert (wakeup_time, ep_ptr) (endpoint_waker s);
               ws' = (if previous_time > wakeup_time then removeAll (previous_time, ep_ptr) ws else ws)
           in (True, s\<lparr>endpoint_waker := ws'\<rparr>))"

definition add_waker :: "addr \<Rightarrow> timepoint \<Rightarrow> app_state \<Rightarrow> app_state" where
  "add_waker e wakeup_time s =
     (case emap s e of None \<Rightarrow> s
      | Some E \<Rightarrow>
          if wakeup_time < ep_nearest_waker E \<or> cdiv (ep_nearest_waker E) nanos_per_second = 0
          then (case add_endpoint_waker wakeup_time e (ep_nearest_waker E) s of
                  (ok, s') \<Rightarrow> if ok then upd_endpoint e (\<lambda>E. E\<lparr>ep_nearest_waker := wakeup_time\<rparr>) s' else s')
          else s)"

section \<open>Closing a connection\<close>

definition handle_create :: conn_handle where
  "handle_create = \<lparr>h_flags = 0, h_private_data = 0, h_connector = 0, h_endpiont = 0,
     h_on_destroy_fn = None, h_refs = [LocalRef]\<rparr>"

definition handle_is_closing :: "conn_handle \<Rightarrow> bool" where
  "handle_is_closing H \<longleftrightarrow> h_flags H AND 1 \<noteq> 0"

definition handle_is_ready :: "conn_handle \<Rightarrow> bool" where
  "handle_is_ready H \<longleftrightarrow> h_flags H AND 2 \<noteq> 0"

definition mark_closing :: "conn_handle \<Rightarrow> conn_handle" where
  "mark_closing H = H\<lparr>h_flags := (h_flags H OR 1) AND NOT 2\<rparr>"

definition mark_ready :: "conn_handle \<Rightarrow> conn_handle" where
  "mark_ready H = H\<lparr>h_flags := (h_flags H OR 2) AND NOT 1\<rparr>"

definition mark_unready :: "conn_handle \<Rightarrow> conn_handle" where
  "mark_unready H = H\<lparr>h_flags := h_flags H AND NOT 2\<rparr>"

text \<open>
  The first half of \<^verbatim>\<open>atapp_endpoint_bind_helper::unbind\<close>: the handle leaves the set of
  the endpoint, and an endpoint that lost its last handle gets its collection time and a waker.
\<close>

definition endpoint_erase :: "addr \<Rightarrow> addr \<Rightarrow> endpoint \<Rightarrow> app_state \<Rightarrow> app_state" where
  "endpoint_erase h e E s =
     (let s1 = upd_endpoint e (\<lambda>E. E\<lparr>ep_connections := removeAll h (ep_connections E)\<rparr>) s
      in if h \<in> set (ep_connections E) \<and> removeAll h (ep_connections E) = []
         then let t = get_next_tick_time s1 + endpoint_gc_delay (a_conf s1)
              in add_waker e t (upd_endpoint e (\<lambda>E. E\<lparr>ep_gc_timepoint := t\<rparr>) s1)
         else s1)"

text \<open>
  The six operations of the recursion. Each takes the function \<open>call\<close> that performs the calls
  it makes; \<open>run_call\<close> ties the knot with fuel, and the equations the code has follow below.
\<close>

datatype conn_call =
    Close addr
  | EndpointUnbind addr addr
  | ConnectorUnbind addr addr
  | OnCloseConnection addr addr
  | Release ref_holder addr
  | Destroy addr

type_synonym caller = "conn_call \<Rightarrow> app_state \<Rightarrow> app_state res"

definition handle_close_body :: "caller \<Rightarrow> addr \<Rightarrow> app_state \<Rightarrow> app_state res" where
  "handle_close_body call h s =
     and_then (deref_handle h s) (\<lambda>H.
       if handle_is_closing H then Inr s
       else and_then
              (if h_endpiont H \<noteq> 0 then call (EndpointUnbind h (h_endpiont H)) (upd_handle h mark_closing s)
               else Inr (upd_handle h mark_closing s)) (\<lambda>s1.
            and_then (deref_handle h s1) (\<lambda>H1.
              if h_connector H1 \<noteq> 0 then call (ConnectorUnbind h (h_connector H1)) s1 else Inr s1)))"

definition endpoint_unbind_body :: "caller \<Rightarrow> addr \<Rightarrow> addr \<Rightarrow> app_state \<Rightarrow> app_state res" where
  "endpoint_unbind_body call h e s =
     and_then (deref_endpoint e s) (\<lambda>E.
     and_then (deref_handle h (endpoint_erase h e E s)) (\<lambda>H.
       if h_endpiont H = e
       then call (Close h) (upd_handle h (\<lambda>H. H\<lparr>h_endpiont := 0\<rparr>) (endpoint_erase h e E s))
       else Inr (endpoint_erase h e E s)))"

definition connector_unbind_body :: "caller \<Rightarrow> addr \<Rightarrow> addr \<Rightarrow> app_state \<Rightarrow> app_state res" where
  "connector_unbind_body call h c s =
     and_then (deref_handle h s) (\<lambda>H.
       let need_trigger = (h_connector H = c);
           s1 = (if need_trigger then upd_handle h (\<lambda>H. H\<lparr>h_connector := 0\<rparr>) s else s);
           s2 = upd_connector c (\<lambda>C. C\<lparr>c_handles := removeAll h (c_handles C)\<rparr>) s1
       in if need_trigger
          then and_then (call (Close h) s2) (\<lambda>s3.
                 if \<not> c_destroying (cmap s3 c) then call (OnCloseConnection c h) s3 else Inr s3)
          else Inr s2)"

text \<open>The virtual \<^verbatim>\<open>on_close_connection\<close>, by the dynamic class of the connector.\<close>

definition on_close_connection_body :: "caller \<Rightarrow> addr \<Rightarrow> addr \<Rightarrow> app_state \<Rightarrow> app_state res" where
  "on_close_connection_body call c h s =
     (let s1 = emit (OnClose c h) s
      in if c_class (cmap s1 c) \<in> {Loopback, External True} \<and> h \<in> set (c_stored (cmap s1 c))
         then call (Release (ConnectorRef c) h)
                (upd_connector c (\<lambda>C. C\<lparr>c_stored := removeAll h (c_stored C)\<rparr>) s1)
         else Inr s1)"

text \<open>Dropping one \<^verbatim>\<open>shared_ptr\<close>; the last one runs the destructor.\<close>

definition handle_release_body :: "caller \<Rightarrow> ref_holder \<Rightarrow> addr \<Rightarrow> app_state \<Rightarrow> app_state res" where
  "handle_release_body call r h s =
     and_then (deref_handle h s) (\<lambda>H.
       if remove1 r (h_refs H) = []
       then call (Destroy h) (upd_handle h (\<lambda>H. H\<lparr>h_refs := remove1 r (h_refs H)\<rparr>) s)
       else Inr (upd_handle h (\<lambda>H. H\<lparr>h_refs := remove1 r (h_refs H)\<rparr>) s))"

definition handle_destroy_body :: "caller \<Rightarrow> addr \<Rightarrow> app_state \<Rightarrow> app_state res" where
  "handle_destroy_body call h s =
     and_then (deref_handle h s) (\<lambda>H.
     and_then (call (Close h) (case h_on_destroy_fn H of None \<Rightarrow> s | Some fn \<Rightarrow> emit (OnDestroy fn h) s))
       (\<lambda>s1. Inr (s1\<lparr>hmap := (hmap s1)(h := None)\<rparr>)))"

primrec run_call :: "nat \<Rightarrow> caller" where
  "run_call 0 = (\<lambda>cl s. Inl OutOfFuel)"
| "run_call (Suc n) = (\<lambda>cl s. case cl of
       Close h \<Rightarrow> handle_close_body (run_call n) h s
     | EndpointUnbind h e \<Rightarrow> endpoint_unbind_body (run_call n) h e s
     | ConnectorUnbind h c \<Rightarrow> connector_unbind_body (run_call n) h c s
     | OnCloseConnection c h \<Rightarrow> on_close_connection_body (run_call n) c h s
     | Release r h \<Rightarrow> handle_release_body (run_call n) r h s
     | Destroy h \<Rightarrow> handle_destroy_body (run_call n) h s)"

declare run_call.simps [simp del]

text \<open>The deepest chain of calls has eight levels (lemma \<open>close_enough_fuel\<close> and its siblings).\<close>

definition close_depth :: nat where
  "close_depth = 8"

definition handle_close :: "addr \<Rightarrow> app_state \<Rightarrow> app_state res" where
  "handle_close h = run_call close_depth (Close h)"

definition endpoint_unbind :: "addr \<Rightarrow> addr \<Rightarrow> app_state \<Rightarrow> app_state res" where
  "endpoint_unbind h e = run_call close_depth (EndpointUnbind h e)"

definition connector_unbind :: "addr \<Rightarrow> addr \<Rightarrow> app_state \<Rightarrow> app_state res" where
  "connector_unbind h c = run_call close_depth (ConnectorUnbind h c)"

definition handle_release :: "ref_holder \<Rightarrow> addr \<Rightarrow> app_state \<Rightarrow> app_state res" where
  "handle_release r h = run_call close_depth (Release r h)"

section \<open>Binding, readiness, cleanup\<close>

definition connector_bind :: "addr \<Rightarrow> addr \<Rightarrow> app_state \<Rightarrow> app_state res" where
  "connector_bind h c s =
     and_then (deref_handle h s) (\<lambda>H.
       if h_connector H = c \<or> c_destroying (cmap s c) then Inr s
       else and_then (if h_connector H \<noteq> 0 then connector_unbind h (h_connector H) s else Inr s) (\<lambda>s1.
            and_then (deref_handle h s1) (\<lambda>_.
              Inr (upd_connector c (\<lambda>C. C\<lparr>c_handles := List.insert h (c_handles C)\<rparr>)
                    (upd_handle h (\<lambda>H. H\<lparr>h_connector := c\<rparr>) s1)))))"

definition endpoint_bind :: "addr \<Rightarrow> addr \<Rightarrow> app_state \<Rightarrow> app_state res" where
  "endpoint_bind h e s =
     and_then (deref_handle h s) (\<lambda>H.
       if h_endpiont H = e then Inr s
       else and_then (if h_endpiont H \<noteq> 0 then endpoint_unbind h (h_endpiont H) s else Inr s) (\<lambda>s1.
            and_then (deref_handle h s1) (\<lambda>H1.
            and_then (deref_endpoint e s1) (\<lambda>_.
              let s2 = upd_endpoint e (\<lambda>E. E\<lparr>ep_connections := List.insert h (ep_connections E)\<rparr>)
                         (upd_handle h (\<lambda>H. H\<lparr>h_endpiont := e\<rparr>) s1)
              in Inr (if handle_is_ready H1 then add_waker e (get_next_tick_time s2) s2 else s2)))))"

definition handle_set_ready :: "addr \<Rightarrow> app_state \<Rightarrow> app_state res" where
  "handle_set_ready h s =
     and_then (deref_handle h s) (\<lambda>H.
       if handle_is_ready H then Inr s
       else let s1 = upd_handle h mark_ready s
            in Inr (if h_endpiont H \<noteq> 0 \<and> h_connector H \<noteq> 0
                    then add_waker (h_endpiont H) (get_next_tick_time s1) s1 else s1))"

definition has_connection_handle :: "endpoint \<Rightarrow> bool" where
  "has_connection_handle E \<longleftrightarrow> ep_connections E \<noteq> []"

definition get_pending_message_count :: "endpoint \<Rightarrow> nat" where
  "get_pending_message_count E = length (ep_pending E)"

definition get_next_pending_message_timeout :: "endpoint \<Rightarrow> timepoint" where
  "get_next_pending_message_timeout E =
     (case ep_pending E of [] \<Rightarrow> 0 | m # _ \<Rightarrow> expired_timepoint m)"

definition handle_set_unready :: "addr \<Rightarrow> app_state \<Rightarrow> app_state res" where
  "handle_set_unready h s =
     and_then (deref_handle h s) (\<lambda>H.
       if \<not> handle_is_ready H then Inr s
       else let s1 = upd_handle h mark_unready s
            in if h_endpiont H = 0 then Inr s1
               else and_then (deref_endpoint (h_endpiont H) s1) (\<lambda>E.
                      Inr (if \<not> has_connection_handle E \<and> get_pending_message_count E > 0
                           then add_waker (h_endpiont H) (get_next_pending_message_timeout E) s1 else s1)))"

definition handle_set_on_destroy :: "addr \<Rightarrow> nat option \<Rightarrow> app_state \<Rightarrow> app_state res" where
  "handle_set_on_destroy h fn s =
     and_then (deref_handle h s) (\<lambda>_. Inr (upd_handle h (\<lambda>H. H\<lparr>h_on_destroy_fn := fn\<rparr>) s))"

definition handle_set_private_data :: "addr \<Rightarrow> u64 \<Rightarrow> app_state \<Rightarrow> app_state res" where
  "handle_set_private_data h d s =
     and_then (deref_handle h s) (\<lambda>_. Inr (upd_handle h (\<lambda>H. H\<lparr>h_private_data := d\<rparr>) s))"

definition connector_create :: "connector_class \<Rightarrow> connector" where
  "connector_create k = \<lparr>c_class = k, c_destroying = False, c_handles = [], c_protocols = [],
     c_stored = [], lb_pending = [], lb_pending_size = 0\<rparr>"

definition register_protocol :: "text_api \<Rightarrow> string \<Rightarrow> connector \<Rightarrow> connector" where
  "register_protocol T protocol_name C =
     C\<lparr>c_protocols := List.insert (map (ta_tolower T) protocol_name) (c_protocols C)\<rparr>"

fun connector_unbind_each :: "addr list \<Rightarrow> addr \<Rightarrow> app_state \<Rightarrow> app_state res" where
  "connector_unbind_each [] c s = Inr s"
| "connector_unbind_each (h # hs) c s =
     and_then (if h \<noteq> 0 then connector_unbind h c s else Inr s) (connector_unbind_each hs c)"

text \<open>\<^verbatim>\<open>cleanup\<close> loops while handles are left; the first argument bounds the rounds.\<close>

fun connector_cleanup :: "nat \<Rightarrow> addr \<Rightarrow> app_state \<Rightarrow> app_state res" where
  "connector_cleanup n c s =
     (if c_handles (cmap s c) = [] then Inr s
      else case n of 0 \<Rightarrow> Inl OutOfFuel
           | Suc m \<Rightarrow>
               and_then (connector_unbind_each (c_handles (cmap s c)) c (upd_connector c (\<lambda>C. C\<lparr>c_handles := []\<rparr>) s))
                 (connector_cleanup m c))"

declare connector_cleanup.simps [simp del]

text \<open>
  The destructors: the loopback connector cleans up in its own destructor, then the base class
  marks the object, so that no handle can be bound to it any more.
\<close>

definition connector_destroy :: "addr \<Rightarrow> app_state \<Rightarrow> app_state res" where
  "connector_destroy c s =
     and_then (if c_class (cmap s c) = Loopback then connector_cleanup 2 c s else Inr s)
       (\<lambda>s1. Inr (upd_connector c (\<lambda>C. C\<lparr>c_destroying := True\<rparr>) s1))"

end
