(* ===== verification/Connection_Links.thy ===== *)
theory Connection_Links
  imports Connection
begin

text \<open>
  Pointer integrity of the connection objects: the invariant \<open>conn_ok\<close> says that every raw
  pointer between handles, endpoints and connectors has its counterpart and that everything a
  set holds is alive, and the lemmas give the closed form of the recursion of
  \<^verbatim>\<open>close\<close> and \<^verbatim>\<open>unbind\<close>, its sufficient fuel, and the preservation of the invariant.
\<close>

section \<open>The invariant\<close>

definition conns :: "app_state \<Rightarrow> addr \<Rightarrow> addr list option" where
  "conns s e = map_option ep_connections (emap s e)"

definition handle_ok ::
  "(addr \<Rightarrow> addr list option) \<Rightarrow> (addr \<Rightarrow> addr list) \<Rightarrow> (addr \<Rightarrow> addr list) \<Rightarrow> addr \<Rightarrow> conn_handle \<Rightarrow> bool" where
  "handle_ok en ch st h H \<longleftrightarrow>
     (h_endpiont H \<noteq> 0 \<longrightarrow> (\<exists>hs. en (h_endpiont H) = Some hs \<and> h \<in> set hs)) \<and>
     (h_connector H \<noteq> 0 \<longrightarrow> h \<in> set (ch (h_connector H))) \<and>
     (handle_is_closing H \<longrightarrow> h_endpiont H = 0 \<and> h_connector H = 0 \<and> \<not> handle_is_ready H) \<and>
     distinct (h_refs H) \<and>
     (\<forall>c. ConnectorRef c \<in> set (h_refs H) \<longrightarrow> h \<in> set (st c))"

definition links_ok ::
  "(addr \<Rightarrow> conn_handle option) \<Rightarrow> (addr \<Rightarrow> addr list option) \<Rightarrow> (addr \<Rightarrow> addr list) \<Rightarrow>
   (addr \<Rightarrow> addr list) \<Rightarrow> bool" where
  "links_ok hm en ch st \<longleftrightarrow>
     hm 0 = None \<and> en 0 = None \<and> ch 0 = [] \<and>
     (\<forall>e hs. en e = Some hs \<longrightarrow> distinct hs) \<and> (\<forall>c. distinct (ch c)) \<and>
     (\<forall>h H. hm h = Some H \<longrightarrow> handle_ok en ch st h H) \<and>
     (\<forall>e hs h. en e = Some hs \<longrightarrow> h \<in> set hs \<longrightarrow> (\<exists>H. hm h = Some H \<and> h_endpiont H = e)) \<and>
     (\<forall>c h. h \<in> set (ch c) \<longrightarrow> (\<exists>H. hm h = Some H \<and> h_connector H = c)) \<and>
     (\<forall>c h. h \<in> set (st c) \<longrightarrow> (\<exists>H. hm h = Some H \<and> ConnectorRef c \<in> set (h_refs H)))"

definition linked :: "app_state \<Rightarrow> bool" where
  "linked s \<longleftrightarrow> links_ok (hmap s) (conns s) (\<lambda>c. c_handles (cmap s c)) (\<lambda>c. c_stored (cmap s c))"

definition conn_ok :: "app_state \<Rightarrow> bool" where
  "conn_ok s \<longleftrightarrow> linked s \<and> (\<forall>h H. hmap s h = Some H \<longrightarrow> h_refs H \<noteq> [])"

text \<open>What the invariant reads of a state.\<close>

definition link_view where
  "link_view s = (hmap s, conns s, (\<lambda>c. c_handles (cmap s c)), (\<lambda>c. c_stored (cmap s c)))"

lemma linked_cong: "link_view s' = link_view s \<Longrightarrow> linked s' = linked s"
  by (simp add: link_view_def linked_def)

lemma conn_ok_cong: "link_view s' = link_view s \<Longrightarrow> conn_ok s' = conn_ok s"
  by (simp add: link_view_def conn_ok_def linked_def)

section \<open>Store access\<close>

lemma and_then_simps [simp]: "and_then (Inr x) f = f x" "and_then (Inl e) f = Inl e"
  by (simp_all add: and_then_def)

lemma and_then_Inr_iff: "and_then m f = Inr y \<longleftrightarrow> (\<exists>x. m = Inr x \<and> f x = Inr y)"
  by (cases m) auto

lemma deref_handle_Some [simp]: "hmap s h = Some H \<Longrightarrow> deref_handle h s = Inr H"
  by (simp add: deref_handle_def)

lemma deref_endpoint_Some [simp]: "emap s e = Some E \<Longrightarrow> deref_endpoint e s = Inr E"
  by (simp add: deref_endpoint_def)

lemma upd_handle_simps [simp]:
  "hmap (upd_handle h f s) = (hmap s)(h := map_option f (hmap s h))"
  "emap (upd_handle h f s) = emap s" "cmap (upd_handle h f s) = cmap s"
  "conns (upd_handle h f s) = conns s" "a_conf (upd_handle h f s) = a_conf s"
  "last_tick_timepoint (upd_handle h f s) = last_tick_timepoint s"
  "endpoint_waker (upd_handle h f s) = endpoint_waker s" "a_events (upd_handle h f s) = a_events s"
  "a_closing (upd_handle h f s) = a_closing s"
  by (auto simp: upd_handle_def conns_def)

lemma upd_endpoint_simps [simp]:
  "emap (upd_endpoint e f s) = (emap s)(e := map_option f (emap s e))"
  "hmap (upd_endpoint e f s) = hmap s" "cmap (upd_endpoint e f s) = cmap s"
  "a_conf (upd_endpoint e f s) = a_conf s"
  "last_tick_timepoint (upd_endpoint e f s) = last_tick_timepoint s"
  "endpoint_waker (upd_endpoint e f s) = endpoint_waker s" "a_events (upd_endpoint e f s) = a_events s"
  "a_closing (upd_endpoint e f s) = a_closing s"
  by (auto simp: upd_endpoint_def)

lemma upd_connector_simps [simp]:
  "cmap (upd_connector c f s) = (cmap s)(c := f (cmap s c))"
  "hmap (upd_connector c f s) = hmap s" "emap (upd_connector c f s) = emap s"
  "conns (upd_connector c f s) = conns s" "a_conf (upd_connector c f s) = a_conf s"
  "last_tick_timepoint (upd_connector c f s) = last_tick_timepoint s"
  "endpoint_waker (upd_connector c f s) = endpoint_waker s" "a_events (upd_connector c f s) = a_events s"
  "a_closing (upd_connector c f s) = a_closing s"
  by (auto simp: upd_connector_def conns_def)

lemma emit_simps [simp]:
  "hmap (emit ev s) = hmap s" "emap (emit ev s) = emap s" "cmap (emit ev s) = cmap s"
  "conns (emit ev s) = conns s" "a_conf (emit ev s) = a_conf s"
  "last_tick_timepoint (emit ev s) = last_tick_timepoint s"
  "endpoint_waker (emit ev s) = endpoint_waker s" "a_events (emit ev s) = a_events s @ [ev]"
  "a_closing (emit ev s) = a_closing s" "link_view (emit ev s) = link_view s"
  by (auto simp: emit_def conns_def link_view_def)

lemma add_endpoint_waker_simps [simp]:
  "hmap (snd (add_endpoint_waker t e p s)) = hmap s" "emap (snd (add_endpoint_waker t e p s)) = emap s"
  "cmap (snd (add_endpoint_waker t e p s)) = cmap s" "a_events (snd (add_endpoint_waker t e p s)) = a_events s"
  "a_conf (snd (add_endpoint_waker t e p s)) = a_conf s" "a_closing (snd (add_endpoint_waker t e p s)) = a_closing s"
  "last_tick_timepoint (snd (add_endpoint_waker t e p s)) = last_tick_timepoint s"
  by (auto simp: add_endpoint_waker_def Let_def)

lemma add_waker_simps [simp]:
  "hmap (add_waker e t s) = hmap s" "cmap (add_waker e t s) = cmap s"
  "a_events (add_waker e t s) = a_events s" "a_conf (add_waker e t s) = a_conf s"
  "last_tick_timepoint (add_waker e t s) = last_tick_timepoint s" "a_closing (add_waker e t s) = a_closing s"
  by (auto simp: add_waker_def add_endpoint_waker_def Let_def split: option.splits)

lemma emap_add_waker:
  "emap (add_waker e t s) e' =
     (if e' = e then map_option (\<lambda>E. E\<lparr>ep_nearest_waker :=
          (if (t < ep_nearest_waker E \<or> cdiv (ep_nearest_waker E) nanos_per_second = 0) \<and> \<not> a_closing s
           then t else ep_nearest_waker E)\<rparr>) (emap s e)
      else emap s e')"
  by (auto simp: add_waker_def add_endpoint_waker_def Let_def split: option.splits)

lemma conns_add_waker [simp]: "conns (add_waker e t s) = conns s"
  by (rule ext) (auto simp: conns_def emap_add_waker option.map_comp comp_def split: if_splits)

lemma link_view_add_waker [simp]: "link_view (add_waker e t s) = link_view s"
  by (simp add: link_view_def)

lemma conns_upd_endpoint [simp]:
  "conns (upd_endpoint e f s) =
     (conns s)(e := map_option (\<lambda>E. ep_connections (f E)) (emap s e))"
  by (rule ext) (auto simp: conns_def option.map_comp comp_def)

lemma conns_Some: "conns s e = Some hs \<longleftrightarrow> (\<exists>E. emap s e = Some E \<and> ep_connections E = hs)"
  by (auto simp: conns_def)

lemma next_tick_simps [simp]:
  "get_next_tick_time (upd_handle h f s) = get_next_tick_time s"
  "get_next_tick_time (upd_endpoint e g s) = get_next_tick_time s"
  "get_next_tick_time (upd_connector c k s) = get_next_tick_time s"
  by (simp_all add: get_next_tick_time_def)

lemma endpoint_erase_simps [simp]:
  "hmap (endpoint_erase h e E s) = hmap s" "cmap (endpoint_erase h e E s) = cmap s"
  "a_events (endpoint_erase h e E s) = a_events s" "a_conf (endpoint_erase h e E s) = a_conf s"
  "last_tick_timepoint (endpoint_erase h e E s) = last_tick_timepoint s"
  "a_closing (endpoint_erase h e E s) = a_closing s"
  by (auto simp: endpoint_erase_def Let_def)

lemma conns_endpoint_erase:
  "emap s e = Some E \<Longrightarrow>
   conns (endpoint_erase h e E s) = (conns s)(e \<mapsto> removeAll h (ep_connections E))"
  by (auto simp: endpoint_erase_def Let_def option.map_comp comp_def intro!: ext)

section \<open>Flags\<close>

lemma closing_bits: "handle_is_closing H \<longleftrightarrow> bit (h_flags H) 0"
  by (auto simp: handle_is_closing_def and_one_eq odd_iff_mod_2_eq_one bit_0 even_iff_mod_2_eq_zero)

lemma and_two_bit: "(w AND 2 \<noteq> 0) \<longleftrightarrow> bit w 1" for w :: u32
proof
  assume "bit w 1"
  then have "bit (w AND 2) 1"
    by (simp add: bit_and_iff bit_2_iff)
  then show "w AND 2 \<noteq> 0" by auto
next
  assume nz: "w AND 2 \<noteq> 0"
  show "bit w 1"
  proof (rule ccontr)
    assume "\<not> bit w 1"
    then have "w AND 2 = 0"
      by (intro bit_word_eqI) (auto simp: bit_and_iff bit_2_iff)
    with nz show False by simp
  qed
qed

lemma ready_bits: "handle_is_ready H \<longleftrightarrow> bit (h_flags H) 1"
  by (simp add: handle_is_ready_def and_two_bit)

lemma mark_closing_simps [simp]:
  "handle_is_closing (mark_closing H)" "\<not> handle_is_ready (mark_closing H)"
  "h_endpiont (mark_closing H) = h_endpiont H" "h_connector (mark_closing H) = h_connector H"
  "h_refs (mark_closing H) = h_refs H" "h_on_destroy_fn (mark_closing H) = h_on_destroy_fn H"
  by (auto simp: mark_closing_def closing_bits ready_bits bit_simps)

lemma flags_unaffected [simp]:
  "handle_is_closing (H\<lparr>h_endpiont := x\<rparr>) = handle_is_closing H"
  "handle_is_closing (H\<lparr>h_connector := x\<rparr>) = handle_is_closing H"
  "handle_is_closing (H\<lparr>h_refs := r\<rparr>) = handle_is_closing H"
  "handle_is_closing (H\<lparr>h_private_data := d\<rparr>) = handle_is_closing H"
  "handle_is_closing (H\<lparr>h_on_destroy_fn := fn\<rparr>) = handle_is_closing H"
  "handle_is_ready (H\<lparr>h_endpiont := x\<rparr>) = handle_is_ready H"
  "handle_is_ready (H\<lparr>h_connector := x\<rparr>) = handle_is_ready H"
  "handle_is_ready (H\<lparr>h_refs := r\<rparr>) = handle_is_ready H"
  "handle_is_ready (H\<lparr>h_private_data := d\<rparr>) = handle_is_ready H"
  "handle_is_ready (H\<lparr>h_on_destroy_fn := fn\<rparr>) = handle_is_ready H"
  by (simp_all add: handle_is_closing_def handle_is_ready_def)

lemma mark_ready_simps [simp]:
  "\<not> handle_is_closing (mark_ready H)" "handle_is_ready (mark_ready H)"
  "h_endpiont (mark_ready H) = h_endpiont H" "h_connector (mark_ready H) = h_connector H"
  "h_refs (mark_ready H) = h_refs H" "h_on_destroy_fn (mark_ready H) = h_on_destroy_fn H"
  by (auto simp: mark_ready_def closing_bits ready_bits bit_simps)

lemma mark_unready_simps [simp]:
  "handle_is_closing (mark_unready H) = handle_is_closing H" "\<not> handle_is_ready (mark_unready H)"
  "h_endpiont (mark_unready H) = h_endpiont H" "h_connector (mark_unready H) = h_connector H"
  "h_refs (mark_unready H) = h_refs H" "h_on_destroy_fn (mark_unready H) = h_on_destroy_fn H"
  by (auto simp: mark_unready_def closing_bits ready_bits bit_simps)

lemma handle_create_flags [simp]: "\<not> handle_is_closing handle_create" "\<not> handle_is_ready handle_create"
  by (simp_all add: handle_create_def handle_is_closing_def handle_is_ready_def)

section \<open>The recursion in closed form\<close>

definition ep_unlink :: "addr \<Rightarrow> addr \<Rightarrow> app_state \<Rightarrow> app_state" where
  "ep_unlink h e s =
     upd_handle h (\<lambda>H. H\<lparr>h_endpiont := 0\<rparr>) (endpoint_erase h e (the (emap s e)) s)"

definition conn_unlink :: "addr \<Rightarrow> addr \<Rightarrow> app_state \<Rightarrow> app_state" where
  "conn_unlink h c s =
     upd_connector c (\<lambda>C. C\<lparr>c_handles := removeAll h (c_handles C)\<rparr>)
       (upd_handle h (\<lambda>H. H\<lparr>h_connector := 0\<rparr>) s)"

definition destroyed :: "addr \<Rightarrow> app_state \<Rightarrow> app_state" where
  "destroyed h s =
     (let s1 = (case h_on_destroy_fn (the (hmap s h)) of None \<Rightarrow> s | Some fn \<Rightarrow> emit (OnDestroy fn h) s)
      in s1\<lparr>hmap := (hmap s1)(h := None)\<rparr>)"

definition drop_ref :: "ref_holder \<Rightarrow> addr \<Rightarrow> app_state \<Rightarrow> app_state" where
  "drop_ref r h s =
     (let s1 = upd_handle h (\<lambda>H. H\<lparr>h_refs := remove1 r (h_refs H)\<rparr>) s
      in if remove1 r (h_refs (the (hmap s h))) = [] then destroyed h s1 else s1)"

definition drops_handle :: "connector \<Rightarrow> addr \<Rightarrow> bool" where
  "drops_handle C h \<longleftrightarrow> c_class C \<in> {Loopback, External True} \<and> h \<in> set (c_stored C)"

definition dropped :: "addr \<Rightarrow> addr \<Rightarrow> app_state \<Rightarrow> app_state" where
  "dropped c h s =
     (let s1 = emit (OnClose c h) s
      in if drops_handle (cmap s c) h
         then drop_ref (ConnectorRef c) h
                (upd_connector c (\<lambda>C. C\<lparr>c_stored := removeAll h (c_stored C)\<rparr>) s1)
         else s1)"

definition conn_closed :: "addr \<Rightarrow> addr \<Rightarrow> app_state \<Rightarrow> app_state" where
  "conn_closed h c s =
     (if c_destroying (cmap s c) then conn_unlink h c s else dropped c h (conn_unlink h c s))"

definition closed :: "addr \<Rightarrow> app_state \<Rightarrow> app_state" where
  "closed h s =
     (let H = the (hmap s h);
          s1 = upd_handle h mark_closing s;
          s2 = (if h_endpiont H \<noteq> 0 then ep_unlink h (h_endpiont H) s1 else s1)
      in if h_connector H \<noteq> 0 then conn_closed h (h_connector H) s2 else s2)"

lemmas run_bodies = run_call.simps handle_close_body_def endpoint_unbind_body_def
  connector_unbind_body_def on_close_connection_body_def handle_release_body_def handle_destroy_body_def

lemma run_call_Suc:
  "run_call (Suc n) (Close h) s = handle_close_body (run_call n) h s"
  "run_call (Suc n) (EndpointUnbind h e) s = endpoint_unbind_body (run_call n) h e s"
  "run_call (Suc n) (ConnectorUnbind h c) s = connector_unbind_body (run_call n) h c s"
  "run_call (Suc n) (OnCloseConnection c h) s = on_close_connection_body (run_call n) c h s"
  "run_call (Suc n) (Release r h) s = handle_release_body (run_call n) r h s"
  "run_call (Suc n) (Destroy h) s = handle_destroy_body (run_call n) h s"
  by (simp_all add: run_call.simps)

lemma run_close_closing:
  "hmap s h = Some H \<Longrightarrow> handle_is_closing H \<Longrightarrow> run_call (Suc n) (Close h) s = Inr s"
  by (simp add: run_bodies)

lemma run_destroy_closing:
  assumes "hmap s h = Some H" "handle_is_closing H"
  shows "run_call (Suc (Suc n)) (Destroy h) s = Inr (destroyed h s)"
proof -
  let ?s1 = "case h_on_destroy_fn H of None \<Rightarrow> s | Some fn \<Rightarrow> emit (OnDestroy fn h) s"
  have "hmap ?s1 h = Some H" using assms by (simp split: option.splits)
  then have "run_call (Suc n) (Close h) ?s1 = Inr ?s1" using assms by (simp add: run_close_closing)
  then show ?thesis using assms
    by (simp add: run_call.simps(2) [of "Suc n"] handle_destroy_body_def destroyed_def Let_def)
qed

lemma run_release_closing:
  assumes "hmap s h = Some H" "handle_is_closing H"
  shows "run_call (Suc (Suc (Suc n))) (Release r h) s = Inr (drop_ref r h s)"
  using assms run_destroy_closing [of "upd_handle h (\<lambda>H. H\<lparr>h_refs := remove1 r (h_refs H)\<rparr>) s" h]
  by (simp add: run_call.simps(2) [of "Suc (Suc n)"] handle_release_body_def drop_ref_def Let_def)

lemma run_on_close:
  assumes "hmap s h = Some H" "handle_is_closing H"
  shows "run_call (Suc (Suc (Suc (Suc n)))) (OnCloseConnection c h) s = Inr (dropped c h s)"
  using assms run_release_closing
    [of "upd_connector c (\<lambda>C. C\<lparr>c_stored := removeAll h (c_stored C)\<rparr>) (emit (OnClose c h) s)" h]
  by (simp add: run_call.simps(2) [of "Suc (Suc (Suc n))"] on_close_connection_body_def dropped_def
      drops_handle_def Let_def)

lemma conn_unlink_simps [simp]:
  "hmap (conn_unlink h c s) = (hmap s)(h := map_option (\<lambda>H. H\<lparr>h_connector := 0\<rparr>) (hmap s h))"
  "emap (conn_unlink h c s) = emap s"
  "cmap (conn_unlink h c s) = (cmap s)(c := (cmap s c)\<lparr>c_handles := removeAll h (c_handles (cmap s c))\<rparr>)"
  by (simp_all add: conn_unlink_def)

lemma run_conn_unbind_closing:
  assumes "hmap s h = Some H" "handle_is_closing H" "h_connector H = c"
  shows "run_call (Suc (Suc (Suc (Suc (Suc n))))) (ConnectorUnbind h c) s = Inr (conn_closed h c s)"
proof -
  have H: "hmap (conn_unlink h c s) h = Some (H\<lparr>h_connector := 0\<rparr>)" using assms by simp
  have "run_call (Suc (Suc (Suc (Suc n)))) (Close h) (conn_unlink h c s) = Inr (conn_unlink h c s)"
    using H assms by (simp add: run_close_closing)
  then show ?thesis
    using assms run_on_close [OF H]
    by (simp add: run_call.simps(2) [of "Suc (Suc (Suc (Suc n)))"] connector_unbind_body_def Let_def
        conn_unlink_def [symmetric] conn_closed_def)
qed

lemma run_ep_unbind_closing:
  assumes "hmap s h = Some H" "handle_is_closing H" "h_endpiont H = e" "emap s e = Some E"
  shows "run_call (Suc (Suc n)) (EndpointUnbind h e) s = Inr (ep_unlink h e s)"
proof -
  have "run_call (Suc n) (Close h) (ep_unlink h e s) = Inr (ep_unlink h e s)"
    by (rule run_close_closing [of _ _ "H\<lparr>h_endpiont := 0\<rparr>"]) (use assms in \<open>auto simp: ep_unlink_def\<close>)
  then show ?thesis using assms
    by (simp add: run_call.simps(2) [of "Suc n"] endpoint_unbind_body_def ep_unlink_def)
qed

lemma ep_unlink_simps [simp]:
  "hmap (ep_unlink h e s) = (hmap s)(h := map_option (\<lambda>H. H\<lparr>h_endpiont := 0\<rparr>) (hmap s h))"
  "cmap (ep_unlink h e s) = cmap s"
  by (simp_all add: ep_unlink_def)

lemma run_close:
  assumes "hmap s h = Some H" "\<not> handle_is_closing H"
    and "h_endpiont H \<noteq> 0 \<Longrightarrow> \<exists>E. emap s (h_endpiont H) = Some E"
  shows "run_call (Suc (Suc (Suc (Suc (Suc (Suc n)))))) (Close h) s = Inr (closed h s)"
proof -
  let ?s1 = "upd_handle h mark_closing s" and ?e = "h_endpiont H" and ?c = "h_connector H"
  let ?s2 = "if ?e \<noteq> 0 then ep_unlink h ?e ?s1 else ?s1"
  let ?n = "Suc (Suc (Suc (Suc (Suc n))))"
  have H1: "hmap ?s1 h = Some (mark_closing H)" using assms by simp
  have "(if ?e \<noteq> 0 then run_call ?n (EndpointUnbind h ?e) ?s1 else Inr ?s1) = Inr ?s2"
    using assms(3) run_ep_unbind_closing [OF H1, of ?e] by auto
  moreover obtain H2 where H2: "hmap ?s2 h = Some H2" "handle_is_closing H2" "h_connector H2 = ?c"
    using assms by (cases "?e = 0") auto
  moreover have "run_call ?n (ConnectorUnbind h ?c) ?s2 = Inr (conn_closed h ?c ?s2)"
    by (rule run_conn_unbind_closing [OF H2])
  ultimately show ?thesis
    using assms(1,2) by (simp add: run_call.simps(2) [of ?n] handle_close_body_def closed_def Let_def)
qed

text \<open>Updates of different objects commute, so an unbind from either side is the same close.\<close>

lemma add_endpoint_waker_other:
  "add_endpoint_waker t e p (upd_handle h f s) =
     apsnd (upd_handle h f) (add_endpoint_waker t e p s)"
  "add_endpoint_waker t e p (upd_connector c g s) =
     apsnd (upd_connector c g) (add_endpoint_waker t e p s)"
  by (simp_all add: add_endpoint_waker_def Let_def watcher_lock_def upd_handle_def upd_connector_def)

lemma upd_endpoint_other:
  "upd_endpoint e k (upd_handle h f s) = upd_handle h f (upd_endpoint e k s)"
  "upd_endpoint e k (upd_connector c g s) = upd_connector c g (upd_endpoint e k s)"
  by (simp_all add: upd_endpoint_def upd_handle_def upd_connector_def)

lemma add_waker_other:
  "add_waker e t (upd_handle h f s) = upd_handle h f (add_waker e t s)"
  "add_waker e t (upd_connector c g s) = upd_connector c g (add_waker e t s)"
  by (auto simp: add_waker_def add_endpoint_waker_other upd_endpoint_other apsnd_def map_prod_def
      split: option.splits prod.splits)

lemma endpoint_erase_other:
  "endpoint_erase h e E (upd_handle h' f s) = upd_handle h' f (endpoint_erase h e E s)"
  "endpoint_erase h e E (upd_connector c g s) = upd_connector c g (endpoint_erase h e E s)"
  by (simp_all add: endpoint_erase_def Let_def upd_endpoint_other add_waker_other)

lemma upd_handle_upd_handle:
  "upd_handle h f (upd_handle h g s) = upd_handle h (\<lambda>H. f (g H)) s"
  by (simp add: upd_handle_def option.map_comp comp_def)

lemma upd_connector_upd_handle:
  "upd_connector c g (upd_handle h f s) = upd_handle h f (upd_connector c g s)"
  by (simp add: upd_connector_def upd_handle_def)

lemma mark_closing_other:
  "mark_closing (H\<lparr>h_endpiont := e\<rparr>) = (mark_closing H)\<lparr>h_endpiont := e\<rparr>"
  "mark_closing (H\<lparr>h_connector := c\<rparr>) = (mark_closing H)\<lparr>h_connector := c\<rparr>"
  by (simp_all add: mark_closing_def)

lemma clear_links_swap:
  "H\<lparr>h_endpiont := 0, h_connector := 0\<rparr> = H\<lparr>h_connector := 0, h_endpiont := 0\<rparr>"
  by (cases H) simp

lemma run_ep_unbind:
  assumes "hmap s h = Some H" "\<not> handle_is_closing H" "h_endpiont H = e" "e \<noteq> 0" "emap s e = Some E"
  shows "run_call (Suc (Suc (Suc (Suc (Suc (Suc (Suc n))))))) (EndpointUnbind h e) s = Inr (closed h s)"
proof -
  let ?s1 = "ep_unlink h e s"
  have "run_call (Suc (Suc (Suc (Suc (Suc (Suc n)))))) (Close h) ?s1 = Inr (closed h ?s1)"
    by (rule run_close [of _ _ "H\<lparr>h_endpiont := 0\<rparr>"]) (use assms in auto)
  moreover have "upd_handle h mark_closing ?s1 = ep_unlink h e (upd_handle h mark_closing s)"
    by (simp add: ep_unlink_def endpoint_erase_other upd_handle_upd_handle mark_closing_other)
  then have "closed h ?s1 = closed h s"
    using assms by (simp add: closed_def Let_def)
  ultimately show ?thesis
    using assms by (simp add: run_call.simps(2) [of "Suc (Suc (Suc (Suc (Suc (Suc n)))))"]
        endpoint_unbind_body_def ep_unlink_def)
qed

lemma conn_unlink_other:
  "conn_unlink h c (upd_handle h mark_closing s) = upd_handle h mark_closing (conn_unlink h c s)"
  "emap s e = Some E \<Longrightarrow> conn_unlink h c (ep_unlink h e s) = ep_unlink h e (conn_unlink h c s)"
  by (simp_all add: conn_unlink_def ep_unlink_def endpoint_erase_other upd_handle_upd_handle
      mark_closing_other upd_connector_upd_handle clear_links_swap)

lemma run_conn_unbind:
  assumes "hmap s h = Some H" "\<not> handle_is_closing H" "h_connector H = c" "c \<noteq> 0"
    and ep: "h_endpiont H \<noteq> 0 \<Longrightarrow> \<exists>E. emap s (h_endpiont H) = Some E"
  shows "run_call (Suc (Suc (Suc (Suc (Suc (Suc (Suc n))))))) (ConnectorUnbind h c) s = Inr (closed h s)"
proof -
  let ?s1 = "conn_unlink h c s" and ?n = "Suc (Suc (Suc (Suc (Suc (Suc n)))))"
  let ?s2 = "upd_handle h mark_closing s"
  let ?s3 = "if h_endpiont H \<noteq> 0 then ep_unlink h (h_endpiont H) ?s2 else ?s2"
  have "run_call ?n (Close h) ?s1 = Inr (closed h ?s1)"
    by (rule run_close [of _ _ "H\<lparr>h_connector := 0\<rparr>"]) (use assms in auto)
  moreover have eq: "closed h ?s1 = conn_unlink h c ?s3"
    using assms by (auto simp: closed_def Let_def conn_unlink_other)
  moreover obtain H3 where "hmap (conn_unlink h c ?s3) h = Some H3" "handle_is_closing H3"
    using assms by (cases "h_endpiont H = 0") auto
  note run_on_close [OF this, of "Suc (Suc n)" c]
  moreover have "c_destroying (cmap (conn_unlink h c ?s3) c) = c_destroying (cmap ?s3 c)"
    by simp
  ultimately show ?thesis
    using assms(1,3,4)
    by (simp add: run_call.simps(2) [of ?n] connector_unbind_body_def conn_unlink_def [symmetric]
        Let_def closed_def [of h s] conn_closed_def)
qed

end
