(* ===== verification/Connection_Ok.thy ===== *)
theory Connection_Ok
  imports Connection_Links
begin

text \<open>
  Every operation on handles and connectors keeps the pointer invariant \<open>conn_ok\<close> and runs
  without fault from a state that satisfies it.
\<close>

section \<open>Detaching a handle\<close>

lemma links_ok_detach:
  assumes ok: "links_ok hm en ch st" and H: "hm h = Some H"
    and X: "\<And>H'. X = Some H' \<Longrightarrow> h_endpiont H' = 0 \<and> h_connector H' = 0 \<and> \<not> handle_is_ready H' \<and>
              distinct (h_refs H') \<and> (\<forall>c. ConnectorRef c \<in> set (h_refs H') \<longrightarrow> h \<in> set (st' c))"
    and st_self: "\<And>c. h \<in> set (st' c) \<Longrightarrow> \<exists>H'. X = Some H' \<and> ConnectorRef c \<in> set (h_refs H')"
    and st_other: "\<And>c h1. h1 \<noteq> h \<Longrightarrow> h1 \<in> set (st' c) \<longleftrightarrow> h1 \<in> set (st c)"
    and hm': "hm' = hm(h := X)"
    and en': "en' = (\<lambda>e. map_option (removeAll h) (en e))"
    and ch': "ch' = (\<lambda>c. removeAll h (ch c))"
  shows "links_ok hm' en' ch' st'"
proof -
  have hok: "\<And>h H. hm h = Some H \<Longrightarrow> handle_ok en ch st h H"
    and z: "hm 0 = None" "en 0 = None" "ch 0 = []"
    and e1: "\<And>e hs h. en e = Some hs \<Longrightarrow> h \<in> set hs \<Longrightarrow> \<exists>H. hm h = Some H \<and> h_endpiont H = e"
    and c1: "\<And>c h. h \<in> set (ch c) \<Longrightarrow> \<exists>H. hm h = Some H \<and> h_connector H = c"
    and s1: "\<And>c h. h \<in> set (st c) \<Longrightarrow> \<exists>H. hm h = Some H \<and> ConnectorRef c \<in> set (h_refs H)"
    using ok by (auto simp: links_ok_def)
  have other: "handle_ok en' ch' st' h1 H1" if "hm h1 = Some H1" "h1 \<noteq> h" for h1 H1
    using hok [OF that(1)] that(2) st_other [OF that(2)] unfolding handle_ok_def en' ch' by auto
  have self: "handle_ok en' ch' st' h H'" if "X = Some H'" for H'
    using X [OF that] unfolding handle_ok_def en' ch' by auto
  show ?thesis
    unfolding links_ok_def
  proof (intro conjI allI impI)
    have "h \<noteq> 0" using z(1) H by (cases "h = 0") auto
    then show "hm' 0 = None" using z by (simp add: hm')
    show "en' 0 = None" "ch' 0 = []" using z by (auto simp: en' ch')
    show "distinct hs" if "en' e = Some hs" for e hs using that ok by (auto simp: en' links_ok_def distinct_removeAll)
    show "distinct (ch' c)" for c using ok by (simp add: ch' links_ok_def distinct_removeAll)
    show "handle_ok en' ch' st' h1 H1" if "hm' h1 = Some H1" for h1 H1
      using that other self by (auto simp: hm' split: if_splits)
    show "\<exists>H. hm' h1 = Some H \<and> h_endpiont H = e" if "en' e = Some hs" "h1 \<in> set hs" for e hs h1
      using that e1 by (auto simp: en' hm')
    show "\<exists>H. hm' h1 = Some H \<and> h_connector H = c1" if "h1 \<in> set (ch' c1)" for c1 h1
      using that c1 by (auto simp: ch' hm')
    show "\<exists>H. hm' h1 = Some H \<and> ConnectorRef c1 \<in> set (h_refs H)" if "h1 \<in> set (st' c1)" for c1 h1
      using that st_self [of c1] st_other [of h1 c1] s1 [of h1 c1] by (cases "h1 = h") (auto simp: hm')
  qed
qed

lemma linked_handle:
  assumes "linked s" "hmap s h = Some H"
  shows "handle_ok (conns s) (\<lambda>c. c_handles (cmap s c)) (\<lambda>c. c_stored (cmap s c)) h H"
  using assms by (auto simp: linked_def links_ok_def)

lemma linked_endpoint:
  assumes "linked s" "hmap s h = Some H" "h_endpiont H \<noteq> 0"
  obtains E where "emap s (h_endpiont H) = Some E" "h \<in> set (ep_connections E)"
  using linked_handle [OF assms(1,2)] assms(3) that by (auto simp: handle_ok_def conns_Some)

lemma linked_endpoint_ex:
  "linked s \<Longrightarrow> hmap s h = Some H \<Longrightarrow> h_endpiont H \<noteq> 0 \<Longrightarrow> \<exists>E. emap s (h_endpiont H) = Some E"
  by (metis linked_endpoint)

lemma linked_conns:
  "linked s \<Longrightarrow> emap s e = Some E \<Longrightarrow> h \<in> set (ep_connections E) \<Longrightarrow>
   \<exists>H. hmap s h = Some H \<and> h_endpiont H = e"
  unfolding linked_def links_ok_def by (metis conns_Some)

lemma linked_connector:
  "linked s \<Longrightarrow> h \<in> set (c_handles (cmap s c)) \<Longrightarrow> \<exists>H. hmap s h = Some H \<and> h_connector H = c"
  unfolding linked_def links_ok_def by blast

lemma linked_stored:
  "linked s \<Longrightarrow> hmap s h = Some H \<Longrightarrow> h \<in> set (c_stored (cmap s c)) \<longleftrightarrow> ConnectorRef c \<in> set (h_refs H)"
  unfolding linked_def links_ok_def handle_ok_def by (metis option.inject)

lemma linked_null: "linked s \<Longrightarrow> hmap s 0 = None \<and> emap s 0 = None"
  by (auto simp: linked_def links_ok_def conns_def)

lemma linked_nonzero: "linked s \<Longrightarrow> hmap s h = Some H \<Longrightarrow> h \<noteq> 0"
  using linked_null [of s] by (cases "h = 0") auto

lemma linked_zero_handles: "linked s \<Longrightarrow> c_handles (cmap s 0) = []"
  by (simp add: linked_def links_ok_def)

lemma conn_ok_linked: "conn_ok s \<Longrightarrow> linked s"
  by (simp add: conn_ok_def)

text \<open>What \<open>closed\<close> does to the pointers.\<close>

definition close_drops :: "app_state \<Rightarrow> addr \<Rightarrow> conn_handle \<Rightarrow> bool" where
  "close_drops s h H \<longleftrightarrow>
     h_connector H \<noteq> 0 \<and> \<not> c_destroying (cmap s (h_connector H)) \<and> drops_handle (cmap s (h_connector H)) h"

definition closed_handle :: "app_state \<Rightarrow> addr \<Rightarrow> conn_handle \<Rightarrow> conn_handle" where
  "closed_handle s h H =
     (mark_closing H)\<lparr>h_endpiont := 0, h_connector := 0,
        h_refs := (if close_drops s h H then remove1 (ConnectorRef (h_connector H)) (h_refs H) else h_refs H)\<rparr>"

lemma destroyed_simps [simp]:
  "hmap (destroyed h s) = (hmap s)(h := None)" "emap (destroyed h s) = emap s" "cmap (destroyed h s) = cmap s"
  "conns (destroyed h s) = conns s"
  by (auto simp: destroyed_def Let_def conns_def split: option.splits)

lemma drop_ref_simps [simp]:
  "emap (drop_ref r h s) = emap s" "cmap (drop_ref r h s) = cmap s" "conns (drop_ref r h s) = conns s"
  by (auto simp: drop_ref_def Let_def)

lemma hmap_drop_ref:
  "hmap s h = Some H \<Longrightarrow>
   hmap (drop_ref r h s) = (hmap s)(h := if remove1 r (h_refs H) = [] then None
                                         else Some (H\<lparr>h_refs := remove1 r (h_refs H)\<rparr>))"
  by (auto simp: drop_ref_def Let_def)

lemma dropped_simps [simp]:
  "emap (dropped c h s) = emap s" "conns (dropped c h s) = conns s"
  "c_handles (cmap (dropped c h s) c') = c_handles (cmap s c')"
  "c_stored (cmap (dropped c h s) c') =
     (if c' = c \<and> drops_handle (cmap s c) h then removeAll h (c_stored (cmap s c')) else c_stored (cmap s c'))"
  by (auto simp: dropped_def Let_def)

lemma hmap_dropped:
  "hmap s h = Some H \<Longrightarrow>
   hmap (dropped c h s) =
     (if drops_handle (cmap s c) h
      then (hmap s)(h := if remove1 (ConnectorRef c) (h_refs H) = [] then None
                         else Some (H\<lparr>h_refs := remove1 (ConnectorRef c) (h_refs H)\<rparr>))
      else hmap s)"
  by (auto simp: dropped_def Let_def hmap_drop_ref)

lemma conns_ep_unlink:
  "emap s e = Some E \<Longrightarrow>
   conns (ep_unlink h e s) = (conns s)(e \<mapsto> removeAll h (ep_connections E))"
  by (simp add: ep_unlink_def conns_endpoint_erase)

lemma conns_conn_unlink [simp]: "conns (conn_unlink h c s) = conns s"
  by (simp add: conn_unlink_def)

lemma drops_handle_unlink [simp]:
  "drops_handle (C\<lparr>c_handles := x\<rparr>) h = drops_handle C h"
  by (simp add: drops_handle_def)

lemma conns_closed:
  assumes ok: "linked s" and H: "hmap s h = Some H"
  shows "conns (closed h s) = (\<lambda>e. map_option (removeAll h) (conns s e))"
proof -
  have other: "map_option (removeAll h) (conns s e) = conns s e" if "e \<noteq> h_endpiont H" for e
  proof (cases "emap s e")
    case (Some E)
    then have "h \<notin> set (ep_connections E)"
      using linked_conns [OF ok Some, of h] H that by auto
    then show ?thesis using Some by (simp add: conns_def)
  qed (simp add: conns_def)
  have shape: "conns (closed h s) =
      (conns s)(h_endpiont H := map_option (removeAll h) (conns s (h_endpiont H)))"
  proof (cases "h_endpiont H = 0")
    case True
    then have "conns s (h_endpiont H) = None"
      using linked_null [OF ok] by (simp add: conns_def)
    then show ?thesis
      using H True by (auto simp: closed_def Let_def conn_closed_def)
  next
    case False
    then obtain E where E: "emap s (h_endpiont H) = Some E"
      using linked_endpoint [OF ok H] by metis
    then have "conns s (h_endpiont H) = Some (ep_connections E)"
      by (simp add: conns_def)
    then show ?thesis
      using H False E by (simp add: closed_def Let_def conn_closed_def conns_ep_unlink)
  qed
  show ?thesis
  proof
    fix e
    show "conns (closed h s) e = map_option (removeAll h) (conns s e)"
      using other [of e] by (cases "e = h_endpiont H") (simp_all add: shape)
  qed
qed

lemma handles_closed:
  assumes ok: "linked s" and H: "hmap s h = Some H"
  shows "c_handles (cmap (closed h s) c) = removeAll h (c_handles (cmap s c))"
proof -
  have "c_handles (cmap s 0) = []" using ok by (simp add: linked_def links_ok_def)
  then have "h \<notin> set (c_handles (cmap s c))" if "c \<noteq> h_connector H \<or> c = 0"
    using that linked_connector [OF ok, of h c] H by auto
  then have "removeAll h (c_handles (cmap s c)) = c_handles (cmap s c)" if "c \<noteq> h_connector H \<or> c = 0"
    using that by simp
  then show ?thesis
    using H by (auto simp: closed_def Let_def conn_closed_def)
qed

lemma stored_closed:
  assumes H: "hmap s h = Some H"
  shows "c_stored (cmap (closed h s) c) =
    (if c = h_connector H \<and> close_drops s h H then removeAll h (c_stored (cmap s c)) else c_stored (cmap s c))"
  using H by (auto simp: closed_def Let_def conn_closed_def close_drops_def)

lemma hmap_closed:
  assumes H: "hmap s h = Some H"
  shows "hmap (closed h s) =
    (hmap s)(h := if h_refs (closed_handle s h H) = [] \<and> close_drops s h H then None
                  else Some (closed_handle s h H))"
proof -
  let ?s1 = "upd_handle h mark_closing s"
  let ?s2 = "if h_endpiont H \<noteq> 0 then ep_unlink h (h_endpiont H) ?s1 else ?s1"
  have 2: "hmap ?s2 = (hmap s)(h \<mapsto> (mark_closing H)\<lparr>h_endpiont := 0\<rparr>)" "cmap ?s2 = cmap s"
    using H by (auto simp: mark_closing_def)
  then show ?thesis
    using H by (auto simp: closed_def Let_def conn_closed_def hmap_dropped close_drops_def closed_handle_def
        mark_closing_def fun_eq_iff)
qed

lemma linked_closed:
  assumes ok: "linked s" and H: "hmap s h = Some H"
  shows "linked (closed h s)"
proof -
  let ?H = "closed_handle s h H"
  have d: "distinct (h_refs H)"
    using linked_handle [OF ok H] by (simp add: handle_ok_def)
  note stored = linked_stored [OF ok H]
  show ?thesis
    unfolding linked_def
  proof (rule links_ok_detach [OF ok [unfolded linked_def] H _ _ _ hmap_closed [OF H]])
    fix c
    assume "h \<in> set (c_stored (cmap (closed h s) c))"
    then have in_refs: "ConnectorRef c \<in> set (h_refs ?H)"
      using stored d by (auto simp: stored_closed [OF H] closed_handle_def split: if_splits)
    then show "\<exists>H'. (if h_refs ?H = [] \<and> close_drops s h H then None else Some ?H) = Some H' \<and>
          ConnectorRef c \<in> set (h_refs H')"
      by auto
  qed (use stored d in \<open>auto simp: closed_handle_def conns_closed [OF ok H] handles_closed [OF ok H]
      stored_closed [OF H] fun_eq_iff split: if_splits\<close>)
qed

lemma conn_ok_closed:
  assumes ok: "conn_ok s" and H: "hmap s h = Some H"
  shows "conn_ok (closed h s)"
  using linked_closed [OF conn_ok_linked [OF ok] H] ok H
  by (auto simp: conn_ok_def hmap_closed [OF H] closed_handle_def split: if_splits)

section \<open>The operations\<close>

lemma close_depth_Suc: "close_depth = Suc (Suc (Suc (Suc (Suc (Suc (Suc (Suc 0)))))))"
  by (simp add: close_depth_def)

lemma handle_close_eq:
  assumes "linked s" "hmap s h = Some H"
  shows "handle_close h s = Inr (if handle_is_closing H then s else closed h s)"
  using run_close [OF assms(2) _ linked_endpoint_ex [OF assms]] run_close_closing [OF assms(2)]
  by (simp add: handle_close_def close_depth_Suc)

lemma closing_unlinked:
  "linked s \<Longrightarrow> hmap s h = Some H \<Longrightarrow> handle_is_closing H \<Longrightarrow> h_endpiont H = 0 \<and> h_connector H = 0"
  using linked_handle [of s h H] by (auto simp: handle_ok_def)

lemma endpoint_unbind_eq:
  assumes "linked s" "hmap s h = Some H" "emap s e = Some E"
  shows "endpoint_unbind h e s = Inr (if h_endpiont H = e then closed h s else endpoint_erase h e E s)"
proof (cases "h_endpiont H = e")
  case True
  have "e \<noteq> 0" using linked_null [OF assms(1)] assms(3) by (cases "e = 0") auto
  then have "\<not> handle_is_closing H" using closing_unlinked [OF assms(1,2)] True by auto
  then show ?thesis
    using run_ep_unbind [OF assms(2) _ True \<open>e \<noteq> 0\<close> assms(3)] True
    by (simp add: endpoint_unbind_def close_depth_Suc)
next
  case False
  then show ?thesis
    using assms by (simp add: endpoint_unbind_def close_depth_Suc run_call.simps(2) endpoint_unbind_body_def)
qed

lemma connector_unbind_eq:
  assumes "linked s" "hmap s h = Some H" "c \<noteq> 0"
  shows "connector_unbind h c s =
    Inr (if h_connector H = c then closed h s
         else upd_connector c (\<lambda>C. C\<lparr>c_handles := removeAll h (c_handles C)\<rparr>) s)"
proof (cases "h_connector H = c")
  case True
  then have "\<not> handle_is_closing H" using closing_unlinked [OF assms(1,2)] assms(3) by auto
  then show ?thesis
    using run_conn_unbind [OF assms(2) _ True assms(3) linked_endpoint_ex [OF assms(1,2)]] True
    by (simp add: connector_unbind_def close_depth_Suc)
next
  case False
  then show ?thesis
    using assms by (simp add: connector_unbind_def close_depth_Suc run_call.simps(2) connector_unbind_body_def)
qed

lemma link_view_endpoint_erase:
  assumes "linked s" "hmap s h = Some H" "emap s e = Some E" "h_endpiont H \<noteq> e"
  shows "link_view (endpoint_erase h e E s) = link_view s"
proof -
  have "h \<notin> set (ep_connections E)" using linked_conns [OF assms(1,3), of h] assms(2,4) by auto
  then have "conns (endpoint_erase h e E s) = conns s"
    using assms(3) by (auto simp: conns_endpoint_erase conns_def fun_eq_iff)
  then show ?thesis by (simp add: link_view_def)
qed

lemma conn_ok_handle_close:
  assumes "conn_ok s" "hmap s h = Some H"
  shows "\<exists>s'. handle_close h s = Inr s' \<and> conn_ok s'"
  using assms handle_close_eq [OF conn_ok_linked [OF assms(1)] assms(2)] conn_ok_closed [OF assms] by auto

lemma conn_ok_endpoint_unbind:
  assumes "conn_ok s" "hmap s h = Some H" "emap s e = Some E"
  shows "\<exists>s'. endpoint_unbind h e s = Inr s' \<and> conn_ok s'"
proof (cases "h_endpiont H = e")
  case True
  then show ?thesis
    using assms endpoint_unbind_eq [OF conn_ok_linked [OF assms(1)] assms(2,3)] conn_ok_closed [OF assms(1,2)]
    by auto
next
  case False
  then have "conn_ok (endpoint_erase h e E s)"
    using conn_ok_cong [OF link_view_endpoint_erase [OF conn_ok_linked [OF assms(1)] assms(2,3)]] assms(1) by simp
  then show ?thesis
    using False assms endpoint_unbind_eq [OF conn_ok_linked [OF assms(1)] assms(2,3)] by auto
qed

lemma conn_ok_connector_unbind:
  assumes "conn_ok s" "hmap s h = Some H" "c \<noteq> 0"
  shows "\<exists>s'. connector_unbind h c s = Inr s' \<and> conn_ok s'"
proof (cases "h_connector H = c")
  case True
  then show ?thesis
    using assms connector_unbind_eq [OF conn_ok_linked [OF assms(1)] assms(2,3)] conn_ok_closed [OF assms(1,2)]
    by auto
next
  case False
  let ?s' = "upd_connector c (\<lambda>C. C\<lparr>c_handles := removeAll h (c_handles C)\<rparr>) s"
  have "h \<notin> set (c_handles (cmap s c))"
    using linked_connector [OF conn_ok_linked [OF assms(1)], of h c] assms(2) False by auto
  then have "link_view ?s' = link_view s"
    by (auto simp: link_view_def fun_eq_iff)
  then have "conn_ok ?s'" using conn_ok_cong assms(1) by blast
  then show ?thesis
    using False assms connector_unbind_eq [OF conn_ok_linked [OF assms(1)] assms(2,3)] by auto
qed

subsection \<open>Dropping the last reference\<close>

lemma run_destroy:
  assumes "hmap s h = Some H" "\<not> handle_is_closing H"
    and "h_endpiont H \<noteq> 0 \<Longrightarrow> \<exists>E. emap s (h_endpiont H) = Some E"
  shows "\<exists>s1. run_call (Suc (Suc (Suc (Suc (Suc (Suc (Suc n))))))) (Destroy h) s =
           Inr ((closed h s1)\<lparr>hmap := (hmap (closed h s1))(h := None)\<rparr>) \<and>
         hmap s1 = hmap s \<and> emap s1 = emap s \<and> cmap s1 = cmap s"
proof -
  let ?s1 = "case h_on_destroy_fn H of None \<Rightarrow> s | Some fn \<Rightarrow> emit (OnDestroy fn h) s"
  have same: "hmap ?s1 = hmap s" "emap ?s1 = emap s" "cmap ?s1 = cmap s"
    by (simp_all split: option.splits)
  then have "run_call (Suc (Suc (Suc (Suc (Suc (Suc n)))))) (Close h) ?s1 = Inr (closed h ?s1)"
    using assms by (intro run_close) auto
  then have "run_call (Suc (Suc (Suc (Suc (Suc (Suc (Suc n))))))) (Destroy h) s =
      Inr ((closed h ?s1)\<lparr>hmap := (hmap (closed h ?s1))(h := None)\<rparr>)"
    using assms(1)
    by (simp add: run_call.simps(2) [of "Suc (Suc (Suc (Suc (Suc (Suc n)))))"] handle_destroy_body_def)
  then show ?thesis using same by blast
qed

lemma linked_distinct:
  assumes "linked s"
  shows "emap s e = Some E \<Longrightarrow> distinct (ep_connections E)" "distinct (c_handles (cmap s c))"
  using assms unfolding linked_def links_ok_def conns_Some by blast+

lemma linkedI:
  assumes "hmap s 0 = None" "emap s 0 = None" "c_handles (cmap s 0) = []"
    and "\<And>e E. emap s e = Some E \<Longrightarrow> distinct (ep_connections E)" "\<And>c. distinct (c_handles (cmap s c))"
    and "\<And>h H. hmap s h = Some H \<Longrightarrow>
           handle_ok (conns s) (\<lambda>c. c_handles (cmap s c)) (\<lambda>c. c_stored (cmap s c)) h H"
    and "\<And>e E h. emap s e = Some E \<Longrightarrow> h \<in> set (ep_connections E) \<Longrightarrow> \<exists>H. hmap s h = Some H \<and> h_endpiont H = e"
    and "\<And>c h. h \<in> set (c_handles (cmap s c)) \<Longrightarrow> \<exists>H. hmap s h = Some H \<and> h_connector H = c"
    and "\<And>c h. h \<in> set (c_stored (cmap s c)) \<Longrightarrow> \<exists>H. hmap s h = Some H \<and> ConnectorRef c \<in> set (h_refs H)"
  shows "linked s"
  unfolding linked_def links_ok_def using assms by (auto simp: conns_def)

lemma linked_stored_alive:
  "linked s \<Longrightarrow> h \<in> set (c_stored (cmap s c)) \<Longrightarrow> \<exists>H. hmap s h = Some H \<and> ConnectorRef c \<in> set (h_refs H)"
  unfolding linked_def links_ok_def by blast

lemma linked_upd_handle:
  assumes ok: "linked s" and H: "hmap s h = Some H"
    and same: "h_endpiont (f H) = h_endpiont H" "h_connector (f H) = h_connector H"
      "\<And>c. ConnectorRef c \<in> set (h_refs (f H)) \<longleftrightarrow> ConnectorRef c \<in> set (h_refs H)"
      "distinct (h_refs (f H))"
    and closing: "handle_is_closing (f H) \<Longrightarrow> handle_is_closing H \<and> \<not> handle_is_ready (f H)"
  shows "linked (upd_handle h f s)"
proof (rule linkedI)
  fix h1 H1
  assume "hmap (upd_handle h f s) h1 = Some H1"
  then show "handle_ok (conns (upd_handle h f s)) (\<lambda>c. c_handles (cmap (upd_handle h f s) c))
      (\<lambda>c. c_stored (cmap (upd_handle h f s) c)) h1 H1"
    using H same closing linked_handle [OF ok, of h1] by (cases "h1 = h") (auto simp: handle_ok_def)
next
  fix e E h1
  assume "emap (upd_handle h f s) e = Some E" "h1 \<in> set (ep_connections E)"
  then show "\<exists>H. hmap (upd_handle h f s) h1 = Some H \<and> h_endpiont H = e"
    using linked_conns [OF ok, of e E h1] H same by (cases "h1 = h") auto
next
  fix c h1
  assume "h1 \<in> set (c_handles (cmap (upd_handle h f s) c))"
  then show "\<exists>H. hmap (upd_handle h f s) h1 = Some H \<and> h_connector H = c"
    using linked_connector [OF ok, of h1 c] H same by (cases "h1 = h") auto
next
  fix c h1
  assume "h1 \<in> set (c_stored (cmap (upd_handle h f s) c))"
  then show "\<exists>H. hmap (upd_handle h f s) h1 = Some H \<and> ConnectorRef c \<in> set (h_refs H)"
    using linked_stored_alive [OF ok, of h1 c] H same by (cases "h1 = h") auto
qed (use linked_null [OF ok] linked_nonzero [OF ok H] linked_zero_handles [OF ok] linked_distinct [OF ok] in auto)

lemma linked_remove:
  assumes ok: "linked s" and H: "hmap s h = Some H" "h_endpiont H = 0" "h_connector H = 0"
    "\<And>c. ConnectorRef c \<notin> set (h_refs H)"
  shows "linked (s\<lparr>hmap := (hmap s)(h := None)\<rparr>)" (is "linked ?s")
proof (rule linkedI)
  have c: "conns ?s = conns s" by (simp add: conns_def fun_eq_iff)
  note z = linked_zero_handles [OF ok]
  show "hmap ?s 0 = None" "emap ?s 0 = None" "c_handles (cmap ?s 0) = []"
    using linked_null [OF ok] z by auto
  show "distinct (ep_connections E)" if "emap ?s e = Some E" for e E using that linked_distinct [OF ok] by auto
  show "distinct (c_handles (cmap ?s c))" for c using linked_distinct [OF ok] by auto
  show "handle_ok (conns ?s) (\<lambda>c. c_handles (cmap ?s c)) (\<lambda>c. c_stored (cmap ?s c)) h1 H1"
    if "hmap ?s h1 = Some H1" for h1 H1
    using that linked_handle [OF ok, of h1] by (auto simp: c split: if_splits)
  show "\<exists>H. hmap ?s h1 = Some H \<and> h_endpiont H = e" if "emap ?s e = Some E" "h1 \<in> set (ep_connections E)" for e E h1
  proof -
    have "e \<noteq> 0" using that(1) linked_null [OF ok] by (cases "e = 0") auto
    then show ?thesis using that linked_conns [OF ok, of e E h1] H by auto
  qed
  show "\<exists>H. hmap ?s h1 = Some H \<and> h_connector H = c1" if "h1 \<in> set (c_handles (cmap ?s c1))" for c1 h1
  proof -
    have "c1 \<noteq> 0" using that z by (cases "c1 = 0") auto
    then show ?thesis using that linked_connector [OF ok, of h1 c1] H by auto
  qed
  show "\<exists>H. hmap ?s h1 = Some H \<and> ConnectorRef c1 \<in> set (h_refs H)" if "h1 \<in> set (c_stored (cmap ?s c1))" for c1 h1
    using that linked_stored_alive [OF ok, of h1 c1] H by auto
qed

lemma conn_ok_remove:
  assumes "conn_ok s \<or> linked s \<and> (\<forall>h1 H. h1 \<noteq> h \<longrightarrow> hmap s h1 = Some H \<longrightarrow> h_refs H \<noteq> [])"
    "hmap s h = Some H" "h_endpiont H = 0" "h_connector H = 0" "\<And>c. ConnectorRef c \<notin> set (h_refs H)"
  shows "conn_ok (s\<lparr>hmap := (hmap s)(h := None)\<rparr>)"
  using assms linked_remove [of s h H] by (auto simp: conn_ok_def)

lemma conn_ok_upd_handle:
  assumes ok: "conn_ok s" and H: "hmap s h = Some H"
    and "h_endpiont (f H) = h_endpiont H" "h_connector (f H) = h_connector H"
      "\<And>c. ConnectorRef c \<in> set (h_refs (f H)) \<longleftrightarrow> ConnectorRef c \<in> set (h_refs H)"
      "distinct (h_refs (f H))" "h_refs (f H) \<noteq> []"
    and "handle_is_closing (f H) \<Longrightarrow> handle_is_closing H \<and> \<not> handle_is_ready (f H)"
  shows "conn_ok (upd_handle h f s)"
  using linked_upd_handle [OF conn_ok_linked [OF ok] H, of f] assms by (auto simp: conn_ok_def)

lemma destroy_unreferenced:
  assumes ok: "linked s" and H: "hmap s h = Some H" "h_refs H = []"
    and others: "\<And>h1 H1. h1 \<noteq> h \<Longrightarrow> hmap s h1 = Some H1 \<Longrightarrow> h_refs H1 \<noteq> []"
  shows "\<exists>s'. run_call (Suc (Suc (Suc (Suc (Suc (Suc (Suc n))))))) (Destroy h) s = Inr s' \<and> conn_ok s' \<and>
           hmap s' = (hmap s)(h := None)"
proof (cases "handle_is_closing H")
  case True
  have same: "link_view (destroyed h s) = link_view (s\<lparr>hmap := (hmap s)(h := None)\<rparr>)"
    by (simp add: link_view_def conns_def fun_eq_iff)
  have "conn_ok (s\<lparr>hmap := (hmap s)(h := None)\<rparr>)"
    using ok H others closing_unlinked [OF ok H(1) True] by (intro conn_ok_remove [where H = H]) auto
  then have "conn_ok (destroyed h s)"
    using conn_ok_cong [OF same] by simp
  then show ?thesis
    using run_destroy_closing [OF H(1) True] by (intro exI [of _ "destroyed h s"]) simp
next
  case False
  obtain s1 where run: "run_call (Suc (Suc (Suc (Suc (Suc (Suc (Suc n))))))) (Destroy h) s =
      Inr ((closed h s1)\<lparr>hmap := (hmap (closed h s1))(h := None)\<rparr>)"
    and same: "hmap s1 = hmap s" "emap s1 = emap s" "cmap s1 = cmap s"
    using run_destroy [OF H(1) False linked_endpoint_ex [OF ok H(1)]] by blast
  have "link_view s1 = link_view s"
    using same by (simp add: link_view_def conns_def fun_eq_iff)
  from linked_cong [OF this] have ok1: "linked s1" using ok by blast
  have H1: "hmap s1 h = Some H" using H same by simp
  have "\<not> close_drops s1 h H"
    using linked_stored [OF ok1 H1] H(2) by (auto simp: close_drops_def drops_handle_def)
  then have hm: "hmap (closed h s1) = (hmap s)(h \<mapsto> closed_handle s1 h H)" "h_refs (closed_handle s1 h H) = []"
    using hmap_closed [OF H1] same H(2) by (auto simp: closed_handle_def)
  have "conn_ok ((closed h s1)\<lparr>hmap := (hmap (closed h s1))(h := None)\<rparr>)"
    using linked_closed [OF ok1 H1] others hm
    by (intro conn_ok_remove [where H = "closed_handle s1 h H"]) (auto simp: closed_handle_def)
  then show ?thesis
    using run hm by auto
qed

lemma conn_ok_handle_release:
  assumes ok: "conn_ok s" and H: "hmap s h = Some H" and r: "LocalRef \<in> set (h_refs H)"
  shows "\<exists>s'. handle_release LocalRef h s = Inr s' \<and> conn_ok s'"
proof -
  let ?f = "\<lambda>H. H\<lparr>h_refs := remove1 LocalRef (h_refs H)\<rparr>"
  have d: "distinct (h_refs H)" and cl: "handle_is_closing H \<longrightarrow> \<not> handle_is_ready H"
    using linked_handle [OF conn_ok_linked [OF ok] H] by (auto simp: handle_ok_def)
  have ok1: "linked (upd_handle h ?f s)"
    using d cl by (intro linked_upd_handle [OF conn_ok_linked [OF ok] H]) auto
  show ?thesis
  proof (cases "remove1 LocalRef (h_refs H) = []")
    case True
    let ?n = "Suc (Suc (Suc (Suc (Suc (Suc (Suc 0))))))"
    have "h_refs (?f H) = []" "hmap (upd_handle h ?f s) h = Some (?f H)" using H True by auto
    moreover have "h_refs H1 \<noteq> []" if "h1 \<noteq> h" "hmap (upd_handle h ?f s) h1 = Some H1" for h1 H1
      using that ok by (auto simp: conn_ok_def)
    ultimately obtain s' where s': "run_call ?n (Destroy h) (upd_handle h ?f s) = Inr s'" "conn_ok s'"
      using destroy_unreferenced [OF ok1] by blast
    have "handle_release LocalRef h s = run_call ?n (Destroy h) (upd_handle h ?f s)"
      unfolding handle_release_def close_depth_Suc run_call_Suc(5) handle_release_body_def
      using H True by simp
    then show ?thesis using s' by auto
  next
    case False
    then have "conn_ok (upd_handle h ?f s)"
      using ok H d cl by (intro conn_ok_upd_handle [OF ok H]) auto
    then show ?thesis
      using H False by (simp add: handle_release_def close_depth_Suc run_call.simps(2) handle_release_body_def)
  qed
qed

subsection \<open>Binding an open handle\<close>

lemma linked_link_connector:
  assumes ok: "linked s" and H: "hmap s h = Some H" "\<not> handle_is_closing H" "h_connector H = 0" and c: "c \<noteq> 0"
  shows "linked (upd_connector c (\<lambda>C. C\<lparr>c_handles := List.insert h (c_handles C)\<rparr>)
                  (upd_handle h (\<lambda>H. H\<lparr>h_connector := c\<rparr>) s))" (is "linked ?s")
proof (rule linkedI)
  show "handle_ok (conns ?s) (\<lambda>c. c_handles (cmap ?s c)) (\<lambda>c. c_stored (cmap ?s c)) h1 H1"
    if "hmap ?s h1 = Some H1" for h1 H1
    using that H linked_handle [OF ok, of h1] by (cases "h1 = h") (auto simp: handle_ok_def)
  show "\<exists>H. hmap ?s h1 = Some H \<and> h_endpiont H = e" if "emap ?s e = Some E" "h1 \<in> set (ep_connections E)" for e E h1
    using that linked_conns [OF ok, of e E h1] H by (cases "h1 = h") auto
  show "\<exists>H. hmap ?s h1 = Some H \<and> h_connector H = c1" if "h1 \<in> set (c_handles (cmap ?s c1))" for c1 h1
  proof (cases "h1 = h")
    case True
    have "c1 = c"
    proof (rule ccontr)
      assume "c1 \<noteq> c"
      then have "h \<in> set (c_handles (cmap s c1))" using that True by simp
      then have "c1 = 0" using linked_connector [OF ok, of h c1] H by auto
      then show False using that True linked_zero_handles [OF ok] \<open>c1 \<noteq> c\<close> by simp
    qed
    then show ?thesis using H True by simp
  next
    case False
    then show ?thesis using that linked_connector [OF ok, of h1 c1] by (auto split: if_splits)
  qed
  show "\<exists>H. hmap ?s h1 = Some H \<and> ConnectorRef c1 \<in> set (h_refs H)" if "h1 \<in> set (c_stored (cmap ?s c1))" for c1 h1
    using that linked_stored_alive [OF ok, of h1 c1] H by (cases "h1 = h") (auto split: if_splits)
qed (use linked_null [OF ok] linked_nonzero [OF ok H(1)] linked_zero_handles [OF ok] linked_distinct [OF ok] c in auto)

lemma linked_link_endpoint:
  assumes ok: "linked s" and H: "hmap s h = Some H" "\<not> handle_is_closing H" "h_endpiont H = 0" and E: "emap s e = Some E"
  shows "linked (upd_endpoint e (\<lambda>E. E\<lparr>ep_connections := List.insert h (ep_connections E)\<rparr>)
                  (upd_handle h (\<lambda>H. H\<lparr>h_endpiont := e\<rparr>) s))" (is "linked ?s")
proof (rule linkedI)
  have e: "e \<noteq> 0" using linked_null [OF ok] E by (cases "e = 0") auto
  show "handle_ok (conns ?s) (\<lambda>c. c_handles (cmap ?s c)) (\<lambda>c. c_stored (cmap ?s c)) h1 H1"
    if "hmap ?s h1 = Some H1" for h1 H1
    using that H E linked_handle [OF ok, of h1]
    by (cases "h1 = h") (auto simp: handle_ok_def conns_def)
  show "\<exists>H. hmap ?s h1 = Some H \<and> h_endpiont H = e1" if a: "emap ?s e1 = Some E1" "h1 \<in> set (ep_connections E1)" for e1 E1 h1
  proof (cases "h1 = h")
    case True
    have "e1 = e"
    proof (rule ccontr)
      assume "e1 \<noteq> e"
      then have "emap s e1 = Some E1" using a by simp
      then have "e1 = 0" using linked_conns [OF ok, of e1 E1 h] a True H by auto
      then show False using \<open>emap s e1 = Some E1\<close> linked_null [OF ok] by simp
    qed
    then show ?thesis using H True by simp
  next
    case False
    then show ?thesis using a linked_conns [OF ok, of e1 _ h1] E by (auto split: if_splits)
  qed
  show "\<exists>H. hmap ?s h1 = Some H \<and> h_connector H = c1" if "h1 \<in> set (c_handles (cmap ?s c1))" for c1 h1
    using that linked_connector [OF ok, of h1 c1] H by (cases "h1 = h") auto
  show "\<exists>H. hmap ?s h1 = Some H \<and> ConnectorRef c1 \<in> set (h_refs H)" if "h1 \<in> set (c_stored (cmap ?s c1))" for c1 h1
    using that linked_stored_alive [OF ok, of h1 c1] H by (cases "h1 = h") auto
  show "emap ?s 0 = None" using linked_null [OF ok] e by simp
  show "distinct (ep_connections E1)" if "emap ?s e1 = Some E1" for e1 E1
    using that linked_distinct(1) [OF ok] E by (auto split: if_splits)
qed (use linked_null [OF ok] linked_nonzero [OF ok H(1)] linked_zero_handles [OF ok] linked_distinct [OF ok] in auto)

lemma connector_bind_ok:
  assumes ok: "conn_ok s" and H: "hmap s h = Some H" "\<not> handle_is_closing H" "h_connector H = 0" and c: "c \<noteq> 0"
  shows "\<exists>s'. connector_bind h c s = Inr s' \<and> conn_ok s' \<and> emap s' = emap s \<and>
           hmap s' = (hmap s)(h \<mapsto> H\<lparr>h_connector := if c_destroying (cmap s c) then 0 else c\<rparr>)"
  using assms linked_link_connector [OF conn_ok_linked [OF ok] H c]
  by (auto simp: connector_bind_def conn_ok_def fun_eq_iff)

lemma endpoint_bind_ok:
  assumes ok: "conn_ok s" and H: "hmap s h = Some H" "\<not> handle_is_closing H" "h_endpiont H = 0" and E: "emap s e = Some E"
  shows "\<exists>s'. endpoint_bind h e s = Inr s' \<and> conn_ok s' \<and> hmap s' = (hmap s)(h \<mapsto> H\<lparr>h_endpiont := e\<rparr>)"
proof -
  let ?s = "upd_endpoint e (\<lambda>E. E\<lparr>ep_connections := List.insert h (ep_connections E)\<rparr>)
              (upd_handle h (\<lambda>H. H\<lparr>h_endpiont := e\<rparr>) s)"
  let ?s' = "if handle_is_ready H then add_waker e (get_next_tick_time ?s) ?s else ?s"
  have "e \<noteq> 0" using linked_null [OF conn_ok_linked [OF ok]] E by (cases "e = 0") auto
  then have run: "endpoint_bind h e s = Inr ?s'"
    using H E by (simp add: endpoint_bind_def Let_def)
  have "conn_ok ?s"
    using linked_link_endpoint [OF conn_ok_linked [OF ok] H E] ok H by (auto simp: conn_ok_def)
  moreover have "link_view ?s' = link_view ?s" by simp
  ultimately have "conn_ok ?s'" using conn_ok_cong by blast
  moreover have "hmap ?s' = (hmap s)(h \<mapsto> H\<lparr>h_endpiont := e\<rparr>)" using H by simp
  ultimately show ?thesis using run by blast
qed

subsection \<open>Readiness and cleanup\<close>

lemma conn_ok_set_ready:
  assumes ok: "conn_ok s" and H: "hmap s h = Some H"
  shows "\<exists>s'. handle_set_ready h s = Inr s' \<and> conn_ok s' \<and>
           (\<exists>H'. hmap s' = (hmap s)(h \<mapsto> H') \<and> handle_is_ready H' \<and> \<not> handle_is_closing H' \<and>
             h_connector H' = h_connector H \<and> h_endpiont H' = h_endpiont H \<and> h_refs H' = h_refs H)"
proof (cases "handle_is_ready H")
  case True
  then have "\<not> handle_is_closing H"
    using linked_handle [OF conn_ok_linked [OF ok] H] by (auto simp: handle_ok_def)
  then show ?thesis using ok H True by (auto simp: handle_set_ready_def intro!: exI [of _ H])
next
  case False
  let ?f = mark_ready
  let ?s = "upd_handle h ?f s"
  let ?s' = "if h_endpiont H \<noteq> 0 \<and> h_connector H \<noteq> 0 then add_waker (h_endpiont H) (get_next_tick_time ?s) ?s else ?s"
  have "handle_set_ready h s = Inr ?s'"
    using H False by (simp add: handle_set_ready_def Let_def)
  moreover have "conn_ok ?s"
    using linked_handle [OF conn_ok_linked [OF ok] H] ok H
    by (intro conn_ok_upd_handle [OF ok H]) (auto simp: handle_ok_def conn_ok_def)
  moreover have "link_view ?s' = link_view ?s" by simp
  moreover have "hmap ?s' = (hmap s)(h \<mapsto> ?f H)" using H by simp
  ultimately show ?thesis using conn_ok_cong [of ?s' ?s] by (intro exI [of _ ?s']) auto
qed

lemma conn_ok_set_unready:
  assumes ok: "conn_ok s" and H: "hmap s h = Some H"
  shows "\<exists>s'. handle_set_unready h s = Inr s' \<and> conn_ok s'"
proof (cases "handle_is_ready H")
  case True
  let ?s = "upd_handle h mark_unready s"
  have "conn_ok ?s"
    using linked_handle [OF conn_ok_linked [OF ok] H] ok H
    by (intro conn_ok_upd_handle [OF ok H]) (auto simp: handle_ok_def conn_ok_def)
  moreover have "\<exists>s'. handle_set_unready h s = Inr s' \<and> link_view s' = link_view ?s"
  proof (cases "h_endpiont H = 0")
    case False
    then obtain E where "emap s (h_endpiont H) = Some E"
      using linked_endpoint_ex [OF conn_ok_linked [OF ok] H] by blast
    then show ?thesis using H True False by (simp add: handle_set_unready_def Let_def)
  qed (use H True in \<open>simp add: handle_set_unready_def Let_def\<close>)
  ultimately show ?thesis using conn_ok_cong by blast
qed (use ok H in \<open>simp add: handle_set_unready_def\<close>)

text \<open>The rounds of \<^verbatim>\<open>cleanup\<close>: the set was swapped out, so the objects lack one side of the link.\<close>

lemma cmap_closed:
  assumes "hmap s h = Some H"
  shows "cmap (closed h s) = (let c = h_connector H in if c = 0 then cmap s
    else (cmap s)(c := (cmap s c)\<lparr>c_handles := removeAll h (c_handles (cmap s c)),
           c_stored := (if close_drops s h H then removeAll h (c_stored (cmap s c)) else c_stored (cmap s c))\<rparr>))"
  using assms
  by (auto simp: closed_def Let_def conn_closed_def dropped_def close_drops_def fun_eq_iff)

definition swap_sim :: "addr \<Rightarrow> app_state \<Rightarrow> app_state \<Rightarrow> bool" where
  "swap_sim c s t \<longleftrightarrow> hmap s = hmap t \<and> conns s = conns t \<and>
     cmap s = (cmap t)(c := (cmap t c)\<lparr>c_handles := []\<rparr>)"

lemma conns_closed_gen:
  assumes "hmap s h = Some H" "h_endpiont H \<noteq> 0 \<Longrightarrow> \<exists>E. emap s (h_endpiont H) = Some E"
  shows "conns (closed h s) =
     (if h_endpiont H = 0 then conns s
      else (conns s)(h_endpiont H := map_option (removeAll h) (conns s (h_endpiont H))))"
  using assms by (auto simp: closed_def Let_def conn_closed_def conns_ep_unlink conns_def)

lemma swap_sim_closed:
  assumes sim: "swap_sim c s t" and H: "hmap t h = Some H" "h_connector H = c" and ok: "linked t" and c: "c \<noteq> 0"
  shows "swap_sim c (closed h s) (closed h t)"
proof -
  have Hs: "hmap s h = Some H" and E: "h_endpiont H \<noteq> 0 \<Longrightarrow> \<exists>E. emap t (h_endpiont H) = Some E"
    using sim H linked_endpoint_ex [OF ok H(1)] by (auto simp: swap_sim_def)
  have Es: "h_endpiont H \<noteq> 0 \<Longrightarrow> \<exists>E. emap s (h_endpiont H) = Some E"
    using E sim unfolding swap_sim_def by (metis conns_Some)
  have drops: "close_drops s h H = close_drops t h H"
    using sim H(2) by (simp add: close_drops_def swap_sim_def)
  then have ch: "closed_handle s h H = closed_handle t h H"
    by (simp add: closed_handle_def)
  have hm: "hmap (closed h s) = hmap (closed h t)"
    unfolding hmap_closed [OF Hs] hmap_closed [OF H(1)] drops ch using sim by (simp add: swap_sim_def)
  have co: "conns (closed h s) = conns (closed h t)"
    using conns_closed_gen [OF Hs Es] conns_closed_gen [OF H(1) E] sim by (simp add: swap_sim_def)
  have cm: "cmap (closed h s) = (cmap (closed h t))(c := (cmap (closed h t) c)\<lparr>c_handles := []\<rparr>)"
    using sim H(2) c unfolding cmap_closed [OF Hs] cmap_closed [OF H(1)] drops swap_sim_def
    by (auto simp: Let_def fun_eq_iff)
  show ?thesis unfolding swap_sim_def by (rule conjI [OF hm conjI [OF co cm]])
qed

lemma connector_unbind_each_ok:
  assumes "swap_sim c s t" "conn_ok t" "c \<noteq> 0" "distinct hs"
    and "\<And>h. h \<in> set hs \<Longrightarrow> \<exists>H. hmap t h = Some H \<and> h_connector H = c"
    and "set (c_handles (cmap t c)) \<subseteq> set hs"
  shows "\<exists>s'. connector_unbind_each hs c s = Inr s' \<and> conn_ok s' \<and> c_handles (cmap s' c) = []"
  using assms
proof (induction hs arbitrary: s t)
  case Nil
  then have "c_handles (cmap t c) = []" by simp
  then have "link_view s = link_view t"
    using Nil.prems(1) by (auto simp: swap_sim_def link_view_def fun_eq_iff)
  then have "conn_ok s" using conn_ok_cong Nil.prems(2) by blast
  then show ?case using Nil.prems(1) by (simp add: swap_sim_def)
next
  case (Cons h hs)
  obtain H where H: "hmap t h = Some H" "h_connector H = c" using Cons.prems(5) by auto
  have ok: "linked t" using Cons.prems(2) by (rule conn_ok_linked)
  have "\<not> handle_is_closing H" using closing_unlinked [OF ok H(1)] H(2) Cons.prems(3) by auto
  moreover have Hs: "hmap s h = Some H" using Cons.prems(1) H by (simp add: swap_sim_def)
  moreover have "h_endpiont H \<noteq> 0 \<Longrightarrow> \<exists>E. emap s (h_endpiont H) = Some E"
    using linked_endpoint_ex [OF ok H(1)] Cons.prems(1) unfolding swap_sim_def by (metis conns_Some)
  ultimately have run: "connector_unbind h c s = Inr (closed h s)"
    using run_conn_unbind [of s h H c "Suc 0"] H(2) Cons.prems(3)
    by (simp add: connector_unbind_def close_depth_Suc)
  have others: "\<exists>H. hmap (closed h t) h1 = Some H \<and> h_connector H = c" if "h1 \<in> set hs" for h1
    using that Cons.prems(4,5) hmap_closed [OF H(1)] by auto
  have "\<exists>s'. connector_unbind_each hs c (closed h s) = Inr s' \<and> conn_ok s' \<and> c_handles (cmap s' c) = []"
    using swap_sim_closed [OF Cons.prems(1) H ok] conn_ok_closed [OF Cons.prems(2) H(1)] Cons.prems(3-6) others
      handles_closed [OF ok H(1), of c]
    by (intro Cons.IH) auto
  then show ?case using run linked_nonzero [OF ok H(1)] by simp
qed

lemma connector_cleanup_ok:
  assumes "conn_ok s" "c \<noteq> 0"
  shows "\<exists>s'. connector_cleanup (Suc n) c s = Inr s' \<and> conn_ok s' \<and> c_handles (cmap s' c) = []"
proof (cases "c_handles (cmap s c) = []")
  case True
  then show ?thesis using assms by (simp add: connector_cleanup.simps)
next
  case False
  let ?s = "upd_connector c (\<lambda>C. C\<lparr>c_handles := []\<rparr>) s"
  have "\<exists>s'. connector_unbind_each (c_handles (cmap s c)) c ?s = Inr s' \<and> conn_ok s' \<and> c_handles (cmap s' c) = []"
    using assms linked_distinct [OF conn_ok_linked] linked_connector [OF conn_ok_linked]
    by (intro connector_unbind_each_ok [where t = s]) (auto simp: swap_sim_def)
  then show ?thesis
    using False by (auto simp: connector_cleanup.simps [of "Suc n"] connector_cleanup.simps [of n])
qed

end
