(* ===== verification/Loopback.thy ===== *)
theory Loopback
  imports Connection_Ok
begin

text \<open>
  The loopback connector (\<^verbatim>\<open>src/atframe/connectors/atapp_connector_loopback.cpp\<close>): it keeps
  a reference to every connected handle, queues the data sent through it within the configured
  limits, and \<^verbatim>\<open>process\<close> hands the queue to the application's request callback. The virtual
  functions that report a failed delivery are here too, for the base class and the loopback
  override, since they read the same application state.
\<close>

section \<open>Senders and endpoints\<close>

definition endpoint_get_id :: "app_state \<Rightarrow> endpoint \<Rightarrow> u64" where
  "endpoint_get_id s E = (if ep_discovery E = 0 then 0 else di_id (node_info (a_nodes s (ep_discovery E))))"

definition endpoint_get_name :: "app_state \<Rightarrow> endpoint \<Rightarrow> string" where
  "endpoint_get_name s E = (if ep_discovery E = 0 then [] else di_name (node_info (a_nodes s (ep_discovery E))))"

definition get_endpoint_by_id :: "u64 \<Rightarrow> app_state \<Rightarrow> addr" where
  "get_endpoint_by_id by_id s = (case map_of (endpoint_index_by_id s) by_id of None \<Rightarrow> 0 | Some e \<Rightarrow> e)"

definition get_endpoint_by_name :: "string \<Rightarrow> app_state \<Rightarrow> addr" where
  "get_endpoint_by_name by_name s = (case map_of (endpoint_index_by_name s) by_name of None \<Rightarrow> 0 | Some e \<Rightarrow> e)"

text \<open>The sender the base class and the endpoint report for a handle: its endpoint, if it has one.\<close>

definition sender_of :: "u64 \<Rightarrow> addr \<Rightarrow> app_state \<Rightarrow> message_sender res" where
  "sender_of direct h s =
     (let none = \<lparr>direct_source_id = direct, sender_id = 0, sender_name = [], sender_remote = 0\<rparr>
      in if h = 0 then Inr none
         else and_then (deref_handle h s) (\<lambda>H.
                if h_endpiont H = 0 then Inr none
                else and_then (deref_endpoint (h_endpiont H) s) (\<lambda>E.
                       Inr (none\<lparr>sender_remote := h_endpiont H, sender_id := endpoint_get_id s E,
                                 sender_name := endpoint_get_name s E\<rparr>))))"

definition trigger_event_on_forward_response ::
  "message_sender \<Rightarrow> message \<Rightarrow> err_code \<Rightarrow> app_state \<Rightarrow> app_state" where
  "trigger_event_on_forward_response sender m err s = emit (ForwardResponse sender m err) s"

text \<open>\<^verbatim>\<open>atapp_connector_impl::on_receive_forward_response\<close>.\<close>

definition base_on_receive_forward_response ::
  "u64 \<Rightarrow> addr \<Rightarrow> message \<Rightarrow> err_code \<Rightarrow> app_state \<Rightarrow> app_state res" where
  "base_on_receive_forward_response direct h m err s =
     and_then (sender_of direct h s) (\<lambda>sender. Inr (trigger_event_on_forward_response sender m err s))"

text \<open>\<^verbatim>\<open>atapp_connector_loopback::on_receive_forward_response\<close>.\<close>

definition loopback_on_receive_forward_response ::
  "u64 \<Rightarrow> addr \<Rightarrow> message \<Rightarrow> err_code \<Rightarrow> app_state \<Rightarrow> app_state res" where
  "loopback_on_receive_forward_response direct h m err s =
     (let cf = a_conf s in
      and_then (if h = 0 then Inr 0 else and_then (deref_handle h s) (\<lambda>H. Inr (h_endpiont H))) (\<lambda>remote.
        let remote' = (if remote \<noteq> 0 then remote
                       else if app_id cf \<noteq> 0 then get_endpoint_by_id (app_id cf) s
                       else get_endpoint_by_name (app_name cf) s)
        in Inr (trigger_event_on_forward_response
                 \<lparr>direct_source_id = direct, sender_id = app_id cf, sender_name = app_name cf, sender_remote = remote'\<rparr>
                 m err s)))"

definition on_receive_forward_response ::
  "addr \<Rightarrow> u64 \<Rightarrow> addr \<Rightarrow> message \<Rightarrow> err_code \<Rightarrow> app_state \<Rightarrow> app_state res" where
  "on_receive_forward_response c direct h m err s =
     (if c_class (cmap s c) = Loopback then loopback_on_receive_forward_response direct h m err s
      else base_on_receive_forward_response direct h m err s)"

section \<open>The loopback connector\<close>

definition loopback_create :: "text_api \<Rightarrow> connector" where
  "loopback_create T = register_protocol T ''loopback'' (connector_create Loopback)"

definition loopback_get_address_type :: u32 where
  "loopback_get_address_type = (0 OR 0x0001) OR 0x0004 OR 0x0008"

text \<open>Storing a \<^verbatim>\<open>shared_ptr\<close> under the address of the handle.\<close>

definition store_handle :: "addr \<Rightarrow> addr \<Rightarrow> app_state \<Rightarrow> app_state" where
  "store_handle c h s =
     upd_connector c (\<lambda>C. C\<lparr>c_stored := List.insert h (c_stored C)\<rparr>)
       (upd_handle h (\<lambda>H. H\<lparr>h_refs := List.insert (ConnectorRef c) (h_refs H)\<rparr>) s)"

definition loopback_on_start_connect :: "addr \<Rightarrow> addr \<Rightarrow> app_state \<Rightarrow> (err_code \<times> app_state) res" where
  "loopback_on_start_connect c h s =
     (if h = 0 then Inr (EN_SUCCESS, s)
      else and_then (deref_handle h s) (\<lambda>_.
           and_then (handle_set_ready h (store_handle c h s)) (\<lambda>s1.
           and_then (handle_set_private_data h (of_nat h) s1) (\<lambda>s2. Inr (EN_SUCCESS, s2)))))"

text \<open>The buffer limits: the two tests every queue of forwarded messages makes.\<close>

definition over_buffer_limit :: "app_conf \<Rightarrow> nat \<Rightarrow> u64 \<Rightarrow> nat \<Rightarrow> bool" where
  "over_buffer_limit cf num bytes len \<longleftrightarrow>
     send_buffer_number cf > 0 \<and> of_nat num + 1 > send_buffer_number cf \<or>
     send_buffer_size cf > 0 \<and> bytes + of_nat len > send_buffer_size cf"

definition loopback_on_send_forward_request :: "addr \<Rightarrow> addr \<Rightarrow> message \<Rightarrow> app_state \<Rightarrow> err_code \<times> app_state" where
  "loopback_on_send_forward_request c h m s =
     (let C = cmap s c; data = msg_data m in
      if h = 0 then (EN_ATAPP_ERR_NOT_INITED, s)
      else if data = [] then (EN_SUCCESS, s)
      else if over_buffer_limit (a_conf s) (length (lb_pending C)) (lb_pending_size C) (length data)
      then (EN_ATBUS_ERR_BUFF_LIMIT, s)
      else (EN_SUCCESS, upd_connector c (\<lambda>C. C\<lparr>lb_pending := lb_pending C @ [m],
                          lb_pending_size := lb_pending_size C + of_nat (length data)\<rparr>) s))"

text \<open>
  \<^verbatim>\<open>process\<close>. The request callback of the application is a parameter: the messages it sends
  through this connector (with handle \<open>h\<close>) before it returns. \<open>clock i\<close> is the \<open>i\<close>-th
  reading of the system clock. \<open>count_down\<close> is the bookkeeping of the byte count on a pop.
\<close>

definition count_down :: "u64 \<Rightarrow> nat \<Rightarrow> u64" where
  "count_down bytes len = (if bytes \<ge> of_nat len then bytes - of_nat len else 0)"

type_synonym request_callback = "message_sender \<Rightarrow> message \<Rightarrow> message list"

fun send_all :: "addr \<Rightarrow> addr \<Rightarrow> message list \<Rightarrow> app_state \<Rightarrow> app_state" where
  "send_all c h [] s = s"
| "send_all c h (m # ms) s = send_all c h ms (snd (loopback_on_send_forward_request c h m s))"

definition self_sender :: "app_state \<Rightarrow> message_sender" where
  "self_sender s =
     (let cf = a_conf s
      in \<lparr>direct_source_id = app_id cf, sender_id = app_id cf, sender_name = app_name cf,
          sender_remote = (if app_id cf = 0 then get_endpoint_by_name (app_name cf) s
                           else get_endpoint_by_id (app_id cf) s)\<rparr>)"

definition loopback_deliver :: "request_callback \<Rightarrow> addr \<Rightarrow> addr \<Rightarrow> message \<Rightarrow> app_state \<Rightarrow> app_state" where
  "loopback_deliver cb c h m s =
     (let s1 = emit (ForwardRequest (self_sender s) m) s;
          s2 = send_all c h (cb (self_sender s) m) s1
      in upd_connector c (\<lambda>C. C\<lparr>lb_pending := tl (lb_pending C),
           lb_pending_size := count_down (lb_pending_size C) (length (msg_data m))\<rparr>) s2)"

fun loopback_batch :: "request_callback \<Rightarrow> addr \<Rightarrow> addr \<Rightarrow> nat \<Rightarrow> app_state \<Rightarrow> nat \<times> app_state" where
  "loopback_batch cb c h 0 s = (0, s)"
| "loopback_batch cb c h (Suc limit) s =
     (case lb_pending (cmap s c) of [] \<Rightarrow> (0, s)
      | m # _ \<Rightarrow> (case loopback_batch cb c h limit (loopback_deliver cb c h m s) of (n, s') \<Rightarrow> (Suc n, s')))"

definition batch_limit :: "int \<Rightarrow> nat" where
  "batch_limit max_loop_messages =
     (let mx = (if max_loop_messages \<le> 0 then 1000 else max_loop_messages)
      in nat (if mx > 10 then mx div 10 else mx))"

text \<open>The outer loop; \<open>None\<close> when the fuel does not suffice.\<close>

fun loopback_loop ::
  "nat \<Rightarrow> request_callback \<Rightarrow> addr \<Rightarrow> addr \<Rightarrow> (nat \<Rightarrow> timepoint) \<Rightarrow> timepoint \<Rightarrow> nat \<Rightarrow> nat \<Rightarrow> app_state
   \<Rightarrow> (nat \<times> app_state) option" where
  "loopback_loop fuel cb c h clock max_end limit i s =
     (if lb_pending (cmap s c) = [] then Some (0, s)
      else case fuel of 0 \<Rightarrow> None
      | Suc fuel' \<Rightarrow>
          (case loopback_batch cb c h limit s of (n, s1) \<Rightarrow>
             if clock i \<ge> max_end then Some (n, s1)
             else map_option (\<lambda>(k, s'). (n + k, s')) (loopback_loop fuel' cb c h clock max_end limit (Suc i) s1)))"

declare loopback_loop.simps [simp del]

definition loopback_process ::
  "nat \<Rightarrow> request_callback \<Rightarrow> addr \<Rightarrow> addr \<Rightarrow> (nat \<Rightarrow> timepoint) \<Rightarrow> timepoint \<Rightarrow> int \<Rightarrow> app_state
   \<Rightarrow> (nat \<times> app_state) option" where
  "loopback_process fuel cb c h clock max_end max_loop_messages s =
     loopback_loop fuel cb c h clock max_end (batch_limit max_loop_messages) 0 s"

end
