(* ===== verification/Endpoint.thy ===== *)
theory Endpoint
  imports Loopback
begin

text \<open>
  Endpoints (\<^verbatim>\<open>src/atframe/connectors/atapp_endpoint.cpp\<close>): the messages to one remote
  application. A message goes straight to a ready connection when nothing is queued, and is queued
  within the buffer limits otherwise; \<^verbatim>\<open>retry_pending_messages\<close> sends the queue or reports
  the messages that expired, and \<^verbatim>\<open>reset\<close> reports what is left and unbinds the handles.

  The transport behind a connector that is not part of the repository is the parameter
  \<open>send\<close>: the code it returns and the sequence number it writes back.
\<close>

type_synonym send_fn = "addr \<Rightarrow> addr \<Rightarrow> message \<Rightarrow> app_state \<Rightarrow> err_code \<times> u64"

section \<open>Creation, connections\<close>

definition endpoint_create :: "app_state \<Rightarrow> endpoint" where
  "endpoint_create s =
     \<lparr>ep_closing = False, ep_nearest_waker = 0,
      ep_gc_timepoint = last_tick_timepoint s + endpoint_gc_delay (a_conf s),
      ep_connections = [], ep_discovery = 0, ep_pending = [], ep_pending_size = 0\<rparr>"

definition add_connection_handle :: "addr \<Rightarrow> addr \<Rightarrow> app_state \<Rightarrow> app_state res" where
  "add_connection_handle e h s =
     and_then (deref_endpoint e s) (\<lambda>E. if ep_closing E then Inr s else endpoint_bind h e s)"

definition remove_connection_handle :: "addr \<Rightarrow> addr \<Rightarrow> app_state \<Rightarrow> app_state res" where
  "remove_connection_handle e h s =
     and_then (deref_endpoint e s) (\<lambda>E. if ep_closing E then Inr s else endpoint_unbind h e s)"

fun first_ready :: "addr list \<Rightarrow> app_state \<Rightarrow> addr res" where
  "first_ready [] s = Inr 0"
| "first_ready (h # hs) s =
     (if h = 0 then first_ready hs s
      else and_then (deref_handle h s) (\<lambda>H. if handle_is_ready H then Inr h else first_ready hs s))"

definition get_ready_connection_handle :: "endpoint \<Rightarrow> app_state \<Rightarrow> addr res" where
  "get_ready_connection_handle E s = first_ready (ep_connections E) s"

text \<open>\<^verbatim>\<open>handle->get_connector()\<close>, null when there is no handle.\<close>

definition connector_of :: "addr \<Rightarrow> app_state \<Rightarrow> addr res" where
  "connector_of h s = (if h = 0 then Inr 0 else and_then (deref_handle h s) (\<lambda>H. Inr (h_connector H)))"

definition update_discovery :: "addr \<Rightarrow> node_ptr \<Rightarrow> app_state \<Rightarrow> app_state" where
  "update_discovery e discovery s = upd_endpoint e (\<lambda>E. E\<lparr>ep_discovery := discovery\<rparr>) s"

section \<open>Forwarding\<close>

text \<open>The virtual \<^verbatim>\<open>on_send_forward_request\<close>: the message comes back with its sequence number.\<close>

definition on_send_forward_request ::
  "send_fn \<Rightarrow> addr \<Rightarrow> addr \<Rightarrow> message \<Rightarrow> app_state \<Rightarrow> err_code \<times> message \<times> app_state" where
  "on_send_forward_request send c h m s =
     (case c_class (cmap s c) of
        BaseConnector \<Rightarrow>
          (EN_ATBUS_ERR_CHANNEL_NOT_SUPPORT, m, emit (ForwardSend c h m EN_ATBUS_ERR_CHANNEL_NOT_SUPPORT) s)
      | Loopback \<Rightarrow>
          (case loopback_on_send_forward_request c h m s of
             (ret, s') \<Rightarrow> (ret, m, emit (ForwardSend c h m ret) s'))
      | External _ \<Rightarrow>
          (case send c h m s of
             (ret, sq) \<Rightarrow> let m' = m\<lparr>message_sequence := sq\<rparr> in (ret, m', emit (ForwardSend c h m' ret) s)))"

definition trigger_on_receive_forward_response ::
  "u64 \<Rightarrow> addr \<Rightarrow> addr \<Rightarrow> message \<Rightarrow> err_code \<Rightarrow> app_state \<Rightarrow> app_state res" where
  "trigger_on_receive_forward_response direct c h m err s =
     (if c \<noteq> 0 \<and> h \<noteq> 0 then on_receive_forward_response c direct h m err s
      else and_then (sender_of direct h s) (\<lambda>sender.
             Inr (trigger_event_on_forward_response sender m err s)))"

text \<open>A failed message is reported to the application, whatever connection there is.\<close>

definition report_failure :: "endpoint \<Rightarrow> message \<Rightarrow> err_code \<Rightarrow> app_state \<Rightarrow> ((err_code \<times> u64) \<times> app_state) res" where
  "report_failure E m err s =
     and_then (get_ready_connection_handle E s) (\<lambda>h.
     and_then (connector_of h s) (\<lambda>c.
     and_then (trigger_on_receive_forward_response (app_id (a_conf s)) c h m err s) (\<lambda>s1.
       Inr ((err, message_sequence m), s1))))"

definition to_pending :: "timepoint \<Rightarrow> message \<Rightarrow> pending_message" where
  "to_pending expired m = \<lparr>msg_type = msg_type m, message_sequence = message_sequence m,
     msg_data = msg_data m, msg_metadata = msg_metadata m, expired_timepoint = expired\<rparr>"

definition push_pending :: "addr \<Rightarrow> message \<Rightarrow> app_state \<Rightarrow> ((err_code \<times> u64) \<times> app_state) res" where
  "push_pending e m s =
     and_then (deref_endpoint e s) (\<lambda>E.
       if over_buffer_limit (a_conf s) (length (ep_pending E)) (ep_pending_size E) (length (msg_data m))
       then report_failure E m EN_ATBUS_ERR_BUFF_LIMIT s
       else let expired = last_tick_timepoint s + get_configure_message_timeout (a_conf s);
                s1 = upd_endpoint e (\<lambda>E. E\<lparr>ep_pending := ep_pending E @ [to_pending expired m],
                       ep_pending_size := ep_pending_size E + of_nat (length (msg_data m))\<rparr>) s
            in Inr ((EN_SUCCESS, message_sequence m), add_waker e expired s1))"

definition push_forward_message ::
  "send_fn \<Rightarrow> addr \<Rightarrow> message \<Rightarrow> app_state \<Rightarrow> ((err_code \<times> u64) \<times> app_state) res" where
  "push_forward_message send e m s =
     and_then (deref_endpoint e s) (\<lambda>E.
       if ep_closing E then report_failure E m EN_ATBUS_ERR_CLOSING s
       else if msg_data m = [] then Inr ((EN_SUCCESS, message_sequence m), s)
       else if ep_pending E \<noteq> [] then push_pending e m s
       else and_then (get_ready_connection_handle E s) (\<lambda>h.
            and_then (connector_of h s) (\<lambda>c.
              if h = 0 \<or> c = 0 then push_pending e m s
              else (case on_send_forward_request send c h m s of
                      (ret, m1, s1) \<Rightarrow>
                        if ret = EN_SUCCESS then Inr ((ret, message_sequence m1), s1)
                        else if ret = EN_ATBUS_ERR_ATNODE_NO_CONNECTION \<or> ret = EN_ATBUS_ERR_ATNODE_INVALID_ID
                        then push_pending e m1 s1
                        else and_then (trigger_on_receive_forward_response (app_id (a_conf s)) c h m1 ret s1)
                               (\<lambda>s2. Inr ((ret, message_sequence m1), s2))))))"

section \<open>Retry and cancel\<close>

definition pop_pending :: "addr \<Rightarrow> app_state \<Rightarrow> app_state" where
  "pop_pending e s = upd_endpoint e (\<lambda>E. E\<lparr>ep_pending := tl (ep_pending E),
     ep_pending_size := count_down (ep_pending_size E) (length (msg_data (hd (ep_pending E))))\<rparr>) s"

definition int32_max :: int where
  "int32_max = 2147483647"

text \<open>
  The loop of \<^verbatim>\<open>retry_pending_messages\<close>: every round either stops or pops the front, so the
  length of the queue bounds the rounds.
\<close>

fun retry_loop ::
  "nat \<Rightarrow> send_fn \<Rightarrow> addr \<Rightarrow> timepoint \<Rightarrow> addr \<Rightarrow> addr \<Rightarrow> int \<Rightarrow> app_state \<Rightarrow> (nat \<times> app_state) res" where
  "retry_loop rounds send e tick h c max_count s =
     and_then (deref_endpoint e s) (\<lambda>E.
       case ep_pending E of [] \<Rightarrow> Inr (0, s)
       | pm # _ \<Rightarrow> (case rounds of 0 \<Rightarrow> Inl OutOfFuel
         | Suc rounds' \<Rightarrow>
             if max_count > 0 \<and> h \<noteq> 0 \<and> c \<noteq> 0
             then (case on_send_forward_request send c h (message.truncate pm) s of
                     (res, m1, s1) \<Rightarrow>
                       and_then (if res \<noteq> EN_SUCCESS
                                 then trigger_on_receive_forward_response (app_id (a_conf s)) c h m1 res s1
                                 else Inr s1) (\<lambda>s2.
                       and_then (retry_loop rounds' send e tick h c (max_count - 1) (pop_pending e s2)) (\<lambda>(n, s3).
                         Inr (Suc n, s3))))
             else if expired_timepoint pm > tick \<or> max_count \<le> 0 then Inr (0, s)
             else and_then (trigger_on_receive_forward_response (app_id (a_conf s)) c h (message.truncate pm)
                              EN_ATBUS_ERR_NODE_TIMEOUT s) (\<lambda>s2.
                  and_then (retry_loop rounds' send e tick h c max_count (pop_pending e s2)) (\<lambda>(n, s3).
                    Inr (Suc n, s3)))))"

declare retry_loop.simps [simp del]

definition retry_finish :: "addr \<Rightarrow> app_state \<Rightarrow> app_state res" where
  "retry_finish e s =
     and_then (deref_endpoint e s) (\<lambda>E.
       case ep_pending E of [] \<Rightarrow> Inr (upd_endpoint e (\<lambda>E. E\<lparr>ep_pending_size := 0\<rparr>) s)
       | pm # _ \<Rightarrow> Inr (add_waker e (expired_timepoint pm) s))"

definition retry_pending_messages ::
  "send_fn \<Rightarrow> addr \<Rightarrow> timepoint \<Rightarrow> int \<Rightarrow> app_state \<Rightarrow> (nat \<times> app_state) res" where
  "retry_pending_messages send e tick max_count s =
     and_then (deref_endpoint e s) (\<lambda>E.
       let s1 = (if ep_nearest_waker E \<le> tick then upd_endpoint e (\<lambda>E. E\<lparr>ep_nearest_waker := 0\<rparr>) s else s)
       in if ep_pending E = [] then Inr (0, s1)
          else and_then (get_ready_connection_handle E s1) (\<lambda>h.
               and_then (connector_of h s1) (\<lambda>c.
               and_then (retry_loop (length (ep_pending E)) send e tick h c
                           (if max_count \<le> 0 then int32_max else max_count) s1) (\<lambda>(n, s2).
               and_then (retry_finish e s2) (\<lambda>s3. Inr (n, s3))))))"

fun cancel_loop :: "nat \<Rightarrow> addr \<Rightarrow> addr \<Rightarrow> addr \<Rightarrow> app_state \<Rightarrow> app_state res" where
  "cancel_loop rounds e h c s =
     and_then (deref_endpoint e s) (\<lambda>E.
       case ep_pending E of [] \<Rightarrow> Inr (upd_endpoint e (\<lambda>E. E\<lparr>ep_pending_size := 0\<rparr>) s)
       | pm # _ \<Rightarrow> (case rounds of 0 \<Rightarrow> Inl OutOfFuel
         | Suc rounds' \<Rightarrow>
             and_then (trigger_on_receive_forward_response (app_id (a_conf s)) c h (message.truncate pm)
                         EN_ATBUS_ERR_CLOSING s) (\<lambda>s1.
               cancel_loop rounds' e h c (pop_pending e s1))))"

declare cancel_loop.simps [simp del]

definition cancel_pending_messages :: "addr \<Rightarrow> app_state \<Rightarrow> app_state res" where
  "cancel_pending_messages e s =
     and_then (deref_endpoint e s) (\<lambda>E.
     and_then (get_ready_connection_handle E s) (\<lambda>h.
     and_then (connector_of h s) (\<lambda>c.
       if c = 0 then Inr s else cancel_loop (length (ep_pending E)) e h c s)))"

section \<open>Reset\<close>

fun endpoint_unbind_each :: "addr list \<Rightarrow> addr \<Rightarrow> app_state \<Rightarrow> app_state res" where
  "endpoint_unbind_each [] e s = Inr s"
| "endpoint_unbind_each (h # hs) e s =
     and_then (if h \<noteq> 0 then endpoint_unbind h e s else Inr s) (endpoint_unbind_each hs e)"

definition endpoint_reset :: "addr \<Rightarrow> app_state \<Rightarrow> app_state res" where
  "endpoint_reset e s =
     and_then (deref_endpoint e s) (\<lambda>E.
       if ep_closing E then Inr s
       else and_then (cancel_pending_messages e (upd_endpoint e (\<lambda>E. E\<lparr>ep_closing := True\<rparr>) s)) (\<lambda>s1.
            and_then (deref_endpoint e s1) (\<lambda>E1.
            and_then (endpoint_unbind_each (ep_connections E1) e (upd_endpoint e (\<lambda>E. E\<lparr>ep_connections := []\<rparr>) s1)) (\<lambda>s2.
              Inr (upd_endpoint e (\<lambda>E. E\<lparr>ep_closing := False\<rparr>) s2)))))"

text \<open>The destructor resets the endpoint once more before the object goes.\<close>

definition endpoint_destroy :: "addr \<Rightarrow> app_state \<Rightarrow> app_state res" where
  "endpoint_destroy e s =
     and_then (endpoint_reset e s) (\<lambda>s1. Inr (s1\<lparr>emap := (emap s1)(e := None)\<rparr>))"

end
