(* ===== verification/App_Endpoints.thy ===== *)
theory App_Endpoints
  imports Endpoint
begin

text \<open>
  The endpoint registry of the application (\<^verbatim>\<open>src/atframe/atapp.cpp\<close>: the two indexes, the
  wakers, \<^verbatim>\<open>mutable_endpoint\<close>, \<^verbatim>\<open>remove_endpoint\<close> and
  \<^verbatim>\<open>process_internal_events\<close>). The indexes own the endpoints; an endpoint that no index
  refers to is destroyed when the local \<^verbatim>\<open>shared_ptr\<close> goes out of scope
  (\<open>endpoint_drop\<close>).

  What the registry needs from outside the repository is gathered in \<open>app_env\<close>: the host name
  and the address parser of libatbus, the connect and send functions of external transports, and
  the request callback of the application.
\<close>

record app_env =
  env_hostname :: string
  env_metadata :: atapp_metadata
  env_text :: text_api
  env_scheme :: "string \<Rightarrow> string"
  env_connect :: "addr \<Rightarrow> addr \<Rightarrow> atapp_gateway \<Rightarrow> err_code \<times> bool \<times> bool"
  env_send :: send_fn
  env_callback :: request_callback
  env_reply_handle :: addr

section \<open>Gateways\<close>

text \<open>\<^verbatim>\<open>match_gateway_hosts\<close> and \<^verbatim>\<open>match_gateway_namespace\<close> run the same loop.\<close>

fun match_value_loop :: "string \<Rightarrow> string list \<Rightarrow> bool \<Rightarrow> bool \<Rightarrow> bool" where
  "match_value_loop self [] has_valid_conf has_matched_value = (\<not> has_valid_conf \<or> has_matched_value)"
| "match_value_loop self (v # vs) has_valid_conf has_matched_value =
     (if has_matched_value then \<not> has_valid_conf \<or> has_matched_value
      else if v = [] then match_value_loop self vs has_valid_conf has_matched_value
      else match_value_loop self vs True (v = self))"

definition match_gateway_hosts :: "app_env \<Rightarrow> atapp_gateway \<Rightarrow> bool" where
  "match_gateway_hosts env g = match_value_loop (env_hostname env) (gw_match_hosts g) False False"

definition match_gateway_namespace :: "app_env \<Rightarrow> atapp_gateway \<Rightarrow> bool" where
  "match_gateway_namespace env g = match_value_loop (md_namespace_name (env_metadata env)) (gw_match_namespaces g) False False"

fun match_label_loop :: "(string \<times> string) list \<Rightarrow> (string \<times> string) list \<Rightarrow> bool" where
  "match_label_loop self [] = True"
| "match_label_loop self ((k, v) # kvs) =
     (if k = [] \<or> v = [] then match_label_loop self kvs
      else case map_of self k of None \<Rightarrow> False
           | Some w \<Rightarrow> if w \<noteq> v then False else match_label_loop self kvs)"

definition match_gateway_labels :: "app_env \<Rightarrow> atapp_gateway \<Rightarrow> bool" where
  "match_gateway_labels env g = match_label_loop (md_labels (env_metadata env)) (gw_match_labels g)"

definition match_gateway :: "app_env \<Rightarrow> atapp_gateway \<Rightarrow> bool" where
  "match_gateway env g =
     (if gw_address g = [] then False
      else if length (gw_match_hosts g) > 0 \<and> \<not> match_gateway_hosts env g then False
      else if length (gw_match_namespaces g) \<noteq> 0 \<and> \<not> match_gateway_namespace env g then False
      else if length (gw_match_labels g) > 0 \<and> \<not> match_gateway_labels env g then False
      else True)"

section \<open>Removing endpoints\<close>

definition endpoint_indexed :: "addr \<Rightarrow> app_state \<Rightarrow> bool" where
  "endpoint_indexed e s \<longleftrightarrow>
     e \<in> snd ` set (endpoint_index_by_id s) \<or> e \<in> snd ` set (endpoint_index_by_name s)"

definition endpoint_drop :: "addr \<Rightarrow> app_state \<Rightarrow> app_state res" where
  "endpoint_drop e s =
     (if emap s e = None \<or> endpoint_indexed e s then Inr s else endpoint_destroy e s)"

definition erase_id :: "u64 \<Rightarrow> addr \<Rightarrow> app_state \<Rightarrow> app_state" where
  "erase_id i e s =
     (if i \<noteq> 0 \<and> map_of (endpoint_index_by_id s) i = Some e
      then s\<lparr>endpoint_index_by_id := AList.delete i (endpoint_index_by_id s)\<rparr> else s)"

definition erase_name :: "string \<Rightarrow> addr \<Rightarrow> app_state \<Rightarrow> app_state" where
  "erase_name nm e s =
     (if nm \<noteq> [] \<and> map_of (endpoint_index_by_name s) nm = Some e
      then s\<lparr>endpoint_index_by_name := AList.delete nm (endpoint_index_by_name s)\<rparr> else s)"

definition remove_endpoint_by_id :: "u64 \<Rightarrow> app_state \<Rightarrow> app_state res" where
  "remove_endpoint_by_id by_id s =
     (case map_of (endpoint_index_by_id s) by_id of None \<Rightarrow> Inr s
      | Some e \<Rightarrow>
          let s1 = s\<lparr>endpoint_index_by_id := AList.delete by_id (endpoint_index_by_id s)\<rparr>
          in if e = 0 then Inr s1
             else and_then (deref_endpoint e s1) (\<lambda>E.
                  and_then (endpoint_reset e (erase_name (endpoint_get_name s1 E) e s1)) (endpoint_drop e)))"

definition remove_endpoint_by_name :: "string \<Rightarrow> app_state \<Rightarrow> app_state res" where
  "remove_endpoint_by_name by_name s =
     (case map_of (endpoint_index_by_name s) by_name of None \<Rightarrow> Inr s
      | Some e \<Rightarrow>
          let s1 = s\<lparr>endpoint_index_by_name := AList.delete by_name (endpoint_index_by_name s)\<rparr>
          in if e = 0 then Inr s1
             else and_then (deref_endpoint e s1) (\<lambda>E.
                  and_then (endpoint_reset e (erase_id (endpoint_get_id s1 E) e s1)) (endpoint_drop e)))"

text \<open>The overload for a pointer; the caller still holds it.\<close>

definition remove_endpoint :: "addr \<Rightarrow> app_state \<Rightarrow> app_state res" where
  "remove_endpoint e s =
     (if e = 0 then Inr s
      else and_then (deref_endpoint e s) (\<lambda>E.
             endpoint_reset e (erase_name (endpoint_get_name s E) e (erase_id (endpoint_get_id s E) e s))))"

section \<open>Finding or creating an endpoint\<close>

text \<open>The virtual \<^verbatim>\<open>on_start_connect\<close>.\<close>

definition on_start_connect :: "app_env \<Rightarrow> addr \<Rightarrow> addr \<Rightarrow> atapp_gateway \<Rightarrow> app_state \<Rightarrow> (err_code \<times> app_state) res" where
  "on_start_connect env c h g s =
     (case c_class (cmap s c) of
        BaseConnector \<Rightarrow> Inr (EN_ATBUS_ERR_CHANNEL_NOT_SUPPORT, s)
      | Loopback \<Rightarrow> loopback_on_start_connect c h s
      | External _ \<Rightarrow>
          (case env_connect env c h g of (ret, stores, ready) \<Rightarrow>
             and_then (deref_handle h s) (\<lambda>_.
               let s1 = (if stores then store_handle c h s else s)
               in and_then (if ready then handle_set_ready h s1 else Inr s1) (\<lambda>s2. Inr (ret, s2)))))"

definition handle_use_count :: "addr \<Rightarrow> app_state \<Rightarrow> nat" where
  "handle_use_count h s = (case hmap s h of None \<Rightarrow> 0 | Some H \<Rightarrow> length (h_refs H))"

text \<open>
  One connection attempt: the handle is bound to the connector and the endpoint when the connector
  accepts and keeps it. The flag tells whether it was.
\<close>

definition try_connect ::
  "app_env \<Rightarrow> addr \<Rightarrow> addr \<Rightarrow> addr \<Rightarrow> atapp_gateway \<Rightarrow> app_state \<Rightarrow> (bool \<times> app_state) res" where
  "try_connect env c h e g s =
     and_then (on_start_connect env c h g s) (\<lambda>(ret, s1).
       if ret = EN_SUCCESS \<and> handle_use_count h s1 > 1
       then and_then (connector_bind h c s1) (\<lambda>s2.
            and_then (endpoint_bind h e s2) (\<lambda>s3. Inr (True, s3)))
       else Inr (False, s1))"

fun connect_gateways ::
  "nat \<Rightarrow> app_env \<Rightarrow> node_ptr \<Rightarrow> addr \<Rightarrow> addr \<Rightarrow> bool \<Rightarrow> app_state \<Rightarrow> app_state res" where
  "connect_gateways 0 env d h e is_loopback s = Inr s"
| "connect_gateways (Suc n) env d h e is_loopback s =
     (case next_ingress_gateway (a_nodes s d) of (g, node) \<Rightarrow>
        let s1 = s\<lparr>a_nodes := (a_nodes s)(d := node)\<rparr>;
            skip = connect_gateways n env d h e is_loopback
        in if \<not> match_gateway env g then skip s1
           else case map_of (connector_protocols s1) (map (ta_tolower (env_text env)) (env_scheme env (gw_address g))) of
                  None \<Rightarrow> skip s1
                | Some c \<Rightarrow>
                    if c = 0 then skip s1
                    else if is_loopback then skip s1
                    else and_then (try_connect env c h e g s1) (\<lambda>(bound, s2).
                           if bound then Inr s2 else skip s2))"

text \<open>\<^verbatim>\<open>std::make_shared\<close>: a fresh object.\<close>

definition new_handle :: "app_state \<Rightarrow> addr \<times> app_state" where
  "new_handle s = (let h = next_addr s
     in (h, s\<lparr>next_addr := Suc h, hmap := (hmap s)(h \<mapsto> handle_create)\<rparr>))"

definition new_endpoint :: "app_state \<Rightarrow> addr \<times> app_state" where
  "new_endpoint s = (let e = next_addr s
     in (e, s\<lparr>next_addr := Suc e, emap := (emap s)(e \<mapsto> endpoint_create s)\<rparr>))"

text \<open>The connection of a new endpoint; the local handle is released at the end of the scope.\<close>

definition connect_endpoint :: "app_env \<Rightarrow> node_ptr \<Rightarrow> addr \<Rightarrow> app_state \<Rightarrow> app_state res" where
  "connect_endpoint env d e s =
     (let i = di_id (node_info (a_nodes s d)); nm = di_name (node_info (a_nodes s d)); cf = a_conf s;
          is_loopback = ((i = 0 \<or> i = app_id cf) \<and> (nm = [] \<or> nm = app_name cf))
      in case new_handle s of (h, s1) \<Rightarrow>
           and_then
             (if loopback_connector s1 \<noteq> 0 \<and> is_loopback
              then and_then (try_connect env (loopback_connector s1) h e empty_gateway s1) (\<lambda>(_, s2). Inr s2)
              else connect_gateways (nat (get_ingress_size (a_nodes s1 d))) env d h e is_loopback
                     (s1\<lparr>a_nodes := (a_nodes s1)(d := reset_ingress_index (a_nodes s1 d))\<rparr>))
             (handle_release LocalRef h))"

text \<open>
  The two lookups of \<^verbatim>\<open>mutable_endpoint\<close>: the endpoint found (or null), and which index
  has to be written. An endpoint found under the id is removed when the name belongs to another.
\<close>

definition lookup_endpoint :: "u64 \<Rightarrow> string \<Rightarrow> app_state \<Rightarrow> ((addr \<times> bool \<times> bool) \<times> app_state) res" where
  "lookup_endpoint i nm s =
     (let ret = (if i = 0 then 0 else get_endpoint_by_id i s);
          need_id = (i \<noteq> 0 \<and> ret = 0)
      in if nm = [] then Inr ((ret, need_id, False), s)
         else case map_of (endpoint_index_by_name s) nm of
                None \<Rightarrow> Inr ((ret, need_id, True), s)
              | Some e \<Rightarrow>
                  if ret \<noteq> 0 \<and> e = ret then Inr ((ret, need_id, False), s)
                  else if ret \<noteq> 0
                  then and_then (remove_endpoint_by_id i s) (\<lambda>s1. Inr ((e, True, e = 0), s1))
                  else Inr ((e, need_id, e = 0), s))"

definition index_endpoint :: "bool \<Rightarrow> bool \<Rightarrow> u64 \<Rightarrow> string \<Rightarrow> addr \<Rightarrow> node_ptr \<Rightarrow> app_state \<Rightarrow> app_state" where
  "index_endpoint need_id need_name i nm e d s =
     update_discovery e d
       (s\<lparr>endpoint_index_by_id := (if need_id then AList.update i e (endpoint_index_by_id s) else endpoint_index_by_id s),
          endpoint_index_by_name := (if need_name then AList.update nm e (endpoint_index_by_name s) else endpoint_index_by_name s)\<rparr>)"

definition mutable_endpoint :: "app_env \<Rightarrow> node_ptr \<Rightarrow> app_state \<Rightarrow> (addr \<times> app_state) res" where
  "mutable_endpoint env d s =
     (if a_closing s then Inr (0, s)
      else if d = 0 then Inr (0, s)
      else let i = di_id (node_info (a_nodes s d)); nm = di_name (node_info (a_nodes s d))
           in and_then (lookup_endpoint i nm s) (\<lambda>((ret, need_id, need_name), s1).
                if ret \<noteq> 0 then Inr (ret, index_endpoint need_id need_name i nm ret d s1)
                else case new_endpoint s1 of (e, s2) \<Rightarrow>
                       let s3 = index_endpoint need_id need_name i nm e d s2
                       in and_then (connect_endpoint env d e (add_waker e (get_next_tick_time s3) s3)) (\<lambda>s4.
                            Inr (e, s4))))"

section \<open>The event loop step and the shutdown\<close>

definition wake_endpoint :: "app_env \<Rightarrow> app_state \<Rightarrow> (nat \<times> app_state) res" where
  "wake_endpoint env s =
     (case endpoint_waker s of [] \<Rightarrow> Inr (0, s)
      | (t, p) # ws \<Rightarrow>
          if t > last_tick_timepoint s then Inr (0, s)
          else let s1 = s\<lparr>endpoint_waker := ws\<rparr>
               in if emap s1 p = None then Inr (0, s1)
                  else and_then (retry_pending_messages (env_send env) p (last_tick_timepoint s1) (loop_times (a_conf s1)) s1) (\<lambda>(n, s2).
                       and_then (deref_endpoint p s2) (\<lambda>E.
                       and_then (if has_connection_handle E then Inr s2
                                 else if last_tick_timepoint s2 \<ge> ep_gc_timepoint E then remove_endpoint p s2
                                 else Inr (add_waker p (ep_gc_timepoint E) s2)) (\<lambda>s3.
                       and_then (endpoint_drop p s3) (\<lambda>s4. Inr (n, s4))))))"

text \<open>
  \<open>clock i 0\<close> is the clock read by the loop test of round \<open>i\<close>, \<open>clock i (Suc j)\<close> the
  readings of the loopback connector in that round.
\<close>

fun process_internal_events ::
  "nat \<Rightarrow> app_env \<Rightarrow> (nat \<Rightarrow> nat \<Rightarrow> timepoint) \<Rightarrow> timepoint \<Rightarrow> nat \<Rightarrow> app_state \<Rightarrow> (nat \<times> app_state) res" where
  "process_internal_events 0 env clock end_tick i s = Inl OutOfFuel"
| "process_internal_events (Suc fuel) env clock end_tick i s =
     (if i \<noteq> 0 \<and> \<not> clock i 0 < end_tick then Inr (0, s)
      else and_then (wake_endpoint env s) (\<lambda>(n1, s1).
           and_then (if loopback_connector s1 = 0 then Inr (0, s1)
                     else case loopback_process fuel (env_callback env) (loopback_connector s1) (env_reply_handle env)
                                 (\<lambda>j. clock i (Suc j)) end_tick (loop_times (a_conf s1)) s1 of
                            None \<Rightarrow> Inl OutOfFuel | Some r \<Rightarrow> Inr r) (\<lambda>(n2, s2).
             if n1 + n2 > 0
             then and_then (process_internal_events fuel env clock end_tick (Suc i) s2) (\<lambda>(k, s3).
                    Inr (n1 + n2 + k, s3))
             else Inr (0, s2))))"

fun reset_each :: "addr list \<Rightarrow> app_state \<Rightarrow> app_state res" where
  "reset_each [] s = Inr s"
| "reset_each (e # es) s = and_then (if e = 0 then Inr s else endpoint_reset e s) (reset_each es)"

fun drop_each :: "addr list \<Rightarrow> app_state \<Rightarrow> app_state res" where
  "drop_each [] s = Inr s"
| "drop_each (e # es) s = and_then (endpoint_drop e s) (drop_each es)"

text \<open>
  The endpoints of an application that shuts down: the indexes are swapped out and every endpoint
  reset, until both indexes stay empty; then the wakers go.
\<close>

fun close_endpoints :: "nat \<Rightarrow> app_state \<Rightarrow> app_state res" where
  "close_endpoints rounds s =
     (if endpoint_index_by_id s = [] \<and> endpoint_index_by_name s = [] then Inr (s\<lparr>endpoint_waker := []\<rparr>)
      else case rounds of 0 \<Rightarrow> Inl OutOfFuel
      | Suc rounds' \<Rightarrow>
          let ids = map snd (endpoint_index_by_id s); names = map snd (endpoint_index_by_name s)
          in and_then (reset_each (ids @ names) (s\<lparr>endpoint_index_by_id := [], endpoint_index_by_name := []\<rparr>)) (\<lambda>s1.
             and_then (drop_each (ids @ names) s1) (close_endpoints rounds')))"

declare close_endpoints.simps [simp del]

end
