(* ===== verification/Endpoint_Ok.thy ===== *)
theory Endpoint_Ok
  imports App_Endpoints
begin

text \<open>
  The endpoint operations run without fault from a state with sound pointers and keep the pointer
  invariant: sending, queueing, retrying and cancelling leave the pointers alone
  (\<open>quiet\<close>), and a reset detaches every handle of the endpoint.
\<close>

section \<open>What the operations leave alone\<close>

definition rest_view where
  "rest_view s = (a_closing s, last_tick_timepoint s, a_conf s, endpoint_index_by_id s,
     endpoint_index_by_name s, loopback_connector s, connector_protocols s, next_addr s)"

definition kind_view where
  "kind_view s = (\<lambda>c. (c_class (cmap s c), c_destroying (cmap s c)))"

definition closing_view where
  "closing_view s = (\<lambda>e. map_option ep_closing (emap s e))"

definition quiet :: "app_state \<Rightarrow> app_state \<Rightarrow> bool" where
  "quiet s s' \<longleftrightarrow> link_view s' = link_view s \<and> rest_view s' = rest_view s \<and> kind_view s' = kind_view s \<and>
     a_nodes s' = a_nodes s \<and> closing_view s' = closing_view s"

lemma closing_view_simps [simp]:
  "closing_view (upd_handle h f s) = closing_view s" "closing_view (upd_connector c k s) = closing_view s"
  "closing_view (emit ev s) = closing_view s"
  by (simp_all add: closing_view_def)

lemma closing_view_add_waker [simp]: "closing_view (add_waker e t s) = closing_view s"
  by (rule ext) (simp add: closing_view_def emap_add_waker option.map_comp comp_def)

lemma closing_view_upd_endpoint:
  "(\<And>E. ep_closing (f E) = ep_closing E) \<Longrightarrow> closing_view (upd_endpoint e f s) = closing_view s"
  by (rule ext) (simp add: closing_view_def option.map_comp comp_def)

lemma quiet_refl [simp]: "quiet s s"
  by (simp add: quiet_def)

lemma quiet_trans: "quiet s s1 \<Longrightarrow> quiet s1 s2 \<Longrightarrow> quiet s s2"
  by (simp add: quiet_def)

lemma quiet_linked: "quiet s s' \<Longrightarrow> linked s \<Longrightarrow> linked s'"
  using linked_cong [of s' s] by (simp add: quiet_def)

lemma quiet_conn_ok: "quiet s s' \<Longrightarrow> conn_ok s \<Longrightarrow> conn_ok s'"
  using conn_ok_cong [of s' s] by (simp add: quiet_def)

lemma quiet_hmap: "quiet s s' \<Longrightarrow> hmap s' = hmap s"
  by (simp add: quiet_def link_view_def)

lemma quiet_conns: "quiet s s' \<Longrightarrow> conns s' = conns s"
  by (simp add: quiet_def link_view_def)

lemma quiet_alive:
  assumes "quiet s s'" "emap s e = Some E"
  obtains E' where "emap s' e = Some E'" "ep_connections E' = ep_connections E"
  using assms quiet_conns [OF assms(1)] that by (metis conns_Some)

lemma rest_view_simps [simp]:
  "rest_view (upd_handle h f s) = rest_view s" "rest_view (upd_endpoint e g s) = rest_view s"
  "rest_view (upd_connector c k s) = rest_view s" "rest_view (emit ev s) = rest_view s"
  "rest_view (s\<lparr>hmap := x\<rparr>) = rest_view s"
  by (simp_all add: rest_view_def upd_handle_def upd_endpoint_def upd_connector_def emit_def)

lemma nodes_simps [simp]:
  "a_nodes (upd_handle h f s) = a_nodes s" "a_nodes (upd_endpoint e g s) = a_nodes s"
  "a_nodes (upd_connector c k s) = a_nodes s" "a_nodes (emit ev s) = a_nodes s"
  by (simp_all add: upd_handle_def upd_endpoint_def upd_connector_def emit_def)

lemma rest_view_add_waker [simp]: "rest_view (add_waker e t s) = rest_view s" "a_nodes (add_waker e t s) = a_nodes s"
  by (auto simp: add_waker_def add_endpoint_waker_def Let_def rest_view_def upd_endpoint_def split: option.splits)

lemma kind_view_simps [simp]:
  "kind_view (upd_handle h f s) = kind_view s" "kind_view (upd_endpoint e g s) = kind_view s"
  "kind_view (emit ev s) = kind_view s" "kind_view (add_waker e t s) = kind_view s"
  by (simp_all add: kind_view_def)

lemma quiet_emit [simp]: "quiet s (emit ev s)"
  by (simp add: quiet_def)

lemma quiet_add_waker [simp]: "quiet s (add_waker e t s)"
  by (simp add: quiet_def)

lemma quiet_upd_endpoint:
  assumes "\<And>E. ep_connections (f E) = ep_connections E" "\<And>E. ep_closing (f E) = ep_closing E"
  shows "quiet s (upd_endpoint e f s)"
proof -
  have "conns (upd_endpoint e f s) = conns s"
    using assms by (auto simp: conns_def fun_eq_iff)
  then show ?thesis using closing_view_upd_endpoint [OF assms(2)] by (simp add: quiet_def link_view_def)
qed

lemma quiet_upd_connector:
  assumes "\<And>C. c_handles (f C) = c_handles C \<and> c_stored (f C) = c_stored C \<and>
             c_class (f C) = c_class C \<and> c_destroying (f C) = c_destroying C"
  shows "quiet s (upd_connector c f s)"
  using assms by (auto simp: quiet_def link_view_def kind_view_def fun_eq_iff)

section \<open>Forwarding\<close>

lemma loopback_send_quiet: "quiet s (snd (loopback_on_send_forward_request c h m s))"
  by (auto simp: loopback_on_send_forward_request_def Let_def intro: quiet_upd_connector)

lemma on_send_quiet:
  assumes "on_send_forward_request send c h m s = (ret, m1, s1)"
  shows "quiet s s1"
  using assms loopback_send_quiet [of s c h m]
  by (auto simp: on_send_forward_request_def Let_def intro: quiet_trans
      split: connector_class.splits prod.splits)

lemma alive_sender_of:
  assumes "linked s" "h \<noteq> 0 \<Longrightarrow> \<exists>H. hmap s h = Some H"
  shows "\<exists>sender. sender_of d h s = Inr sender"
proof (cases "h = 0")
  case False
  then obtain H where H: "hmap s h = Some H" using assms(2) by blast
  then show ?thesis
    using linked_endpoint_ex [OF assms(1) H] False
    by (cases "h_endpiont H = 0") (auto simp: sender_of_def Let_def)
qed (simp add: sender_of_def Let_def)

lemma trigger_quiet:
  assumes "linked s" "h \<noteq> 0 \<Longrightarrow> \<exists>H. hmap s h = Some H"
  shows "\<exists>sender. trigger_on_receive_forward_response d c h m err s =
           Inr (emit (ForwardResponse sender m err) s)"
  using assms alive_sender_of [OF assms, of d]
  by (auto simp: trigger_on_receive_forward_response_def on_receive_forward_response_def
      base_on_receive_forward_response_def loopback_on_receive_forward_response_def
      trigger_event_on_forward_response_def Let_def) (rule exI, rule refl)+

lemma first_ready_alive:
  assumes "\<And>h. h \<in> set hs \<Longrightarrow> \<exists>H. hmap s h = Some H"
  shows "\<exists>h. first_ready hs s = Inr h \<and> (h = 0 \<or> h \<in> set hs)"
  using assms
proof (induction hs)
  case (Cons h hs)
  then obtain H where "hmap s h = Some H" by auto
  then show ?case using Cons by auto
qed simp

lemma get_ready_alive:
  assumes "linked s" "emap s e = Some E"
  obtains h where "get_ready_connection_handle E s = Inr h" "h \<noteq> 0 \<Longrightarrow> h \<in> set (ep_connections E)"
    "h \<noteq> 0 \<Longrightarrow> \<exists>H. hmap s h = Some H \<and> h_endpiont H = e"
  using first_ready_alive [of "ep_connections E" s] linked_conns [OF assms] that
  unfolding get_ready_connection_handle_def by metis

lemma connector_of_alive:
  assumes "h \<noteq> 0 \<Longrightarrow> \<exists>H. hmap s h = Some H"
  obtains c where "connector_of h s = Inr c" "h = 0 \<Longrightarrow> c = 0"
    "\<And>H. h \<noteq> 0 \<Longrightarrow> hmap s h = Some H \<Longrightarrow> c = h_connector H"
  using assms that by (cases "h = 0") (auto simp: connector_of_def)

lemma report_failure_ok:
  assumes "linked s" "emap s e = Some E"
  shows "\<exists>sender. report_failure E m err s =
           Inr ((err, message_sequence m), emit (ForwardResponse sender m err) s)"
proof -
  obtain h where h: "get_ready_connection_handle E s = Inr h" "h \<noteq> 0 \<Longrightarrow> \<exists>H. hmap s h = Some H"
    using get_ready_alive [OF assms] by metis
  moreover obtain c where "connector_of h s = Inr c" using connector_of_alive h(2) by metis
  ultimately show ?thesis
    using trigger_quiet [OF assms(1) h(2), of "app_id (a_conf s)" c m err] by (auto simp: report_failure_def)
qed

lemma push_pending_ok:
  assumes "linked s" "emap s e = Some E"
  shows "\<exists>r s'. push_pending e m s = Inr (r, s') \<and> quiet s s'"
proof (cases "over_buffer_limit (a_conf s) (length (ep_pending E)) (ep_pending_size E) (length (msg_data m))")
  case True
  then show ?thesis
    using report_failure_ok [OF assms, of m EN_ATBUS_ERR_BUFF_LIMIT] assms(2) by (auto simp: push_pending_def)
next
  case False
  then show ?thesis
    using assms(2) by (auto simp: push_pending_def Let_def intro!: quiet_trans [OF quiet_upd_endpoint quiet_add_waker])
qed

lemma push_forward_message_ok:
  assumes ok: "linked s" and E: "emap s e = Some E"
  shows "\<exists>r s'. push_forward_message send e m s = Inr (r, s') \<and> quiet s s'"
proof -
  obtain h where h: "get_ready_connection_handle E s = Inr h" "h \<noteq> 0 \<Longrightarrow> \<exists>H. hmap s h = Some H"
    using get_ready_alive [OF ok E] by metis
  obtain c where c: "connector_of h s = Inr c" using connector_of_alive h(2) by metis
  obtain ret m1 s1 where send: "on_send_forward_request send c h m s = (ret, m1, s1)"
    using prod_cases3 by blast
  note q = on_send_quiet [OF send]
  have ok1: "linked s1" using quiet_linked [OF q ok] .
  obtain E1 where E1: "emap s1 e = Some E1" using quiet_alive [OF q E] .
  have alive1: "h \<noteq> 0 \<Longrightarrow> \<exists>H. hmap s1 h = Some H" using h(2) quiet_hmap [OF q] by simp
  note trig = trigger_quiet [OF ok1 alive1, of "app_id (a_conf s)" c m1 ret]
  note fail = report_failure_ok [OF ok E, of m EN_ATBUS_ERR_CLOSING]
  show ?thesis
    using fail trig push_pending_ok [OF ok E, of m] push_pending_ok [OF ok1 E1, of m1] q E h(1) c send
    by (auto simp: push_forward_message_def intro: quiet_trans quiet_trans [OF _ quiet_emit])
qed

section \<open>Retry and cancel\<close>

lemma pop_pending_quiet [simp]: "quiet s (pop_pending e s)"
  unfolding pop_pending_def by (rule quiet_upd_endpoint) simp_all

lemma emap_emit_pop:
  "emap s e = Some E \<Longrightarrow> emap (pop_pending e s) e =
     Some (E\<lparr>ep_pending := tl (ep_pending E),
             ep_pending_size := count_down (ep_pending_size E) (length (msg_data (hd (ep_pending E))))\<rparr>)"
  by (simp add: pop_pending_def)

lemma emap_loopback_send [simp]: "emap (snd (loopback_on_send_forward_request c h m s)) = emap s"
  by (auto simp: loopback_on_send_forward_request_def Let_def)

lemma emap_on_send:
  assumes "on_send_forward_request send c h m s = (ret, m1, s1)"
  shows "emap s1 = emap s"
  using assms
  by (auto simp: on_send_forward_request_def Let_def loopback_on_send_forward_request_def
      split: connector_class.splits prod.splits if_splits)

lemma retry_loop_ok:
  assumes "linked s" "emap s e = Some E" "length (ep_pending E) \<le> rounds" "h \<noteq> 0 \<Longrightarrow> \<exists>H. hmap s h = Some H"
  shows "\<exists>n s'. retry_loop rounds send e tick h c mc s = Inr (n, s') \<and> quiet s s'"
  using assms
proof (induction rounds arbitrary: s E mc)
  case 0
  then show ?case by (simp add: retry_loop.simps)
next
  case (Suc rounds)
  show ?case
  proof (cases "ep_pending E")
    case Nil
    then show ?thesis using Suc.prems by (simp add: retry_loop.simps)
  next
    case (Cons pm ms)
    define m where "m = message.truncate pm"
    have step: "\<exists>n s'. retry_loop rounds send e tick h c mc' (pop_pending e s1) = Inr (n, s') \<and> quiet s s'"
      if q: "quiet s s1" and em: "emap s1 e = Some E" for s1 mc'
    proof -
      have q1: "quiet s (pop_pending e s1)" using q pop_pending_quiet quiet_trans by blast
      have "\<exists>n s'. retry_loop rounds send e tick h c mc' (pop_pending e s1) = Inr (n, s') \<and> quiet (pop_pending e s1) s'"
        using Suc.prems Cons quiet_linked [OF q1] quiet_hmap [OF q1] emap_emit_pop [OF em]
        by (intro Suc.IH) auto
      then show ?thesis using q1 quiet_trans by blast
    qed
    obtain ret m1 s1 where send: "on_send_forward_request send c h m s = (ret, m1, s1)"
      using prod_cases3 by blast
    note q = on_send_quiet [OF send]
    have em: "emap s1 e = Some E" using emap_on_send [OF send] Suc.prems(2) by simp
    obtain sd where sd: "trigger_on_receive_forward_response (app_id (a_conf s)) c h m1 ret s1 =
        Inr (emit (ForwardResponse sd m1 ret) s1)"
      using trigger_quiet [OF quiet_linked [OF q Suc.prems(1)]] Suc.prems(4) quiet_hmap [OF q] by metis
    obtain st where st: "trigger_on_receive_forward_response (app_id (a_conf s)) c h m EN_ATBUS_ERR_NODE_TIMEOUT s =
        Inr (emit (ForwardResponse st m EN_ATBUS_ERR_NODE_TIMEOUT) s)"
      using trigger_quiet [OF Suc.prems(1,4)] by metis
    have q2: "quiet s (if ret \<noteq> EN_SUCCESS then emit (ForwardResponse sd m1 ret) s1 else s1)"
      using q quiet_trans [OF q quiet_emit] by simp
    have a: "\<exists>n s'. retry_loop rounds send e tick h c (mc - 1)
          (pop_pending e (if ret \<noteq> EN_SUCCESS then emit (ForwardResponse sd m1 ret) s1 else s1)) = Inr (n, s') \<and> quiet s s'"
      using em by (intro step [OF q2]) simp
    have b: "\<exists>n s'. retry_loop rounds send e tick h c mc
          (pop_pending e (emit (ForwardResponse st m EN_ATBUS_ERR_NODE_TIMEOUT) s)) = Inr (n, s') \<and> quiet s s'"
      using Suc.prems(2) by (intro step) auto
    show ?thesis
      using a b send sd st Cons Suc.prems(2)
      by (subst retry_loop.simps) (auto simp: m_def [symmetric])
  qed
qed

lemma retry_finish_ok:
  assumes "emap s e = Some E"
  shows "\<exists>s'. retry_finish e s = Inr s' \<and> quiet s s'"
  using assms quiet_upd_endpoint [of "\<lambda>E. E\<lparr>ep_pending_size := 0\<rparr>" s e]
  by (auto simp: retry_finish_def split: list.splits)

lemma retry_pending_messages_ok:
  assumes ok: "linked s" and E: "emap s e = Some E"
  shows "\<exists>n s'. retry_pending_messages send e tick mc s = Inr (n, s') \<and> quiet s s'"
proof -
  define s1 where "s1 = (if ep_nearest_waker E \<le> tick then upd_endpoint e (\<lambda>E. E\<lparr>ep_nearest_waker := 0\<rparr>) s else s)"
  have q1: "quiet s s1"
    unfolding s1_def using quiet_upd_endpoint [of "\<lambda>E. E\<lparr>ep_nearest_waker := 0\<rparr>" s e] by simp
  obtain E1 where E1: "emap s1 e = Some E1" "ep_pending E1 = ep_pending E"
    using E by (cases "ep_nearest_waker E \<le> tick") (auto simp: s1_def)
  have ok1: "linked s1" by (rule quiet_linked [OF q1 ok])
  have same: "get_ready_connection_handle E s1 = get_ready_connection_handle E1 s1"
    using E E1(1) by (auto simp: get_ready_connection_handle_def s1_def split: if_splits)
  obtain h where h: "get_ready_connection_handle E s1 = Inr h" "h \<noteq> 0 \<Longrightarrow> \<exists>H. hmap s1 h = Some H"
    using get_ready_alive [OF ok1 E1(1)] same by metis
  obtain c where c: "connector_of h s1 = Inr c" using connector_of_alive h(2) by metis
  obtain n s2 where r: "retry_loop (length (ep_pending E)) send e tick h c (if mc \<le> 0 then int32_max else mc) s1 =
      Inr (n, s2)" "quiet s1 s2"
    using retry_loop_ok [OF ok1 E1(1) _ h(2)] E1(2) by (metis order_refl)
  obtain E2 where "emap s2 e = Some E2" using quiet_alive [OF r(2) E1(1)] .
  then obtain s3 where "retry_finish e s2 = Inr s3" "quiet s2 s3" using retry_finish_ok by metis
  then show ?thesis
    using E h(1) c r q1 unfolding retry_pending_messages_def Let_def
    by (auto simp: s1_def [symmetric] intro: quiet_trans)
qed

lemma cancel_loop_ok:
  assumes "linked s" "emap s e = Some E" "length (ep_pending E) \<le> rounds" "h \<noteq> 0 \<Longrightarrow> \<exists>H. hmap s h = Some H"
  shows "\<exists>s'. cancel_loop rounds e h c s = Inr s' \<and> quiet s s' \<and>
           (\<exists>E'. emap s' e = Some E' \<and> ep_pending E' = [] \<and> ep_pending_size E' = 0)"
  using assms
proof (induction rounds arbitrary: s E)
  case 0
  then show ?case using quiet_upd_endpoint [of "\<lambda>E. E\<lparr>ep_pending_size := 0\<rparr>" s e]
    by (simp add: cancel_loop.simps)
next
  case (Suc rounds)
  show ?case
  proof (cases "ep_pending E")
    case Nil
    then show ?thesis using Suc.prems quiet_upd_endpoint [of "\<lambda>E. E\<lparr>ep_pending_size := 0\<rparr>" s e]
      by (simp add: cancel_loop.simps)
  next
    case (Cons pm ms)
    define m where "m = message.truncate pm"
    obtain st where st: "trigger_on_receive_forward_response (app_id (a_conf s)) c h m EN_ATBUS_ERR_CLOSING s =
        Inr (emit (ForwardResponse st m EN_ATBUS_ERR_CLOSING) s)"
      using trigger_quiet [OF Suc.prems(1,4)] by metis
    let ?s1 = "pop_pending e (emit (ForwardResponse st m EN_ATBUS_ERR_CLOSING) s)"
    have q: "quiet s ?s1" using quiet_trans [OF quiet_emit pop_pending_quiet] .
    have E1: "emap ?s1 e = Some (E\<lparr>ep_pending := tl (ep_pending E),
             ep_pending_size := count_down (ep_pending_size E) (length (msg_data (hd (ep_pending E))))\<rparr>)"
      using Suc.prems(2) by (intro emap_emit_pop) simp
    have "\<exists>s'. cancel_loop rounds e h c ?s1 = Inr s' \<and> quiet ?s1 s' \<and>
           (\<exists>E'. emap s' e = Some E' \<and> ep_pending E' = [] \<and> ep_pending_size E' = 0)"
      using Suc.prems(3,4) Cons by (intro Suc.IH [OF quiet_linked [OF q Suc.prems(1)] E1]) (auto simp: quiet_hmap [OF q])
    then show ?thesis
      using st Cons Suc.prems(2) quiet_trans [OF q]
      by (subst cancel_loop.simps) (auto simp: m_def [symmetric])
  qed
qed

lemma cancel_pending_messages_ok:
  assumes ok: "linked s" and E: "emap s e = Some E"
  shows "\<exists>s'. cancel_pending_messages e s = Inr s' \<and> quiet s s'"
proof -
  obtain h where h: "get_ready_connection_handle E s = Inr h" "h \<noteq> 0 \<Longrightarrow> \<exists>H. hmap s h = Some H"
    using get_ready_alive [OF ok E] by metis
  obtain c where c: "connector_of h s = Inr c" using connector_of_alive h(2) by metis
  show ?thesis
    using cancel_loop_ok [OF ok E order_refl h(2), of c] E h(1) c by (auto simp: cancel_pending_messages_def)
qed

section \<open>Reset\<close>

text \<open>\<open>t\<close> is the state with the handles still listed; \<open>s\<close> has the list of \<open>e\<close> swapped out.\<close>

definition ep_swap_sim :: "addr \<Rightarrow> app_state \<Rightarrow> app_state \<Rightarrow> bool" where
  "ep_swap_sim e s t \<longleftrightarrow> hmap s = hmap t \<and> cmap s = cmap t \<and> conns s = (conns t)(e \<mapsto> [])"

lemma ep_swap_sim_alive:
  assumes "ep_swap_sim e s t" "emap t e' = Some E"
  shows "\<exists>E. emap s e' = Some E"
proof -
  have "conns s e' \<noteq> None" using assms by (auto simp: ep_swap_sim_def conns_def)
  then show ?thesis by (auto simp: conns_def)
qed

lemma rest_view_closed [simp]: "rest_view (closed h s) = rest_view s" "a_nodes (closed h s) = a_nodes s"
  by (auto simp: closed_def Let_def conn_closed_def conn_unlink_def dropped_def drop_ref_def destroyed_def
      ep_unlink_def endpoint_erase_def split: option.splits)

lemma closing_view_closed [simp]: "closing_view (closed h s) = closing_view s"
proof -
  have "closing_view (endpoint_erase h e E s) = closing_view s" for e E s
    by (simp add: endpoint_erase_def Let_def closing_view_upd_endpoint)
  then have "closing_view (ep_unlink h e s) = closing_view s" for e s
    by (simp add: ep_unlink_def)
  moreover have "closing_view (conn_closed h c s) = closing_view s" for c s
    by (simp add: closing_view_def conn_closed_def)
  ultimately show ?thesis by (simp add: closed_def Let_def)
qed

lemma kind_view_closed: "hmap s h = Some H \<Longrightarrow> kind_view (closed h s) = kind_view s"
  by (simp add: kind_view_def cmap_closed Let_def fun_eq_iff)

lemma ep_swap_sim_closed:
  assumes sim: "ep_swap_sim e s t" and ok: "linked t" and H: "hmap t h = Some H" "h_endpiont H = e" and e: "e \<noteq> 0"
  shows "ep_swap_sim e (closed h s) (closed h t)"
proof -
  have Hs: "hmap s h = Some H" and E: "\<exists>E. emap t e = Some E"
    using sim H linked_endpoint_ex [OF ok H(1)] e by (auto simp: ep_swap_sim_def)
  have Es: "\<exists>E. emap s e = Some E" using ep_swap_sim_alive [OF sim] E by blast
  have drops: "close_drops s h H = close_drops t h H" "closed_handle s h H = closed_handle t h H"
    using sim by (simp_all add: close_drops_def closed_handle_def ep_swap_sim_def)
  have hm: "hmap (closed h s) = hmap (closed h t)"
    unfolding hmap_closed [OF Hs] hmap_closed [OF H(1)] drops using sim by (simp add: ep_swap_sim_def)
  have cm: "cmap (closed h s) = cmap (closed h t)"
    using sim unfolding cmap_closed [OF Hs] cmap_closed [OF H(1)] drops ep_swap_sim_def by metis
  have co: "conns (closed h s) = (conns (closed h t))(e \<mapsto> [])"
    using conns_closed_gen [OF Hs] conns_closed_gen [OF H(1)] H(2) e E Es sim
    by (simp add: ep_swap_sim_def)
  show ?thesis unfolding ep_swap_sim_def by (intro conjI hm cm co)
qed

lemma endpoint_unbind_each_ok:
  assumes "ep_swap_sim e s t" "conn_ok t" "e \<noteq> 0" "emap t e = Some E" "distinct hs"
    and "\<And>h. h \<in> set hs \<Longrightarrow> \<exists>H. hmap t h = Some H \<and> h_endpiont H = e"
    and "set (ep_connections E) \<subseteq> set hs"
  shows "\<exists>s'. endpoint_unbind_each hs e s = Inr s' \<and> conn_ok s' \<and> conns s' e = Some [] \<and>
           rest_view s' = rest_view s \<and> a_nodes s' = a_nodes s \<and> kind_view s' = kind_view s \<and>
           closing_view s' = closing_view s \<and>
           dom (hmap s') \<subseteq> dom (hmap s) \<and> dom (conns s') = dom (conns s)"
  using assms
proof (induction hs arbitrary: s t E)
  case Nil
  then have "link_view s = link_view t"
    by (auto simp: ep_swap_sim_def link_view_def conns_def fun_eq_iff)
  then have "conn_ok s" using conn_ok_cong Nil.prems(2) by blast
  moreover have "conns s e = Some []" using Nil.prems(1) by (simp add: ep_swap_sim_def)
  ultimately show ?case by simp
next
  case (Cons h hs)
  obtain H where H: "hmap t h = Some H" "h_endpiont H = e" using Cons.prems(6) by auto
  have ok: "linked t" using Cons.prems(2) by (rule conn_ok_linked)
  have Hs: "hmap s h = Some H" using Cons.prems(1) H by (simp add: ep_swap_sim_def)
  obtain E1 where E1: "emap s e = Some E1" using ep_swap_sim_alive [OF Cons.prems(1,4)] by blast
  have "\<not> handle_is_closing H" using closing_unlinked [OF ok H(1)] H(2) Cons.prems(3) by auto
  then have run: "endpoint_unbind h e s = Inr (closed h s)"
    using run_ep_unbind [OF Hs _ H(2) Cons.prems(3) E1, of "Suc 0"] by (simp add: endpoint_unbind_def close_depth_Suc)
  have "conns (closed h t) e = Some (removeAll h (ep_connections E))"
    using conns_closed [OF ok H(1)] Cons.prems(4) by (simp add: conns_def)
  then obtain E2 where E2: "emap (closed h t) e = Some E2" "ep_connections E2 = removeAll h (ep_connections E)"
    by (auto simp: conns_Some)
  have "\<exists>s'. endpoint_unbind_each hs e (closed h s) = Inr s' \<and> conn_ok s' \<and> conns s' e = Some [] \<and>
      rest_view s' = rest_view (closed h s) \<and> a_nodes s' = a_nodes (closed h s) \<and>
      kind_view s' = kind_view (closed h s) \<and> closing_view s' = closing_view (closed h s) \<and>
      dom (hmap s') \<subseteq> dom (hmap (closed h s)) \<and> dom (conns s') = dom (conns (closed h s))"
  proof (rule Cons.IH [OF ep_swap_sim_closed [OF Cons.prems(1) ok H Cons.prems(3)]
        conn_ok_closed [OF Cons.prems(2) H(1)] Cons.prems(3) E2(1)])
    show "\<exists>H. hmap (closed h t) h1 = Some H \<and> h_endpiont H = e" if "h1 \<in> set hs" for h1
      using that Cons.prems(5,6) hmap_closed [OF H(1)] by auto
  qed (use Cons.prems(5,7) E2(2) in auto)
  moreover have "dom (hmap (closed h s)) \<subseteq> dom (hmap s)"
    using hmap_closed [OF Hs] Hs by (auto split: if_splits)
  moreover have "dom (conns (closed h s)) = dom (conns s)"
    using conns_closed_gen [OF Hs] H(2) Cons.prems(3) E1 by (auto simp: dom_def conns_def)
  ultimately show ?case
    using run linked_nonzero [OF ok H(1)] kind_view_closed [OF Hs] by auto
qed

text \<open>
  What a reset, a removal or a wake-up of endpoints may change: handles may go, endpoints and
  connectors stay, and the registry is untouched.
\<close>

definition shrinks :: "app_state \<Rightarrow> app_state \<Rightarrow> bool" where
  "shrinks s s' \<longleftrightarrow> rest_view s' = rest_view s \<and> kind_view s' = kind_view s \<and> a_nodes s' = a_nodes s \<and>
     dom (hmap s') \<subseteq> dom (hmap s) \<and> dom (emap s') = dom (emap s)"

lemma dom_conns [simp]: "dom (conns s) = dom (emap s)"
  by (auto simp: conns_def dom_def)

lemma shrinks_refl [simp]: "shrinks s s"
  by (simp add: shrinks_def)

lemma shrinks_trans: "shrinks s s1 \<Longrightarrow> shrinks s1 s2 \<Longrightarrow> shrinks s s2"
  unfolding shrinks_def by (metis subset_trans)

lemma quiet_shrinks: "quiet s s' \<Longrightarrow> shrinks s s'"
  using quiet_hmap [of s s'] dom_conns [of s'] dom_conns [of s] quiet_conns [of s s']
  by (auto simp: shrinks_def quiet_def)

lemma shrinks_upd_endpoint [simp]: "shrinks s (upd_endpoint e f s)"
  by (auto simp: shrinks_def)

definition idle :: "app_state \<Rightarrow> bool" where
  "idle s \<longleftrightarrow> (\<forall>e E. emap s e = Some E \<longrightarrow> \<not> ep_closing E)"

lemma idle_cong: "closing_view s' = closing_view s \<Longrightarrow> idle s' = idle s"
proof -
  have "idle s \<longleftrightarrow> (\<forall>e. closing_view s e \<noteq> Some True)" for s
    by (auto simp: idle_def closing_view_def)
  then show "closing_view s' = closing_view s \<Longrightarrow> idle s' = idle s" by simp
qed

lemma endpoint_reset_ok:
  assumes ok: "conn_ok s" and idle: "idle s" and E: "emap s e = Some E"
  shows "\<exists>s'. endpoint_reset e s = Inr s' \<and> conn_ok s' \<and> idle s' \<and> shrinks s s' \<and> conns s' e = Some []"
proof -
  define s1 where "s1 = upd_endpoint e (\<lambda>E. E\<lparr>ep_closing := True\<rparr>) s"
  have cl: "\<not> ep_closing E" using idle E by (auto simp: idle_def)
  have "conns s1 = conns s" by (auto simp: s1_def conns_def fun_eq_iff)
  then have lv1: "link_view s1 = link_view s" by (simp add: link_view_def s1_def)
  then have ok1: "conn_ok s1" using conn_ok_cong ok by blast
  obtain E1 where E1: "emap s1 e = Some E1" using E by (simp add: s1_def)
  obtain s2 where s2: "cancel_pending_messages e s1 = Inr s2" "quiet s1 s2"
    using cancel_pending_messages_ok [OF conn_ok_linked [OF ok1] E1] by blast
  have ok2: "conn_ok s2" using quiet_conn_ok [OF s2(2) ok1] .
  obtain E2 where E2: "emap s2 e = Some E2" using quiet_alive [OF s2(2) E1] .
  define s3 where "s3 = upd_endpoint e (\<lambda>E. E\<lparr>ep_connections := []\<rparr>) s2"
  have e: "e \<noteq> 0" using linked_null [OF conn_ok_linked [OF ok]] E by (cases "e = 0") auto
  have sim: "ep_swap_sim e s3 s2" using E2 by (auto simp: ep_swap_sim_def s3_def)
  have d3: "dom (conns s3) = dom (conns s2)" "rest_view s3 = rest_view s2" "a_nodes s3 = a_nodes s2"
    "kind_view s3 = kind_view s2" "closing_view s3 = closing_view s2" "hmap s3 = hmap s2"
    using E2 closing_view_upd_endpoint [of "\<lambda>E. E\<lparr>ep_connections := []\<rparr>" e s2] by (auto simp: s3_def)
  obtain s4 where s4: "endpoint_unbind_each (ep_connections E2) e s3 = Inr s4" "conn_ok s4" "conns s4 e = Some []"
    "rest_view s4 = rest_view s3" "a_nodes s4 = a_nodes s3" "kind_view s4 = kind_view s3"
    "closing_view s4 = closing_view s3" "dom (hmap s4) \<subseteq> dom (hmap s3)" "dom (conns s4) = dom (conns s3)"
    using endpoint_unbind_each_ok [OF sim ok2 e E2] linked_distinct [OF conn_ok_linked [OF ok2]]
      linked_conns [OF conn_ok_linked [OF ok2] E2] E2 by blast
  define s5 where "s5 = upd_endpoint e (\<lambda>E. E\<lparr>ep_closing := False\<rparr>) s4"
  have run: "endpoint_reset e s = Inr s5"
    using E cl s2(1) E2 s4(1) by (simp add: endpoint_reset_def s1_def s3_def s5_def)
  have "conns s5 = conns s4" by (auto simp: s5_def conns_def fun_eq_iff)
  then have lv5: "link_view s5 = link_view s4" and c5: "conns s5 e = Some []"
    using s4(3) by (simp_all add: link_view_def s5_def)
  have cv: "closing_view s5 = (closing_view s)(e \<mapsto> False)"
  proof -
    have "closing_view s4 = closing_view s1"
      using s4(7) d3(5) s2(2) by (simp add: quiet_def)
    moreover obtain E4 where "emap s4 e = Some E4" using s4(3) by (auto simp: conns_Some)
    ultimately show ?thesis
      by (auto simp: s5_def closing_view_def s1_def fun_eq_iff)
  qed
  have "shrinks s3 s4" using s4 by (simp add: shrinks_def)
  then have "shrinks s s5"
    unfolding s5_def s1_def s3_def using quiet_shrinks [OF s2(2)] s1_def shrinks_trans shrinks_upd_endpoint by metis
  moreover have "conn_ok s5" using conn_ok_cong [OF lv5] s4(2) by simp
  moreover have "idle s5"
  proof -
    have "closing_view s5 e1 \<noteq> Some True" for e1
      using cv idle by (auto simp: closing_view_def idle_def split: if_splits)
    then show ?thesis by (auto simp: idle_def closing_view_def)
  qed
  ultimately show ?thesis using run c5 by blast
qed

end
