(* ===== verification/App_Ok.thy ===== *)
theory App_Ok
  imports Endpoint_Ok
begin

text \<open>
  The invariant of the endpoint registry: sound pointers, no endpoint left in the middle of a
  reset, fresh addresses, and indexes that only refer to living endpoints. Every operation of
  the registry keeps it and runs without fault.
\<close>

section \<open>The invariant\<close>

definition fresh_ok :: "app_state \<Rightarrow> bool" where
  "fresh_ok s \<longleftrightarrow> 0 < next_addr s \<and> dom (hmap s) \<union> dom (emap s) \<subseteq> {..<next_addr s}"

definition index_ok :: "app_state \<Rightarrow> bool" where
  "index_ok s \<longleftrightarrow> distinct (map fst (endpoint_index_by_id s)) \<and> distinct (map fst (endpoint_index_by_name s)) \<and>
     {e. endpoint_indexed e s} \<subseteq> dom (emap s)"

definition app_ok :: "app_state \<Rightarrow> bool" where
  "app_ok s \<longleftrightarrow> conn_ok s \<and> idle s \<and> fresh_ok s \<and> index_ok s"

lemma rest_view_fields:
  assumes "rest_view s' = rest_view s"
  shows "endpoint_index_by_id s' = endpoint_index_by_id s" "endpoint_index_by_name s' = endpoint_index_by_name s"
    "next_addr s' = next_addr s" "a_closing s' = a_closing s" "a_conf s' = a_conf s"
    "last_tick_timepoint s' = last_tick_timepoint s" "loopback_connector s' = loopback_connector s"
  using assms by (auto simp: rest_view_def)

lemma shrinks_registry:
  assumes "shrinks s s'"
  shows "fresh_ok s \<Longrightarrow> fresh_ok s'" "index_ok s \<Longrightarrow> index_ok s'"
proof -
  have f: "rest_view s' = rest_view s" and "dom (hmap s') \<subseteq> dom (hmap s)" "dom (emap s') = dom (emap s)"
    using assms by (simp_all add: shrinks_def)
  then show "fresh_ok s \<Longrightarrow> fresh_ok s'" "index_ok s \<Longrightarrow> index_ok s'"
    unfolding fresh_ok_def index_ok_def endpoint_indexed_def rest_view_fields [OF f] by blast+
qed

lemma app_ok_shrinks: "app_ok s \<Longrightarrow> conn_ok s' \<Longrightarrow> idle s' \<Longrightarrow> shrinks s s' \<Longrightarrow> app_ok s'"
  unfolding app_ok_def using shrinks_registry by blast

lemma app_ok_quiet:
  assumes "app_ok s" "quiet s s'"
  shows "app_ok s'"
proof (rule app_ok_shrinks [OF assms(1) _ _ quiet_shrinks [OF assms(2)]])
  show "conn_ok s'" using quiet_conn_ok [OF assms(2)] assms(1) by (simp add: app_ok_def)
  show "idle s'" using idle_cong [of s' s] assms by (simp add: app_ok_def quiet_def)
qed

lemma app_ok_linked: "app_ok s \<Longrightarrow> linked s"
  by (simp add: app_ok_def conn_ok_linked)

lemma app_ok_null: "app_ok s \<Longrightarrow> emap s 0 = None \<and> hmap s 0 = None"
  using linked_null [OF app_ok_linked] by simp

section \<open>Removing endpoints\<close>

lemma linked_remove_endpoint:
  assumes ok: "linked s" and e: "conns s e = Some []"
  shows "linked (s\<lparr>emap := (emap s)(e := None)\<rparr>)" (is "linked ?s")
proof (rule linkedI)
  have off: "h_endpiont H \<noteq> e" if "hmap s h = Some H" for h H
  proof
    assume "h_endpiont H = e"
    moreover have "e \<noteq> 0" using e linked_null [OF ok] by (cases "e = 0") (auto simp: conns_def)
    ultimately show False
      using linked_handle [OF ok that] e by (auto simp: handle_ok_def)
  qed
  show "handle_ok (conns ?s) (\<lambda>c. c_handles (cmap ?s c)) (\<lambda>c. c_stored (cmap ?s c)) h H"
    if "hmap ?s h = Some H" for h H
    using that linked_handle [OF ok, of h H] off [of h H] by (auto simp: handle_ok_def conns_def)
  show "\<exists>H. hmap ?s h = Some H \<and> h_endpiont H = e1" if "emap ?s e1 = Some E1" "h \<in> set (ep_connections E1)" for e1 E1 h
    using that linked_conns [OF ok, of e1 E1 h] by (auto split: if_splits)
  show "distinct (ep_connections E1)" if "emap ?s e1 = Some E1" for e1 E1
    using that linked_distinct(1) [OF ok] by (auto split: if_splits)
qed (use linked_null [OF ok] linked_zero_handles [OF ok] linked_distinct(2) [OF ok] linked_connector [OF ok]
    linked_stored_alive [OF ok] in auto)

lemma endpoint_destroy_ok:
  assumes ok: "app_ok s" and E: "emap s e = Some E" and "\<not> endpoint_indexed e s"
  shows "\<exists>s'. endpoint_destroy e s = Inr s' \<and> app_ok s' \<and> rest_view s' = rest_view s \<and> kind_view s' = kind_view s \<and>
           a_nodes s' = a_nodes s \<and> dom (emap s') = dom (emap s) - {e}"
proof -
  obtain s1 where s1: "endpoint_reset e s = Inr s1" "conn_ok s1" "idle s1" "shrinks s s1" "conns s1 e = Some []"
    using endpoint_reset_ok [OF _ _ E] ok by (auto simp: app_ok_def)
  let ?s = "s1\<lparr>emap := (emap s1)(e := None)\<rparr>"
  have ok1: "app_ok s1" by (rule app_ok_shrinks [OF ok s1(2-4)])
  have same: "rest_view ?s = rest_view s" "kind_view ?s = kind_view s" "a_nodes ?s = a_nodes s"
    using s1(4) by (auto simp: shrinks_def rest_view_def kind_view_def)
  have "conn_ok ?s"
    using linked_remove_endpoint [OF app_ok_linked [OF ok1] s1(5)] s1(2) by (auto simp: conn_ok_def)
  moreover have "idle ?s" using s1(3) by (auto simp: idle_def split: if_splits)
  moreover have "fresh_ok ?s" using ok1 by (auto simp: app_ok_def fresh_ok_def)
  moreover have "index_ok ?s"
    using ok1 assms(3) rest_view_fields [OF same(1)]
    by (auto simp: app_ok_def index_ok_def endpoint_indexed_def)
  moreover have "dom (emap ?s) = dom (emap s) - {e}" using s1(4) by (auto simp: shrinks_def)
  ultimately show ?thesis
    using s1(1) same by (auto simp: endpoint_destroy_def app_ok_def)
qed

definition registry_step :: "app_state \<Rightarrow> app_state \<Rightarrow> bool" where
  "registry_step s s' \<longleftrightarrow> app_ok s' \<and> rest_view s' = rest_view s \<and> kind_view s' = kind_view s \<and> a_nodes s' = a_nodes s"

lemma endpoint_drop_ok:
  assumes "app_ok s"
  shows "\<exists>s'. endpoint_drop e s = Inr s' \<and> registry_step s s' \<and> dom (emap s') \<subseteq> dom (emap s) \<and>
           (emap s' e \<noteq> None \<longrightarrow> endpoint_indexed e s) \<and> dom (emap s) - {e} \<subseteq> dom (emap s')"
proof (cases "emap s e = None \<or> endpoint_indexed e s")
  case True
  then show ?thesis using assms by (auto simp: endpoint_drop_def registry_step_def)
next
  case False
  then obtain E where E: "emap s e = Some E" by auto
  then show ?thesis
    using endpoint_destroy_ok [OF assms E] False by (auto simp: endpoint_drop_def registry_step_def)
qed

text \<open>Erasing index entries keeps everything else.\<close>

lemma app_ok_reindex:
  assumes ok: "app_ok s"
    and "distinct (map fst ids)" "distinct (map fst names)" "snd ` set ids \<union> snd ` set names \<subseteq> dom (emap s)"
  shows "app_ok (s\<lparr>endpoint_index_by_id := ids, endpoint_index_by_name := names\<rparr>)" (is "app_ok ?s")
proof -
  have "link_view ?s = link_view s" by (simp add: link_view_def conns_def fun_eq_iff)
  then have "conn_ok ?s" using conn_ok_cong [of ?s s] ok by (simp add: app_ok_def)
  then show ?thesis
    using ok assms(2-4) by (auto simp: app_ok_def idle_def fresh_ok_def index_ok_def endpoint_indexed_def)
qed

lemma delete_values: "snd ` set (AList.delete k al) \<subseteq> snd ` set al"
  by (auto simp: AList.delete_eq)

lemma app_ok_values:
  assumes "app_ok s"
  shows "snd ` set (endpoint_index_by_id s) \<subseteq> dom (emap s)" "snd ` set (endpoint_index_by_name s) \<subseteq> dom (emap s)"
    "distinct (map fst (endpoint_index_by_id s))" "distinct (map fst (endpoint_index_by_name s))"
  using assms by (auto simp: app_ok_def index_ok_def endpoint_indexed_def)

lemma app_ok_erase_id: 
  assumes "app_ok s"
  shows "app_ok (s\<lparr>endpoint_index_by_id := AList.delete i (endpoint_index_by_id s)\<rparr>)"
proof -
  have "app_ok (s\<lparr>endpoint_index_by_id := AList.delete i (endpoint_index_by_id s),
      endpoint_index_by_name := endpoint_index_by_name s\<rparr>)"
    using app_ok_values [OF assms] delete_values [of i "endpoint_index_by_id s"]
    by (intro app_ok_reindex [OF assms] distinct_keys_delete) auto
  then show ?thesis by simp
qed

lemma app_ok_erase_name: 
  assumes "app_ok s"
  shows "app_ok (s\<lparr>endpoint_index_by_name := AList.delete i (endpoint_index_by_name s)\<rparr>)"
proof -
  have "app_ok (s\<lparr>endpoint_index_by_id := endpoint_index_by_id s,
      endpoint_index_by_name := AList.delete i (endpoint_index_by_name s)\<rparr>)"
    using app_ok_values [OF assms] delete_values [of i "endpoint_index_by_name s"]
    by (intro app_ok_reindex [OF assms] distinct_keys_delete) auto
  then show ?thesis by simp
qed

lemma app_ok_erase:
  "app_ok s \<Longrightarrow> app_ok (erase_id i e s)" "app_ok s \<Longrightarrow> app_ok (erase_name nm e s)"
  using app_ok_erase_id app_ok_erase_name by (auto simp: erase_id_def erase_name_def)

lemma erase_simps [simp]:
  "emap (erase_id i e s) = emap s" "emap (erase_name nm e s) = emap s"
  "hmap (erase_id i e s) = hmap s" "hmap (erase_name nm e s) = hmap s"
  "endpoint_index_by_name (erase_id i e s) = endpoint_index_by_name s"
  "endpoint_index_by_id (erase_name nm e s) = endpoint_index_by_id s"
  by (simp_all add: erase_id_def erase_name_def)

lemma reset_app_ok:
  assumes "app_ok s" "emap s e = Some E"
  obtains s' where "endpoint_reset e s = Inr s'" "app_ok s'" "shrinks s s'" "conns s' e = Some []"
  using endpoint_reset_ok [OF _ _ assms(2)] assms app_ok_shrinks by (metis app_ok_def)

definition core_view where
  "core_view s = (a_closing s, last_tick_timepoint s, a_conf s, loopback_connector s, connector_protocols s,
     next_addr s, kind_view s, a_nodes s)"

lemma core_view_erase [simp]: "core_view (erase_id i e s) = core_view s" "core_view (erase_name nm e s) = core_view s"
  by (simp_all add: core_view_def erase_id_def erase_name_def kind_view_def)

lemma core_view_rest:
  "rest_view s' = rest_view s \<Longrightarrow> kind_view s' = kind_view s \<Longrightarrow> a_nodes s' = a_nodes s \<Longrightarrow> core_view s' = core_view s"
  by (simp add: core_view_def rest_view_def)

lemma reset_drop_ok:
  assumes ok: "app_ok s" and E: "emap s e = Some E"
  obtains s' where "and_then (endpoint_reset e s) (endpoint_drop e) = Inr s'" "app_ok s'" "rest_view s' = rest_view s"
    "core_view s' = core_view s" "dom (emap s) - {e} \<subseteq> dom (emap s')" "dom (emap s') \<subseteq> dom (emap s)"
    "endpoint_indexed e s \<or> emap s' e = None"
proof -
  obtain s1 where s1: "endpoint_reset e s = Inr s1" "app_ok s1" "shrinks s s1"
    using reset_app_ok [OF ok E] by metis
  have v: "rest_view s1 = rest_view s" "kind_view s1 = kind_view s" "a_nodes s1 = a_nodes s" "dom (emap s1) = dom (emap s)"
    using s1(3) by (simp_all add: shrinks_def)
  obtain s2 where s2: "endpoint_drop e s1 = Inr s2" "registry_step s1 s2" "dom (emap s2) \<subseteq> dom (emap s1)"
    "emap s2 e \<noteq> None \<longrightarrow> endpoint_indexed e s1" "dom (emap s1) - {e} \<subseteq> dom (emap s2)"
    using endpoint_drop_ok [OF s1(2)] by blast
  have idx: "endpoint_indexed e s1 = endpoint_indexed e s"
    unfolding endpoint_indexed_def rest_view_fields [OF v(1)] ..
  have v2: "rest_view s2 = rest_view s" "kind_view s2 = kind_view s" "a_nodes s2 = a_nodes s"
    using s2(2) v by (simp_all add: registry_step_def)
  show ?thesis
    by (rule that [of s2]) (use s1(1) s2 v v2 idx core_view_rest [OF v2] in \<open>auto simp: registry_step_def\<close>)
qed

lemma remove_endpoint_by_id_ok:
  assumes ok: "app_ok s"
  shows "\<exists>s'. remove_endpoint_by_id i s = Inr s' \<and> app_ok s' \<and> core_view s' = core_view s \<and>
           map_of (endpoint_index_by_id s') i = None \<and>
           (\<forall>nm e. map_of (endpoint_index_by_name s) nm = Some e \<longrightarrow> map_of (endpoint_index_by_id s) i \<noteq> Some e \<longrightarrow>
              map_of (endpoint_index_by_name s') nm = Some e)"
proof (cases "map_of (endpoint_index_by_id s) i")
  case None
  then show ?thesis using ok by (simp add: remove_endpoint_by_id_def)
next
  case (Some e)
  let ?s1 = "s\<lparr>endpoint_index_by_id := AList.delete i (endpoint_index_by_id s)\<rparr>"
  have "e \<in> dom (emap s)" using app_ok_values(1) [OF ok] map_of_SomeD [OF Some] by (force simp: image_iff)
  then obtain E where E: "emap s e = Some E" by auto
  have "e \<noteq> 0" using app_ok_null [OF ok] E by (cases "e = 0") auto
  define s2 where "s2 = erase_name (endpoint_get_name ?s1 E) e ?s1"
  have ok2: "app_ok s2" unfolding s2_def by (intro app_ok_erase app_ok_erase_id ok)
  have E2: "emap s2 e = Some E" using E by (simp add: s2_def)
  obtain s' where s': "and_then (endpoint_reset e s2) (endpoint_drop e) = Inr s'" "app_ok s'"
    "rest_view s' = rest_view s2" "core_view s' = core_view s2"
    using reset_drop_ok [OF ok2 E2] by metis
  have "remove_endpoint_by_id i s = Inr s'"
    using Some \<open>e \<noteq> 0\<close> E s'(1) by (simp add: remove_endpoint_by_id_def Let_def s2_def)
  moreover have "core_view s' = core_view s"
    using s'(4) by (simp add: s2_def core_view_def erase_name_def kind_view_def)
  moreover have "endpoint_index_by_id s' = AList.delete i (endpoint_index_by_id s)"
    "endpoint_index_by_name s' = endpoint_index_by_name s2"
    using rest_view_fields [OF s'(3)] by (simp_all add: s2_def)
  ultimately show ?thesis
    using s'(2) Some by (auto simp: s2_def erase_name_def)
qed

lemma remove_endpoint_by_name_ok:
  assumes ok: "app_ok s"
  shows "\<exists>s'. remove_endpoint_by_name nm s = Inr s' \<and> app_ok s' \<and> core_view s' = core_view s"
proof (cases "map_of (endpoint_index_by_name s) nm")
  case None
  then show ?thesis using ok by (simp add: remove_endpoint_by_name_def)
next
  case (Some e)
  let ?s1 = "s\<lparr>endpoint_index_by_name := AList.delete nm (endpoint_index_by_name s)\<rparr>"
  have "e \<in> dom (emap s)" using app_ok_values(2) [OF ok] map_of_SomeD [OF Some] by (force simp: image_iff)
  then obtain E where E: "emap s e = Some E" by auto
  have "e \<noteq> 0" using app_ok_null [OF ok] E by (cases "e = 0") auto
  define s2 where "s2 = erase_id (endpoint_get_id ?s1 E) e ?s1"
  have ok2: "app_ok s2" unfolding s2_def by (intro app_ok_erase app_ok_erase_name ok)
  have E2: "emap s2 e = Some E" using E by (simp add: s2_def)
  obtain s' where s': "and_then (endpoint_reset e s2) (endpoint_drop e) = Inr s'" "app_ok s'" "core_view s' = core_view s2"
    using reset_drop_ok [OF ok2 E2] by metis
  have "remove_endpoint_by_name nm s = Inr s'"
    using Some \<open>e \<noteq> 0\<close> E s'(1) by (simp add: remove_endpoint_by_name_def Let_def s2_def)
  moreover have "core_view s' = core_view s"
    using s'(3) by (simp add: s2_def core_view_def erase_id_def kind_view_def)
  ultimately show ?thesis using s'(2) by blast
qed

lemma remove_endpoint_ok:
  assumes ok: "app_ok s" and E: "emap s e = Some E"
  shows "\<exists>s'. remove_endpoint e s = Inr s' \<and> app_ok s' \<and> core_view s' = core_view s"
proof -
  have "e \<noteq> 0" using app_ok_null [OF ok] E by (cases "e = 0") auto
  define s2 where "s2 = erase_name (endpoint_get_name s E) e (erase_id (endpoint_get_id s E) e s)"
  have ok2: "app_ok s2" unfolding s2_def by (intro app_ok_erase ok)
  have E2: "emap s2 e = Some E" using E by (simp add: s2_def)
  obtain s' where s': "endpoint_reset e s2 = Inr s'" "app_ok s'" "shrinks s2 s'"
    using reset_app_ok [OF ok2 E2] by metis
  have "core_view s' = core_view s2" using s'(3) by (intro core_view_rest) (simp_all add: shrinks_def)
  then show ?thesis
    using s' \<open>e \<noteq> 0\<close> E by (auto simp: remove_endpoint_def s2_def)
qed

end
