(* ===== verification/App_Run.thy ===== *)
theory App_Run
  imports App_Ok
begin

text \<open>
  Creating and connecting endpoints, the wake-up step and the shutdown keep the invariant of the
  registry; \<open>app_step\<close> collects the operations a running application performs, and
  \<open>app_run\<close> the states it reaches.
\<close>

section \<open>Fresh objects\<close>

lemma app_ok_step:
  assumes ok: "app_ok s" and "conn_ok s'" "closing_view s' = closing_view s" "rest_view s' = rest_view s"
    "dom (hmap s') \<subseteq> dom (hmap s)"
  shows "app_ok s' \<and> dom (emap s') = dom (emap s)"
proof -
  have "dom (emap t) = dom (closing_view t)" for t by (auto simp: closing_view_def dom_def)
  then have d: "dom (emap s') = dom (emap s)" using assms(3) by metis
  note f = rest_view_fields [OF assms(4)]
  have "idle s'" using idle_cong [OF assms(3)] ok by (simp add: app_ok_def)
  moreover have "fresh_ok s'" using ok assms(5) d unfolding app_ok_def fresh_ok_def f by blast
  moreover have "index_ok s'" using ok d by (auto simp: app_ok_def index_ok_def endpoint_indexed_def f)
  ultimately show ?thesis using assms(2) d by (simp add: app_ok_def)
qed

lemma fresh_unused:
  assumes "app_ok s"
  shows "hmap s (next_addr s) = None" "emap s (next_addr s) = None" "next_addr s \<noteq> 0"
  using assms by (auto simp: app_ok_def fresh_ok_def dom_def)

lemma new_endpoint_ok:
  assumes ok: "app_ok s" and new: "new_endpoint s = (e, s')"
  shows "app_ok s'" "e \<in> dom (emap s')" "dom (emap s) \<subseteq> dom (emap s')"
proof -
  have s': "s' = s\<lparr>next_addr := Suc e, emap := (emap s)(e \<mapsto> endpoint_create s)\<rparr>" and e: "e = next_addr s"
    using new by (auto simp: new_endpoint_def Let_def)
  note un = fresh_unused [OF ok, folded e]
  have c: "conns s' = (conns s)(e \<mapsto> [])"
    by (auto simp: s' conns_def endpoint_create_def fun_eq_iff)
  have cm: "cmap s' = cmap s" by (simp add: s')
  have "linked s'"
  proof (rule linkedI)
    show "handle_ok (conns s') (\<lambda>c. c_handles (cmap s' c)) (\<lambda>c. c_stored (cmap s' c)) h H"
      if "hmap s' h = Some H" for h H
    proof -
      have H: "hmap s h = Some H" using that by (simp add: s')
      have "h_endpiont H \<noteq> e"
      proof
        assume "h_endpiont H = e"
        then show False using linked_endpoint_ex [OF app_ok_linked [OF ok] H] un by auto
      qed
      then show ?thesis
        using linked_handle [OF app_ok_linked [OF ok] H] cm by (auto simp: handle_ok_def c)
    qed
    show "\<exists>H. hmap s' h = Some H \<and> h_endpiont H = e1" if "emap s' e1 = Some E1" "h \<in> set (ep_connections E1)" for e1 E1 h
      using that linked_conns [OF app_ok_linked [OF ok], of e1 E1 h] by (auto simp: s' endpoint_create_def split: if_splits)
    show "distinct (ep_connections E1)" if "emap s' e1 = Some E1" for e1 E1
      using that linked_distinct(1) [OF app_ok_linked [OF ok]] by (auto simp: s' endpoint_create_def split: if_splits)
    show "distinct (c_handles (cmap s' c))" for c
      using linked_distinct(2) [OF app_ok_linked [OF ok]] by (simp add: s')
    show "\<exists>H. hmap s' h = Some H \<and> h_connector H = c1" if "h \<in> set (c_handles (cmap s' c1))" for c1 h
      using that linked_connector [OF app_ok_linked [OF ok], of h c1] by (simp add: s')
    show "\<exists>H. hmap s' h = Some H \<and> ConnectorRef c1 \<in> set (h_refs H)" if "h \<in> set (c_stored (cmap s' c1))" for c1 h
      using that linked_stored_alive [OF app_ok_linked [OF ok], of h c1] by (simp add: s')
  qed (use linked_null [OF app_ok_linked [OF ok]] linked_zero_handles [OF app_ok_linked [OF ok]] un in \<open>auto simp: s'\<close>)
  then show "app_ok s'"
    using ok un e
    by (auto simp: app_ok_def conn_ok_def idle_def fresh_ok_def index_ok_def endpoint_indexed_def s'
        endpoint_create_def dom_def less_Suc_eq split: if_splits)
  show "e \<in> dom (emap s')" "dom (emap s) \<subseteq> dom (emap s')" by (auto simp: s')
qed

definition open_handle :: "addr \<Rightarrow> app_state \<Rightarrow> bool" where
  "open_handle h s \<longleftrightarrow> (\<exists>H. hmap s h = Some H \<and> \<not> handle_is_closing H \<and> h_connector H = 0 \<and> h_endpiont H = 0 \<and>
     LocalRef \<in> set (h_refs H))"

lemma new_handle_ok:
  assumes ok: "app_ok s" and new: "new_handle s = (h, s')"
  shows "app_ok s'" "open_handle h s'" "emap s' = emap s"
proof -
  have s': "s' = s\<lparr>next_addr := Suc h, hmap := (hmap s)(h \<mapsto> handle_create)\<rparr>" and h: "h = next_addr s"
    using new by (auto simp: new_handle_def Let_def)
  note un = fresh_unused [OF ok, folded h]
  note lk = app_ok_linked [OF ok]
  have c: "conns s' = conns s"
    by (auto simp: s' conns_def fun_eq_iff)
  have cm: "cmap s' = cmap s" "hmap s' = (hmap s)(h \<mapsto> handle_create)" by (simp_all add: s')
  have "linked s'"
  proof (rule linkedI)
    show "handle_ok (conns s') (\<lambda>c. c_handles (cmap s' c)) (\<lambda>c. c_stored (cmap s' c)) h1 H"
      if "hmap s' h1 = Some H" for h1 H
      using that linked_handle [OF lk, of h1 H] un
      by (cases "h1 = h") (auto simp: handle_ok_def c cm handle_create_def handle_is_closing_def)
    show "\<exists>H. hmap s' h1 = Some H \<and> h_endpiont H = e1" if "emap s' e1 = Some E1" "h1 \<in> set (ep_connections E1)" for e1 E1 h1
      using that linked_conns [OF lk, of e1 E1 h1] un by (auto simp: s')
    show "distinct (ep_connections E1)" if "emap s' e1 = Some E1" for e1 E1
      using that linked_distinct(1) [OF lk] by (auto simp: s')
    show "distinct (c_handles (cmap s' c))" for c
      using linked_distinct(2) [OF lk] by (simp add: s')
    show "\<exists>H. hmap s' h1 = Some H \<and> h_connector H = c1" if "h1 \<in> set (c_handles (cmap s' c1))" for c1 h1
      using that linked_connector [OF lk, of h1 c1] un by (auto simp: s')
    show "\<exists>H. hmap s' h1 = Some H \<and> ConnectorRef c1 \<in> set (h_refs H)" if "h1 \<in> set (c_stored (cmap s' c1))" for c1 h1
      using that linked_stored_alive [OF lk, of h1 c1] un by (auto simp: s')
  qed (use linked_null [OF lk] linked_zero_handles [OF lk] un in \<open>auto simp: s'\<close>)
  then show "app_ok s'"
    using ok un h
    by (auto simp: app_ok_def conn_ok_def idle_def fresh_ok_def index_ok_def endpoint_indexed_def s'
        handle_create_def dom_def less_Suc_eq split: if_splits)
  show "open_handle h s'"
    by (simp add: open_handle_def s' handle_create_def handle_is_closing_def)
  show "emap s' = emap s" by (simp add: s')
qed

section \<open>Connecting\<close>

lemma linked_store_handle:
  assumes ok: "linked s" and H: "hmap s h = Some H"
  shows "linked (store_handle c h s)" (is "linked ?s")
proof (rule linkedI)
  have d: "distinct (h_refs H)" using linked_handle [OF ok H] by (simp add: handle_ok_def)
  have v: "conns ?s = conns s" "emap ?s = emap s"
    "hmap ?s = (hmap s)(h \<mapsto> H\<lparr>h_refs := List.insert (ConnectorRef c) (h_refs H)\<rparr>)"
    "cmap ?s = (cmap s)(c := (cmap s c)\<lparr>c_stored := List.insert h (c_stored (cmap s c))\<rparr>)"
    using H by (simp_all add: store_handle_def)
  show "handle_ok (conns ?s) (\<lambda>c. c_handles (cmap ?s c)) (\<lambda>c. c_stored (cmap ?s c)) h1 H1"
    if "hmap ?s h1 = Some H1" for h1 H1
    using that H d linked_handle [OF ok, of h1] unfolding v by (cases "h1 = h") (auto simp: handle_ok_def)
  show "\<exists>H. hmap ?s h1 = Some H \<and> h_endpiont H = e" if "emap ?s e = Some E" "h1 \<in> set (ep_connections E)" for e E h1
    using that linked_conns [OF ok, of e E h1] H unfolding v by (cases "h1 = h") auto
  show "\<exists>H. hmap ?s h1 = Some H \<and> h_connector H = c1" if "h1 \<in> set (c_handles (cmap ?s c1))" for c1 h1
    using that linked_connector [OF ok, of h1 c1] H unfolding v by (cases "h1 = h") (auto split: if_splits)
  show "\<exists>H. hmap ?s h1 = Some H \<and> ConnectorRef c1 \<in> set (h_refs H)" if "h1 \<in> set (c_stored (cmap ?s c1))" for c1 h1
    using that linked_stored_alive [OF ok, of h1 c1] H unfolding v by (cases "h1 = h") (auto split: if_splits)
  show "hmap ?s 0 = None" "emap ?s 0 = None" "c_handles (cmap ?s 0) = []"
    using linked_null [OF ok] linked_nonzero [OF ok H] linked_zero_handles [OF ok] unfolding v by auto
  show "distinct (ep_connections E)" if "emap ?s e = Some E" for e E
    using that linked_distinct(1) [OF ok] unfolding v by blast
  show "distinct (c_handles (cmap ?s c1))" for c1
    using linked_distinct(2) [OF ok] unfolding v by auto
qed

lemma store_handle_ok:
  assumes ok: "app_ok s" and h: "open_handle h s"
  shows "app_ok (store_handle c h s) \<and> dom (emap (store_handle c h s)) = dom (emap s)" "open_handle h (store_handle c h s)"
proof -
  obtain H where H: "hmap s h = Some H" "\<not> handle_is_closing H" "h_connector H = 0" "h_endpiont H = 0" "LocalRef \<in> set (h_refs H)"
    using h by (auto simp: open_handle_def)
  have "conn_ok (store_handle c h s)"
    using linked_store_handle [OF app_ok_linked [OF ok] H(1), of c] ok H(1)
    by (auto simp: conn_ok_def app_ok_def store_handle_def List.insert_def)
  then show "app_ok (store_handle c h s) \<and> dom (emap (store_handle c h s)) = dom (emap s)"
    by (rule app_ok_step [OF ok]) (use H(1) in \<open>auto simp: store_handle_def closing_view_def\<close>)
  show "open_handle h (store_handle c h s)" using H by (simp add: open_handle_def store_handle_def)
qed

lemma set_ready_ok:
  assumes ok: "app_ok s" and h: "open_handle h s"
  obtains s' where "handle_set_ready h s = Inr s'" "app_ok s'" "dom (emap s') = dom (emap s)" "open_handle h s'"
proof -
  obtain H where H: "hmap s h = Some H" "\<not> handle_is_closing H" "h_connector H = 0" "h_endpiont H = 0" "LocalRef \<in> set (h_refs H)"
    using h by (auto simp: open_handle_def)
  obtain s' where s': "handle_set_ready h s = Inr s'" "conn_ok s'" and hm: "\<exists>H'. hmap s' = (hmap s)(h \<mapsto> H') \<and>
      handle_is_ready H' \<and> \<not> handle_is_closing H' \<and> h_connector H' = h_connector H \<and> h_endpiont H' = h_endpiont H \<and>
      h_refs H' = h_refs H"
    using conn_ok_set_ready [OF _ H(1)] ok by (auto simp: app_ok_def)
  have v: "closing_view s' = closing_view s" "rest_view s' = rest_view s"
    using s'(1) H by (auto simp: handle_set_ready_def Let_def split: if_splits)
  have "app_ok s' \<and> dom (emap s') = dom (emap s)"
    by (rule app_ok_step [OF ok s'(2) v]) (use hm H(1) in \<open>auto split: if_splits\<close>)
  moreover have "open_handle h s'" using hm H by (auto simp: open_handle_def)
  ultimately show ?thesis using that s'(1) by blast
qed

lemma set_private_data_ok:
  assumes ok: "app_ok s" and h: "open_handle h s"
  obtains s' where "handle_set_private_data h d s = Inr s'" "app_ok s'" "dom (emap s') = dom (emap s)" "open_handle h s'"
proof -
  obtain H where H: "hmap s h = Some H" "\<not> handle_is_closing H" "h_connector H = 0" "h_endpiont H = 0" "LocalRef \<in> set (h_refs H)"
    using h by (auto simp: open_handle_def)
  let ?s = "upd_handle h (\<lambda>H. H\<lparr>h_private_data := d\<rparr>) s"
  have "conn_ok ?s"
    using linked_handle [OF app_ok_linked [OF ok] H(1)] ok H
    by (intro conn_ok_upd_handle [where H = H]) (auto simp: handle_ok_def app_ok_def conn_ok_def)
  then have "app_ok ?s \<and> dom (emap ?s) = dom (emap s)"
    by (rule app_ok_step [OF ok]) (use H(1) in auto)
  moreover have "open_handle h ?s" using H by (simp add: open_handle_def)
  moreover have "handle_set_private_data h d s = Inr ?s" using H(1) by (simp add: handle_set_private_data_def)
  ultimately show ?thesis using that by blast
qed

lemma on_start_connect_ok:
  assumes ok: "app_ok s" and h: "open_handle h s"
  shows "\<exists>r s'. on_start_connect env c h g s = Inr (r, s') \<and> app_ok s' \<and> dom (emap s') = dom (emap s) \<and> open_handle h s'"
proof -
  obtain H where H: "hmap s h = Some H" using h by (auto simp: open_handle_def)
  have nz: "h \<noteq> 0" by (rule linked_nonzero [OF app_ok_linked [OF ok] H])
  note st = store_handle_ok [OF ok h, of c]
  obtain s1 where s1: "handle_set_ready h (store_handle c h s) = Inr s1" "app_ok s1" "dom (emap s1) = dom (emap s)" "open_handle h s1"
    using set_ready_ok [of "store_handle c h s" h] st by metis
  obtain s2 where s2: "handle_set_private_data h (of_nat h) s1 = Inr s2" "app_ok s2" "dom (emap s2) = dom (emap s)" "open_handle h s2"
    using set_private_data_ok [OF s1(2,4)] s1(3) by metis
  obtain s3 where s3: "handle_set_ready h s = Inr s3" "app_ok s3" "dom (emap s3) = dom (emap s)" "open_handle h s3"
    using set_ready_ok [OF ok h] by metis
  show ?thesis
  proof (cases "c_class (cmap s c)")
    case Loopback
    then show ?thesis using nz H s1 s2 by (simp add: on_start_connect_def loopback_on_start_connect_def)
  next
    case (External b)
    obtain ret stores ready where conn: "env_connect env c h g = (ret, stores, ready)" using prod_cases3 by blast
    show ?thesis
      using External conn H s1 s3 st ok h by (cases stores; cases ready) (simp_all add: on_start_connect_def Let_def)
  qed (use ok h in \<open>simp add: on_start_connect_def\<close>)
qed

definition held_handle :: "addr \<Rightarrow> app_state \<Rightarrow> bool" where
  "held_handle h s \<longleftrightarrow> (\<exists>H. hmap s h = Some H \<and> LocalRef \<in> set (h_refs H))"

lemma open_held: "open_handle h s \<Longrightarrow> held_handle h s"
  by (auto simp: open_handle_def held_handle_def)

lemma bind_both_ok:
  assumes ok: "app_ok s" and h: "open_handle h s" and c: "c \<noteq> 0" and e: "e \<in> dom (emap s)"
  shows "\<exists>s'. and_then (connector_bind h c s) (endpoint_bind h e) = Inr s' \<and> app_ok s' \<and>
           dom (emap s') = dom (emap s) \<and> held_handle h s'"
proof -
  obtain H where H: "hmap s h = Some H" "\<not> handle_is_closing H" "h_connector H = 0" "h_endpiont H = 0" "LocalRef \<in> set (h_refs H)"
    using h by (auto simp: open_handle_def)
  let ?H1 = "H\<lparr>h_connector := if c_destroying (cmap s c) then 0 else c\<rparr>"
  have cok: "conn_ok s" using ok by (simp add: app_ok_def)
  obtain s1 where s1: "connector_bind h c s = Inr s1" "conn_ok s1" "emap s1 = emap s" "hmap s1 = (hmap s)(h \<mapsto> ?H1)"
    using connector_bind_ok [OF cok H(1-3) c] by blast
  have v1: "closing_view s1 = closing_view s" "rest_view s1 = rest_view s"
    using s1(1) H c by (auto simp: connector_bind_def split: if_splits)
  have ok1: "app_ok s1" using app_ok_step [OF ok s1(2) v1] s1(4) H(1) by auto
  obtain E where E: "emap s1 e = Some E" using e s1(3) by auto
  have H1: "hmap s1 h = Some ?H1" "\<not> handle_is_closing ?H1" "h_endpiont ?H1 = 0" using s1(4) H by simp_all
  obtain s2 where s2: "endpoint_bind h e s1 = Inr s2" "conn_ok s2" "hmap s2 = (hmap s1)(h \<mapsto> ?H1\<lparr>h_endpiont := e\<rparr>)"
    using endpoint_bind_ok [OF s1(2) H1 E] by blast
  have "e \<noteq> 0" using app_ok_null [OF ok1] E by (cases "e = 0") auto
  then have v2: "closing_view s2 = closing_view s1" "rest_view s2 = rest_view s1"
    using s2(1) H1 E by (auto simp: endpoint_bind_def Let_def closing_view_upd_endpoint split: if_splits)
  have "app_ok s2 \<and> dom (emap s2) = dom (emap s1)"
    by (rule app_ok_step [OF ok1 s2(2) v2]) (use s2(3) H1(1) in auto)
  then show ?thesis using s1 s2 H(5) by (auto simp: held_handle_def)
qed

lemma try_connect_ok:
  assumes ok: "app_ok s" and h: "open_handle h s" and c: "c \<noteq> 0" and e: "e \<in> dom (emap s)"
  shows "\<exists>b s'. try_connect env c h e g s = Inr (b, s') \<and> app_ok s' \<and> dom (emap s') = dom (emap s) \<and>
           held_handle h s' \<and> (\<not> b \<longrightarrow> open_handle h s')"
proof -
  obtain r s1 where s1: "on_start_connect env c h g s = Inr (r, s1)" "app_ok s1" "dom (emap s1) = dom (emap s)" "open_handle h s1"
    using on_start_connect_ok [OF ok h] by blast
  obtain s2 where s2: "and_then (connector_bind h c s1) (endpoint_bind h e) = Inr s2" "app_ok s2"
    "dom (emap s2) = dom (emap s1)" "held_handle h s2"
    using bind_both_ok [OF s1(2,4) c] e s1(3) by blast
  then obtain s3 where s3: "connector_bind h c s1 = Inr s3" "endpoint_bind h e s3 = Inr s2"
    by (auto simp: and_then_Inr_iff)
  show ?thesis
  proof (cases "r = EN_SUCCESS \<and> handle_use_count h s1 > 1")
    case True
    then show ?thesis using s1 s2 s3 by (auto simp: try_connect_def intro!: exI [of _ True])
  next
    case False
    then show ?thesis using s1 open_held [OF s1(4)] by (auto simp: try_connect_def)
  qed
qed

lemma app_ok_nodes: "app_ok (s\<lparr>a_nodes := x\<rparr>) = app_ok s" "open_handle h (s\<lparr>a_nodes := x\<rparr>) = open_handle h s"
proof -
  have "link_view (s\<lparr>a_nodes := x\<rparr>) = link_view s" by (simp add: link_view_def conns_def fun_eq_iff)
  from conn_ok_cong [OF this] show "app_ok (s\<lparr>a_nodes := x\<rparr>) = app_ok s"
    by (simp add: app_ok_def idle_def fresh_ok_def index_ok_def endpoint_indexed_def)
  show "open_handle h (s\<lparr>a_nodes := x\<rparr>) = open_handle h s" by (simp add: open_handle_def)
qed

lemma connect_gateways_ok:
  assumes "app_ok s" "open_handle h s" "e \<in> dom (emap s)"
  shows "\<exists>s'. connect_gateways n env d h e lb s = Inr s' \<and> app_ok s' \<and> dom (emap s') = dom (emap s) \<and> held_handle h s'"
  using assms
proof (induction n arbitrary: s)
  case 0
  then show ?case using open_held by simp
next
  case (Suc n)
  obtain g node where g: "next_ingress_gateway (a_nodes s d) = (g, node)" by (cases "next_ingress_gateway (a_nodes s d)") auto
  define s1 where "s1 = s\<lparr>a_nodes := (a_nodes s)(d := node)\<rparr>"
  have eq: "connect_gateways (Suc n) env d h e lb s =
      (if \<not> match_gateway env g then connect_gateways n env d h e lb s1
       else case map_of (connector_protocols s1) (map (ta_tolower (env_text env)) (env_scheme env (gw_address g))) of
              None \<Rightarrow> connect_gateways n env d h e lb s1
            | Some c \<Rightarrow> if c = 0 then connect_gateways n env d h e lb s1
                        else if lb then connect_gateways n env d h e lb s1
                        else and_then (try_connect env c h e g s1) (\<lambda>(bound, s2).
                               if bound then Inr s2 else connect_gateways n env d h e lb s2))"
    by (simp only: connect_gateways.simps g prod.case Let_def s1_def [symmetric])
  have s1: "app_ok s1" "open_handle h s1" "e \<in> dom (emap s1)" "emap s1 = emap s"
    using Suc.prems by (simp_all add: s1_def app_ok_nodes)
  have skip: "\<exists>s'. connect_gateways n env d h e lb s2 = Inr s' \<and> app_ok s' \<and> dom (emap s') = dom (emap s) \<and> held_handle h s'"
    if "app_ok s2" "open_handle h s2" "dom (emap s2) = dom (emap s)" for s2
    using Suc.IH [OF that(1,2)] Suc.prems(3) that(3) by simp
  show ?case
  proof (cases "match_gateway env g")
    case False
    then show ?thesis using skip [OF s1(1,2)] s1(4) by (simp add: eq del: connect_gateways.simps)
  next
    case True
    show ?thesis
    proof (cases "map_of (connector_protocols s1) (map (ta_tolower (env_text env)) (env_scheme env (gw_address g)))")
      case None
      then show ?thesis using True skip [OF s1(1,2)] s1(4) by (simp add: eq del: connect_gateways.simps)
    next
      case (Some c)
      show ?thesis
      proof (cases "c = 0 \<or> lb")
        case skipped: True
        then show ?thesis unfolding eq using True Some skip [OF s1(1,2)] s1(4) by auto
      next
        case False
        then obtain b s2 where "try_connect env c h e g s1 = Inr (b, s2)" "app_ok s2" "dom (emap s2) = dom (emap s1)"
            "held_handle h s2" "\<not> b \<longrightarrow> open_handle h s2"
          using try_connect_ok [OF s1(1,2) _ s1(3), of c env g] by blast
        then show ?thesis
          unfolding eq using True Some False skip [of s2] s1(4) by (cases b) simp_all
      qed
    qed
  qed
qed

text \<open>Whatever calls the recursion makes, it leaves the registry and the endpoints' states alone.\<close>

fun response_of :: "event \<Rightarrow> (message \<times> err_code) list" where
  "response_of (ForwardResponse _ m r) = [(m, r)]"
| "response_of _ = []"

text \<open>The failures reported to the application so far, and the queues of the endpoints.\<close>

definition responses :: "app_state \<Rightarrow> (message \<times> err_code) list" where
  "responses s = concat (map response_of (a_events s))"

definition queues :: "app_state \<Rightarrow> addr \<Rightarrow> pending_message list option" where
  "queues s = (\<lambda>e. map_option ep_pending (emap s e))"

definition frame :: "app_state \<Rightarrow> app_state \<Rightarrow> bool" where
  "frame s s' \<longleftrightarrow> closing_view s' = closing_view s \<and> rest_view s' = rest_view s \<and> kind_view s' = kind_view s \<and>
     a_nodes s' = a_nodes s \<and> responses s' = responses s \<and> queues s' = queues s \<and> dom (hmap s') \<subseteq> dom (hmap s)"

lemma responses_simps [simp]:
  "responses (upd_handle h f s) = responses s" "responses (upd_endpoint e g s) = responses s"
  "responses (upd_connector c k s) = responses s" "responses (add_waker e t s) = responses s"
  "responses (emit ev s) = responses s @ response_of ev"
  by (simp_all add: responses_def)

lemma queues_simps [simp]:
  "queues (upd_handle h f s) = queues s" "queues (upd_connector c k s) = queues s" "queues (emit ev s) = queues s"
  by (simp_all add: queues_def)

lemma queues_add_waker [simp]: "queues (add_waker e t s) = queues s"
  by (rule ext) (simp add: queues_def emap_add_waker option.map_comp comp_def)

lemma queues_upd_endpoint: "(\<And>E. ep_pending (f E) = ep_pending E) \<Longrightarrow> queues (upd_endpoint e f s) = queues s"
  by (rule ext) (simp add: queues_def option.map_comp comp_def)

lemma frame_refl [simp]: "frame s s"
  by (simp add: frame_def)

lemma frame_trans [trans]: "frame s s1 \<Longrightarrow> frame s1 s2 \<Longrightarrow> frame s s2"
  unfolding frame_def by (metis subset_trans)

lemma frame_steps [simp]:
  "frame s (upd_handle h f s)" "response_of ev = [] \<Longrightarrow> frame s (emit ev s)" "frame s (s\<lparr>hmap := (hmap s)(h := None)\<rparr>)"
  "frame s (upd_connector c (\<lambda>C. C\<lparr>c_handles := removeAll h (c_handles C)\<rparr>) s)"
  "frame s (upd_connector c (\<lambda>C. C\<lparr>c_stored := removeAll h (c_stored C)\<rparr>) s)"
  by (auto simp: frame_def kind_view_def closing_view_def fun_eq_iff responses_def queues_def)

lemma frame_endpoint_erase [simp]: "frame s (endpoint_erase h e E s)"
  by (auto simp: frame_def endpoint_erase_def Let_def closing_view_upd_endpoint queues_upd_endpoint kind_view_def)

lemma run_call_frame: "run_call n cl s = Inr s' \<Longrightarrow> frame s s'"
proof (induction n arbitrary: cl s s')
  case 0
  then show ?case by (simp add: run_call.simps)
next
  case (Suc n)
  show ?case
  proof (cases cl)
    case (Close h)
    then show ?thesis
      using Suc.prems frame_trans [OF frame_steps(1)]
      by (auto simp: run_call_Suc handle_close_body_def and_then_Inr_iff split: if_splits dest!: Suc.IH)
        (meson frame_trans)+
  next
    case (EndpointUnbind h e)
    obtain E where E: "deref_endpoint e s = Inr E"
      using Suc.prems EndpointUnbind by (auto simp: run_call_Suc endpoint_unbind_body_def and_then_Inr_iff)
    define s1 where "s1 = endpoint_erase h e E s"
    have 1: "frame s s1" by (simp add: s1_def)
    have run: "and_then (deref_handle h s1) (\<lambda>H.
        if h_endpiont H = e then run_call n (Close h) (upd_handle h (\<lambda>H. H\<lparr>h_endpiont := 0\<rparr>) s1) else Inr s1) = Inr s'"
      using Suc.prems E by (simp only: EndpointUnbind run_call_Suc endpoint_unbind_body_def and_then_simps s1_def)
    have "frame s1 s'"
      using run frame_trans [OF frame_steps(1) Suc.IH]
      by (auto simp: and_then_Inr_iff split: if_splits)
    then show ?thesis using 1 frame_trans by blast
  next
    case (ConnectorUnbind h c)
    obtain H where H: "deref_handle h s = Inr H"
      using Suc.prems ConnectorUnbind by (auto simp: run_call_Suc connector_unbind_body_def and_then_Inr_iff)
    define s1 where "s1 = (if h_connector H = c then upd_handle h (\<lambda>H. H\<lparr>h_connector := 0\<rparr>) s else s)"
    define s2 where "s2 = upd_connector c (\<lambda>C. C\<lparr>c_handles := removeAll h (c_handles C)\<rparr>) s1"
    have 2: "frame s s2" unfolding s2_def by (rule frame_trans [OF _ frame_steps(4)]) (simp add: s1_def)
    have run: "(if h_connector H = c
        then and_then (run_call n (Close h) s2) (\<lambda>s3.
               if \<not> c_destroying (cmap s3 c) then run_call n (OnCloseConnection c h) s3 else Inr s3)
        else Inr s2) = Inr s'"
      using Suc.prems H
      by (simp only: ConnectorUnbind run_call_Suc connector_unbind_body_def and_then_simps Let_def s1_def [symmetric]
          s2_def [symmetric])
    show ?thesis
    proof (cases "h_connector H = c")
      case True
      then obtain s3 where s3: "run_call n (Close h) s2 = Inr s3"
        "(if \<not> c_destroying (cmap s3 c) then run_call n (OnCloseConnection c h) s3 else Inr s3) = Inr s'"
        using run by (auto simp: and_then_Inr_iff)
      have "frame s3 s'" using s3(2) Suc.IH by (cases "c_destroying (cmap s3 c)") auto
      then show ?thesis using 2 Suc.IH [OF s3(1)] frame_trans by blast
    next
      case False
      then show ?thesis using run 2 by simp
    qed
  next
    case (OnCloseConnection c h)
    define s1 where "s1 = emit (OnClose c h) s"
    have 1: "frame s s1" by (simp add: s1_def)
    have run: "(if c_class (cmap s1 c) \<in> {Loopback, External True} \<and> h \<in> set (c_stored (cmap s1 c))
        then run_call n (Release (ConnectorRef c) h)
               (upd_connector c (\<lambda>C. C\<lparr>c_stored := removeAll h (c_stored C)\<rparr>) s1) else Inr s1) = Inr s'"
      using Suc.prems by (simp only: OnCloseConnection run_call_Suc on_close_connection_body_def Let_def s1_def)
    have "frame s1 s'"
      using run frame_trans [OF frame_steps(5) Suc.IH] by (auto split: if_splits)
    then show ?thesis using 1 frame_trans by blast
  next
    case (Release r h)
    obtain H where H: "deref_handle h s = Inr H"
      using Suc.prems Release by (auto simp: run_call_Suc handle_release_body_def and_then_Inr_iff)
    define s1 where "s1 = upd_handle h (\<lambda>H. H\<lparr>h_refs := remove1 r (h_refs H)\<rparr>) s"
    have 1: "frame s s1" by (simp add: s1_def)
    have "(if remove1 r (h_refs H) = [] then run_call n (Destroy h) s1 else Inr s1) = Inr s'"
      using Suc.prems H by (simp only: Release run_call_Suc handle_release_body_def and_then_simps s1_def)
    then have "frame s1 s'" using Suc.IH by (auto split: if_splits)
    then show ?thesis using 1 frame_trans by blast
  next
    case (Destroy h)
    obtain H where H: "deref_handle h s = Inr H"
      using Suc.prems Destroy by (auto simp: run_call_Suc handle_destroy_body_def and_then_Inr_iff)
    define s1 where "s1 = (case h_on_destroy_fn H of None \<Rightarrow> s | Some fn \<Rightarrow> emit (OnDestroy fn h) s)"
    have 1: "frame s s1" by (simp add: s1_def split: option.splits)
    have "and_then (run_call n (Close h) s1) (\<lambda>s1. Inr (s1\<lparr>hmap := (hmap s1)(h := None)\<rparr>)) = Inr s'"
      using Suc.prems H by (simp only: Destroy run_call_Suc handle_destroy_body_def and_then_simps s1_def)
    then obtain s2 where s2: "run_call n (Close h) s1 = Inr s2" "s' = s2\<lparr>hmap := (hmap s2)(h := None)\<rparr>"
      by (auto simp: and_then_Inr_iff)
    have "frame s2 s'" unfolding s2(2) by simp
    then show ?thesis using 1 Suc.IH [OF s2(1)] frame_trans by blast
  qed
qed

lemma app_ok_frame: "app_ok s \<Longrightarrow> conn_ok s' \<Longrightarrow> frame s s' \<Longrightarrow> app_ok s' \<and> dom (emap s') = dom (emap s)"
  using app_ok_step [of s s'] by (simp add: frame_def)

lemma release_local_ok:
  assumes ok: "app_ok s" and h: "held_handle h s"
  shows "\<exists>s'. handle_release LocalRef h s = Inr s' \<and> app_ok s' \<and> dom (emap s') = dom (emap s)"
proof -
  obtain H where "hmap s h = Some H" "LocalRef \<in> set (h_refs H)" using h by (auto simp: held_handle_def)
  then obtain s' where s': "handle_release LocalRef h s = Inr s'" "conn_ok s'"
    using conn_ok_handle_release [of s h H] ok by (auto simp: app_ok_def)
  then have "frame s s'" by (simp add: handle_release_def run_call_frame)
  then show ?thesis using s' app_ok_frame [OF ok s'(2)] by blast
qed

section \<open>Finding or creating an endpoint\<close>

lemma connect_endpoint_ok:
  assumes ok: "app_ok s" and e: "e \<in> dom (emap s)"
  shows "\<exists>s'. connect_endpoint env d e s = Inr s' \<and> app_ok s' \<and> dom (emap s') = dom (emap s)"
proof -
  obtain h s1 where new: "new_handle s = (h, s1)" by (cases "new_handle s") auto
  note n = new_handle_ok [OF ok new]
  define i where "i = di_id (node_info (a_nodes s d))"
  define nm where "nm = di_name (node_info (a_nodes s d))"
  define lb where "lb \<longleftrightarrow> (i = 0 \<or> i = app_id (a_conf s)) \<and> (nm = [] \<or> nm = app_name (a_conf s))"
  define s2 where "s2 = s1\<lparr>a_nodes := (a_nodes s1)(d := reset_ingress_index (a_nodes s1 d))\<rparr>"
  have s2: "app_ok s2" "open_handle h s2" "dom (emap s2) = dom (emap s)"
    using n by (simp_all add: s2_def app_ok_nodes)
  have "\<exists>s3. (if loopback_connector s1 \<noteq> 0 \<and> lb
          then and_then (try_connect env (loopback_connector s1) h e empty_gateway s1) (\<lambda>(_, s2). Inr s2)
          else connect_gateways (nat (get_ingress_size (a_nodes s1 d))) env d h e lb s2) = Inr s3 \<and>
        app_ok s3 \<and> dom (emap s3) = dom (emap s) \<and> held_handle h s3"
  proof (cases "loopback_connector s1 \<noteq> 0 \<and> lb")
    case True
    then obtain b s3 where "try_connect env (loopback_connector s1) h e empty_gateway s1 = Inr (b, s3)"
        "app_ok s3" "dom (emap s3) = dom (emap s1)" "held_handle h s3"
      using try_connect_ok [OF n(1,2), of "loopback_connector s1" e env empty_gateway] e n(3) by auto
    then show ?thesis using True n(3) by simp
  next
    case False
    then show ?thesis unfolding if_not_P [OF False] using connect_gateways_ok [OF s2(1,2), of e] e s2(3) by simp
  qed
  then obtain s3 where "(if loopback_connector s1 \<noteq> 0 \<and> lb
          then and_then (try_connect env (loopback_connector s1) h e empty_gateway s1) (\<lambda>(_, s2). Inr s2)
          else connect_gateways (nat (get_ingress_size (a_nodes s1 d))) env d h e lb s2) = Inr s3"
    and s3: "app_ok s3" "dom (emap s3) = dom (emap s)" "held_handle h s3" by blast
  moreover obtain s4 where "handle_release LocalRef h s3 = Inr s4" "app_ok s4" "dom (emap s4) = dom (emap s)"
    using release_local_ok [OF s3(1,3)] s3(2) by auto
  ultimately show ?thesis
    unfolding connect_endpoint_def Let_def new prod.case i_def [symmetric] nm_def [symmetric] lb_def [symmetric]
      s2_def [symmetric] by simp
qed

lemma lookup_endpoint_ok:
  assumes ok: "app_ok s"
  shows "\<exists>ret a b s'. lookup_endpoint i nm s = Inr ((ret, a, b), s') \<and> app_ok s' \<and> core_view s' = core_view s \<and>
           (ret \<noteq> 0 \<longrightarrow> ret \<in> dom (emap s'))"
proof -
  have idx: "e \<in> dom (emap s)" if "map_of (endpoint_index_by_id s) i = Some e" for e
    using app_ok_values(1) [OF ok] map_of_SomeD [OF that] by (force simp: image_iff)
  have byname: "e \<in> dom (emap t)" if "app_ok t" "map_of (endpoint_index_by_name t) nm = Some e" for e t
    using app_ok_values(2) [OF that(1)] map_of_SomeD [OF that(2)] by (force simp: image_iff)
  define ret where "ret = (if i = 0 then 0 else get_endpoint_by_id i s)"
  have ret: "ret \<noteq> 0 \<Longrightarrow> ret \<in> dom (emap s)" "ret \<noteq> 0 \<Longrightarrow> map_of (endpoint_index_by_id s) i = Some ret"
    using idx by (auto simp: ret_def get_endpoint_by_id_def split: if_splits option.splits)
  note def = lookup_endpoint_def [of i nm s, folded ret_def, unfolded Let_def, folded ret_def]
  show ?thesis
  proof (cases "nm = []")
    case True
    then show ?thesis unfolding def using ret ok by (simp, blast)
  next
    case False
    show ?thesis
    proof (cases "map_of (endpoint_index_by_name s) nm")
      case None
      then show ?thesis unfolding def using False None ret ok by (simp, blast)
    next
      case (Some e)
      show ?thesis
      proof (cases "ret \<noteq> 0 \<and> e \<noteq> ret")
        case True
        obtain s1 where s1: "remove_endpoint_by_id i s = Inr s1" "app_ok s1" "core_view s1 = core_view s"
          "map_of (endpoint_index_by_name s1) nm = Some e"
          using remove_endpoint_by_id_ok [OF ok, of i] Some True ret(2) by fastforce
        then show ?thesis unfolding def using False Some True byname [OF s1(2,4)] s1 by (simp, blast)
      next
        case other: False
        then show ?thesis unfolding def using False Some ret ok byname [OF ok Some] by auto
      qed
    qed
  qed
qed

lemma index_endpoint_ok:
  assumes ok: "app_ok s" and e: "e \<in> dom (emap s)"
  shows "app_ok (index_endpoint a b i nm e d s)" "dom (emap (index_endpoint a b i nm e d s)) = dom (emap s)"
proof -
  let ?ids = "if a then AList.update i e (endpoint_index_by_id s) else endpoint_index_by_id s"
  let ?names = "if b then AList.update nm e (endpoint_index_by_name s) else endpoint_index_by_name s"
  have v: "snd ` set (AList.update k e al) \<subseteq> insert e (snd ` set al)" for k and al :: "('b \<times> addr) list"
    by (induction al) auto
  have "app_ok (s\<lparr>endpoint_index_by_id := ?ids, endpoint_index_by_name := ?names\<rparr>)"
  proof (rule app_ok_reindex [OF ok])
    show "distinct (map fst ?ids)" "distinct (map fst ?names)"
      using app_ok_values [OF ok] by (simp_all add: distinct_keys_update)
    have "snd ` set ?ids \<subseteq> insert e (dom (emap s))"
      using app_ok_values(1) [OF ok] v [of i "endpoint_index_by_id s"] by (cases a) (simp_all, blast+)
    moreover have "snd ` set ?names \<subseteq> insert e (dom (emap s))"
      using app_ok_values(2) [OF ok] v [of nm "endpoint_index_by_name s"] by (cases b) (simp_all, blast+)
    ultimately show "snd ` set ?ids \<union> snd ` set ?names \<subseteq> dom (emap s)"
      using e by (simp add: insert_absorb)
  qed
  then show "app_ok (index_endpoint a b i nm e d s)"
    unfolding index_endpoint_def update_discovery_def
    by (rule app_ok_quiet) (rule quiet_upd_endpoint, simp_all)
  show "dom (emap (index_endpoint a b i nm e d s)) = dom (emap s)"
    using e by (auto simp: index_endpoint_def update_discovery_def)
qed

lemma mutable_endpoint_ok:
  assumes ok: "app_ok s"
  shows "\<exists>e s'. mutable_endpoint env d s = Inr (e, s') \<and> app_ok s' \<and> (e \<noteq> 0 \<longrightarrow> e \<in> dom (emap s')) \<and>
           (e = 0 \<longleftrightarrow> a_closing s \<or> d = 0)"
proof (cases "a_closing s \<or> d = 0")
  case True
  then show ?thesis using ok by (auto simp: mutable_endpoint_def)
next
  case False
  let ?i = "di_id (node_info (a_nodes s d))" and ?nm = "di_name (node_info (a_nodes s d))"
  obtain ret a b s1 where l: "lookup_endpoint ?i ?nm s = Inr ((ret, a, b), s1)" "app_ok s1" "ret \<noteq> 0 \<longrightarrow> ret \<in> dom (emap s1)"
    using lookup_endpoint_ok [OF ok] by metis
  show ?thesis
  proof (cases "ret = 0")
    case nz: False
    then show ?thesis
      using False l index_endpoint_ok [OF l(2), of ret a b ?i ?nm d] by (simp add: mutable_endpoint_def Let_def)
  next
    case True
    obtain e s2 where new: "new_endpoint s1 = (e, s2)" by (cases "new_endpoint s1") auto
    note n = new_endpoint_ok [OF l(2) new]
    define s3 where "s3 = index_endpoint a b ?i ?nm e d s2"
    have s3: "app_ok s3" "e \<in> dom (emap s3)"
      using index_endpoint_ok [OF n(1,2)] n(2) by (simp_all add: s3_def)
    have s4: "app_ok (add_waker e (get_next_tick_time s3) s3)" "e \<in> dom (emap (add_waker e (get_next_tick_time s3) s3))"
      using app_ok_quiet [OF s3(1) quiet_add_waker] s3(2) by (auto simp: emap_add_waker)
    obtain s5 where s5: "connect_endpoint env d e (add_waker e (get_next_tick_time s3) s3) = Inr s5" "app_ok s5"
      "e \<in> dom (emap s5)"
      using connect_endpoint_ok [OF s4] s4(2) by metis
    have "e \<noteq> 0" using app_ok_null [OF s5(2)] s5(3) by (cases "e = 0") auto
    then show ?thesis
      using False True l(1) new s5 by (simp add: mutable_endpoint_def Let_def s3_def)
  qed
qed

section \<open>Waking endpoints\<close>

lemma waker_app_ok: "app_ok (s\<lparr>endpoint_waker := x\<rparr>) = app_ok s"
proof -
  have "link_view (s\<lparr>endpoint_waker := x\<rparr>) = link_view s" by (simp add: link_view_def conns_def fun_eq_iff)
  from conn_ok_cong [OF this] show ?thesis
    by (simp add: app_ok_def idle_def fresh_ok_def index_ok_def endpoint_indexed_def)
qed

lemma wake_endpoint_ok:
  assumes ok: "app_ok s"
  shows "\<exists>n s'. wake_endpoint env s = Inr (n, s') \<and> app_ok s'"
proof (cases "endpoint_waker s")
  case Nil
  then show ?thesis using ok by (simp add: wake_endpoint_def)
next
  case (Cons w ws)
  obtain t p where w: "w = (t, p)" by (cases w)
  define s1 where "s1 = s\<lparr>endpoint_waker := ws\<rparr>"
  have ok1: "app_ok s1" using ok by (simp add: s1_def waker_app_ok)
  show ?thesis
  proof (cases "t > last_tick_timepoint s \<or> emap s1 p = None")
    case True
    then show ?thesis using Cons w ok ok1 by (auto simp: wake_endpoint_def s1_def Let_def)
  next
    case False
    then obtain E where E: "emap s1 p = Some E" by auto
    then have Es: "emap s p = Some E" by (simp add: s1_def)
    obtain n s2 where s2: "retry_pending_messages (env_send env) p (last_tick_timepoint s) (loop_times (a_conf s)) s1 = Inr (n, s2)"
      "quiet s1 s2"
      using retry_pending_messages_ok [OF app_ok_linked [OF ok1] E] by blast
    have ok2: "app_ok s2" by (rule app_ok_quiet [OF ok1 s2(2)])
    obtain E2 where E2: "emap s2 p = Some E2" using quiet_alive [OF s2(2) E] .
    obtain s3 where s3: "(if has_connection_handle E2 then Inr s2
        else if last_tick_timepoint s2 \<ge> ep_gc_timepoint E2 then remove_endpoint p s2
        else Inr (add_waker p (ep_gc_timepoint E2) s2)) = Inr s3" "app_ok s3"
      using remove_endpoint_ok [OF ok2 E2] ok2 app_ok_quiet [OF ok2 quiet_add_waker]
      by (cases "has_connection_handle E2"; cases "last_tick_timepoint s2 \<ge> ep_gc_timepoint E2") auto
    obtain s4 where s4: "endpoint_drop p s3 = Inr s4" "app_ok s4"
      using endpoint_drop_ok [OF s3(2), of p] unfolding registry_step_def by metis
    have "wake_endpoint env s = Inr (n, s4)"
      unfolding wake_endpoint_def using Cons w False E Es s2(1) E2 s3(1) s4(1)
      by (simp add: s1_def [symmetric] Let_def)
    then show ?thesis using s4(2) by blast
  qed
qed

lemma send_all_quiet: "quiet s (send_all c h ms s)"
  by (induction ms arbitrary: s) (auto intro: quiet_trans [OF loopback_send_quiet])

lemma loopback_deliver_quiet: "quiet s (loopback_deliver cb c h m s)"
proof -
  have "quiet (emit (ForwardRequest (self_sender s) m) s)
      (send_all c h (cb (self_sender s) m) (emit (ForwardRequest (self_sender s) m) s))"
    by (rule send_all_quiet)
  from quiet_trans [OF quiet_emit this] show ?thesis
    unfolding loopback_deliver_def Let_def by (rule quiet_trans) (rule quiet_upd_connector, simp)
qed

lemma loopback_batch_quiet: "loopback_batch cb c h k s = (n, s') \<Longrightarrow> quiet s s'"
  by (induction k arbitrary: s n s')
    (auto split: list.splits prod.splits intro: quiet_trans [OF loopback_deliver_quiet])

lemma loopback_loop_quiet:
  "loopback_loop fuel cb c h clock mx limit i s = Some (n, s') \<Longrightarrow> quiet s s'"
proof (induction fuel arbitrary: s i n s')
  case 0
  then show ?case by (simp add: loopback_loop.simps split: if_splits)
next
  case (Suc fuel)
  show ?case
  proof (cases "lb_pending (cmap s c) = []")
    case True
    then show ?thesis using Suc.prems by (simp add: loopback_loop.simps)
  next
    case False
    obtain k s1 where b: "loopback_batch cb c h limit s = (k, s1)" by (cases "loopback_batch cb c h limit s")
    then show ?thesis
      using Suc.prems False loopback_batch_quiet [OF b] Suc.IH
      by (subst (asm) loopback_loop.simps) (auto split: if_splits intro: quiet_trans)
  qed
qed

lemma process_internal_events_ok:
  assumes "app_ok s"
  shows "process_internal_events fuel env clock t i s = Inl OutOfFuel \<or>
    (\<exists>n s'. process_internal_events fuel env clock t i s = Inr (n, s') \<and> app_ok s')"
  using assms
proof (induction fuel arbitrary: i s)
  case (Suc fuel)
  obtain n1 s1 where s1: "wake_endpoint env s = Inr (n1, s1)" "app_ok s1" using wake_endpoint_ok [OF Suc.prems] by blast
  define r where "r = (if loopback_connector s1 = 0 then Inr (0, s1)
      else case loopback_process fuel (env_callback env) (loopback_connector s1) (env_reply_handle env)
             (\<lambda>j. clock i (Suc j)) t (loop_times (a_conf s1)) s1 of None \<Rightarrow> Inl OutOfFuel | Some r \<Rightarrow> Inr r)"
  have r: "r = Inl OutOfFuel \<or> (\<exists>n2 s2. r = Inr (n2, s2) \<and> app_ok s2)"
    using s1(2) app_ok_quiet [OF s1(2) loopback_loop_quiet]
    by (auto simp: r_def loopback_process_def split: option.splits)
  have step: "process_internal_events (Suc fuel) env clock t i s =
      (if i \<noteq> 0 \<and> \<not> clock i 0 < t then Inr (0, s)
       else and_then r (\<lambda>(n2, s2). if n1 + n2 > 0
              then and_then (process_internal_events fuel env clock t (Suc i) s2) (\<lambda>(k, s3). Inr (n1 + n2 + k, s3))
              else Inr (0, s2)))"
    unfolding process_internal_events.simps s1(1) and_then_simps prod.case r_def ..
  show ?case
  proof (cases "r = Inl OutOfFuel \<or> i \<noteq> 0 \<and> \<not> clock i 0 < t")
    case True
    then show ?thesis unfolding step using Suc.prems by auto
  next
    case False
    then obtain n2 s2 where "r = Inr (n2, s2)" "app_ok s2" using r by auto
    then show ?thesis
      unfolding step using False Suc.IH [of s2 "Suc i"] by auto
  qed
qed simp

section \<open>Shutdown\<close>

lemma reset_each_ok:
  assumes "app_ok s" "set es \<subseteq> dom (emap s)"
  shows "\<exists>s'. reset_each es s = Inr s' \<and> app_ok s' \<and> shrinks s s'"
  using assms
proof (induction es arbitrary: s)
  case (Cons e es)
  then obtain E where E: "emap s e = Some E" by auto
  obtain s1 where s1: "endpoint_reset e s = Inr s1" "app_ok s1" "shrinks s s1" using reset_app_ok [OF Cons.prems(1) E] by metis
  then obtain s2 where "reset_each es s1 = Inr s2" "app_ok s2" "shrinks s1 s2"
    using Cons.IH [OF s1(2)] Cons.prems(2) by (auto simp: shrinks_def)
  moreover have "e \<noteq> 0" using app_ok_null [OF Cons.prems(1)] E by (cases "e = 0") auto
  ultimately show ?case using s1 shrinks_trans by auto
qed auto

lemma drop_each_ok:
  assumes "app_ok s" "endpoint_index_by_id s = []" "endpoint_index_by_name s = []"
  shows "\<exists>s'. drop_each es s = Inr s' \<and> app_ok s' \<and> endpoint_index_by_id s' = [] \<and> endpoint_index_by_name s' = [] \<and>
           dom (emap s') \<subseteq> dom (emap s) - set es"
  using assms
proof (induction es arbitrary: s)
  case (Cons e es)
  obtain s1 where s1: "endpoint_drop e s = Inr s1" "registry_step s s1" "dom (emap s1) \<subseteq> dom (emap s)"
    "emap s1 e \<noteq> None \<longrightarrow> endpoint_indexed e s"
    using endpoint_drop_ok [OF Cons.prems(1)] by blast
  have "\<not> endpoint_indexed e s" using Cons.prems by (simp add: endpoint_indexed_def)
  then have "e \<notin> dom (emap s1)" using s1(4) by auto
  moreover have "rest_view s1 = rest_view s" "app_ok s1" using s1(2) by (simp_all add: registry_step_def)
  moreover note rest_view_fields [OF this(1)]
  ultimately obtain s2 where "drop_each es s1 = Inr s2" "app_ok s2" "endpoint_index_by_id s2 = []"
      "endpoint_index_by_name s2 = []" "dom (emap s2) \<subseteq> dom (emap s1) - set es"
    using Cons.IH [of s1] Cons.prems by auto
  then show ?case using s1(1,3) \<open>e \<notin> dom (emap s1)\<close> by auto
qed simp

lemma close_endpoints_ok:
  assumes ok: "app_ok s"
  shows "\<exists>s'. close_endpoints (Suc n) s = Inr s' \<and> app_ok s' \<and> endpoint_index_by_id s' = [] \<and>
           endpoint_index_by_name s' = [] \<and> endpoint_waker s' = [] \<and>
           dom (emap s') \<subseteq> dom (emap s) - {e. endpoint_indexed e s}"
proof (cases "endpoint_index_by_id s = [] \<and> endpoint_index_by_name s = []")
  case True
  then show ?thesis using ok by (auto simp: close_endpoints.simps waker_app_ok endpoint_indexed_def)
next
  case False
  define es where "es = map snd (endpoint_index_by_id s) @ map snd (endpoint_index_by_name s)"
  define s0 where "s0 = s\<lparr>endpoint_index_by_id := [], endpoint_index_by_name := []\<rparr>"
  have s0: "app_ok s0" unfolding s0_def by (rule app_ok_reindex [OF ok]) auto
  have "set es \<subseteq> dom (emap s0)" using app_ok_values [OF ok] by (auto simp: es_def s0_def)
  then obtain s1 where s1: "reset_each es s0 = Inr s1" "app_ok s1" "shrinks s0 s1" using reset_each_ok [OF s0] by blast
  have v: "rest_view s1 = rest_view s0" "dom (emap s1) = dom (emap s)" using s1(3) by (simp_all add: shrinks_def s0_def)
  have i1: "endpoint_index_by_id s1 = []" "endpoint_index_by_name s1 = []"
    using rest_view_fields [OF v(1)] by (simp_all add: s0_def)
  obtain s2 where s2: "drop_each es s1 = Inr s2" "app_ok s2" "endpoint_index_by_id s2 = []"
      "endpoint_index_by_name s2 = []" "dom (emap s2) \<subseteq> dom (emap s1) - set es"
    using drop_each_ok [OF s1(2) i1] by blast
  have "close_endpoints (Suc n) s = Inr (s2\<lparr>endpoint_waker := []\<rparr>)"
    using False s1(1) s2(1,3,4)
    by (auto simp: close_endpoints.simps [of "Suc n" s] close_endpoints.simps [of n s2] es_def [symmetric] s0_def [symmetric])
  moreover have "dom (emap s2) \<subseteq> dom (emap s) - {e. endpoint_indexed e s}"
    using s2(5) v(2) by (auto simp: es_def endpoint_indexed_def)
  ultimately show ?thesis using s2 by (simp add: waker_app_ok)
qed

section \<open>Running the application\<close>

text \<open>An application that has started: no endpoint or handle yet, \<open>k\<close> the class of each connector.\<close>

definition app_start ::
  "app_conf \<Rightarrow> (addr \<Rightarrow> connector_class) \<Rightarrow> addr \<Rightarrow> (string \<times> addr) list \<Rightarrow> node_heap \<Rightarrow> timepoint \<Rightarrow> app_state" where
  "app_start cf k lb protocols heap now =
     \<lparr>hmap = Map.empty, emap = Map.empty, cmap = (\<lambda>c. connector_create (k c)), a_nodes = heap, a_closing = False,
      last_tick_timepoint = now, a_conf = cf, endpoint_index_by_id = [], endpoint_index_by_name = [],
      endpoint_waker = [], loopback_connector = lb, connector_protocols = protocols, next_addr = 1, a_events = []\<rparr>"

lemma app_ok_start: "app_ok (app_start cf k lb protocols heap now)"
  by (simp add: app_ok_def conn_ok_def linked_def links_ok_def idle_def fresh_ok_def index_ok_def endpoint_indexed_def
      app_start_def connector_create_def conns_def)

text \<open>
  What the application, its timers and its callbacks do to the registry. The operations that take
  a pointer are only called with a living object (\<open>op_valid\<close>), and a handle is only bound to
  an endpoint while it is open and unbound.
\<close>

datatype app_op =
    OpMutable node_ptr
  | OpRemoveId u64
  | OpRemoveName string
  | OpRemove addr
  | OpPush addr message
  | OpClose addr
  | OpReady addr
  | OpUnready addr
  | OpRemoveHandle addr addr
  | OpWake
  | OpCleanup addr
  | OpTick timepoint
  | OpClosing

definition app_exec :: "app_env \<Rightarrow> app_op \<Rightarrow> app_state \<Rightarrow> app_state res" where
  "app_exec env op s = (case op of
       OpMutable d \<Rightarrow> and_then (mutable_endpoint env d s) (\<lambda>(_, s'). Inr s')
     | OpRemoveId i \<Rightarrow> remove_endpoint_by_id i s
     | OpRemoveName nm \<Rightarrow> remove_endpoint_by_name nm s
     | OpRemove e \<Rightarrow> and_then (remove_endpoint e s) (endpoint_drop e)
     | OpPush e m \<Rightarrow> and_then (push_forward_message (env_send env) e m s) (\<lambda>(_, s'). Inr s')
     | OpClose h \<Rightarrow> handle_close h s
     | OpReady h \<Rightarrow> handle_set_ready h s
     | OpUnready h \<Rightarrow> handle_set_unready h s
     | OpRemoveHandle e h \<Rightarrow> remove_connection_handle e h s
     | OpWake \<Rightarrow> and_then (wake_endpoint env s) (\<lambda>(_, s'). Inr s')
     | OpCleanup c \<Rightarrow> connector_cleanup 1 c s
     | OpTick now \<Rightarrow> Inr (s\<lparr>last_tick_timepoint := now\<rparr>)
     | OpClosing \<Rightarrow> Inr (s\<lparr>a_closing := True\<rparr>))"

definition op_valid :: "app_op \<Rightarrow> app_state \<Rightarrow> bool" where
  "op_valid op s = (case op of
       OpRemove e \<Rightarrow> emap s e \<noteq> None
     | OpPush e _ \<Rightarrow> emap s e \<noteq> None
     | OpClose h \<Rightarrow> hmap s h \<noteq> None
     | OpReady h \<Rightarrow> hmap s h \<noteq> None
     | OpUnready h \<Rightarrow> hmap s h \<noteq> None
     | OpRemoveHandle e h \<Rightarrow> emap s e \<noteq> None \<and> hmap s h \<noteq> None
     | OpCleanup c \<Rightarrow> c \<noteq> 0
     | _ \<Rightarrow> True)"

inductive app_run :: "app_env \<Rightarrow> app_state \<Rightarrow> app_state \<Rightarrow> bool" for env where
  run_start: "app_run env s s"
| run_step: "app_run env s s1 \<Longrightarrow> op_valid op s1 \<Longrightarrow> app_exec env op s1 = Inr s2 \<Longrightarrow> app_run env s s2"

lemma handle_op_app_ok:
  assumes "app_ok s" "\<exists>s'. f s = Inr s' \<and> conn_ok s'" "\<And>s'. f s = Inr s' \<Longrightarrow> frame s s'"
  shows "\<exists>s'. f s = Inr s' \<and> app_ok s'"
  using assms app_ok_frame by blast

lemma connector_unbind_each_frame: "connector_unbind_each hs c s = Inr s' \<Longrightarrow> frame s s'"
proof (induction hs arbitrary: s)
  case (Cons h hs)
  obtain s1 where s1: "(if h \<noteq> 0 then connector_unbind h c s else Inr s) = Inr s1" "connector_unbind_each hs c s1 = Inr s'"
    using Cons.prems by (auto simp: and_then_Inr_iff)
  have "frame s s1" using s1(1) run_call_frame [of close_depth "ConnectorUnbind h c" s s1]
    by (auto simp: connector_unbind_def split: if_splits)
  then show ?case using Cons.IH [OF s1(2)] frame_trans by blast
qed simp

lemma connector_cleanup_frame: "connector_cleanup n c s = Inr s' \<Longrightarrow> frame s s'"
proof (induction n arbitrary: s)
  case 0
  then show ?case by (simp add: connector_cleanup.simps split: if_splits)
next
  case (Suc n)
  let ?s = "upd_connector c (\<lambda>C. C\<lparr>c_handles := []\<rparr>) s"
  have 0: "frame s ?s" by (auto simp: frame_def kind_view_def fun_eq_iff)
  show ?case
  proof (cases "c_handles (cmap s c) = []")
    case True
    then show ?thesis using Suc.prems by (simp add: connector_cleanup.simps)
  next
    case False
    then obtain s1 where s1: "connector_unbind_each (c_handles (cmap s c)) c ?s = Inr s1" "connector_cleanup n c s1 = Inr s'"
      using Suc.prems by (subst (asm) connector_cleanup.simps) (auto simp: and_then_Inr_iff)
    show ?thesis using 0 connector_unbind_each_frame [OF s1(1)] Suc.IH [OF s1(2)] frame_trans by metis
  qed
qed

lemma frame_add_waker: "frame s (add_waker e t s)"
  by (simp add: frame_def)

lemma set_ready_frame: "handle_set_ready h s = Inr s' \<Longrightarrow> frame s s'"
  by (auto simp: handle_set_ready_def and_then_Inr_iff Let_def split: if_splits
      intro: frame_trans [OF frame_steps(1) frame_add_waker])

lemma set_unready_frame: "handle_set_unready h s = Inr s' \<Longrightarrow> frame s s'"
  by (auto simp: handle_set_unready_def and_then_Inr_iff Let_def split: if_splits
      intro: frame_trans [OF frame_steps(1) frame_add_waker])

lemma app_exec_ok:
  assumes ok: "app_ok s" and v: "op_valid op s"
  shows "\<exists>s'. app_exec env op s = Inr s' \<and> app_ok s'"
proof -
  have cok: "conn_ok s" and lk: "linked s" using ok by (simp_all add: app_ok_def conn_ok_def)
  note frames = handle_op_app_ok [OF ok]
  show ?thesis
  proof (cases op)
    case (OpMutable d)
    then show ?thesis using mutable_endpoint_ok [OF ok, of env d] by (auto simp: app_exec_def)
  next
    case (OpRemoveId i)
    then show ?thesis using remove_endpoint_by_id_ok [OF ok, of i] by (auto simp: app_exec_def)
  next
    case (OpRemoveName nm)
    then show ?thesis using remove_endpoint_by_name_ok [OF ok, of nm] by (auto simp: app_exec_def)
  next
    case (OpRemove e)
    then obtain E where "emap s e = Some E" using v by (auto simp: op_valid_def)
    then obtain s1 where s1: "remove_endpoint e s = Inr s1" "app_ok s1" using remove_endpoint_ok [OF ok] by blast
    then show ?thesis using OpRemove endpoint_drop_ok [OF s1(2), of e] by (auto simp: app_exec_def registry_step_def)
  next
    case (OpPush e m)
    then obtain E where "emap s e = Some E" using v by (auto simp: op_valid_def)
    then show ?thesis
      using OpPush push_forward_message_ok [OF lk, of e E "env_send env" m] app_ok_quiet [OF ok] by (auto simp: app_exec_def)
  next
    case (OpClose h)
    then obtain H where "hmap s h = Some H" using v by (auto simp: op_valid_def)
    then show ?thesis
      using OpClose frames [of "handle_close h"] conn_ok_handle_close [OF cok] run_call_frame
      by (auto simp: app_exec_def handle_close_def)
  next
    case (OpReady h)
    then obtain H where "hmap s h = Some H" using v by (auto simp: op_valid_def)
    then show ?thesis
      using OpReady frames [of "handle_set_ready h"] conn_ok_set_ready [OF cok] set_ready_frame
      by (fastforce simp: app_exec_def)
  next
    case (OpUnready h)
    then obtain H where "hmap s h = Some H" using v by (auto simp: op_valid_def)
    then show ?thesis
      using OpUnready frames [of "handle_set_unready h"] conn_ok_set_unready [OF cok] set_unready_frame
      by (fastforce simp: app_exec_def)
  next
    case (OpRemoveHandle e h)
    then obtain E H where E: "emap s e = Some E" "hmap s h = Some H" using v by (auto simp: op_valid_def)
    have "\<not> ep_closing E" using ok E by (auto simp: app_ok_def idle_def)
    then show ?thesis
      using OpRemoveHandle E frames [of "endpoint_unbind h e"] conn_ok_endpoint_unbind [OF cok E(2,1)] run_call_frame
      by (auto simp: app_exec_def remove_connection_handle_def endpoint_unbind_def)
  next
    case OpWake
    then show ?thesis using wake_endpoint_ok [OF ok, of env] by (auto simp: app_exec_def)
  next
    case (OpCleanup c)
    then have "c \<noteq> 0" using v by (simp add: op_valid_def)
    then show ?thesis
      using OpCleanup frames [of "connector_cleanup 1 c"] connector_cleanup_ok [OF cok, of c 0] connector_cleanup_frame
      by (fastforce simp: app_exec_def)
  next
    case (OpTick now)
    have "link_view (s\<lparr>last_tick_timepoint := now\<rparr>) = link_view s" by (simp add: link_view_def conns_def fun_eq_iff)
    from conn_ok_cong [OF this] show ?thesis
      using ok OpTick by (simp add: app_exec_def app_ok_def idle_def fresh_ok_def index_ok_def endpoint_indexed_def)
  next
    case OpClosing
    have "link_view (s\<lparr>a_closing := True\<rparr>) = link_view s" by (simp add: link_view_def conns_def fun_eq_iff)
    from conn_ok_cong [OF this] show ?thesis
      using ok OpClosing by (simp add: app_exec_def app_ok_def idle_def fresh_ok_def index_ok_def endpoint_indexed_def)
  qed
qed

lemma app_run_ok: "app_run env s s' \<Longrightarrow> app_ok s \<Longrightarrow> app_ok s'"
proof (induction rule: app_run.induct)
  case (run_step s s1 op s2)
  then show ?case using app_exec_ok [of s1 op env] by auto
qed

end
