(* ===== verification/Forward_Queue.thy ===== *)
theory Forward_Queue
  imports Endpoint
begin

text \<open>
  The queue of forwarded messages, as a contract: endpoints and the loopback connector both keep a
  list of messages beside a byte count in \<^verbatim>\<open>size_t\<close>, push at the back under the same two
  limits and pop at the front. The contract gives the accuracy of the count and the limits; the
  interpretations are on the code's models of the two queues.
\<close>

section \<open>Accounts\<close>

definition total_bytes :: "message list \<Rightarrow> nat" where
  "total_bytes ms = sum_list (map (\<lambda>m. length (msg_data m)) ms)"

text \<open>The byte count is the size of the queue, below the range of \<^verbatim>\<open>size_t\<close>.\<close>

definition queue_account :: "message list \<Rightarrow> u64 \<Rightarrow> bool" where
  "queue_account ms bytes \<longleftrightarrow> length ms < 2 ^ 64 \<and> total_bytes ms < 2 ^ 64 \<and> bytes = of_nat (total_bytes ms)"

definition within_limits :: "app_conf \<Rightarrow> message list \<Rightarrow> bool" where
  "within_limits cf ms \<longleftrightarrow>
     (send_buffer_number cf > 0 \<longrightarrow> length ms \<le> unat (send_buffer_number cf)) \<and>
     (send_buffer_size cf > 0 \<longrightarrow> total_bytes ms \<le> unat (send_buffer_size cf))"

text \<open>The queue and one more message are within the memory of the process.\<close>

definition has_room :: "message list \<Rightarrow> message \<Rightarrow> bool" where
  "has_room ms m \<longleftrightarrow> length ms + 1 < 2 ^ 64 \<and> total_bytes ms + length (msg_data m) < 2 ^ 64"

lemma total_bytes_simps [simp]:
  "total_bytes [] = 0" "total_bytes (m # ms) = length (msg_data m) + total_bytes ms"
  "total_bytes (xs @ ys) = total_bytes xs + total_bytes ys"
  by (simp_all add: total_bytes_def)

lemma of_nat_le_u64: "n < 2 ^ 64 \<Longrightarrow> \<not> of_nat n > (w :: u64) \<longleftrightarrow> n \<le> unat w"
  by (simp add: not_less word_le_nat_alt unat_of_nat)

locale forward_queue =
  fixes items :: "'q \<Rightarrow> message list"
    and bytes :: "'q \<Rightarrow> u64"
    and push :: "message \<Rightarrow> 'q \<Rightarrow> 'q"
    and pop :: "'q \<Rightarrow> 'q"
  assumes items_push: "items (push m q) = items q @ [m]"
    and bytes_push: "bytes (push m q) = bytes q + of_nat (length (msg_data m))"
    and items_pop: "items (pop q) = tl (items q)"
    and bytes_pop: "items q \<noteq> [] \<Longrightarrow> bytes (pop q) = count_down (bytes q) (length (msg_data (hd (items q))))"
begin

lemma push_account:
  assumes "queue_account (items q) (bytes q)" "has_room (items q) m"
  shows "queue_account (items (push m q)) (bytes (push m q))"
  using assms by (simp add: queue_account_def has_room_def items_push bytes_push)

lemma push_limits:
  assumes acc: "queue_account (items q) (bytes q)" and lim: "within_limits cf (items q)" and room: "has_room (items q) m"
    and "\<not> over_buffer_limit cf (length (items q)) (bytes q) (length (msg_data m))"
  shows "within_limits cf (items (push m q))"
proof -
  have r: "length (items q) + 1 < 2 ^ 64" "total_bytes (items q) + length (msg_data m) < 2 ^ 64"
    using room by (simp_all add: has_room_def)
  have num: "send_buffer_number cf > 0 \<Longrightarrow> \<not> of_nat (length (items q) + 1) > send_buffer_number cf"
    and size: "send_buffer_size cf > 0 \<Longrightarrow> \<not> of_nat (total_bytes (items q) + length (msg_data m)) > send_buffer_size cf"
    using assms(4) acc by (auto simp: over_buffer_limit_def queue_account_def add.commute)
  show ?thesis
    using num [unfolded of_nat_le_u64 [OF r(1)]] size [unfolded of_nat_le_u64 [OF r(2)]]
    by (simp add: within_limits_def items_push)
qed

lemma pop_account:
  assumes acc: "queue_account (items q) (bytes q)" and ne: "items q \<noteq> []"
  shows "queue_account (items (pop q)) (bytes (pop q))"
proof -
  obtain m ms where q: "items q = m # ms" using ne by (cases "items q") auto
  have "unat (bytes q) = length (msg_data m) + total_bytes ms"
    using acc q unfolding queue_account_def by (simp add: unat_of_nat flip: of_nat_add)
  moreover have "length (msg_data m) < 2 ^ 64" using acc q by (simp add: queue_account_def)
  ultimately have "of_nat (length (msg_data m)) \<le> bytes q"
    unfolding word_le_nat_alt by (simp add: unat_of_nat)
  moreover have "bytes q = of_nat (length (msg_data m)) + of_nat (total_bytes ms)"
    using acc q by (simp add: queue_account_def)
  ultimately have "bytes (pop q) = of_nat (total_bytes ms)"
    using bytes_pop [OF ne] q by (simp add: count_down_def)
  then show ?thesis
    using acc q by (simp add: queue_account_def items_pop)
qed

lemma pop_limits: "within_limits cf (items q) \<Longrightarrow> within_limits cf (items (pop q))"
  by (cases "items q") (auto simp: within_limits_def items_pop)

end

section \<open>The two queues\<close>

definition ep_items :: "endpoint \<Rightarrow> message list" where
  "ep_items E = map message.truncate (ep_pending E)"

definition append_pending :: "pending_message \<Rightarrow> endpoint \<Rightarrow> endpoint" where
  "append_pending pm E = E\<lparr>ep_pending := ep_pending E @ [pm], ep_pending_size := ep_pending_size E + of_nat (length (msg_data pm))\<rparr>"

definition pop_front :: "endpoint \<Rightarrow> endpoint" where
  "pop_front E = E\<lparr>ep_pending := tl (ep_pending E),
     ep_pending_size := count_down (ep_pending_size E) (length (msg_data (hd (ep_pending E))))\<rparr>"

definition lb_append :: "message \<Rightarrow> connector \<Rightarrow> connector" where
  "lb_append m C = C\<lparr>lb_pending := lb_pending C @ [m], lb_pending_size := lb_pending_size C + of_nat (length (msg_data m))\<rparr>"

definition lb_pop :: "connector \<Rightarrow> connector" where
  "lb_pop C = C\<lparr>lb_pending := tl (lb_pending C),
     lb_pending_size := count_down (lb_pending_size C) (length (msg_data (hd (lb_pending C))))\<rparr>"

lemma truncate_to_pending [simp]: "message.truncate (to_pending t m) = m"
  by (cases m) (simp add: to_pending_def message.truncate_def)

lemma truncate_data [simp]: "msg_data (message.truncate pm) = msg_data pm"
  by (simp add: message.truncate_def)

lemma to_pending_data [simp]: "msg_data (to_pending t m) = msg_data m"
  by (simp add: to_pending_def)

interpretation epq: forward_queue ep_items ep_pending_size "\<lambda>m. append_pending (to_pending t m)" pop_front for t
  by unfold_locales (auto simp: ep_items_def append_pending_def pop_front_def map_tl hd_map)

interpretation lbq: forward_queue lb_pending lb_pending_size lb_append lb_pop
  by unfold_locales (simp_all add: lb_append_def lb_pop_def)

lemma pop_fronts: "ep_pending ((pop_front ^^ n) E) = drop n (ep_pending E)"
  by (induction n) (simp_all add: pop_front_def drop_Suc tl_drop)

lemma pop_fronts_account:
  "queue_account (ep_items E) (ep_pending_size E) \<Longrightarrow> n \<le> length (ep_pending E) \<Longrightarrow>
   queue_account (ep_items ((pop_front ^^ n) E)) (ep_pending_size ((pop_front ^^ n) E))"
proof (induction n)
  case (Suc n)
  have "ep_items ((pop_front ^^ n) E) \<noteq> []" using Suc.prems(2) by (simp add: ep_items_def pop_fronts)
  then show ?case using Suc epq.pop_account by simp
qed simp

end
