(* ===== verification/Endpoint_Messages.thy ===== *)
theory Endpoint_Messages
  imports App_Run Forward_Queue
begin

text \<open>
  What becomes of a message: \<open>queue_of\<close> is the queue of an endpoint as plain messages,
  \<open>responses\<close> the failures reported to the application, and \<open>sends\<close> the messages handed to
  connectors with the code they returned.
\<close>

section \<open>Accounts\<close>

fun send_of :: "event \<Rightarrow> (message \<times> err_code) list" where
  "send_of (ForwardSend _ _ m r) = [(m, r)]"
| "send_of _ = []"

definition sends :: "app_state \<Rightarrow> (message \<times> err_code) list" where
  "sends s = concat (map send_of (a_events s))"

definition queue_of :: "addr \<Rightarrow> app_state \<Rightarrow> message list" where
  "queue_of e s = (case queues s e of None \<Rightarrow> [] | Some q \<Rightarrow> map message.truncate q)"

lemma queue_of_Some: "emap s e = Some E \<Longrightarrow> queue_of e s = map message.truncate (ep_pending E)"
  by (simp add: queue_of_def queues_def)

lemma queue_of_cong: "emap s' e = emap s e \<Longrightarrow> queue_of e s' = queue_of e s"
  by (simp add: queue_of_def queues_def)

lemma sends_simps [simp]:
  "sends (upd_handle h f s) = sends s" "sends (upd_endpoint e g s) = sends s"
  "sends (upd_connector c k s) = sends s" "sends (add_waker e t s) = sends s"
  "sends (emit ev s) = sends s @ send_of ev"
  by (simp_all add: sends_def)

lemma queue_of_simps [simp]:
  "queue_of e (emit ev s) = queue_of e s" "queue_of e (upd_connector c k s) = queue_of e s"
  "queue_of e (upd_handle h f s) = queue_of e s"
  by (simp_all add: queue_of_def)

lemma queue_of_add_waker [simp]: "queue_of e (add_waker e' t s) = queue_of e s"
  by (simp add: queue_of_def)

section \<open>Sending and queueing one message\<close>

text \<open>A connector may write back the sequence number; the rest of the message is unchanged.\<close>

definition same_message :: "message \<Rightarrow> message \<Rightarrow> bool" where
  "same_message m m' \<longleftrightarrow> m' = m\<lparr>message_sequence := message_sequence m'\<rparr>"

lemma same_message_refl [simp]: "same_message m m"
  by (simp add: same_message_def)

lemma same_message_data: "same_message m m' \<Longrightarrow> msg_data m' = msg_data m"
  by (cases m; cases m') (simp add: same_message_def)

lemma loopback_send_accounts [simp]:
  "responses (snd (loopback_on_send_forward_request c h m s)) = responses s"
  "sends (snd (loopback_on_send_forward_request c h m s)) = sends s"
  "a_conf (snd (loopback_on_send_forward_request c h m s)) = a_conf s"
  "last_tick_timepoint (snd (loopback_on_send_forward_request c h m s)) = last_tick_timepoint s"
  "endpoint_waker (snd (loopback_on_send_forward_request c h m s)) = endpoint_waker s"
  by (simp_all add: loopback_on_send_forward_request_def Let_def)

lemma on_send_accounts:
  assumes "on_send_forward_request send c h m s = (r, m', s')"
  shows "same_message m m'" "responses s' = responses s" "sends s' = sends s @ [(m', r)]" "emap s' = emap s"
    "a_conf s' = a_conf s" "last_tick_timepoint s' = last_tick_timepoint s" "hmap s' = hmap s"
    "endpoint_waker s' = endpoint_waker s"
proof -
  have "same_message m m' \<and> responses s' = responses s \<and> sends s' = sends s @ [(m', r)] \<and> emap s' = emap s \<and>
      a_conf s' = a_conf s \<and> last_tick_timepoint s' = last_tick_timepoint s \<and> hmap s' = hmap s \<and>
      endpoint_waker s' = endpoint_waker s"
  proof (cases "c_class (cmap s c)")
    case Loopback
    obtain r1 s1 where l: "loopback_on_send_forward_request c h m s = (r1, s1)" by (cases "loopback_on_send_forward_request c h m s")
    then show ?thesis
      using assms Loopback loopback_send_accounts [of c h m s, unfolded l snd_conv]
        emap_loopback_send [of c h m s, unfolded l snd_conv] quiet_hmap [OF loopback_send_quiet [of s c h m, unfolded l snd_conv]]
      by (auto simp: on_send_forward_request_def)
  next
    case (External b)
    then show ?thesis
      using assms by (auto simp: on_send_forward_request_def Let_def same_message_def split: prod.splits)
  qed (use assms in \<open>auto simp: on_send_forward_request_def\<close>)
  then show "same_message m m'" "responses s' = responses s" "sends s' = sends s @ [(m', r)]" "emap s' = emap s"
    "a_conf s' = a_conf s" "last_tick_timepoint s' = last_tick_timepoint s" "hmap s' = hmap s"
    "endpoint_waker s' = endpoint_waker s" by simp_all
qed

text \<open>The three fates of a pushed message.\<close>

definition handed_over :: "addr \<Rightarrow> message \<Rightarrow> app_state \<Rightarrow> app_state \<Rightarrow> bool" where
  "handed_over e m s s' \<longleftrightarrow> sends s' = sends s @ [(m, EN_SUCCESS)] \<and> queue_of e s' = queue_of e s \<and> responses s' = responses s"

definition queued :: "addr \<Rightarrow> message \<Rightarrow> app_state \<Rightarrow> app_state \<Rightarrow> bool" where
  "queued e m s s' \<longleftrightarrow> queue_of e s' = queue_of e s @ [m] \<and> responses s' = responses s"

definition reported :: "addr \<Rightarrow> message \<Rightarrow> err_code \<Rightarrow> app_state \<Rightarrow> app_state \<Rightarrow> bool" where
  "reported e m r s s' \<longleftrightarrow> responses s' = responses s @ [(m, r)] \<and> queue_of e s' = queue_of e s"

lemma push_pending_outcome:
  assumes ok: "linked s" and E: "emap s e = Some E" and run: "push_pending e m s = Inr ((r, sq), s')"
  shows "sq = message_sequence m \<and> (r = EN_SUCCESS \<and> queued e m s s' \<or> r = EN_ATBUS_ERR_BUFF_LIMIT \<and> reported e m r s s')"
proof (cases "over_buffer_limit (a_conf s) (length (ep_pending E)) (ep_pending_size E) (length (msg_data m))")
  case True
  then show ?thesis
    using report_failure_ok [OF ok E, of m EN_ATBUS_ERR_BUFF_LIMIT] E run
    by (auto simp: push_pending_def reported_def)
next
  case False
  then show ?thesis
    using E run by (auto simp: push_pending_def Let_def queued_def queue_of_Some)
qed

lemma push_outcome:
  assumes ok: "linked s" and E: "emap s e = Some E" and idle: "\<not> ep_closing E" and data: "msg_data m \<noteq> []"
    and run: "push_forward_message send e m s = Inr ((r, sq), s')"
  shows "\<exists>m'. same_message m m' \<and> sq = message_sequence m' \<and>
           (if r = EN_SUCCESS then handed_over e m' s s' \<or> queued e m' s s' else reported e m' r s s')"
proof (cases "ep_pending E = []")
  case False
  then have "push_pending e m s = Inr ((r, sq), s')"
    using E idle data run by (simp add: push_forward_message_def)
  then show ?thesis using push_pending_outcome [OF ok E] by (intro exI [of _ m]) auto
next
  case True
  obtain h where h: "get_ready_connection_handle E s = Inr h" "h \<noteq> 0 \<Longrightarrow> \<exists>H. hmap s h = Some H"
    using get_ready_alive [OF ok E] by metis
  obtain c where c: "connector_of h s = Inr c" using connector_of_alive h(2) by metis
  show ?thesis
  proof (cases "h = 0 \<or> c = 0")
    case none: True
    then have "push_pending e m s = Inr ((r, sq), s')"
      using E idle data run True h(1) c by (simp add: push_forward_message_def)
    then show ?thesis using push_pending_outcome [OF ok E] by (intro exI [of _ m]) auto
  next
    case some: False
    obtain ret m1 s1 where send: "on_send_forward_request send c h m s = (ret, m1, s1)" using prod_cases3 by blast
    note a = on_send_accounts [OF send]
    have ok1: "linked s1" by (rule quiet_linked [OF on_send_quiet [OF send] ok])
    have E1: "emap s1 e = Some E" using a(4) E by simp
    have q1: "queue_of e s1 = queue_of e s" by (rule queue_of_cong) (simp add: a(4))
    obtain sd where sd: "trigger_on_receive_forward_response (app_id (a_conf s)) c h m1 ret s1 =
        Inr (emit (ForwardResponse sd m1 ret) s1)"
      using trigger_quiet [OF ok1] h(2) a(7) by metis
    have "push_forward_message send e m s = (if ret = EN_SUCCESS then Inr ((ret, message_sequence m1), s1)
        else if ret = EN_ATBUS_ERR_ATNODE_NO_CONNECTION \<or> ret = EN_ATBUS_ERR_ATNODE_INVALID_ID then push_pending e m1 s1
        else Inr ((ret, message_sequence m1), emit (ForwardResponse sd m1 ret) s1))"
      unfolding push_forward_message_def deref_endpoint_Some [OF E] and_then_simps h(1) c send prod.case sd
      using idle data True some by simp
    then have run1: "(if ret = EN_SUCCESS then Inr ((ret, message_sequence m1), s1)
        else if ret = EN_ATBUS_ERR_ATNODE_NO_CONNECTION \<or> ret = EN_ATBUS_ERR_ATNODE_INVALID_ID then push_pending e m1 s1
        else Inr ((ret, message_sequence m1), emit (ForwardResponse sd m1 ret) s1)) = Inr ((r, sq), s')"
      using run by simp
    show ?thesis
    proof (cases "ret = EN_ATBUS_ERR_ATNODE_NO_CONNECTION \<or> ret = EN_ATBUS_ERR_ATNODE_INVALID_ID")
      case retry: True
      then have "push_pending e m1 s1 = Inr ((r, sq), s')" using run1 by auto
      then show ?thesis
        using push_pending_outcome [OF ok1 E1] a q1
        by (intro exI [of _ m1]) (auto simp: queued_def reported_def)
    next
      case other: False
      then show ?thesis
        using run1 a q1 by (intro exI [of _ m1]) (auto simp: handed_over_def reported_def split: if_splits)
    qed
  qed
qed

section \<open>What a push does to the queue\<close>

lemma push_pending_endpoint:
  assumes ok: "linked s" and E: "emap s e = Some E" and run: "push_pending e m s = Inr (r, s')"
  shows "\<exists>E'. emap s' e = Some E' \<and> (ep_pending E' = ep_pending E \<and> ep_pending_size E' = ep_pending_size E \<or>
      (\<exists>t. \<not> over_buffer_limit (a_conf s) (length (ep_pending E)) (ep_pending_size E) (length (msg_data m)) \<and>
        ep_pending E' = ep_pending (append_pending (to_pending t m) E) \<and>
        ep_pending_size E' = ep_pending_size (append_pending (to_pending t m) E)))"
proof (cases "over_buffer_limit (a_conf s) (length (ep_pending E)) (ep_pending_size E) (length (msg_data m))")
  case True
  then show ?thesis
    using report_failure_ok [OF ok E, of m EN_ATBUS_ERR_BUFF_LIMIT] E run by (auto simp: push_pending_def)
next
  case False
  then show ?thesis
    using E run by (auto simp: push_pending_def Let_def emap_add_waker append_pending_def to_pending_def)
qed

lemma push_endpoint:
  assumes ok: "linked s" and E: "emap s e = Some E" and run: "push_forward_message send e m s = Inr (r, s')"
  shows "\<exists>E'. emap s' e = Some E' \<and> (ep_pending E' = ep_pending E \<and> ep_pending_size E' = ep_pending_size E \<or>
      (\<exists>t m'. same_message m m' \<and>
        \<not> over_buffer_limit (a_conf s) (length (ep_pending E)) (ep_pending_size E) (length (msg_data m')) \<and>
        ep_pending E' = ep_pending (append_pending (to_pending t m') E) \<and>
        ep_pending_size E' = ep_pending_size (append_pending (to_pending t m') E)))" (is "?goal s'")
proof -
  have queue: "?goal s'" if "push_pending e m s = Inr (r, s')"
    using push_pending_endpoint [OF ok E that] same_message_refl by blast
  obtain h where h: "get_ready_connection_handle E s = Inr h" "h \<noteq> 0 \<Longrightarrow> \<exists>H. hmap s h = Some H"
    using get_ready_alive [OF ok E] by metis
  obtain c where c: "connector_of h s = Inr c" using connector_of_alive h(2) by metis
  obtain ret m1 s1 where send: "on_send_forward_request send c h m s = (ret, m1, s1)" using prod_cases3 by blast
  note a = on_send_accounts [OF send]
  have ok1: "linked s1" by (rule quiet_linked [OF on_send_quiet [OF send] ok])
  have E1: "emap s1 e = Some E" using a(4) E by simp
  obtain sd where sd: "trigger_on_receive_forward_response (app_id (a_conf s)) c h m1 ret s1 =
      Inr (emit (ForwardResponse sd m1 ret) s1)"
    using trigger_quiet [OF ok1] h(2) a(7) by metis
  have retried: "?goal s'" if "push_pending e m1 s1 = Inr (r, s')"
    using push_pending_endpoint [OF ok1 E1 that] a(1) unfolding a(5) by blast
  obtain fd where fd: "report_failure E m EN_ATBUS_ERR_CLOSING s =
      Inr ((EN_ATBUS_ERR_CLOSING, message_sequence m), emit (ForwardResponse fd m EN_ATBUS_ERR_CLOSING) s)"
    using report_failure_ok [OF ok E] by blast
  have "s' = emit (ForwardResponse fd m EN_ATBUS_ERR_CLOSING) s \<or> s' = s \<or> push_pending e m s = Inr (r, s') \<or> s' = s1 \<or>
      push_pending e m1 s1 = Inr (r, s') \<or> s' = emit (ForwardResponse sd m1 ret) s1"
    using run unfolding push_forward_message_def deref_endpoint_Some [OF E] and_then_simps h(1) c send prod.case sd fd
    by (auto split: if_splits)
  then show ?thesis
  proof (elim disjE)
    assume "push_pending e m s = Inr (r, s')"
    then show ?thesis by (rule queue)
  next
    assume "push_pending e m1 s1 = Inr (r, s')"
    then show ?thesis by (rule retried)
  qed (use E E1 in auto)
qed

section \<open>Retrying in order\<close>

lemma pop_pending_emap: "emap s e = Some E \<Longrightarrow> emap (pop_pending e s) e = Some (pop_front E)"
  by (simp add: emap_emit_pop pop_front_def)

lemma pop_accounts [simp]: "responses (pop_pending e s) = responses s" "sends (pop_pending e s) = sends s"
  "a_conf (pop_pending e s) = a_conf s" "hmap (pop_pending e s) = hmap s" "endpoint_waker (pop_pending e s) = endpoint_waker s"
  by (simp_all add: pop_pending_def)

text \<open>With a connection: the front messages are sent in order, failures are reported.\<close>

lemma retry_connected:
  assumes "linked s" "emap s e = Some E" "h \<noteq> 0" "c \<noteq> 0" "hmap s h = Some H"
    and "retry_loop rounds send e tick h c mc s = Inr (n, s')"
  shows "\<exists>ms rs. emap s' e = Some ((pop_front ^^ n) E) \<and> endpoint_waker s' = endpoint_waker s \<and> n = min (nat mc) (length (ep_pending E)) \<and>
           list_all2 same_message (take n (map message.truncate (ep_pending E))) ms \<and> length rs = n \<and>
           sends s' = sends s @ zip ms rs \<and> responses s' = responses s @ filter (\<lambda>(m, r). r \<noteq> EN_SUCCESS) (zip ms rs)"
  using assms
proof (induction rounds arbitrary: s E n mc)
  case 0
  then have "ep_pending E = []" by (auto simp: retry_loop.simps split: list.splits)
  then show ?case using 0 by (auto simp: retry_loop.simps)
next
  case (Suc rounds)
  show ?case
  proof (cases "ep_pending E = [] \<or> mc \<le> 0")
    case True
    then show ?thesis
      using Suc.prems by (subst (asm) retry_loop.simps) (auto split: list.splits if_splits)
  next
    case False
    then obtain pm pms where p: "ep_pending E = pm # pms" and mc: "mc > 0" by (cases "ep_pending E") auto
    define m where "m = message.truncate pm"
    obtain ret m1 s1 where send: "on_send_forward_request send c h m s = (ret, m1, s1)" using prod_cases3 by blast
    note a = on_send_accounts [OF send]
    have ok1: "linked s1" by (rule quiet_linked [OF on_send_quiet [OF send] Suc.prems(1)])
    obtain sd where sd: "trigger_on_receive_forward_response (app_id (a_conf s)) c h m1 ret s1 =
        Inr (emit (ForwardResponse sd m1 ret) s1)"
      using trigger_quiet [OF ok1] Suc.prems(5) a(7) by metis
    define s2 where "s2 = (if ret \<noteq> EN_SUCCESS then emit (ForwardResponse sd m1 ret) s1 else s1)"
    have s2: "linked s2" "emap s2 e = Some E" "hmap s2 h = Some H" "sends s2 = sends s @ [(m1, ret)]"
      "responses s2 = responses s @ filter (\<lambda>(m, r). r \<noteq> EN_SUCCESS) [(m1, ret)]" "endpoint_waker s2 = endpoint_waker s"
      using ok1 quiet_linked [OF quiet_emit ok1] a Suc.prems(2,5) by (simp_all add: s2_def)
    obtain k where k: "retry_loop rounds send e tick h c (mc - 1) (pop_pending e s2) = Inr (k, s')" "n = Suc k"
      using Suc.prems(2-4,6) p mc send sd
      by (subst (asm) retry_loop.simps)
        (auto simp: m_def [symmetric] s2_def and_then_Inr_iff split: if_splits)
    have ok3: "linked (pop_pending e s2)" by (rule quiet_linked [OF pop_pending_quiet s2(1)])
    have E3: "emap (pop_pending e s2) e = Some (pop_front E)" by (rule pop_pending_emap [OF s2(2)])
    obtain ms rs where ih: "emap s' e = Some ((pop_front ^^ k) (pop_front E))" "endpoint_waker s' = endpoint_waker s2"
      "k = min (nat (mc - 1)) (length (ep_pending (pop_front E)))"
      "list_all2 same_message (take k (map message.truncate (ep_pending (pop_front E)))) ms" "length rs = k"
      "sends s' = sends s2 @ zip ms rs"
      "responses s' = responses s2 @ filter (\<lambda>(m, r). r \<noteq> EN_SUCCESS) (zip ms rs)"
      using Suc.IH [OF ok3 E3 Suc.prems(3,4) _ k(1)] s2(3) by auto
    show ?thesis
    proof (intro exI [of _ "m1 # ms"] exI [of _ "ret # rs"] conjI)
      show "emap s' e = Some ((pop_front ^^ n) E)" using ih(1) k(2) by (simp add: funpow_swap1)
      show "n = min (nat mc) (length (ep_pending E))"
        using ih(3) k(2) mc by (cases "nat mc") (auto simp: p pop_front_def nat_diff_distrib)
      show "list_all2 same_message (take n (map message.truncate (ep_pending E))) (m1 # ms)"
        using ih(4) a(1) k(2) by (simp add: p pop_front_def m_def)
    qed (use ih k(2) s2(4-6) in auto)
  qed
qed

text \<open>Without a connection: the messages that expired are reported, in order, up to the first that did not.\<close>

lemma retry_expired:
  assumes "linked s" "emap s e = Some E" "h = 0 \<or> c = 0" "h \<noteq> 0 \<Longrightarrow> \<exists>H. hmap s h = Some H" "mc > 0"
    and "retry_loop rounds send e tick h c mc s = Inr (n, s')"
  shows "emap s' e = Some ((pop_front ^^ n) E) \<and> endpoint_waker s' = endpoint_waker s \<and>
         n = length (takeWhile (\<lambda>pm. expired_timepoint pm \<le> tick) (ep_pending E)) \<and> sends s' = sends s \<and>
         responses s' = responses s @ map (\<lambda>pm. (message.truncate pm, EN_ATBUS_ERR_NODE_TIMEOUT)) (take n (ep_pending E))"
  using assms
proof (induction rounds arbitrary: s E n)
  case 0
  then have "ep_pending E = []" by (auto simp: retry_loop.simps split: list.splits)
  then show ?case using 0 by (auto simp: retry_loop.simps)
next
  case (Suc rounds)
  show ?case
  proof (cases "ep_pending E")
    case Nil
    then show ?thesis using Suc.prems by (auto simp: retry_loop.simps)
  next
    case (Cons pm pms)
    show ?thesis
    proof (cases "expired_timepoint pm > tick")
      case True
      then show ?thesis
        using Suc.prems Cons by (subst (asm) retry_loop.simps) (auto split: if_splits)
    next
      case False
      obtain sd where sd: "trigger_on_receive_forward_response (app_id (a_conf s)) c h (message.truncate pm)
          EN_ATBUS_ERR_NODE_TIMEOUT s = Inr (emit (ForwardResponse sd (message.truncate pm) EN_ATBUS_ERR_NODE_TIMEOUT) s)"
        using trigger_quiet [OF Suc.prems(1,4)] by metis
      define s2 where "s2 = emit (ForwardResponse sd (message.truncate pm) EN_ATBUS_ERR_NODE_TIMEOUT) s"
      obtain k where k: "retry_loop rounds send e tick h c mc (pop_pending e s2) = Inr (k, s')" "n = Suc k"
        using Suc.prems(2,3,5,6) Cons False sd
        by (subst (asm) retry_loop.simps) (auto simp: s2_def and_then_Inr_iff split: if_splits)
      have ok3: "linked (pop_pending e s2)"
        unfolding s2_def by (rule quiet_linked [OF quiet_trans [OF quiet_emit pop_pending_quiet] Suc.prems(1)])
      have E2: "emap s2 e = Some E" using Suc.prems(2) by (simp add: s2_def)
      have "emap s' e = Some ((pop_front ^^ k) (pop_front E)) \<and> endpoint_waker s' = endpoint_waker (pop_pending e s2) \<and>
         k = length (takeWhile (\<lambda>pm. expired_timepoint pm \<le> tick) (ep_pending (pop_front E))) \<and>
         sends s' = sends (pop_pending e s2) \<and>
         responses s' = responses (pop_pending e s2) @
           map (\<lambda>pm. (message.truncate pm, EN_ATBUS_ERR_NODE_TIMEOUT)) (take k (ep_pending (pop_front E)))"
        using Suc.prems(4) by (intro Suc.IH [OF ok3 pop_pending_emap [OF E2] Suc.prems(3) _ Suc.prems(5) k(1)]) (simp add: s2_def)
      moreover have "ep_pending (pop_front E) = pms" by (simp add: pop_front_def Cons)
      ultimately show ?thesis
        using k(2) False Cons by (simp add: s2_def funpow_swap1)
    qed
  qed
qed

end
