(* ===== verification/Connection_Facts.thy ===== *)
theory Connection_Facts
  imports Endpoint_Messages
begin

text \<open>
  The facts behind the properties of the connection layer: the wakers of queued messages, what a
  reset without a ready connection leaves unreported, the order of the loopback queue, and the
  states in which the registry or a handle is left inconsistent.
\<close>

section \<open>Wakers\<close>

text \<open>
  An endpoint with queued messages is registered in the waker map no later than the expiry of its
  first message. Times below one second after the epoch count as unset in the code.
\<close>

definition waker_ok :: "addr \<Rightarrow> app_state \<Rightarrow> bool" where
  "waker_ok e s = (case emap s e of None \<Rightarrow> True | Some E \<Rightarrow>
     (nanos_per_second \<le> ep_nearest_waker E \<longrightarrow> (ep_nearest_waker E, e) \<in> set (endpoint_waker s)) \<and>
     0 \<le> ep_nearest_waker E \<and>
     (case ep_pending E of [] \<Rightarrow> True
      | pm # _ \<Rightarrow> nanos_per_second \<le> ep_nearest_waker E \<and> ep_nearest_waker E \<le> expired_timepoint pm))"

lemma cdiv_second: "0 \<le> t \<Longrightarrow> cdiv t nanos_per_second = 0 \<longleftrightarrow> t < nanos_per_second"
  by (auto simp: zdiv_eq_0_iff nanos_per_second_def)

lemma endpoint_waker_add:
  assumes E: "emap s e = Some E" and running: "\<not> a_closing s" and nn: "0 \<le> ep_nearest_waker E"
    and reg: "nanos_per_second \<le> ep_nearest_waker E \<Longrightarrow> (ep_nearest_waker E, e) \<in> set (endpoint_waker s)"
    and t: "nanos_per_second \<le> t"
  shows "\<exists>w. emap (add_waker e t s) e = Some (E\<lparr>ep_nearest_waker := w\<rparr>) \<and> nanos_per_second \<le> w \<and> w \<le> t \<and>
     (nanos_per_second \<le> ep_nearest_waker E \<longrightarrow> w \<le> ep_nearest_waker E) \<and> (w, e) \<in> set (endpoint_waker (add_waker e t s))"
proof (cases "t < ep_nearest_waker E \<or> ep_nearest_waker E < nanos_per_second")
  case True
  then have "emap (add_waker e t s) e = Some (E\<lparr>ep_nearest_waker := t\<rparr>)"
    using E running cdiv_second [OF nn] by (simp add: emap_add_waker)
  moreover have "(t, e) \<in> set (endpoint_waker (add_waker e t s))"
    using E running True cdiv_second [OF nn]
    by (auto simp: add_waker_def add_endpoint_waker_def Let_def watcher_lock_def set_insort_insert)
  ultimately show ?thesis using t True by auto
next
  case False
  then have "add_waker e t s = s" using E cdiv_second [OF nn] by (simp add: add_waker_def)
  then show ?thesis using False E reg by (intro exI [of _ "ep_nearest_waker E"]) auto
qed

lemma waker_ok_append:
  assumes ok: "waker_ok e s" and E: "emap s e = Some E" and running: "\<not> a_closing s" and t: "nanos_per_second \<le> t"
    and s1: "s1 = upd_endpoint e (\<lambda>E. E\<lparr>ep_pending := ep_pending E @ [to_pending t m], ep_pending_size := z E\<rparr>) s"
  shows "waker_ok e (add_waker e t s1)"
proof -
  let ?E = "E\<lparr>ep_pending := ep_pending E @ [to_pending t m], ep_pending_size := z E\<rparr>"
  have E1: "emap s1 e = Some ?E" "\<not> a_closing s1" "endpoint_waker s1 = endpoint_waker s" using E running by (simp_all add: s1)
  have nn: "0 \<le> ep_nearest_waker E"
    and reg: "nanos_per_second \<le> ep_nearest_waker E \<Longrightarrow> (ep_nearest_waker E, e) \<in> set (endpoint_waker s)"
    using ok E by (simp_all add: waker_ok_def)
  obtain w where w: "emap (add_waker e t s1) e = Some (?E\<lparr>ep_nearest_waker := w\<rparr>)" "nanos_per_second \<le> w" "w \<le> t"
    "nanos_per_second \<le> ep_nearest_waker E \<longrightarrow> w \<le> ep_nearest_waker E" "(w, e) \<in> set (endpoint_waker (add_waker e t s1))"
    using endpoint_waker_add [OF E1(1,2) _ _ t] nn reg E1(3) by auto
  then show ?thesis
    using ok E by (cases "ep_pending E") (auto simp: waker_ok_def to_pending_def nanos_per_second_def)
qed

lemma waker_ok_cong: "emap s' e = emap s e \<Longrightarrow> endpoint_waker s' = endpoint_waker s \<Longrightarrow> waker_ok e s \<Longrightarrow> waker_ok e s'"
  by (simp only: waker_ok_def)

lemma push_pending_waker:
  assumes ok: "linked s" and w: "waker_ok e s" and E: "emap s e = Some E" and running: "\<not> a_closing s"
    and t: "nanos_per_second \<le> last_tick_timepoint s + get_configure_message_timeout (a_conf s)"
    and p: "push_pending e m s = Inr (r, s')"
  shows "waker_ok e s'"
proof (cases "over_buffer_limit (a_conf s) (length (ep_pending E)) (ep_pending_size E) (length (msg_data m))")
  case True
  then have "emap s' e = emap s e" "endpoint_waker s' = endpoint_waker s"
    using report_failure_ok [OF ok E, of m EN_ATBUS_ERR_BUFF_LIMIT] E p by (auto simp: push_pending_def)
  then show ?thesis using waker_ok_cong w by blast
next
  case False
  then have "s' = add_waker e (last_tick_timepoint s + get_configure_message_timeout (a_conf s))
      (upd_endpoint e (\<lambda>E. E\<lparr>ep_pending := ep_pending E @ [to_pending (last_tick_timepoint s + get_configure_message_timeout (a_conf s)) m],
         ep_pending_size := ep_pending_size E + of_nat (length (msg_data m))\<rparr>) s)"
    using E p by (simp add: push_pending_def Let_def)
  then show ?thesis
    using waker_ok_append [where m = m and z = "\<lambda>E. ep_pending_size E + of_nat (length (msg_data m))", OF w E running t refl] by simp
qed

lemma push_forward_waker:
  assumes ok: "linked s" and w: "waker_ok e s" and E: "emap s e = Some E" and running: "\<not> a_closing s"
    and t: "nanos_per_second \<le> last_tick_timepoint s + get_configure_message_timeout (a_conf s)"
    and p: "push_forward_message send e m s = Inr (r, s')"
  shows "waker_ok e s'"
proof -
  obtain h where h: "get_ready_connection_handle E s = Inr h" "h \<noteq> 0 \<Longrightarrow> \<exists>H. hmap s h = Some H"
    using get_ready_alive [OF ok E] by metis
  obtain c where c: "connector_of h s = Inr c" using connector_of_alive h(2) by metis
  obtain ret m1 s1 where send: "on_send_forward_request send c h m s = (ret, m1, s1)" using prod_cases3 by blast
  note a = on_send_accounts [OF send]
  have q: "rest_view s1 = rest_view s" using on_send_quiet [OF send] by (simp add: quiet_def)
  have ok1: "linked s1" by (rule quiet_linked [OF on_send_quiet [OF send] ok])
  obtain sd where sd: "trigger_on_receive_forward_response (app_id (a_conf s)) c h m1 ret s1 =
      Inr (emit (ForwardResponse sd m1 ret) s1)"
    using trigger_quiet [OF ok1] h(2) a(7) by metis
  have E1: "emap s1 e = Some E" "\<not> a_closing s1" using a(4) E rest_view_fields(4) [OF q] running by simp_all
  have w1: "waker_ok e s1" by (rule waker_ok_cong [OF _ _ w]) (simp_all add: a)
  obtain fd where fd: "report_failure E m EN_ATBUS_ERR_CLOSING s =
      Inr ((EN_ATBUS_ERR_CLOSING, message_sequence m), emit (ForwardResponse fd m EN_ATBUS_ERR_CLOSING) s)"
    using report_failure_ok [OF ok E] by blast
  have "s' = emit (ForwardResponse fd m EN_ATBUS_ERR_CLOSING) s \<or> s' = s \<or> push_pending e m s = Inr (r, s') \<or> s' = s1 \<or>
      push_pending e m1 s1 = Inr (r, s') \<or> s' = emit (ForwardResponse sd m1 ret) s1"
    using p unfolding push_forward_message_def deref_endpoint_Some [OF E] and_then_simps h(1) c send prod.case sd fd
    by (auto split: if_splits)
  moreover have "waker_ok e (emit ev t)" if "waker_ok e t" for ev t
    using that by (rule waker_ok_cong [rotated -1]) simp_all
  moreover have "push_pending e m1 s1 = Inr (r, s') \<Longrightarrow> waker_ok e s'"
    using push_pending_waker [OF ok1 w1 E1] t a(5,6) by simp
  ultimately show ?thesis using push_pending_waker [OF ok w E running t] w w1 by blast
qed

section \<open>A retry, taken apart\<close>

lemma pop_fronts_waker [simp]: "ep_nearest_waker ((pop_front ^^ k) E) = ep_nearest_waker E"
  by (induction k) (simp_all add: pop_front_def)

lemma retry_loop_result:
  assumes ok: "linked s" and E: "emap s e = Some E" and h: "h \<noteq> 0 \<Longrightarrow> \<exists>H. hmap s h = Some H" and mc: "0 < mc"
    and r: "retry_loop rounds send e tick h c mc s = Inr (n, s')"
  shows "emap s' e = Some ((pop_front ^^ n) E) \<and> endpoint_waker s' = endpoint_waker s"
proof (cases "h \<noteq> 0 \<and> c \<noteq> 0")
  case True
  then obtain H where "hmap s h = Some H" using h by blast
  then show ?thesis using retry_connected [OF ok E _ _ _ r] True by auto
next
  case False
  then show ?thesis using retry_expired [OF ok E _ h mc r] by auto
qed

lemma first_ready_cong: "hmap s' = hmap s \<Longrightarrow> first_ready hs s' = first_ready hs s"
proof (induction hs)
  case (Cons h hs)
  then show ?case by (cases "hmap s h") (simp_all add: deref_handle_def)
qed simp

lemma connector_of_cong: "hmap s' = hmap s \<Longrightarrow> connector_of h s' = connector_of h s"
  by (simp only: connector_of_def deref_handle_def)

lemma retry_cases:
  assumes ok: "linked s" and E: "emap s e = Some E" and ne: "ep_pending E \<noteq> []"
    and r: "retry_pending_messages send e tick mc s = Inr (n, s')"
  obtains s1 E1 h c s2 where "s1 = upd_endpoint e (\<lambda>_. E1) s" "linked s1" "emap s1 e = Some E1" "hmap s1 = hmap s"
    "E1 = (if ep_nearest_waker E \<le> tick then E\<lparr>ep_nearest_waker := 0\<rparr> else E)" "a_conf s1 = a_conf s"
    "endpoint_waker s1 = endpoint_waker s" "rest_view s1 = rest_view s" "sends s1 = sends s" "responses s1 = responses s"
    "get_ready_connection_handle E s = Inr h" "connector_of h s = Inr c" "h \<noteq> 0 \<Longrightarrow> \<exists>H. hmap s1 h = Some H"
    "retry_loop (length (ep_pending E1)) send e tick h c (if mc \<le> 0 then int32_max else mc) s1 = Inr (n, s2)"
    "retry_finish e s2 = Inr s'" "quiet s1 s2"
proof -
  define E1 where "E1 = (if ep_nearest_waker E \<le> tick then E\<lparr>ep_nearest_waker := 0\<rparr> else E)"
  define s1 where "s1 = upd_endpoint e (\<lambda>_. E1) s"
  have s1: "(if ep_nearest_waker E \<le> tick then upd_endpoint e (\<lambda>E. E\<lparr>ep_nearest_waker := 0\<rparr>) s else s) = s1"
    using E by (auto simp: s1_def E1_def upd_endpoint_def map_upd_triv)
  have p: "ep_pending E1 = ep_pending E" "ep_connections E1 = ep_connections E" by (simp_all add: E1_def)
  have E1: "emap s1 e = Some E1" "hmap s1 = hmap s" "cmap s1 = cmap s" using E by (simp_all add: s1_def)
  have "link_view s1 = link_view s" using E p by (auto simp: s1_def link_view_def conns_def fun_eq_iff)
  then have ok1: "linked s1" using linked_cong ok by blast
  obtain h where h: "get_ready_connection_handle E1 s1 = Inr h" "h \<noteq> 0 \<Longrightarrow> \<exists>H. hmap s1 h = Some H"
    using get_ready_alive [OF ok1 E1(1)] by metis
  obtain c where c: "connector_of h s1 = Inr c" using connector_of_alive [OF h(2)] by metis
  have hc: "get_ready_connection_handle E s1 = Inr h" "get_ready_connection_handle E s = Inr h" "connector_of h s = Inr c"
    using h(1) c by (simp_all only: get_ready_connection_handle_def p first_ready_cong [OF E1(2)] connector_of_cong [OF E1(2)])
  have "and_then (retry_loop (length (ep_pending E)) send e tick h c (if mc \<le> 0 then int32_max else mc) s1) (\<lambda>(n, s2).
      and_then (retry_finish e s2) (\<lambda>s3. Inr (n, s3))) = Inr (n, s')"
    using r ne unfolding retry_pending_messages_def deref_endpoint_Some [OF E] and_then_simps s1 Let_def
    by (simp only: hc c if_False and_then_simps)
  then obtain s2 where s2: "retry_loop (length (ep_pending E1)) send e tick h c (if mc \<le> 0 then int32_max else mc) s1 = Inr (n, s2)"
    "retry_finish e s2 = Inr s'"
    by (auto simp: and_then_Inr_iff p)
  have "quiet s1 s2"
    using retry_loop_ok [OF ok1 E1(1) order_refl, of h send tick c "if mc \<le> 0 then int32_max else mc"] h(2) s2(1) by auto
  then show ?thesis
    using that [OF s1_def ok1 E1(1,2) E1_def _ _ _ _ _ hc(2,3) h(2) s2] by (simp add: s1_def)
qed

text \<open>
  The two outcomes of a retry that takes \<open>n\<close> messages from the front of the queue: they were
  sent in order (and the failures reported), or they were reported as timed out.
\<close>

definition front_sent :: "addr \<Rightarrow> nat \<Rightarrow> app_state \<Rightarrow> app_state \<Rightarrow> bool" where
  "front_sent e n s s' \<longleftrightarrow> (\<exists>ms rs. list_all2 same_message (take n (queue_of e s)) ms \<and> length rs = n \<and>
     sends s' = sends s @ zip ms rs \<and> responses s' = responses s @ filter (\<lambda>(m, r). r \<noteq> EN_SUCCESS) (zip ms rs))"

definition front_timed_out :: "addr \<Rightarrow> nat \<Rightarrow> app_state \<Rightarrow> app_state \<Rightarrow> bool" where
  "front_timed_out e n s s' \<longleftrightarrow> sends s' = sends s \<and>
     responses s' = responses s @ map (\<lambda>m. (m, EN_ATBUS_ERR_NODE_TIMEOUT)) (take n (queue_of e s))"

lemma retry_finish_accounts:
  "retry_finish e s = Inr s' \<Longrightarrow> queue_of e s' = queue_of e s \<and> sends s' = sends s \<and> responses s' = responses s"
  by (auto simp: retry_finish_def deref_endpoint_def queue_of_Some split: option.splits list.splits)

lemma retry_outcome:
  assumes ok: "linked s" and E: "emap s e = Some E" and ne: "ep_pending E \<noteq> []"
    and r: "retry_pending_messages send e tick mc s = Inr (n, s')"
    and h: "get_ready_connection_handle E s = Inr h" "connector_of h s = Inr c"
  shows "queue_of e s' = drop n (queue_of e s) \<and>
     (if h \<noteq> 0 \<and> c \<noteq> 0
      then n = min (nat (if mc \<le> 0 then int32_max else mc)) (length (queue_of e s)) \<and> front_sent e n s s'
      else n = length (takeWhile (\<lambda>pm. expired_timepoint pm \<le> tick) (ep_pending E)) \<and> front_timed_out e n s s')"
proof -
  obtain s1 E1 h' c' s2 where R: "s1 = upd_endpoint e (\<lambda>_. E1) s" "linked s1" "emap s1 e = Some E1" "hmap s1 = hmap s"
    "E1 = (if ep_nearest_waker E \<le> tick then E\<lparr>ep_nearest_waker := 0\<rparr> else E)" "a_conf s1 = a_conf s"
    "endpoint_waker s1 = endpoint_waker s" "rest_view s1 = rest_view s" "sends s1 = sends s" "responses s1 = responses s"
    "get_ready_connection_handle E s = Inr h'" "connector_of h' s = Inr c'" "h' \<noteq> 0 \<Longrightarrow> \<exists>H. hmap s1 h' = Some H"
    "retry_loop (length (ep_pending E1)) send e tick h' c' (if mc \<le> 0 then int32_max else mc) s1 = Inr (n, s2)"
    "retry_finish e s2 = Inr s'" "quiet s1 s2"
    by (rule retry_cases [OF ok E ne r]) (rule that)
  have hc: "h' = h" "c' = c" using R(11,12) h by simp_all
  have p: "ep_pending E1 = ep_pending E" by (simp add: R(5))
  have mc: "0 < (if mc \<le> 0 then int32_max else mc)" by (simp add: int32_max_def)
  have q: "queue_of e s = map message.truncate (ep_pending E)" by (rule queue_of_Some [OF E])
  note fin = retry_finish_accounts [OF R(15)]
  have "emap s2 e = Some ((pop_front ^^ n) E1)" using retry_loop_result [OF R(2,3,13) mc R(14)] by simp
  from queue_of_Some [OF this] have q': "queue_of e s' = drop n (queue_of e s)"
    using fin by (simp add: pop_fronts p q drop_map)
  show ?thesis
  proof (cases "h \<noteq> 0 \<and> c \<noteq> 0")
    case True
    then obtain H where H: "hmap s1 h' = Some H" using R(13) hc by blast
    have "h' \<noteq> 0" "c' \<noteq> 0" using True hc by simp_all
    from retry_connected [OF R(2,3) this H R(14)] obtain ms rs
      where sent: "n = min (nat (if mc \<le> 0 then int32_max else mc)) (length (ep_pending E1))"
        "list_all2 same_message (take n (map message.truncate (ep_pending E1))) ms" "length rs = n"
        "sends s2 = sends s1 @ zip ms rs" "responses s2 = responses s1 @ filter (\<lambda>(m, r). r \<noteq> EN_SUCCESS) (zip ms rs)"
      by blast
    have "front_sent e n s s'"
      unfolding front_sent_def using sent(2-5) fin R(9,10) p q by (intro exI [of _ ms] exI [of _ rs]) simp
    then show ?thesis using True q' sent(1) p q by simp
  next
    case False
    then have "h' = 0 \<or> c' = 0" using hc by simp
    from retry_expired [OF R(2,3) this R(13) mc R(14)] show ?thesis
      using False q' fin R(9,10) p q by (auto simp: front_timed_out_def take_map)
  qed
qed

text \<open>Retrying after the waker of the endpoint was taken from the map.\<close>

lemma retry_waker:
  assumes ok: "linked s" and w: "waker_ok e s" and E: "emap s e = Some E" and running: "\<not> a_closing s"
    and top: "endpoint_waker s = (t, e) # ws" "t \<le> tick"
    and times: "list_all (\<lambda>pm. nanos_per_second \<le> expired_timepoint pm) (ep_pending E)"
    and r: "retry_pending_messages send e tick mc (s\<lparr>endpoint_waker := ws\<rparr>) = Inr (n, s')"
  shows "waker_ok e s'"
proof (cases "ep_pending E = []")
  case True
  then have "s' = (if ep_nearest_waker E \<le> tick then upd_endpoint e (\<lambda>E. E\<lparr>ep_nearest_waker := 0\<rparr>) (s\<lparr>endpoint_waker := ws\<rparr>)
      else s\<lparr>endpoint_waker := ws\<rparr>)"
    using r E by (simp add: retry_pending_messages_def Let_def)
  then show ?thesis using w E top True by (auto simp: waker_ok_def nanos_per_second_def)
next
  case False
  let ?s = "s\<lparr>endpoint_waker := ws\<rparr>"
  have "link_view ?s = link_view s" by (simp add: link_view_def conns_def fun_eq_iff)
  then have lk: "linked ?s" using linked_cong ok by blast
  have E': "emap ?s e = Some E" using E by simp
  obtain s1 E1 h c s2 where R: "s1 = upd_endpoint e (\<lambda>_. E1) ?s" "linked s1" "emap s1 e = Some E1" "hmap s1 = hmap ?s"
    "E1 = (if ep_nearest_waker E \<le> tick then E\<lparr>ep_nearest_waker := 0\<rparr> else E)" "a_conf s1 = a_conf ?s"
    "endpoint_waker s1 = endpoint_waker ?s" "rest_view s1 = rest_view ?s" "sends s1 = sends ?s" "responses s1 = responses ?s"
    "get_ready_connection_handle E ?s = Inr h" "connector_of h ?s = Inr c" "h \<noteq> 0 \<Longrightarrow> \<exists>H. hmap s1 h = Some H"
    "retry_loop (length (ep_pending E1)) send e tick h c (if mc \<le> 0 then int32_max else mc) s1 = Inr (n, s2)"
    "retry_finish e s2 = Inr s'" "quiet s1 s2"
    by (rule retry_cases [OF lk E' False r]) (rule that)
  have nn: "0 \<le> ep_nearest_waker E1" using w E by (auto simp: R(5) waker_ok_def)
  have reg: "(ep_nearest_waker E1, e) \<in> set ws" if "nanos_per_second \<le> ep_nearest_waker E1"
    using that w E top by (auto simp: R(5) waker_ok_def nanos_per_second_def split: if_splits)
  have "rest_view s2 = rest_view ?s" using R(8,16) by (simp add: quiet_def)
  from rest_view_fields(4) [OF this] have cl: "\<not> a_closing s2" using running by simp
  have w1: "endpoint_waker s1 = ws" "ep_pending E1 = ep_pending E" using R(7) by (simp_all add: R(5))
  note after = retry_loop_result [OF R(2,3,13) _ R(14)]
  have E2: "emap s2 e = Some ((pop_front ^^ n) E1)" "endpoint_waker s2 = ws" using after w1 by (simp_all add: int32_max_def)
  have p2: "ep_pending ((pop_front ^^ n) E1) = drop n (ep_pending E)" by (simp add: pop_fronts w1)
  show ?thesis
  proof (cases "drop n (ep_pending E)")
    case Nil
    then show ?thesis using R(15) E2 p2 nn reg by (auto simp: retry_finish_def waker_ok_def pop_fronts_waker)
  next
    case (Cons pm pms)
    then have "pm \<in> set (ep_pending E)" by (metis in_set_dropD list.set_intros(1))
    then have t: "nanos_per_second \<le> expired_timepoint pm" using times by (simp add: list_all_iff)
    have s': "s' = add_waker e (expired_timepoint pm) s2" using R(15) E2 p2 Cons by (simp add: retry_finish_def)
    show ?thesis
      using endpoint_waker_add [OF E2(1) cl _ _ t] nn reg E2(2) p2 Cons
      by (auto simp: s' waker_ok_def nanos_per_second_def pop_fronts_waker)
  qed
qed

section \<open>What a reset reports\<close>

lemma endpoint_unbind_each_frame: "endpoint_unbind_each hs e s = Inr s' \<Longrightarrow> frame s s'"
proof (induction hs arbitrary: s)
  case (Cons h hs)
  then obtain s1 where s1: "(if h \<noteq> 0 then endpoint_unbind h e s else Inr s) = Inr s1" "endpoint_unbind_each hs e s1 = Inr s'"
    by (auto simp: and_then_Inr_iff)
  then have "frame s s1" using run_call_frame by (auto simp: endpoint_unbind_def split: if_splits)
  then show ?case using Cons.IH [OF s1(2)] by (rule frame_trans)
qed simp

text \<open>The queued messages are reported in order, when there is a connection to report them through.\<close>

definition cancel_reports :: "addr \<Rightarrow> pending_message list \<Rightarrow> (message \<times> err_code) list" where
  "cancel_reports c q = (if c = 0 then [] else map (\<lambda>pm. (message.truncate pm, EN_ATBUS_ERR_CLOSING)) q)"

lemma cancel_loop_responses:
  assumes "linked s" "emap s e = Some E" "h \<noteq> 0 \<Longrightarrow> \<exists>H. hmap s h = Some H" "c \<noteq> 0" "cancel_loop rounds e h c s = Inr s'"
  shows "responses s' = responses s @ cancel_reports c (ep_pending E)"
  using assms
proof (induction rounds arbitrary: s E)
  case 0
  then have "ep_pending E = []" by (auto simp: cancel_loop.simps split: list.splits)
  then show ?case using 0 by (auto simp: cancel_loop.simps cancel_reports_def)
next
  case (Suc rounds)
  show ?case
  proof (cases "ep_pending E")
    case Nil
    then show ?thesis using Suc.prems by (auto simp: cancel_loop.simps cancel_reports_def)
  next
    case (Cons pm ms)
    define m where "m = message.truncate pm"
    obtain st where st: "trigger_on_receive_forward_response (app_id (a_conf s)) c h m EN_ATBUS_ERR_CLOSING s =
        Inr (emit (ForwardResponse st m EN_ATBUS_ERR_CLOSING) s)"
      using trigger_quiet [OF Suc.prems(1,3)] by metis
    define s1 where "s1 = pop_pending e (emit (ForwardResponse st m EN_ATBUS_ERR_CLOSING) s)"
    have ok1: "linked s1" unfolding s1_def by (rule quiet_linked [OF quiet_trans [OF quiet_emit pop_pending_quiet] Suc.prems(1)])
    have E1: "emap s1 e = Some (pop_front E)" unfolding s1_def by (rule pop_pending_emap) (simp add: Suc.prems(2))
    have "cancel_loop rounds e h c s1 = Inr s'"
      using Suc.prems(2,5) Cons st by (subst (asm) cancel_loop.simps) (simp add: m_def [symmetric] s1_def)
    from Suc.IH [OF ok1 E1 _ Suc.prems(4) this] Suc.prems(3) have "responses s' = responses s1 @ cancel_reports c ms"
      by (simp add: s1_def pop_front_def Cons)
    then show ?thesis using Suc.prems(4) by (simp add: s1_def m_def cancel_reports_def Cons)
  qed
qed

lemma destroy_responses:
  assumes ok: "app_ok s" and E: "emap s e = Some E"
    and h: "get_ready_connection_handle E s = Inr h" and c: "connector_of h s = Inr c"
  shows "\<exists>s'. endpoint_destroy e s = Inr s' \<and> responses s' = responses s @ cancel_reports c (ep_pending E) \<and> emap s' e = None"
proof -
  have lk: "linked s" and idle: "\<not> ep_closing E" using ok E by (auto simp: app_ok_def conn_ok_def idle_def)
  obtain s1 where s1: "endpoint_reset e s = Inr s1"
    using endpoint_reset_ok [OF _ _ E] ok by (auto simp: app_ok_def)
  let ?c = "upd_endpoint e (\<lambda>E. E\<lparr>ep_closing := True\<rparr>) s" and ?E = "E\<lparr>ep_closing := True\<rparr>"
  have E1: "emap ?c e = Some ?E" using E by simp
  have "link_view ?c = link_view s" by (auto simp: link_view_def conns_def fun_eq_iff)
  then have lk1: "linked ?c" using linked_cong lk by blast
  have hc: "get_ready_connection_handle ?E ?c = Inr h" "connector_of h ?c = Inr c"
    using h c first_ready_cong [of ?c s] connector_of_cong [of ?c s] by (simp_all add: get_ready_connection_handle_def)
  obtain k where k: "get_ready_connection_handle E s = Inr k" "k \<noteq> 0 \<Longrightarrow> \<exists>H. hmap s k = Some H"
    using get_ready_alive [OF lk E] by metis
  then have alive: "h \<noteq> 0 \<Longrightarrow> \<exists>H. hmap ?c h = Some H" using h by simp
  obtain s2 where s2: "cancel_pending_messages e ?c = Inr s2" using cancel_pending_messages_ok [OF lk1 E1] by blast
  have "(if c = 0 then Inr ?c else cancel_loop (length (ep_pending ?E)) e h c ?c) = Inr s2"
    using s2 unfolding cancel_pending_messages_def deref_endpoint_Some [OF E1] and_then_simps hc .
  then have r2: "responses s2 = responses s @ cancel_reports c (ep_pending E)"
    using cancel_loop_responses [OF lk1 E1 alive] by (auto simp: cancel_reports_def split: if_splits)
  obtain E2 :: endpoint and s3 where s3: "endpoint_unbind_each (ep_connections E2) e (upd_endpoint e (\<lambda>E. E\<lparr>ep_connections := []\<rparr>) s2) = Inr s3"
    "s1 = upd_endpoint e (\<lambda>E. E\<lparr>ep_closing := False\<rparr>) s3"
    using s1 idle unfolding endpoint_reset_def deref_endpoint_Some [OF E] and_then_simps s2
    by (auto simp: and_then_Inr_iff)
  have "responses s1 = responses s2" using endpoint_unbind_each_frame [OF s3(1)] by (simp add: s3(2) frame_def)
  then show ?thesis using s1 r2 by (simp add: endpoint_destroy_def responses_def)
qed

section \<open>Binding a handle that another endpoint holds\<close>

lemma rebind_fault:
  assumes ok: "linked s" and H: "hmap s h = Some H" and old: "h_endpiont H = e1" "e1 \<noteq> 0"
    and E: "emap s e2 = Some E" "\<not> ep_closing E" "e2 \<noteq> e1"
    and own: "h_connector H = c" "c \<noteq> 0" "h_refs H = [ConnectorRef c]" "c_class (cmap s c) = Loopback"
      "\<not> c_destroying (cmap s c)"
  shows "add_connection_handle e2 h s = Inl (UseAfterFree h)"
proof -
  obtain E1 where E1: "emap s e1 = Some E1" using linked_endpoint_ex [OF ok H] old by auto
  have "h \<in> set (c_stored (cmap s c))" using linked_stored [OF ok H] own(3) by auto
  then have drops: "close_drops s h H" using own by (simp add: close_drops_def drops_handle_def)
  have gone: "hmap (closed h s) h = None" using drops own by (simp add: hmap_closed [OF H] closed_handle_def)
  have "endpoint_unbind h e1 s = Inr (closed h s)" using endpoint_unbind_eq [OF ok H E1] old by simp
  then show ?thesis
    using H E old gone by (simp add: add_connection_handle_def endpoint_bind_def deref_handle_def)
qed

section \<open>An endpoint whose discovery node was renumbered\<close>

lemma renumbered_lookup:
  assumes d: "d \<noteq> 0" and running: "\<not> a_closing s" and node: "di_id (node_info (a_nodes s d)) = j" "di_name (node_info (a_nodes s d)) = nm"
    and nz: "j \<noteq> 0" "nm \<noteq> []" "e \<noteq> 0" and new: "map_of (endpoint_index_by_id s) j = None"
    and old: "map_of (endpoint_index_by_name s) nm = Some e"
  shows "mutable_endpoint env d s = Inr (e, index_endpoint True False j nm e d s)"
  using assms by (simp add: mutable_endpoint_def lookup_endpoint_def get_endpoint_by_id_def Let_def)

lemma renumbered_remove:
  assumes ok: "app_ok s" and d: "d \<noteq> 0" and e: "emap s e = Some E" "e \<noteq> 0"
    and node: "di_id (node_info (a_nodes s d)) = j" "di_name (node_info (a_nodes s d)) = nm" and ij: "i \<noteq> j"
    and old: "map_of (endpoint_index_by_id s) i = Some e"
  shows "\<exists>s'. remove_endpoint e (index_endpoint True False j nm e d s) = Inr s' \<and> app_ok s' \<and>
           get_endpoint_by_id i s' = e \<and> endpoint_drop e s' = Inr s'"
proof -
  let ?s = "index_endpoint True False j nm e d s"
  define s2 where "s2 = erase_name nm e (erase_id j e ?s)"
  have E1: "emap ?s e = Some (E\<lparr>ep_discovery := d\<rparr>)" using e by (simp add: index_endpoint_def update_discovery_def)
  have ids: "endpoint_get_id ?s (E\<lparr>ep_discovery := d\<rparr>) = j" "endpoint_get_name ?s (E\<lparr>ep_discovery := d\<rparr>) = nm"
    using d node by (simp_all add: endpoint_get_id_def endpoint_get_name_def index_endpoint_def update_discovery_def)
  have "app_ok ?s" using index_endpoint_ok(1) [OF ok] e by blast
  then have ok2: "app_ok s2" unfolding s2_def by (intro app_ok_erase)
  have E2: "emap s2 e = Some (E\<lparr>ep_discovery := d\<rparr>)" using E1 by (simp add: s2_def)
  obtain s' where s': "endpoint_reset e s2 = Inr s'" "app_ok s'" "shrinks s2 s'"
    using reset_app_ok [OF ok2 E2] by metis
  have "map_of (endpoint_index_by_id s2) i = Some e"
    using old ij by (simp add: s2_def erase_id_def index_endpoint_def update_discovery_def update_conv' delete_conv' upd_endpoint_def)
  moreover have "endpoint_index_by_id s' = endpoint_index_by_id s2"
    using s'(3) rest_view_fields(1) [of s' s2] by (simp add: shrinks_def)
  ultimately have still: "map_of (endpoint_index_by_id s') i = Some e" by simp
  then have "endpoint_indexed e s'" using map_of_SomeD [OF still] by (force simp: endpoint_indexed_def)
  then show ?thesis
    using s' e E1 ids still
    by (auto simp: remove_endpoint_def s2_def get_endpoint_by_id_def endpoint_drop_def)
qed

end
