(* ===== verification/Loopback_Facts.thy ===== *)
theory Loopback_Facts
  imports App_Run "HOL-Library.Sublist"
begin

text \<open>
  The loopback connector as a FIFO channel. Its abstract state is one list: what was delivered to
  the application, followed by what is still queued. A send appends to it or leaves it alone, and
  \<^verbatim>\<open>process\<close> only moves the border between the two parts.
\<close>

section \<open>The abstract channel\<close>

fun delivery :: "event \<Rightarrow> message list" where
  "delivery (ForwardRequest _ m) = [m]"
| "delivery _ = []"

definition delivered :: "app_state \<Rightarrow> message list" where
  "delivered s = concat (map delivery (a_events s))"

definition lb_history :: "addr \<Rightarrow> app_state \<Rightarrow> message list" where
  "lb_history c s = delivered s @ lb_pending (cmap s c)"

text \<open>A step of \<^verbatim>\<open>process\<close>: deliveries are a prefix of what was queued, new messages go behind.\<close>

definition channel_step :: "addr \<Rightarrow> nat \<Rightarrow> message list \<Rightarrow> app_state \<Rightarrow> app_state \<Rightarrow> bool" where
  "channel_step c n sent s s' \<longleftrightarrow>
     lb_history c s' = lb_history c s @ sent \<and> length (delivered s') = length (delivered s) + n"

lemma delivered_simps [simp]:
  "delivered (emit ev s) = delivered s @ delivery ev" "delivered (upd_connector c f s) = delivered s"
  by (simp_all add: delivered_def)

lemma channel_step_refl: "channel_step c 0 [] s s"
  by (simp add: channel_step_def)

lemma channel_step_trans:
  "channel_step c n xs s s1 \<Longrightarrow> channel_step c k ys s1 s2 \<Longrightarrow> channel_step c (n + k) (xs @ ys) s s2"
  by (simp add: channel_step_def)

text \<open>The messages between two states of the channel.\<close>

lemma channel_step_delivered:
  assumes "channel_step c n sent s s'"
  shows "delivered s' = delivered s @ take n (lb_pending (cmap s c) @ sent)"
    "lb_pending (cmap s' c) = drop n (lb_pending (cmap s c) @ sent)"
proof -
  have h: "delivered s' @ lb_pending (cmap s' c) = delivered s @ lb_pending (cmap s c) @ sent"
    and n: "length (delivered s') = length (delivered s) + n"
    using assms by (simp_all add: channel_step_def lb_history_def)
  from h n show "delivered s' = delivered s @ take n (lb_pending (cmap s c) @ sent)"
    "lb_pending (cmap s' c) = drop n (lb_pending (cmap s c) @ sent)"
    by (auto simp: append_eq_append_conv_if append_eq_conv_conj min_def split: if_splits)
qed

section \<open>Sending\<close>

definition accepted :: "addr \<Rightarrow> addr \<Rightarrow> message \<Rightarrow> app_state \<Rightarrow> bool" where
  "accepted c h m s \<longleftrightarrow> h \<noteq> 0 \<and> msg_data m \<noteq> [] \<and>
     \<not> over_buffer_limit (a_conf s) (length (lb_pending (cmap s c))) (lb_pending_size (cmap s c)) (length (msg_data m))"

lemma loopback_send_step:
  "channel_step c 0 (if accepted c h m s then [m] else []) s (snd (loopback_on_send_forward_request c h m s))"
  by (simp add: channel_step_def lb_history_def loopback_on_send_forward_request_def accepted_def Let_def)

lemma self_sender_quiet: "quiet s s' \<Longrightarrow> self_sender s' = self_sender s"
  using rest_view_fields [of s' s]
  by (simp add: quiet_def self_sender_def get_endpoint_by_name_def get_endpoint_by_id_def Let_def)

lemma send_all_step: "\<exists>sent. subseq sent ms \<and> channel_step c 0 sent s (send_all c h ms s)"
proof (induction ms arbitrary: s)
  case (Cons m ms)
  obtain sent where sent: "subseq sent ms"
    "channel_step c 0 sent (snd (loopback_on_send_forward_request c h m s)) (send_all c h (m # ms) s)"
    using Cons.IH [of "snd (loopback_on_send_forward_request c h m s)"] by auto
  from channel_step_trans [OF loopback_send_step [of c h m s] sent(2)] show ?case
    using sent(1) by (intro exI [of _ "(if accepted c h m s then [m] else []) @ sent"]) (auto simp: subseq_Cons')
qed (auto intro: channel_step_refl)

section \<open>Processing\<close>

lemma loopback_deliver_step:
  assumes "lb_pending (cmap s c) = m # ms"
  shows "\<exists>sent. subseq sent (cb (self_sender s) m) \<and> channel_step c 1 sent s (loopback_deliver cb c h m s)"
proof -
  let ?s1 = "emit (ForwardRequest (self_sender s) m) s"
  obtain sent where sent: "subseq sent (cb (self_sender s) m)"
    "channel_step c 0 sent ?s1 (send_all c h (cb (self_sender s) m) ?s1)"
    using send_all_step by blast
  have d: "delivered (send_all c h (cb (self_sender s) m) ?s1) = delivered s @ [m]"
    "lb_pending (cmap (send_all c h (cb (self_sender s) m) ?s1) c) = m # ms @ sent"
    using channel_step_delivered [OF sent(2)] assms by simp_all
  then have "channel_step c 1 sent s (loopback_deliver cb c h m s)"
    using assms by (simp add: loopback_deliver_def Let_def channel_step_def lb_history_def)
  then show ?thesis using sent(1) by blast
qed

text \<open>
  What the callbacks may have sent for the messages delivered between two states, in order.
\<close>

definition replies :: "request_callback \<Rightarrow> app_state \<Rightarrow> app_state \<Rightarrow> message list" where
  "replies cb s s' = concat (map (cb (self_sender s)) (drop (length (delivered s)) (delivered s')))"

definition fifo_run :: "request_callback \<Rightarrow> addr \<Rightarrow> nat \<Rightarrow> app_state \<Rightarrow> app_state \<Rightarrow> bool" where
  "fifo_run cb c n s s' \<longleftrightarrow> (\<exists>sent. subseq sent (replies cb s s') \<and> channel_step c n sent s s')"

lemma fifo_run_refl: "fifo_run cb c 0 s s"
  using channel_step_refl by (auto simp: fifo_run_def)

lemma fifo_run_trans:
  assumes "fifo_run cb c n s s1" "fifo_run cb c k s1 s2" "quiet s s1"
  shows "fifo_run cb c (n + k) s s2"
proof -
  obtain xs ys where xy: "subseq xs (replies cb s s1)" "channel_step c n xs s s1"
    "subseq ys (replies cb s1 s2)" "channel_step c k ys s1 s2"
    using assms by (auto simp: fifo_run_def)
  have "replies cb s s2 = replies cb s s1 @ replies cb s1 s2"
    unfolding replies_def self_sender_quiet [OF assms(3)] channel_step_delivered(1) [OF xy(4)]
      channel_step_delivered(1) [OF xy(2)] by simp
  then have "subseq (xs @ ys) (replies cb s s2)" using xy(1,3) by (simp add: list_emb_append_mono)
  then show ?thesis using channel_step_trans [OF xy(2,4)] by (auto simp: fifo_run_def)
qed

lemma loopback_deliver_fifo:
  assumes "lb_pending (cmap s c) = m # ms"
  shows "fifo_run cb c 1 s (loopback_deliver cb c h m s)"
proof -
  obtain sent where sent: "subseq sent (cb (self_sender s) m)" "channel_step c 1 sent s (loopback_deliver cb c h m s)"
    using loopback_deliver_step [of s c m ms cb h] assms by blast
  have "replies cb s (loopback_deliver cb c h m s) = cb (self_sender s) m"
    using channel_step_delivered(1) [OF sent(2)] assms by (simp add: replies_def)
  then show ?thesis using sent by (auto simp: fifo_run_def)
qed

lemma loopback_batch_fifo: "loopback_batch cb c h limit s = (n, s') \<Longrightarrow> fifo_run cb c n s s' \<and> n \<le> limit"
proof (induction limit arbitrary: s n)
  case (Suc limit)
  show ?case
  proof (cases "lb_pending (cmap s c)")
    case (Cons m ms)
    then obtain k where k: "loopback_batch cb c h limit (loopback_deliver cb c h m s) = (k, s')" "n = Suc k"
      using Suc.prems by (auto split: prod.splits)
    from Suc.IH [OF k(1)] fifo_run_trans [OF loopback_deliver_fifo [OF Cons, of cb h] _ loopback_deliver_quiet]
    show ?thesis using k(2) by fastforce
  qed (use Suc.prems fifo_run_refl in auto)
qed (simp add: fifo_run_refl)

lemma loopback_loop_fifo:
  "loopback_loop fuel cb c h clock mx limit i s = Some (n, s') \<Longrightarrow> fifo_run cb c n s s'"
proof (induction fuel arbitrary: s i n)
  case 0
  then show ?case by (simp add: loopback_loop.simps fifo_run_refl split: if_splits)
next
  case (Suc fuel)
  show ?case
  proof (cases "lb_pending (cmap s c) = []")
    case True
    then show ?thesis using Suc.prems by (simp add: loopback_loop.simps fifo_run_refl)
  next
    case False
    obtain k s1 where b: "loopback_batch cb c h limit s = (k, s1)" by (cases "loopback_batch cb c h limit s")
    note f = conjunct1 [OF loopback_batch_fifo [OF b]] and q = loopback_batch_quiet [OF b]
    show ?thesis
      using Suc.prems False b f Suc.IH fifo_run_trans [OF f _ q]
      by (subst (asm) loopback_loop.simps) (auto split: if_splits)
  qed
qed

text \<open>
  The loop stops by the time the clock passes its end: \<open>j\<close> more rounds suffice when reading
  \<open>i + j\<close> is at or after it.
\<close>

lemma loopback_loop_returns:
  "mx \<le> clock (i + j) \<Longrightarrow> j < fuel \<Longrightarrow> loopback_loop fuel cb c h clock mx limit i s \<noteq> None"
proof (induction fuel arbitrary: s i j)
  case (Suc fuel)
  obtain k s1 where b: "loopback_batch cb c h limit s = (k, s1)" by (cases "loopback_batch cb c h limit s")
  show ?case
  proof (cases j)
    case 0
    then show ?thesis using Suc.prems b by (subst loopback_loop.simps) simp
  next
    case (Suc j')
    have "loopback_loop fuel cb c h clock mx limit (Suc i) s1 \<noteq> None"
      using Suc.IH [of "Suc i" j' s1] Suc.prems Suc by simp
    then show ?thesis using b by (subst loopback_loop.simps) auto
  qed
qed simp

end
