(* ===== verification/Connection_Claims.thy ===== *)
theory Connection_Claims
  imports Connection_Facts Loopback_Facts
begin

text \<open>
  The properties of the connection layer, each with a witness on the small application below: a
  loopback connection (endpoint 1, handle 2, connector 100) and a remote application without a
  connection (endpoint 3, node 3), which has one message queued.
\<close>

section \<open>A small application\<close>

definition sample_conf :: app_conf where
  "sample_conf = \<lparr>app_id = 7, app_name = ''a'', timer_tick_interval = 8000000, endpoint_gc_seconds = 60, endpoint_gc_nanos = 0,
     message_timeout_seconds = 5, message_timeout_nanos = 0, send_buffer_number = 2, send_buffer_size = 100, loop_times = 10\<rparr>"

definition sample_node :: "u64 \<Rightarrow> string \<Rightarrow> etcd_discovery_node" where
  "sample_node i nm = etcd_discovery_node_create\<lparr>node_info := empty_discovery\<lparr>di_id := i, di_name := nm\<rparr>\<rparr>"

definition sample_heap :: node_heap where
  "sample_heap = (\<lambda>_. etcd_discovery_node_create)(1 := sample_node 7 ''a'', 3 := sample_node 9 ''b'', 5 := sample_node 12 ''b'')"

definition sample_class :: "addr \<Rightarrow> connector_class" where
  "sample_class c = (if c = 100 then Loopback else BaseConnector)"

definition sample_message :: message where
  "sample_message = \<lparr>msg_type = 1, message_sequence = 4, msg_data = [1, 2, 3], msg_metadata = None\<rparr>"

definition sample_handle :: conn_handle where
  "sample_handle = \<lparr>h_flags = 2, h_private_data = 2, h_connector = 100, h_endpiont = 1, h_on_destroy_fn = None,
     h_refs = [ConnectorRef 100]\<rparr>"

definition sample_local :: endpoint where
  "sample_local = \<lparr>ep_closing = False, ep_nearest_waker = 0, ep_gc_timepoint = 70000000000, ep_connections = [2],
     ep_discovery = 1, ep_pending = [], ep_pending_size = 0\<rparr>"

definition sample_remote :: endpoint where
  "sample_remote = \<lparr>ep_closing = False, ep_nearest_waker = 11000000000, ep_gc_timepoint = 70000000000, ep_connections = [],
     ep_discovery = 3, ep_pending = [to_pending 15000000000 sample_message], ep_pending_size = 3\<rparr>"

definition sample_start :: app_state where
  "sample_start = app_start sample_conf sample_class 100 [] sample_heap 10000000000"

definition sample_app :: app_state where
  "sample_app = sample_start
     \<lparr>hmap := [2 \<mapsto> sample_handle], emap := [1 \<mapsto> sample_local, 3 \<mapsto> sample_remote],
      cmap := (cmap sample_start)(100 := (connector_create Loopback)\<lparr>c_handles := [2], c_stored := [2]\<rparr>),
      endpoint_index_by_id := [(7, 1), (9, 3)], endpoint_index_by_name := [(''a'', 1), (''b'', 3)],
      endpoint_waker := [(11000000000, 3)], next_addr := 101\<rparr>"

definition sample_env :: app_env where
  "sample_env = \<lparr>env_hostname = [], env_metadata = default_metadata, env_text = ascii_text, env_scheme = (\<lambda>_. []),
     env_connect = (\<lambda>_ _ _. (EN_SUCCESS, False, False)), env_send = (\<lambda>_ _ m _. (EN_SUCCESS, message_sequence m)),
     env_callback = (\<lambda>_ _. []), env_reply_handle = 2\<rparr>"

lemma sample_fields [simp]:
  "hmap sample_app = [2 \<mapsto> sample_handle]" "emap sample_app = [1 \<mapsto> sample_local, 3 \<mapsto> sample_remote]"
  "endpoint_index_by_id sample_app = [(7, 1), (9, 3)]" "endpoint_index_by_name sample_app = [(''a'', 1), (''b'', 3)]"
  "endpoint_waker sample_app = [(11000000000, 3)]" "next_addr sample_app = 101" "\<not> a_closing sample_app"
  "last_tick_timepoint sample_app = 10000000000" "a_conf sample_app = sample_conf" "a_nodes sample_app = sample_heap"
  "cmap sample_app 100 = (connector_create Loopback)\<lparr>c_handles := [2], c_stored := [2]\<rparr>"
  "c \<noteq> 100 \<Longrightarrow> cmap sample_app c = connector_create BaseConnector"
  by (simp_all add: sample_app_def sample_start_def app_start_def sample_class_def)

lemma sample_handle_simps [simp]:
  "h_connector sample_handle = 100" "h_endpiont sample_handle = 1" "h_refs sample_handle = [ConnectorRef 100]"
  "\<not> handle_is_closing sample_handle" "handle_is_ready sample_handle"
  by (simp_all add: sample_handle_def handle_is_closing_def handle_is_ready_def)

lemma sample_endpoint_simps [simp]:
  "ep_connections sample_local = [2]" "ep_connections sample_remote = []" "\<not> ep_closing sample_local" "\<not> ep_closing sample_remote"
  "ep_pending sample_remote = [to_pending 15000000000 sample_message]" "ep_pending_size sample_remote = 3"
  "ep_nearest_waker sample_remote = 11000000000"
  by (simp_all add: sample_local_def sample_remote_def)

lemma sample_linked: "linked sample_app"
proof -
  have c: "c_handles (cmap sample_app c) = (if c = 100 then [2] else [])" "c_stored (cmap sample_app c) = (if c = 100 then [2] else [])" for c
    by (auto simp: connector_create_def)
  show ?thesis by (auto simp: linked_def links_ok_def handle_ok_def conns_def c)
qed

lemma sample_app_ok: "app_ok sample_app"
  using sample_linked
  by (auto simp: app_ok_def conn_ok_def idle_def fresh_ok_def index_ok_def endpoint_indexed_def split: if_splits)

section \<open>Pointers\<close>



text \<open>C16: Closing a connection gives the same state whether it starts at the handle, at its endpoint or at its
  connector: the handle is gone or closing, unready and without pointers, no endpoint and no connector
  lists it, and the pointers of all objects still match.\<close>

theorem close_any_side:
  assumes ok: "linked s" and H: "hmap s h = Some H" and both: "h_endpiont H \<noteq> 0" "h_connector H \<noteq> 0"
  shows "\<exists>s'. handle_close h s = Inr s' \<and> endpoint_unbind h (h_endpiont H) s = Inr s' \<and>
           connector_unbind h (h_connector H) s = Inr s' \<and> linked s' \<and>
           (\<forall>H'. hmap s' h = Some H' \<longrightarrow> handle_is_closing H' \<and> \<not> handle_is_ready H' \<and> h_endpiont H' = 0 \<and> h_connector H' = 0) \<and>
           (\<forall>e E. emap s' e = Some E \<longrightarrow> h \<notin> set (ep_connections E)) \<and> (\<forall>c. h \<notin> set (c_handles (cmap s' c)))"
proof -
  obtain E where E: "emap s (h_endpiont H) = Some E" using linked_endpoint_ex [OF ok H both(1)] by blast
  have opened: "\<not> handle_is_closing H" using closing_unlinked [OF ok H] both by blast
  let ?s = "closed h s"
  have lk: "linked ?s" by (rule linked_closed [OF ok H])
  have H': "H' = closed_handle s h H" if "hmap ?s h = Some H'" for H'
    using that by (auto simp: hmap_closed [OF H] split: if_splits)
  then have gone: "h_endpiont H' = 0 \<and> h_connector H' = 0" if "hmap ?s h = Some H'" for H'
    using that by (auto simp: closed_handle_def)
  have "h \<notin> set (ep_connections E')" if "emap ?s e = Some E'" for e E'
    using linked_conns [OF lk that, of h] gone linked_null [OF lk] that by (cases "e = 0") auto
  moreover have "h \<notin> set (c_handles (cmap ?s c))" for c
    using linked_connector [OF lk, of h c] gone linked_zero_handles [OF lk] by (cases "c = 0") auto
  ultimately show ?thesis
    using handle_close_eq [OF ok H] endpoint_unbind_eq [OF ok H E] connector_unbind_eq [OF ok H both(2)] opened lk H'
    by (auto simp: closed_handle_def)
qed

lemma close_any_side_witness:
  "\<exists>s'. handle_close 2 sample_app = Inr s' \<and> endpoint_unbind 2 1 sample_app = Inr s' \<and> connector_unbind 2 100 sample_app = Inr s'"
  using close_any_side [OF sample_linked, of 2 sample_handle] by auto

text \<open>C33: Binding a handle to an endpoint while another endpoint holds it destroys the handle when the loopback
  connector owns the only reference to it: \<^verbatim>\<open>unbind\<close> of the old endpoint closes the connection,
  the connector drops its reference, and \<^verbatim>\<open>bind\<close> goes on with the destroyed handle.\<close>

theorem rebind_use_after_free:
  assumes "linked s" "hmap s h = Some H" "h_endpiont H = e1" "e1 \<noteq> 0" "emap s e2 = Some E" "\<not> ep_closing E" "e2 \<noteq> e1"
    and "h_connector H = c" "c \<noteq> 0" "h_refs H = [ConnectorRef c]" "c_class (cmap s c) = Loopback" "\<not> c_destroying (cmap s c)"
  shows "add_connection_handle e2 h s = Inl (UseAfterFree h)"
  using assms by (rule rebind_fault)

lemma rebind_use_after_free_witness: "add_connection_handle 3 2 sample_app = Inl (UseAfterFree 2)"
  by (rule rebind_use_after_free [OF sample_linked, of 2 sample_handle 1 3 sample_remote 100]) (simp_all add: connector_create_def)

section \<open>Messages\<close>

text \<open>C4: A pushed message is never lost: it is handed to a connector that accepts it, or it is queued at the
  back of the endpoint, or its failure is reported to the application exactly once; the return code says
  which, and the returned sequence number is the one of the message sent, queued or reported.\<close>

theorem push_no_message_lost:
  assumes ok: "linked s" and E: "emap s e = Some E" and "\<not> ep_closing E" "msg_data m \<noteq> []"
  shows "\<exists>r sq s' m'. push_forward_message send e m s = Inr ((r, sq), s') \<and> same_message m m' \<and> sq = message_sequence m' \<and>
           (if r = EN_SUCCESS then handed_over e m' s s' \<or> queued e m' s s' else reported e m' r s s')"
proof -
  obtain r sq s' where "push_forward_message send e m s = Inr ((r, sq), s')"
    using push_forward_message_ok [OF ok E] by (metis surj_pair)
  then show ?thesis using push_outcome [OF assms] by blast
qed

lemma push_no_message_lost_witness:
  "\<exists>r sq s' m'. push_forward_message (env_send sample_env) 3 sample_message sample_app = Inr ((r, sq), s') \<and>
     same_message sample_message m' \<and> sq = message_sequence m' \<and>
     (if r = EN_SUCCESS then handed_over 3 m' sample_app s' \<or> queued 3 m' sample_app s' else reported 3 m' r sample_app s')"
  by (rule push_no_message_lost [OF sample_linked, of 3 sample_remote]) (simp_all add: sample_message_def)



text \<open>C11: A retry takes messages from the front of the queue only. With a ready connection it sends the first
  \<^verbatim>\<open>max_count\<close> messages (all of them up to the range of \<^verbatim>\<open>int32_t\<close> when the count is
  not positive) in the order they were queued and reports every send that fails; without one it reports the
  messages that expired, up to the first that did not.\<close>

theorem retry_fifo:
  assumes ok: "linked s" and E: "emap s e = Some E" and "ep_pending E \<noteq> []"
  shows "\<exists>n s' h c. retry_pending_messages send e tick mc s = Inr (n, s') \<and>
     get_ready_connection_handle E s = Inr h \<and> connector_of h s = Inr c \<and>
     queue_of e s' = drop n (queue_of e s) \<and>
     (if h \<noteq> 0 \<and> c \<noteq> 0
      then n = min (nat (if mc \<le> 0 then int32_max else mc)) (length (queue_of e s)) \<and> front_sent e n s s'
      else n = length (takeWhile (\<lambda>pm. expired_timepoint pm \<le> tick) (ep_pending E)) \<and> front_timed_out e n s s')"
proof -
  obtain n s' where run: "retry_pending_messages send e tick mc s = Inr (n, s')"
    using retry_pending_messages_ok [OF ok E] by blast
  obtain h where h: "get_ready_connection_handle E s = Inr h" "h \<noteq> 0 \<Longrightarrow> \<exists>H. hmap s h = Some H"
    using get_ready_alive [OF ok E] by metis
  obtain c where c: "connector_of h s = Inr c" using connector_of_alive [OF h(2)] by metis
  show ?thesis using retry_outcome [OF assms run h(1) c] run h(1) c by blast
qed

lemma retry_fifo_witness:
  "\<exists>n s' h c. retry_pending_messages (env_send sample_env) 3 20000000000 0 sample_app = Inr (n, s') \<and>
     get_ready_connection_handle sample_remote sample_app = Inr h \<and> connector_of h sample_app = Inr c \<and>
     queue_of 3 s' = drop n (queue_of 3 sample_app) \<and>
     (if h \<noteq> 0 \<and> c \<noteq> 0
      then n = min (nat (if (0::int) \<le> 0 then int32_max else 0)) (length (queue_of 3 sample_app)) \<and> front_sent 3 n sample_app s'
      else n = length (takeWhile (\<lambda>pm. expired_timepoint pm \<le> 20000000000) (ep_pending sample_remote)) \<and>
        front_timed_out 3 n sample_app s')"
  by (rule retry_fifo [OF sample_linked]) simp_all

text \<open>C9: No queued message is forgotten by the event loop: while the application runs, an endpoint with queued
  messages stays in the waker map no later than the expiry of its first message, across a push and across
  the retry that runs when its waker is taken from the map.\<close>

theorem queued_messages_stay_awake:
  assumes ok: "linked s" and w: "waker_ok e s" and E: "emap s e = Some E" and running: "\<not> a_closing s"
    and now: "nanos_per_second \<le> last_tick_timepoint s + get_configure_message_timeout (a_conf s)"
    and times: "list_all (\<lambda>pm. nanos_per_second \<le> expired_timepoint pm) (ep_pending E)"
  shows "(\<forall>m r s'. push_forward_message send e m s = Inr (r, s') \<longrightarrow> waker_ok e s') \<and>
         (\<forall>t ws tick mc n s'. endpoint_waker s = (t, e) # ws \<longrightarrow> t \<le> tick \<longrightarrow>
            retry_pending_messages send e tick mc (s\<lparr>endpoint_waker := ws\<rparr>) = Inr (n, s') \<longrightarrow> waker_ok e s')"
  using push_forward_waker [OF ok w E running now] retry_waker [OF ok w E running _ _ times] by blast

lemma queued_messages_stay_awake_witness:
  "(\<exists>r s'. push_forward_message (env_send sample_env) 3 sample_message sample_app = Inr (r, s') \<and> waker_ok 3 s') \<and>
   (\<exists>n s'. retry_pending_messages (env_send sample_env) 3 11000000000 0 (sample_app\<lparr>endpoint_waker := []\<rparr>) = Inr (n, s') \<and>
      waker_ok 3 s')"
proof -
  have e: "emap sample_app 3 = Some sample_remote" by simp
  have "link_view (sample_app\<lparr>endpoint_waker := []\<rparr>) = link_view sample_app" by (simp add: link_view_def conns_def fun_eq_iff)
  then have lk: "linked (sample_app\<lparr>endpoint_waker := []\<rparr>)" using linked_cong sample_linked by blast
  obtain r s1 where push: "push_forward_message (env_send sample_env) 3 sample_message sample_app = Inr (r, s1)"
    using push_forward_message_ok [OF sample_linked e] by blast
  obtain n s2 where retry: "retry_pending_messages (env_send sample_env) 3 11000000000 0 (sample_app\<lparr>endpoint_waker := []\<rparr>) = Inr (n, s2)"
    using retry_pending_messages_ok [OF lk, of 3 sample_remote] by fastforce
  have w: "waker_ok 3 sample_app" by (simp add: waker_ok_def nanos_per_second_def to_pending_def)
  note awake = queued_messages_stay_awake [OF sample_linked w e, of "env_send sample_env"]
  have h: "nanos_per_second \<le> last_tick_timepoint sample_app + get_configure_message_timeout (a_conf sample_app)"
    "list_all (\<lambda>pm. nanos_per_second \<le> expired_timepoint pm) (ep_pending sample_remote)"
    by (simp_all add: nanos_per_second_def to_pending_def get_configure_message_timeout_def sample_conf_def)
  show ?thesis using awake [OF sample_fields(7) h] push retry by (metis order_refl sample_fields(5))
qed

text \<open>Destroying an endpoint reports every queued message, in order, with
  \<^verbatim>\<open>EN_ATBUS_ERR_CLOSING\<close> when it has a ready connection, and drops the queue without a word to
  the application when it has none, which is the case messages are queued for.\<close>

theorem destroy_reports_only_when_connected:
  assumes "app_ok s" "emap s e = Some E" "get_ready_connection_handle E s = Inr h" "connector_of h s = Inr c"
  shows "\<exists>s'. endpoint_destroy e s = Inr s' \<and> emap s' e = None \<and>
           responses s' = responses s @ (if c = 0 then [] else map (\<lambda>m. (m, EN_ATBUS_ERR_CLOSING)) (queue_of e s))"
  using destroy_responses [OF assms] by (auto simp: cancel_reports_def queue_of_Some [OF assms(2)])

lemma destroy_reports_only_when_connected_witness:
  "\<exists>s'. endpoint_destroy 3 sample_app = Inr s' \<and> emap s' 3 = None \<and>
     responses s' = responses sample_app @ (if (0::addr) = 0 then [] else map (\<lambda>m. (m, EN_ATBUS_ERR_CLOSING)) (queue_of 3 sample_app))"
  by (rule destroy_reports_only_when_connected [OF sample_app_ok, of 3 sample_remote 0])
    (simp_all add: get_ready_connection_handle_def connector_of_def)

section \<open>The registry\<close>

text \<open>When a known service comes back under its name with another id, its endpoint gets an entry for the new
  id and keeps the one for the old id; removing the endpoint then erases the new id and the name only, so
  a lookup of the old id still finds the removed endpoint.\<close>

theorem renumbered_endpoint_stays_indexed:
  assumes ok: "app_ok s" and d: "d \<noteq> 0" and running: "\<not> a_closing s"
    and node: "di_id (node_info (a_nodes s d)) = j" "di_name (node_info (a_nodes s d)) = nm"
    and new: "j \<noteq> 0" "nm \<noteq> []" "map_of (endpoint_index_by_id s) j = None"
    and old: "map_of (endpoint_index_by_name s) nm = Some e" "map_of (endpoint_index_by_id s) i = Some e"
  shows "\<exists>s1 s2. mutable_endpoint env d s = Inr (e, s1) \<and> get_endpoint_by_id i s1 = e \<and> get_endpoint_by_id j s1 = e \<and>
           remove_endpoint e s1 = Inr s2 \<and> endpoint_drop e s2 = Inr s2 \<and> get_endpoint_by_id i s2 = e \<and> emap s2 e \<noteq> None"
proof -
  obtain E where E: "emap s e = Some E"
    using app_ok_values(1) [OF ok] map_of_SomeD [OF old(2)] by (force simp: image_iff)
  have e: "e \<noteq> 0" using app_ok_null [OF ok] E by (cases "e = 0") auto
  have ij: "i \<noteq> j" using old(2) new(3) by auto
  let ?s1 = "index_endpoint True False j nm e d s"
  have lookups: "get_endpoint_by_id i ?s1 = e" "get_endpoint_by_id j ?s1 = e"
    using old(2) ij
    by (simp_all add: get_endpoint_by_id_def index_endpoint_def update_discovery_def upd_endpoint_def update_conv')
  obtain s2 where s2: "remove_endpoint e ?s1 = Inr s2" "app_ok s2" "get_endpoint_by_id i s2 = e" "endpoint_drop e s2 = Inr s2"
    using renumbered_remove [OF ok d E e node ij old(2)] by blast
  have "map_of (endpoint_index_by_id s2) i = Some e"
    using s2(3) e by (auto simp: get_endpoint_by_id_def split: option.splits)
  then have "emap s2 e \<noteq> None" using app_ok_values(1) [OF s2(2)] map_of_SomeD by (force simp: image_iff)
  then show ?thesis
    using renumbered_lookup [OF d running node new(1,2) e new(3) old(1)] lookups s2
    by (intro exI [of _ ?s1] exI [of _ s2]) simp
qed

lemma renumbered_endpoint_stays_indexed_witness:
  "\<exists>s1 s2. mutable_endpoint sample_env 5 sample_app = Inr (3, s1) \<and> get_endpoint_by_id 9 s1 = 3 \<and> get_endpoint_by_id 12 s1 = 3 \<and>
     remove_endpoint 3 s1 = Inr s2 \<and> endpoint_drop 3 s2 = Inr s2 \<and> get_endpoint_by_id 9 s2 = 3 \<and> emap s2 3 \<noteq> None"
  by (rule renumbered_endpoint_stays_indexed [OF sample_app_ok, of 5 12 "''b''"])
    (simp_all add: sample_heap_def sample_node_def)



section \<open>The loopback channel\<close>



end
