(* ===== verification/Config_Expression.thy ===== *)
theory Config_Expression
  imports Prelude
begin

text \<open>
  Environment expressions in configuration values (\<^verbatim>\<open>src/atframe/atapp_conf.cpp\<close>,
  \<^verbatim>\<open>expand_expression_impl\<close> and its scanners). The environment is a parameter
  \<open>getenv\<close>: the value of a variable, empty when it is not set.
\<close>

section \<open>The scanners\<close>

definition is_variable_name_char :: "char \<Rightarrow> bool" where
  "is_variable_name_char c \<longleftrightarrow>
     CHR ''A'' \<le> c \<and> c \<le> CHR ''Z'' \<or> CHR ''a'' \<le> c \<and> c \<le> CHR ''z'' \<or> CHR ''0'' \<le> c \<and> c \<le> CHR ''9'' \<or> c = CHR ''_''"

abbreviation backslash :: char where
  "backslash \<equiv> CHR 0x5C"

text \<open>The index of the closing brace, from a position at nesting \<open>depth\<close>.\<close>

fun find_close :: "nat \<Rightarrow> string \<Rightarrow> nat option" where
  "find_close depth [] = None"
| "find_close depth [c] = (if c = CHR ''}'' \<and> depth - 1 = 0 then Some 0 else None)"
| "find_close depth (c # c' # cs) =
     (if c = backslash then map_option (\<lambda>i. i + 2) (find_close depth cs)
      else if c = CHR ''$'' \<and> c' = CHR ''{'' then map_option (\<lambda>i. i + 2) (find_close (depth + 1) cs)
      else if c = CHR ''}'' then (if depth - 1 = 0 then Some 0 else map_option (\<lambda>i. i + 1) (find_close (depth - 1) (c' # cs)))
      else map_option (\<lambda>i. i + 1) (find_close depth (c' # cs)))"

definition find_matching_close_brace :: "string \<Rightarrow> nat option" where
  "find_matching_close_brace input = find_close 1 input"

text \<open>The index of the first operator outside nested braces.\<close>

fun find_operator :: "nat \<Rightarrow> string \<Rightarrow> nat option" where
  "find_operator depth [] = None"
| "find_operator depth [c] = None"
| "find_operator depth (c # c' # cs) =
     (if c = backslash then map_option (\<lambda>i. i + 2) (find_operator depth cs)
      else if c = CHR ''$'' \<and> c' = CHR ''{'' then map_option (\<lambda>i. i + 2) (find_operator (depth + 1) cs)
      else if c = CHR ''}'' then map_option (\<lambda>i. i + 1) (find_operator (if depth > 0 then depth - 1 else depth) (c' # cs))
      else if depth = 0 \<and> c = CHR '':'' \<and> (c' = CHR ''-'' \<or> c' = CHR ''+'') then Some 0
      else map_option (\<lambda>i. i + 1) (find_operator depth (c' # cs)))"

definition find_top_level_operator :: "string \<Rightarrow> nat option" where
  "find_top_level_operator content = find_operator 0 content"

section \<open>Expansion\<close>

definition kMaxExpressionRecursionDepth :: nat where
  "kMaxExpressionRecursionDepth = 32"

text \<open>\<^verbatim>\<open>getenv\<close> is called with a C string: the name ends at the first NUL.\<close>

definition c_str :: "string \<Rightarrow> string" where
  "c_str s = takeWhile (\<lambda>c. c \<noteq> CHR 0x00) s"

text \<open>The value of \<open>${content}\<close>; \<open>expand\<close> is the expansion one level deeper.\<close>

definition braced_value :: "(string \<Rightarrow> string) \<Rightarrow> (string \<Rightarrow> string) \<Rightarrow> string \<Rightarrow> string" where
  "braced_value getenv expand content =
     (case find_top_level_operator content of
        Some op_pos \<Rightarrow>
          let env_val = getenv (c_str (expand (take op_pos content)));
              arg_part = drop (op_pos + 2) content
          in if content ! (op_pos + 1) = CHR ''-''
             then (if env_val = [] then expand arg_part else env_val)
             else (if env_val \<noteq> [] then expand arg_part else [])
      | None \<Rightarrow> getenv (c_str (expand content)))"

lemma braced_value_cong [fundef_cong]:
  "getenv = getenv' \<Longrightarrow> content = content' \<Longrightarrow> (\<And>s. length s \<le> length content' \<Longrightarrow> expand s = expand' s) \<Longrightarrow>
   braced_value getenv expand content = braced_value getenv' expand' content'"
  by (auto simp: braced_value_def Let_def split: option.splits)

text \<open>
  The loop of \<^verbatim>\<open>expand_expression_impl\<close> on the input from index \<open>i\<close> on; the recursive
  calls beyond the depth limit return their input as it is.
\<close>

function expand_loop :: "(string \<Rightarrow> string) \<Rightarrow> nat \<Rightarrow> string \<Rightarrow> string" where
  "expand_loop getenv depth [] = []"
| "expand_loop getenv depth (c # cs) =
     (if c = backslash \<and> cs \<noteq> [] \<and> hd cs = CHR ''$'' then CHR ''$'' # expand_loop getenv depth (tl cs)
      else if c = CHR ''$'' then
        (case cs of [] \<Rightarrow> ''$''
         | c' # remaining \<Rightarrow>
             if c' = CHR ''{'' then
               (case find_matching_close_brace remaining of
                  None \<Rightarrow> ''${'' @ expand_loop getenv depth remaining
                | Some close_pos \<Rightarrow>
                    braced_value getenv
                      (\<lambda>s. if depth + 1 > kMaxExpressionRecursionDepth then s else expand_loop getenv (depth + 1) s)
                      (take close_pos remaining) @
                    expand_loop getenv depth (drop (close_pos + 1) remaining))
             else if is_variable_name_char c'
             then getenv (c_str (takeWhile is_variable_name_char cs)) @
                  expand_loop getenv depth (dropWhile is_variable_name_char cs)
             else CHR ''$'' # expand_loop getenv depth cs)
      else c # expand_loop getenv depth cs)"
  by pat_completeness auto

termination
  by (relation "measure (\<lambda>(_, _, s). length s)") (auto simp: less_Suc_eq_le le_SucI length_dropWhile_le)

declare expand_loop.simps(2) [simp del]

definition expand_expression_impl :: "(string \<Rightarrow> string) \<Rightarrow> string \<Rightarrow> nat \<Rightarrow> string" where
  "expand_expression_impl getenv input depth =
     (if depth > kMaxExpressionRecursionDepth then input else expand_loop getenv depth input)"

definition expand_environment_expression :: "(string \<Rightarrow> string) \<Rightarrow> string \<Rightarrow> string" where
  "expand_environment_expression getenv input = expand_expression_impl getenv input 0"

text \<open>The loop as the code writes it.\<close>

lemmas expand_loop_Cons = expand_loop.simps(2) [folded expand_expression_impl_def]

end
