(* ===== verification/Expression_Semantics.thy ===== *)
theory Expression_Semantics
  imports Config_Expression
begin

text \<open>
  The documented meaning of expressions, independent of the scanners: a syntax tree, its text and
  its value in an environment. The expansion of the text is the value of the tree.
\<close>

section \<open>Syntax trees\<close>

datatype expr =
    Lit char
  | Dollar
  | Bare string
  | Var "expr list"
  | Default "expr list" "expr list"
  | Alternate "expr list" "expr list"

fun render :: "expr \<Rightarrow> string" where
  "render (Lit c) = [c]"
| "render Dollar = [backslash, CHR ''$'']"
| "render (Bare nm) = CHR ''$'' # nm"
| "render (Var n) = ''${'' @ concat (map render n) @ ''}''"
| "render (Default n a) = ''${'' @ concat (map render n) @ '':-'' @ concat (map render a) @ ''}''"
| "render (Alternate n a) = ''${'' @ concat (map render n) @ '':+'' @ concat (map render a) @ ''}''"

abbreviation renders :: "expr list \<Rightarrow> string" where
  "renders es \<equiv> concat (map render es)"

fun meaning :: "(string \<Rightarrow> string) \<Rightarrow> expr \<Rightarrow> string" where
  "meaning getenv (Lit c) = [c]"
| "meaning getenv Dollar = ''$''"
| "meaning getenv (Bare nm) = getenv (c_str nm)"
| "meaning getenv (Var n) = getenv (c_str (concat (map (meaning getenv) n)))"
| "meaning getenv (Default n a) =
     (let v = getenv (c_str (concat (map (meaning getenv) n)))
      in if v = [] then concat (map (meaning getenv) a) else v)"
| "meaning getenv (Alternate n a) =
     (if getenv (c_str (concat (map (meaning getenv) n))) = [] then [] else concat (map (meaning getenv) a))"

abbreviation meanings :: "(string \<Rightarrow> string) \<Rightarrow> expr list \<Rightarrow> string" where
  "meanings getenv es \<equiv> concat (map (meaning getenv) es)"

text \<open>The nesting of braces.\<close>

fun nesting :: "expr \<Rightarrow> nat" where
  "nesting (Var n) = Suc (Max (set (0 # map nesting n)))"
| "nesting (Default n a) = Suc (Max (set (0 # map nesting n @ map nesting a)))"
| "nesting (Alternate n a) = Suc (Max (set (0 # map nesting n @ map nesting a)))"
| "nesting _ = 0"

text \<open>
  Texts that mean what they look like: literal characters are not special, a bare name is a
  non-empty run of name characters that the next character does not continue, and the name part of
  a braced expression has no colon of its own.
\<close>

definition plain_char :: "char \<Rightarrow> bool" where
  "plain_char c \<longleftrightarrow> c \<noteq> backslash \<and> c \<noteq> CHR ''$'' \<and> c \<noteq> CHR ''}''"

definition follows :: "expr \<Rightarrow> string \<Rightarrow> bool" where
  "follows e rest \<longleftrightarrow> (case e of Bare _ \<Rightarrow> rest = [] \<or> \<not> is_variable_name_char (hd rest) | _ \<Rightarrow> True)"

fun chained :: "expr list \<Rightarrow> string \<Rightarrow> bool" where
  "chained [] rest = True"
| "chained (e # es) rest = (follows e (renders es @ rest) \<and> chained es rest)"

definition no_colon :: "expr list \<Rightarrow> bool" where
  "no_colon n \<longleftrightarrow> Lit (CHR '':'') \<notin> set n"

fun well_formed :: "expr \<Rightarrow> bool" where
  "well_formed (Lit c) = plain_char c"
| "well_formed Dollar = True"
| "well_formed (Bare nm) = (nm \<noteq> [] \<and> list_all is_variable_name_char nm)"
| "well_formed (Var n) = (list_all well_formed n \<and> chained n [] \<and> no_colon n)"
| "well_formed (Default n a) = (list_all well_formed n \<and> chained n [] \<and> no_colon n \<and> list_all well_formed a \<and> chained a [])"
| "well_formed (Alternate n a) = (list_all well_formed n \<and> chained n [] \<and> no_colon n \<and> list_all well_formed a \<and> chained a [])"

section \<open>The scanners on rendered text\<close>

lemma shift_option: "map_option (\<lambda>i. i + a) (map_option (\<lambda>i. i + b) x) = map_option (\<lambda>i. i + (b + a)) x" for a b :: nat
  by (cases x) auto

lemma name_char_plain: "is_variable_name_char c \<Longrightarrow> plain_char c \<and> c \<noteq> CHR ''{'' \<and> c \<noteq> CHR '':''"
  by (auto simp: is_variable_name_char_def plain_char_def less_eq_char_def)

lemma find_close_plain:
  "plain_char c \<Longrightarrow> find_close d (c # cs) = map_option (\<lambda>i. i + 1) (find_close d cs)"
  by (cases cs) (auto simp: plain_char_def)

lemma find_close_plains:
  "list_all plain_char s \<Longrightarrow> find_close d (s @ cs) = map_option (\<lambda>i. i + length s) (find_close d cs)"
  by (induction s) (auto simp: find_close_plain option.map_comp comp_def option.map_ident)

lemma find_operator_plain:
  "plain_char c \<Longrightarrow> 0 < d \<or> c \<noteq> CHR '':'' \<Longrightarrow> find_operator d (c # cs) = map_option (\<lambda>i. i + 1) (find_operator d cs)"
  by (cases cs) (auto simp: plain_char_def)

lemma find_operator_plains:
  "list_all plain_char s \<Longrightarrow> 0 < d \<or> CHR '':'' \<notin> set s \<Longrightarrow>
   find_operator d (s @ cs) = map_option (\<lambda>i. i + length s) (find_operator d cs)"
  by (induction s) (auto simp: find_operator_plain option.map_comp comp_def option.map_ident)

lemma find_close_open:
  "find_close d (CHR ''$'' # CHR ''{'' # cs) = map_option (\<lambda>i. i + 2) (find_close (d + 1) cs)"
  by simp

lemma find_close_shut:
  "find_close (Suc (Suc d)) (CHR ''}'' # cs) = map_option (\<lambda>i. i + 1) (find_close (Suc d) cs)"
  by (cases cs) auto

lemma find_close_escape:
  "find_close d (backslash # CHR ''$'' # cs) = map_option (\<lambda>i. i + 2) (find_close d cs)"
  by simp

lemma find_operator_open:
  "find_operator d (CHR ''$'' # CHR ''{'' # cs) = map_option (\<lambda>i. i + 2) (find_operator (d + 1) cs)"
  by simp

lemma find_operator_shut:
  "find_operator (Suc d) (CHR ''}'' # cs) = map_option (\<lambda>i. i + 1) (find_operator d cs)"
  by (cases cs) auto

lemma find_operator_escape:
  "find_operator d (backslash # CHR ''$'' # cs) = map_option (\<lambda>i. i + 2) (find_operator d cs)"
  by simp

lemma plain_simps [simp]:
  "plain_char CHR '':''" "plain_char CHR ''-''" "plain_char CHR ''+''" "plain_char CHR ''{''"
  by (simp_all add: plain_char_def)

lemma names_plain:
  "list_all is_variable_name_char nm \<Longrightarrow> list_all plain_char nm \<and> CHR '':'' \<notin> set nm"
  using name_char_plain by (auto simp: list_all_iff)

lemma bare_scans:
  assumes "nm \<noteq> []" "list_all is_variable_name_char nm"
  shows "find_close d (CHR ''$'' # nm @ cs) = map_option (\<lambda>i. i + Suc (length nm)) (find_close d cs)"
    "find_operator d (CHR ''$'' # nm @ cs) = map_option (\<lambda>i. i + Suc (length nm)) (find_operator d cs)"
proof -
  obtain c cs' where nm: "nm = c # cs'" using assms(1) by (cases nm) auto
  have c: "c \<noteq> CHR ''{''" using assms(2) name_char_plain by (auto simp: nm)
  have "find_close d (CHR ''$'' # nm @ cs) = map_option (\<lambda>i. i + 1) (find_close d (nm @ cs))"
    "find_operator d (CHR ''$'' # nm @ cs) = map_option (\<lambda>i. i + 1) (find_operator d (nm @ cs))"
    using c by (simp_all add: nm)
  then show "find_close d (CHR ''$'' # nm @ cs) = map_option (\<lambda>i. i + Suc (length nm)) (find_close d cs)"
    "find_operator d (CHR ''$'' # nm @ cs) = map_option (\<lambda>i. i + Suc (length nm)) (find_operator d cs)"
    using names_plain [OF assms(2)]
    by (simp_all add: find_close_plains find_operator_plains option.map_comp comp_def)
qed

text \<open>At nesting one or more both scanners skip a whole expression.\<close>

definition skipped :: "(nat \<Rightarrow> string \<Rightarrow> nat option) \<Rightarrow> string \<Rightarrow> bool" where
  "skipped scan s \<longleftrightarrow> (\<forall>d cs. scan (Suc d) (s @ cs) = map_option (\<lambda>i. i + length s) (scan (Suc d) cs))"

lemma skipped_append: "skipped scan s \<Longrightarrow> skipped scan t \<Longrightarrow> skipped scan (s @ t)"
  by (simp add: skipped_def option.map_comp comp_def ac_simps)

lemma skipped_concat: "(\<And>s. s \<in> set ss \<Longrightarrow> skipped scan s) \<Longrightarrow> skipped scan (concat ss)"
proof (induction ss)
  case (Cons s ss)
  then show ?case by (simp add: skipped_append)
qed (simp add: skipped_def option.map_ident)

lemma skipped_braces:
  assumes "skipped find_close s" "skipped find_operator s"
  shows "skipped find_close (''${'' @ s @ ''}'')" "skipped find_operator (''${'' @ s @ ''}'')"
  using assms
  by (simp_all add: skipped_def find_close_shut find_operator_shut option.map_comp comp_def)

lemma skipped_plain: "list_all plain_char s \<Longrightarrow> skipped find_close s \<and> skipped find_operator s"
  by (simp add: skipped_def find_close_plains find_operator_plains)

lemma skipped_operator:
  assumes "skipped scan s" "skipped scan t" "plain_char op" "scan = find_close \<or> scan = find_operator"
  shows "skipped scan (s @ [CHR '':'', op] @ t)"
  using assms skipped_plain [of "[CHR '':'', op]"] by (intro skipped_append) auto

lemma skipped_render: "well_formed e \<Longrightarrow> skipped find_close (render e) \<and> skipped find_operator (render e)"
proof (induction e)
  case (Lit c)
  then show ?case using skipped_plain [of "[c]"] by simp
next
  case Dollar
  then show ?case by (simp add: skipped_def)
next
  case (Bare nm)
  then show ?case by (simp add: skipped_def bare_scans)
next
  case (Var n)
  then have "skipped find_close (renders n)" "skipped find_operator (renders n)"
    by (auto intro!: skipped_concat simp: list_all_iff)
  then show ?case using skipped_braces by simp
next
  case (Default n a)
  then have "skipped find_close (renders n)" "skipped find_operator (renders n)"
    "skipped find_close (renders a)" "skipped find_operator (renders a)"
    by (auto intro!: skipped_concat simp: list_all_iff)
  then show ?case using skipped_braces [OF skipped_operator skipped_operator, of "renders n" "renders a" "CHR ''-''"] by simp
next
  case (Alternate n a)
  then have "skipped find_close (renders n)" "skipped find_operator (renders n)"
    "skipped find_close (renders a)" "skipped find_operator (renders a)"
    by (auto intro!: skipped_concat simp: list_all_iff)
  then show ?case using skipped_braces [OF skipped_operator skipped_operator, of "renders n" "renders a" "CHR ''+''"] by simp
qed

lemma skipped_renders:
  "list_all well_formed es \<Longrightarrow> skipped find_close (renders es) \<and> skipped find_operator (renders es)"
  using skipped_render by (auto intro!: skipped_concat simp: list_all_iff)

text \<open>At the top level the operator scan skips a name without colons.\<close>

lemma find_operator_render:
  assumes "well_formed e" "e \<noteq> Lit (CHR '':'')"
  shows "find_operator 0 (render e @ cs) = map_option (\<lambda>i. i + length (render e)) (find_operator 0 cs)"
proof -
  have braces: "find_operator 0 (''${'' @ s @ ''}'' @ cs) = map_option (\<lambda>i. Suc (Suc (Suc (i + length s)))) (find_operator 0 cs)"
    if "skipped find_operator s" for s
    using that by (cases "find_operator 0 cs") (simp_all add: skipped_def find_operator_shut)
  show ?thesis
  proof (cases e)
    case (Var n)
    then show ?thesis using assms braces [of "renders n"] skipped_renders by simp
  next
    case (Default n a)
    then show ?thesis
      using assms braces [OF skipped_operator, of "renders n" "renders a" "CHR ''-''"] skipped_renders by simp
  next
    case (Alternate n a)
    then show ?thesis
      using assms braces [OF skipped_operator, of "renders n" "renders a" "CHR ''+''"] skipped_renders by simp
  qed (use assms in \<open>auto simp: find_operator_plain bare_scans\<close>)
qed

lemma find_operator_renders:
  "list_all well_formed es \<Longrightarrow> no_colon es \<Longrightarrow>
   find_operator 0 (renders es @ cs) = map_option (\<lambda>i. i + length (renders es)) (find_operator 0 cs)"
  by (induction es) (auto simp: no_colon_def find_operator_render option.map_comp comp_def option.map_ident ac_simps)

section \<open>Expansion of rendered text\<close>

lemma close_of_skipped: "skipped find_close s \<Longrightarrow> find_matching_close_brace (s @ CHR ''}'' # rest) = Some (length s)"
  by (cases rest) (auto simp: skipped_def find_matching_close_brace_def)

lemma expand_braced:
  assumes "skipped find_close s"
  shows "expand_loop g d (''${'' @ s @ ''}'' @ rest) =
           braced_value g (\<lambda>t. expand_expression_impl g t (d + 1)) s @ expand_loop g d rest"
  by (simp add: expand_loop_Cons close_of_skipped [OF assms])

lemma operator_none: "list_all well_formed n \<Longrightarrow> no_colon n \<Longrightarrow> find_top_level_operator (renders n) = None"
  using find_operator_renders [of n "[]"] by (simp add: find_top_level_operator_def)

lemma operator_some:
  assumes "list_all well_formed n" "no_colon n" "op = CHR ''-'' \<or> op = CHR ''+''"
  shows "find_top_level_operator (renders n @ CHR '':'' # op # t) = Some (length (renders n))"
  using find_operator_renders [OF assms(1,2)] assms(3) by (auto simp: find_top_level_operator_def)

definition expands :: "(string \<Rightarrow> string) \<Rightarrow> expr \<Rightarrow> bool" where
  "expands g e \<longleftrightarrow> (\<forall>d rest. well_formed e \<longrightarrow> follows e rest \<longrightarrow> d + nesting e \<le> kMaxExpressionRecursionDepth \<longrightarrow>
     expand_loop g d (render e @ rest) = meaning g e @ expand_loop g d rest)"

lemma expands_list:
  assumes "\<And>e. e \<in> set es \<Longrightarrow> expands g e" "list_all well_formed es" "chained es []"
    "\<And>e. e \<in> set es \<Longrightarrow> d + nesting e \<le> kMaxExpressionRecursionDepth"
  shows "expand_loop g d (renders es) = meanings g es"
  using assms
proof (induction es)
  case (Cons e es)
  then show ?case using Cons.prems(1) [of e] Cons.prems(4) [of e] by (simp add: expands_def)
qed simp

text \<open>The parts of a braced expression are expanded one level deeper.\<close>

lemma expands_part:
  assumes "\<And>e. e \<in> set es \<Longrightarrow> expands g e" "list_all well_formed es" "chained es []"
    and "d + Suc (Max (set (0 # map nesting es @ ks))) \<le> kMaxExpressionRecursionDepth"
  shows "expand_expression_impl g (renders es) (d + 1) = meanings g es"
proof -
  have le: "nesting e \<le> Max (set (0 # map nesting es @ ks))" if "e \<in> set es" for e
    using that by (intro Max_ge) auto
  have "Suc d + nesting e \<le> kMaxExpressionRecursionDepth" if "e \<in> set es" for e
    using le [OF that] assms(4) by linarith
  then show ?thesis
    using expands_list [OF assms(1-3), of "d + 1"] assms(4) by (simp add: expand_expression_impl_def)
qed

lemma name_run:
  assumes "list_all is_variable_name_char nm" "rest = [] \<or> \<not> is_variable_name_char (hd rest)"
  shows "takeWhile is_variable_name_char (nm @ rest) = nm" "dropWhile is_variable_name_char (nm @ rest) = rest"
  using assms by (induction nm) (cases rest, auto)+

lemma expands_all: "expands g e"
proof (induction e)
  case (Lit c)
  then show ?case by (auto simp: expands_def plain_char_def expand_loop_Cons)
next
  case Dollar
  then show ?case by (auto simp: expands_def expand_loop_Cons)
next
  case (Bare nm)
  show ?case
    unfolding expands_def
  proof (intro allI impI)
    fix d rest assume wf: "well_formed (Bare nm)" and f: "follows (Bare nm) rest"
    obtain c cs where nm: "nm = c # cs" using wf by (cases nm) auto
    have c: "is_variable_name_char c" "c \<noteq> CHR ''{''" using wf name_char_plain by (auto simp: nm)
    have run: "takeWhile is_variable_name_char (nm @ rest) = nm" "dropWhile is_variable_name_char (nm @ rest) = rest"
      using name_run [of nm rest] wf f by (auto simp: follows_def)
    show "expand_loop g d (render (Bare nm) @ rest) = meaning g (Bare nm) @ expand_loop g d rest"
      using c run by (simp add: expand_loop_Cons nm)
  qed
next
  case (Var n)
  show ?case
    unfolding expands_def
  proof (intro allI impI)
    fix d rest assume wf: "well_formed (Var n)" and depth: "d + nesting (Var n) \<le> kMaxExpressionRecursionDepth"
    have n: "expand_expression_impl g (renders n) (d + 1) = meanings g n"
      using expands_part [of n g d "[]"] Var wf depth by simp
    have "braced_value g (\<lambda>t. expand_expression_impl g t (d + 1)) (renders n) = meaning g (Var n)"
      using operator_none [of n] wf n by (simp add: braced_value_def)
    then show "expand_loop g d (render (Var n) @ rest) = meaning g (Var n) @ expand_loop g d rest"
      using expand_braced [of "renders n" g d rest] skipped_renders [of n] wf by simp
  qed
next
  case (Default n a)
  show ?case
    unfolding expands_def
  proof (intro allI impI)
    fix d rest
    assume wf: "well_formed (Default n a)" and depth: "d + nesting (Default n a) \<le> kMaxExpressionRecursionDepth"
    have n: "expand_expression_impl g (renders n) (d + 1) = meanings g n"
      using expands_part [of n g d "map nesting a"] Default wf depth by simp
    have a: "expand_expression_impl g (renders a) (d + 1) = meanings g a"
      using expands_part [of a g d "map nesting n"] Default wf depth by (simp add: Un_commute insert_commute)
    have "braced_value g (\<lambda>t. expand_expression_impl g t (d + 1)) (renders n @ CHR '':'' # CHR ''-'' # renders a) =
        meaning g (Default n a)"
      using operator_some [of n "CHR ''-''"] wf n a by (simp add: braced_value_def Let_def nth_append)
    moreover have "skipped find_close (renders n @ CHR '':'' # CHR ''-'' # renders a)"
      using skipped_operator [of find_close "renders n" "renders a" "CHR ''-''"] skipped_renders wf by simp
    ultimately show "expand_loop g d (render (Default n a) @ rest) = meaning g (Default n a) @ expand_loop g d rest"
      using expand_braced [of "renders n @ CHR '':'' # CHR ''-'' # renders a" g d rest] by simp
  qed
next
  case (Alternate n a)
  show ?case
    unfolding expands_def
  proof (intro allI impI)
    fix d rest
    assume wf: "well_formed (Alternate n a)" and depth: "d + nesting (Alternate n a) \<le> kMaxExpressionRecursionDepth"
    have n: "expand_expression_impl g (renders n) (d + 1) = meanings g n"
      using expands_part [of n g d "map nesting a"] Alternate wf depth by simp
    have a: "expand_expression_impl g (renders a) (d + 1) = meanings g a"
      using expands_part [of a g d "map nesting n"] Alternate wf depth by (simp add: Un_commute insert_commute)
    have "braced_value g (\<lambda>t. expand_expression_impl g t (d + 1)) (renders n @ CHR '':'' # CHR ''+'' # renders a) =
        meaning g (Alternate n a)"
      using operator_some [of n "CHR ''+''"] wf n a by (simp add: braced_value_def Let_def nth_append)
    moreover have "skipped find_close (renders n @ CHR '':'' # CHR ''+'' # renders a)"
      using skipped_operator [of find_close "renders n" "renders a" "CHR ''+''"] skipped_renders wf by simp
    ultimately show "expand_loop g d (render (Alternate n a) @ rest) = meaning g (Alternate n a) @ expand_loop g d rest"
      using expand_braced [of "renders n @ CHR '':'' # CHR ''+'' # renders a" g d rest] by simp
  qed
qed

section \<open>Escaping\<close>

text \<open>A backslash before every dollar sign.\<close>

fun escape :: "string \<Rightarrow> string" where
  "escape [] = []"
| "escape (c # cs) = (if c = CHR ''$'' then backslash # CHR ''$'' # escape cs else c # escape cs)"

lemma escape_hd: "escape cs \<noteq> [] \<Longrightarrow> hd (escape cs) \<noteq> CHR ''$''"
  by (cases cs) auto

lemma expand_escape: "expand_loop g d (escape s) = s"
proof (induction s)
  case (Cons c cs)
  then show ?case using escape_hd [of cs] by (auto simp: expand_loop_Cons)
qed simp

end
