(* ===== verification/Config_Value.thy ===== *)
theory Config_Value
  imports Config_Expression "HOL-Library.Signed_Division"
begin

text \<open>
  Conversion of configuration strings to values (\<^verbatim>\<open>src/atframe/atapp_conf.cpp\<close>): numbers,
  durations, time points, booleans, sizes, enum values and the field conversion that applies
  expressions, defaults and limits. A \<^verbatim>\<open>[begin, end)\<close> range is the string of its characters;
  reading the character at \<^verbatim>\<open>end\<close> of a terminated buffer is reading a NUL. Signed arithmetic
  wraps at its width.
\<close>


abbreviation NUL :: char where
  "NUL \<equiv> CHR 0x00"

section \<open>Numbers\<close>

definition skip_space :: "text_api \<Rightarrow> string \<Rightarrow> string" where
  "skip_space T s = dropWhile (\<lambda>c. c \<noteq> NUL \<and> ta_is_space T c) s"

definition char_diff :: "char \<Rightarrow> char \<Rightarrow> 'w::len word" where
  "char_diff c c' = of_char c - of_char c'"

fun pick_hex :: "text_api \<Rightarrow> 'w::len word \<Rightarrow> string \<Rightarrow> 'w word \<times> string" where
  "pick_hex T out [] = (out, [])"
| "pick_hex T out (b # s) =
     (let c = ta_tolower T b in
      if b = NUL then (out, b # s)
      else if CHR ''0'' \<le> c \<and> c \<le> CHR ''9'' then pick_hex T (push_bit 4 out + char_diff c CHR ''0'') s
      else if CHR ''a'' \<le> c \<and> c \<le> CHR ''f'' then pick_hex T (push_bit 4 out + char_diff c CHR ''a'' + 10) s
      else (out, b # s))"

fun pick_octal :: "'w::len word \<Rightarrow> string \<Rightarrow> 'w word \<times> string" where
  "pick_octal out [] = (out, [])"
| "pick_octal out (c # s) =
     (if CHR ''0'' \<le> c \<and> c \<le> CHR ''7'' then pick_octal (push_bit 3 out + char_diff c CHR ''0'') s else (out, c # s))"

fun pick_decimal :: "'w::len word \<Rightarrow> string \<Rightarrow> 'w word \<times> string" where
  "pick_decimal out [] = (out, [])"
| "pick_decimal out (c # s) =
     (if CHR ''0'' \<le> c \<and> c \<le> CHR ''9'' then pick_decimal (out * 10 + char_diff c CHR ''0'') s else (out, c # s))"

definition at_end :: "string \<Rightarrow> bool" where
  "at_end s \<longleftrightarrow> s = [] \<or> hd s = NUL"

definition pick_unsigned :: "text_api \<Rightarrow> string \<Rightarrow> 'w::len word \<times> string" where
  "pick_unsigned T s =
     (if length s \<ge> 2 \<and> s ! 0 = CHR ''0'' \<and> ta_tolower T (s ! 1) = CHR ''x'' then pick_hex T 0 (drop 2 s)
      else if hd s = backslash then pick_octal 0 (tl s)
      else pick_decimal 0 s)"

definition pick_number :: "text_api \<Rightarrow> string \<Rightarrow> 'w::len word \<times> string" where
  "pick_number T s =
     (if at_end s then (0, s)
      else
        let is_negative = odd (length (takeWhile (\<lambda>c. c = CHR ''-'') s));
            s' = dropWhile (\<lambda>c. c = CHR ''-'') s
        in if at_end s' then (0, s')
           else let (out, rest) = pick_unsigned T s'
                in (if is_negative then NOT out + 1 else out, rest))"

section \<open>Durations\<close>

record pb_duration =
  dur_seconds :: i64
  dur_nanos :: i32

abbreviation i64_div :: "i64 \<Rightarrow> int \<Rightarrow> i64" where
  "i64_div x k \<equiv> word_of_int (sint x sdiv k)"

abbreviation i64_mod :: "i64 \<Rightarrow> int \<Rightarrow> i64" where
  "i64_mod x k \<equiv> word_of_int (sint x smod k)"

definition duration_of_unit :: "i64 \<Rightarrow> string \<Rightarrow> pb_duration" where
  "duration_of_unit tm_val unit =
     (if unit = [] \<or> unit \<in> set [''s'', ''sec'', ''second'', ''seconds''] then \<lparr>dur_seconds = tm_val, dur_nanos = 0\<rparr>
      else if unit \<in> set [''ms'', ''millisecond'', ''milliseconds''] then
        \<lparr>dur_seconds = i64_div tm_val 1000, dur_nanos = ucast (i64_mod tm_val 1000 * 1000000)\<rparr>
      else if unit \<in> set [''us'', ''microsecond'', ''microseconds''] then
        \<lparr>dur_seconds = i64_div tm_val 1000000, dur_nanos = ucast (i64_mod tm_val 1000000 * 1000)\<rparr>
      else if unit \<in> set [''ns'', ''nanosecond'', ''nanoseconds''] then
        \<lparr>dur_seconds = i64_div tm_val 1000000000, dur_nanos = ucast (i64_mod tm_val 1000000000)\<rparr>
      else if unit \<in> set [''m'', ''minute'', ''minutes''] then \<lparr>dur_seconds = tm_val * 60, dur_nanos = 0\<rparr>
      else if unit \<in> set [''h'', ''hour'', ''hours''] then \<lparr>dur_seconds = tm_val * 3600, dur_nanos = 0\<rparr>
      else if unit \<in> set [''d'', ''day'', ''days''] then \<lparr>dur_seconds = tm_val * 3600 * 24, dur_nanos = 0\<rparr>
      else if unit \<in> set [''w'', ''week'', ''weeks''] then \<lparr>dur_seconds = tm_val * 3600 * 24 * 7, dur_nanos = 0\<rparr>
      else \<lparr>dur_seconds = tm_val, dur_nanos = 0\<rparr>)"

definition pick_duration :: "text_api \<Rightarrow> string \<Rightarrow> pb_duration" where
  "pick_duration T value =
     (let (tm_val, rest) = pick_number T (skip_space T value)
      in duration_of_unit tm_val (map (ta_tolower T) (skip_space T rest)))"

definition parse_duration :: "text_api \<Rightarrow> string \<Rightarrow> pb_duration" where
  "parse_duration T input = pick_duration T input"

section \<open>Time points\<close>

record timestamp =
  ts_seconds :: i64
  ts_nanos :: i32

text \<open>\<^verbatim>\<open>struct tm\<close>: the fields the parser sets, all others are zero.\<close>

record tm =
  tm_year :: i32
  tm_mon :: i32
  tm_mday :: i32
  tm_hour :: i32
  tm_min :: i32
  tm_sec :: i32

text \<open>\<^verbatim>\<open>mktime\<close> in the process's time zone, and the offset of that zone (atframe\_utils).\<close>

record time_api =
  tz_mktime :: "tm \<Rightarrow> i64"
  tz_sys_zone_offset :: i64

text \<open>A number, then an optional separator with spaces around it.\<close>

definition pick_tm_field :: "text_api \<Rightarrow> char \<Rightarrow> string \<Rightarrow> i32 \<times> string" where
  "pick_tm_field T sep s =
     (let (n, r) = pick_number T s; r' = skip_space T r
      in (n, if r' \<noteq> [] \<and> hd r' = sep then skip_space T (tl r') else r'))"

definition pick_tm :: "text_api \<Rightarrow> string \<Rightarrow> tm \<times> string" where
  "pick_tm T s =
     (let (y, s) = pick_tm_field T CHR ''-'' s;
          (mo, s) = pick_tm_field T CHR ''-'' s;
          (d, s) = pick_tm_field T CHR ''T'' s;
          (h, s) = pick_tm_field T CHR '':'' s;
          (mi, s) = pick_tm_field T CHR '':'' s;
          (sec, s) = pick_number T s
      in (\<lparr>tm_year = y - 1900, tm_mon = mo - 1, tm_mday = d, tm_hour = h, tm_min = mi, tm_sec = sec\<rparr>, skip_space T s))"

text \<open>What the zone suffix after \<^verbatim>\<open>+\<close> or \<^verbatim>\<open>-\<close> adds up to.\<close>

definition pick_zone_offset :: "text_api \<Rightarrow> string \<Rightarrow> i64" where
  "pick_zone_offset T s =
     (let (offset, r) = pick_number T s
      in offset * 60 + (if \<not> at_end r \<and> hd r = CHR '':'' then fst (pick_number T (tl r)) else 0))"

definition pick_timestamp :: "text_api \<Rightarrow> time_api \<Rightarrow> string \<Rightarrow> timestamp" where
  "pick_timestamp T Z value =
     (let (t, s) = pick_tm T (skip_space T value);
          res = tz_mktime Z t
      in \<lparr>ts_seconds =
            (if s \<noteq> [] \<and> hd s = CHR ''Z'' then res - tz_sys_zone_offset Z
             else if s \<noteq> [] \<and> hd s = CHR ''+'' then res - tz_sys_zone_offset Z - pick_zone_offset T (tl s)
             else if s \<noteq> [] \<and> hd s = CHR ''-'' then res - tz_sys_zone_offset Z + pick_zone_offset T (tl s)
             else res),
          ts_nanos = 0\<rparr>)"

definition parse_timepoint :: "text_api \<Rightarrow> time_api \<Rightarrow> string \<Rightarrow> timestamp" where
  "parse_timepoint T Z input = pick_timestamp T Z input"

section \<open>Booleans\<close>

text \<open>\<^verbatim>\<open>strncasecmp(lit, s, length s) = 0\<close>; both stop at a NUL, \<open>lit\<close> is terminated by one.\<close>

definition ascii_lower :: "char \<Rightarrow> char" where
  "ascii_lower c = (if CHR ''A'' \<le> c \<and> c \<le> CHR ''Z'' then char_of ((of_char c :: nat) + 32) else c)"

fun strncase_eq :: "string \<Rightarrow> string \<Rightarrow> bool" where
  "strncase_eq l [] = True"
| "strncase_eq [] (c # s) = (c = NUL)"
| "strncase_eq (a # l) (c # s) = (ascii_lower a = ascii_lower c \<and> strncase_eq l s)"

definition dump_pick_logic_bool :: "string \<Rightarrow> bool" where
  "dump_pick_logic_bool val =
     (if val = [] then False
      else if strncase_eq ''0'' val then False
      else if strncase_eq ''false'' val then False
      else if strncase_eq ''no'' val then False
      else if strncase_eq ''disable'' val then False
      else if strncase_eq ''disabled'' val then False
      else True)"

section \<open>Sizes\<close>

text \<open>The suffixes an integer of the given number of bytes admits.\<close>

definition to_bytes_2 :: "'w::len word \<Rightarrow> char \<Rightarrow> 'w word option" where
  "to_bytes_2 out c = (if c = CHR ''k'' then Some (push_bit 10 out) else None)"

definition to_bytes_4 :: "'w::len word \<Rightarrow> char \<Rightarrow> 'w word option" where
  "to_bytes_4 out c =
     (case to_bytes_2 out c of
        Some r \<Rightarrow> Some r
      | None \<Rightarrow> if c = CHR ''m'' then Some (push_bit 20 out) else if c = CHR ''g'' then Some (push_bit 30 out) else None)"

definition to_bytes_8 :: "'w::len word \<Rightarrow> char \<Rightarrow> 'w word option" where
  "to_bytes_8 out c =
     (case to_bytes_4 out c of
        Some r \<Rightarrow> Some r
      | None \<Rightarrow> if c = CHR ''t'' then Some (push_bit 40 out) else if c = CHR ''p'' then Some (push_bit 50 out) else None)"

definition to_bytes :: "'w::len word \<Rightarrow> char \<Rightarrow> 'w word option" where
  "to_bytes out c =
     (if LENGTH('w) = 8 then None
      else if LENGTH('w) = 16 then to_bytes_2 out c
      else if LENGTH('w) = 32 then to_bytes_4 out c
      else to_bytes_8 out c)"

text \<open>
  An integer from a string; \<open>str2int\<close> (atframe\_utils) returns the number it read and the
  rest of the input.
\<close>

definition int_from_str :: "text_api \<Rightarrow> (string \<Rightarrow> 'w::len word \<times> string) \<Rightarrow> string \<Rightarrow> bool \<Rightarrow> 'w word" where
  "int_from_str T str2int input size_mode =
     (if input = [] then 0
      else let (out, left) = str2int input
           in if size_mode
              then let left' = skip_space T left
                   in case to_bytes out (ta_tolower T (if left' = [] then NUL else hd left')) of
                        Some r \<Rightarrow> r
                      | None \<Rightarrow> out
              else out)"

section \<open>Fields\<close>

text \<open>The options a field carries in its \<^verbatim>\<open>CONFIGURE\<close> extension.\<close>

record configure_meta =
  cm_default_value :: string
  cm_min_value :: string
  cm_max_value :: string
  cm_size_mode :: bool
  cm_enable_expression :: bool
  cm_field_match :: "string \<times> string" \<comment> \<open>\<^verbatim>\<open>field_name\<close> and \<^verbatim>\<open>field_value\<close>\<close>

text \<open>
  The overloads of \<^verbatim>\<open>dump_pick_field_min\<close>, \<^verbatim>\<open>dump_pick_field_max\<close>,
  \<^verbatim>\<open>dump_pick_field_from_str\<close> and \<^verbatim>\<open>dump_pick_field_less\<close> for one type of value.
\<close>

record 'v field_kind =
  fk_min :: 'v
  fk_max :: 'v
  fk_from_str :: "string \<Rightarrow> bool \<Rightarrow> 'v"
  fk_less :: "'v \<Rightarrow> 'v \<Rightarrow> bool"

definition bool_kind :: "bool field_kind" where
  "bool_kind =
     \<lparr>fk_min = False, fk_max = True, fk_from_str = (\<lambda>input _. dump_pick_logic_bool input),
      fk_less = (\<lambda>l r. if l = r then False else r)\<rparr>"

definition string_kind :: "string field_kind" where
  "string_kind = \<lparr>fk_min = [], fk_max = [], fk_from_str = (\<lambda>input _. input), fk_less = (\<lambda>_ _. False)\<rparr>"

definition unsigned_kind :: "text_api \<Rightarrow> (string \<Rightarrow> 'w::len word \<times> string) \<Rightarrow> 'w word field_kind" where
  "unsigned_kind T str2int =
     \<lparr>fk_min = 0, fk_max = - 1, fk_from_str = int_from_str T str2int, fk_less = (\<lambda>l r. l < r)\<rparr>"

definition signed_kind :: "text_api \<Rightarrow> (string \<Rightarrow> 'w::len word \<times> string) \<Rightarrow> 'w word field_kind" where
  "signed_kind T str2int =
     \<lparr>fk_min = word_of_int (- (2 ^ (LENGTH('w) - 1))), fk_max = word_of_int (2 ^ (LENGTH('w) - 1) - 1),
      fk_from_str = int_from_str T str2int, fk_less = (\<lambda>l r. l <s r)\<rparr>"

definition duration_less :: "pb_duration \<Rightarrow> pb_duration \<Rightarrow> bool" where
  "duration_less l r =
     (if dur_seconds l \<noteq> dur_seconds r then dur_seconds l <s dur_seconds r else dur_nanos l <s dur_nanos r)"

definition duration_kind :: "text_api \<Rightarrow> pb_duration field_kind" where
  "duration_kind T =
     \<lparr>fk_min = \<lparr>dur_seconds = word_of_int (- (2 ^ 63)), dur_nanos = word_of_int (- (2 ^ 31))\<rparr>,
      fk_max = \<lparr>dur_seconds = word_of_int (2 ^ 63 - 1), dur_nanos = word_of_int (2 ^ 31 - 1)\<rparr>,
      fk_from_str = (\<lambda>input _. if input = [] then \<lparr>dur_seconds = 0, dur_nanos = 0\<rparr> else pick_duration T input),
      fk_less = duration_less\<rparr>"

definition timestamp_less :: "timestamp \<Rightarrow> timestamp \<Rightarrow> bool" where
  "timestamp_less l r =
     (if ts_seconds l \<noteq> ts_seconds r then ts_seconds l <s ts_seconds r else ts_nanos l <s ts_nanos r)"

definition timestamp_kind :: "text_api \<Rightarrow> time_api \<Rightarrow> timestamp field_kind" where
  "timestamp_kind T Z =
     \<lparr>fk_min = \<lparr>ts_seconds = word_of_int (- (2 ^ 63)), ts_nanos = word_of_int (- (2 ^ 31))\<rparr>,
      fk_max = \<lparr>ts_seconds = word_of_int (2 ^ 63 - 1), ts_nanos = word_of_int (2 ^ 31 - 1)\<rparr>,
      fk_from_str = (\<lambda>input _. if input = [] then \<lparr>ts_seconds = 0, ts_nanos = 0\<rparr> else pick_timestamp T Z input),
      fk_less = timestamp_less\<rparr>"

text \<open>
  The floating-point numbers of the platform: \<^verbatim>\<open>strtod\<close> (converted to the type), the comparison,
  zero, \<^verbatim>\<open>numeric_limits::min()\<close> (the smallest positive normal number) and
  \<^verbatim>\<open>numeric_limits::max()\<close>.
\<close>

record 'f float_api =
  fl_strtod :: "string \<Rightarrow> 'f"
  fl_less :: "'f \<Rightarrow> 'f \<Rightarrow> bool"
  fl_zero :: 'f
  fl_limits_min :: 'f
  fl_limits_max :: 'f

definition float_from_str :: "'f float_api \<Rightarrow> string \<Rightarrow> 'f" where
  "float_from_str F input = (if input = [] then fl_zero F else fl_strtod F (c_str (take 31 input)))"

definition float_kind :: "'f float_api \<Rightarrow> 'f field_kind" where
  "float_kind F =
     \<lparr>fk_min = fl_limits_min F, fk_max = fl_limits_max F, fk_from_str = (\<lambda>input _. float_from_str F input),
      fk_less = fl_less F\<rparr>"

definition field_has_enable_expression :: "configure_meta option \<Rightarrow> bool" where
  "field_has_enable_expression meta = (case meta of None \<Rightarrow> False | Some m \<Rightarrow> cm_enable_expression m)"

text \<open>A limit of the field: the text of the option when there is one.\<close>

definition pick_limit :: "'v field_kind \<Rightarrow> 'v \<Rightarrow> (configure_meta \<Rightarrow> string) \<Rightarrow> configure_meta option \<Rightarrow> 'v" where
  "pick_limit K preset limit meta =
     (case meta of None \<Rightarrow> preset
      | Some m \<Rightarrow> if limit m \<noteq> [] then fk_from_str K (limit m) (cm_size_mode m) else preset)"

definition clamp_field :: "'v field_kind \<Rightarrow> 'v \<Rightarrow> 'v \<Rightarrow> 'v \<Rightarrow> 'v" where
  "clamp_field K min_value max_value v =
     (let v = (if fk_less K v min_value then min_value else v) in if fk_less K max_value v then max_value else v)"

definition expand_if_enabled :: "(string \<Rightarrow> string) \<Rightarrow> bool \<Rightarrow> string \<Rightarrow> string" where
  "expand_if_enabled getenv enabled s = (if s \<noteq> [] \<and> enabled then expand_expression_impl getenv s 0 else s)"

definition dump_pick_field_with_extensions ::
  "'v field_kind \<Rightarrow> (string \<Rightarrow> string) \<Rightarrow> configure_meta option \<Rightarrow> string \<Rightarrow> 'v \<times> bool" where
  "dump_pick_field_with_extensions K getenv meta val_str =
     (let val_str = expand_if_enabled getenv (field_has_enable_expression meta) val_str;
          is_default = (val_str = []);
          val =
            (case meta of
               None \<Rightarrow> fk_from_str K (if is_default then [] else val_str) False
             | Some m \<Rightarrow>
                 fk_from_str K
                   (if is_default then expand_if_enabled getenv (cm_enable_expression m) (cm_default_value m) else val_str)
                   (cm_size_mode m))
      in (clamp_field K (pick_limit K (fk_min K) cm_min_value meta) (pick_limit K (fk_max K) cm_max_value meta) val,
          is_default))"

section \<open>Enum values\<close>

text \<open>A value of an enum: its number, its name, and its aliases when it has the \<^verbatim>\<open>ENUMVALUE\<close> extension.\<close>

record enum_value =
  ev_number :: i32
  ev_name :: string
  ev_alias :: "(string list \<times> bool) option" \<comment> \<open>\<^verbatim>\<open>alias_name\<close> and \<^verbatim>\<open>case_sensitive\<close>\<close>

record enum_alias_mapping =
  eam_origin :: "string \<rightharpoonup> enum_value"
  eam_no_case :: "string \<rightharpoonup> enum_value"

definition add_alias :: "text_api \<Rightarrow> enum_value \<Rightarrow> bool \<Rightarrow> string \<Rightarrow> enum_alias_mapping \<Rightarrow> enum_alias_mapping" where
  "add_alias T v case_sensitive alias res =
     (if alias = [] then res
      else let res = res\<lparr>eam_origin := (eam_origin res)(alias \<mapsto> v)\<rparr>
           in if \<not> case_sensitive then res\<lparr>eam_no_case := (eam_no_case res)(map (ta_tolower T) alias \<mapsto> v)\<rparr> else res)"

definition get_enum_value_alias_mapping :: "text_api \<Rightarrow> enum_value list \<Rightarrow> enum_alias_mapping" where
  "get_enum_value_alias_mapping T desc =
     fold (\<lambda>v res. case ev_alias v of None \<Rightarrow> res
                   | Some (aliases, case_sensitive) \<Rightarrow> fold (add_alias T v case_sensitive) aliases res)
       desc \<lparr>eam_origin = Map.empty, eam_no_case = Map.empty\<rparr>"

definition pick_enum_value_from_alias :: "text_api \<Rightarrow> enum_value list \<Rightarrow> string \<Rightarrow> enum_value option" where
  "pick_enum_value_from_alias T desc input =
     (let mapping = get_enum_value_alias_mapping T desc
      in case eam_origin mapping input of
           Some v \<Rightarrow> Some v
         | None \<Rightarrow> eam_no_case mapping (map (ta_tolower T) input))"

text \<open>\<open>to_int\<close> is the conversion of atframe\_utils; \<^verbatim>\<open>FindValueByNumber\<close> gives the first declared.\<close>

definition dump_pick_enum_field_with_extensions ::
  "text_api \<Rightarrow> (string \<Rightarrow> i32) \<Rightarrow> (string \<Rightarrow> string) \<Rightarrow> configure_meta option \<Rightarrow> enum_value list \<Rightarrow> string \<Rightarrow> enum_value option \<times> bool" where
  "dump_pick_enum_field_with_extensions T to_int getenv meta desc val_str =
     (let val_str = expand_if_enabled getenv (field_has_enable_expression meta) val_str;
          is_default = (val_str = []);
          val_str =
            (if is_default
             then (case meta of None \<Rightarrow> [] | Some m \<Rightarrow> expand_if_enabled getenv (cm_enable_expression m) (cm_default_value m))
             else val_str);
          ret =
            (if val_str = [] then None
             else case (if CHR ''0'' \<le> hd val_str \<and> hd val_str \<le> CHR ''9''
                        then find (\<lambda>v. ev_number v = to_int val_str) desc
                        else find (\<lambda>v. ev_name v = val_str) desc) of
                    Some v \<Rightarrow> Some v
                  | None \<Rightarrow> pick_enum_value_from_alias T desc val_str)
      in case ret of
           Some v \<Rightarrow> (Some v, is_default)
         | None \<Rightarrow> (find (\<lambda>v. ev_number v = 0) desc, True))"

end
