(* ===== verification/Config_Value_Facts.thy ===== *)
theory Config_Value_Facts
  imports Config_Value
begin

text \<open>
  Facts on the conversion of configuration strings: the decimal reader on digit strings, the
  units of durations, the fields of a time point, the words that mean false, and the limits of
  a field as a locale over its comparison.
\<close>

section \<open>Decimal numbers\<close>

definition is_digit :: "char \<Rightarrow> bool" where
  "is_digit c \<longleftrightarrow> CHR ''0'' \<le> c \<and> c \<le> CHR ''9''"

definition digit_value :: "char \<Rightarrow> nat" where
  "digit_value c = of_char c - 48"

definition digits_value :: "string \<Rightarrow> nat" where
  "digits_value ds = foldl (\<lambda>v c. v * 10 + digit_value c) 0 ds"

text \<open>What the readers rely on of \<^verbatim>\<open>is_space\<close> and \<^verbatim>\<open>tolower\<close>.\<close>

definition text_ok :: "text_api \<Rightarrow> bool" where
  "text_ok T \<longleftrightarrow>
     (\<forall>c. (CHR ''!'' \<le> c \<and> c \<le> CHR ''~'' \<longrightarrow> \<not> ta_is_space T c) \<and>
          (CHR ''a'' \<le> c \<and> c \<le> CHR ''z'' \<longrightarrow> ta_tolower T c = c) \<and>
          (ta_tolower T c = CHR ''x'' \<longrightarrow> c = CHR ''x'' \<or> c = CHR ''X''))"

definition spaces :: "text_api \<Rightarrow> string \<Rightarrow> bool" where
  "spaces T s \<longleftrightarrow> (\<forall>c\<in>set s. c \<noteq> NUL \<and> ta_is_space T c)"

lemma text_ok_ascii [simp]: "text_ok ascii_text"
proof -
  have "c = CHR ''X''" if "CHR ''A'' \<le> c" "c \<le> CHR ''Z''" "char_of ((of_char c :: nat) + 32) = CHR ''x''" for c
  proof -
    have "(of_char (char_of ((of_char c :: nat) + 32)) :: nat) = of_char CHR ''x''" by (simp only: that(3))
    then have "(of_char c :: nat) = of_char CHR ''X''"
      using that(2) by (simp add: less_eq_char_def del: of_char_eq_iff)
    then show ?thesis by (simp only: of_char_eq_iff)
  qed
  then show ?thesis by (auto simp: text_ok_def ascii_text_def less_eq_char_def)
qed

lemma char_diff_digit: "is_digit c \<Longrightarrow> (char_diff c CHR ''0'' :: 'w::len word) = of_nat (digit_value c)"
proof -
  assume "is_digit c"
  then have "(48::nat) \<le> of_char c" by (simp add: is_digit_def less_eq_char_def)
  then show ?thesis by (simp add: char_diff_def digit_value_def of_nat_diff of_nat_of_char)
qed

lemma digits_value_Cons: "digits_value (c # ds) = digit_value c * 10 ^ length ds + digits_value ds"
proof -
  have "foldl (\<lambda>v c. v * 10 + digit_value c) v ds = v * 10 ^ length ds + foldl (\<lambda>v c. v * 10 + digit_value c) 0 ds" for v
    by (induction ds rule: rev_induct) (simp_all add: algebra_simps)
  from this [of "digit_value c"] show ?thesis by (simp add: digits_value_def)
qed

lemma digits_value_Nil [simp]: "digits_value [] = 0"
  by (simp add: digits_value_def)

lemma digit_not [simp]:
  "is_digit c \<Longrightarrow> c \<noteq> NUL" "is_digit c \<Longrightarrow> c \<noteq> CHR ''-''" "is_digit c \<Longrightarrow> c \<noteq> backslash" "is_digit c \<Longrightarrow> c \<noteq> CHR ''x''"
  by (auto simp: is_digit_def less_eq_char_def)

lemma text_ok_not_x: "text_ok T \<Longrightarrow> c \<noteq> CHR ''x'' \<Longrightarrow> c \<noteq> CHR ''X'' \<Longrightarrow> ta_tolower T c \<noteq> CHR ''x''"
  by (auto simp: text_ok_def)

lemma text_ok_digit: "text_ok T \<Longrightarrow> is_digit c \<Longrightarrow> \<not> ta_is_space T c \<and> ta_tolower T c \<noteq> CHR ''x''"
  by (auto simp: text_ok_def is_digit_def less_eq_char_def)

text \<open>What may follow a number in decimal notation.\<close>

definition ends_number :: "string \<Rightarrow> bool" where
  "ends_number s \<longleftrightarrow> s = [] \<or> \<not> is_digit (hd s) \<and> hd s \<noteq> CHR ''x'' \<and> hd s \<noteq> CHR ''X''"

lemma pick_decimal_end: "ends_number s \<Longrightarrow> pick_decimal out s = (out, s)"
  by (cases s) (auto simp: ends_number_def is_digit_def)

lemma pick_decimal_digits:
  "list_all is_digit ds \<Longrightarrow>
   pick_decimal out (ds @ s) = pick_decimal (out * 10 ^ length ds + of_nat (digits_value ds)) s"
proof (induction ds arbitrary: out)
  case (Cons c ds)
  then have "pick_decimal out ((c # ds) @ s) = pick_decimal (out * 10 + of_nat (digit_value c)) (ds @ s)"
    by (simp add: is_digit_def char_diff_digit [unfolded is_digit_def])
  also have "\<dots> = pick_decimal (out * 10 ^ length (c # ds) + of_nat (digits_value (c # ds))) s"
    using Cons by (simp add: digits_value_Cons algebra_simps)
  finally show ?case .
qed simp

lemma pick_unsigned_digits:
  assumes "text_ok T" "list_all is_digit ds" "ds \<noteq> []" "ends_number s"
  shows "pick_unsigned T (ds @ s) = (of_nat (digits_value ds) :: 'w::len word, s)"
proof -
  obtain d ds' where ds: "ds = d # ds'" "is_digit d" "list_all is_digit ds'"
    using assms(2,3) by (cases ds) auto
  have "ta_tolower T ((ds @ s) ! 1) \<noteq> CHR ''x''" if "length (ds @ s) \<ge> 2"
  proof (cases ds')
    case Nil
    then show ?thesis using that assms(4) ds by (cases s) (auto simp: ends_number_def text_ok_not_x [OF assms(1)])
  next
    case (Cons d' ds'')
    then show ?thesis using assms(1) ds by (simp add: text_ok_digit)
  qed
  moreover have "hd (ds @ s) \<noteq> backslash" using ds by simp
  ultimately have "pick_unsigned T (ds @ s) = pick_decimal (0 :: 'w word) (ds @ s)"
    by (auto simp: pick_unsigned_def)
  then show ?thesis
    using pick_decimal_digits [OF assms(2), of 0 s] by (simp add: pick_decimal_end [OF assms(4)])
qed

definition sign :: "bool \<Rightarrow> string" where
  "sign negative = (if negative then ''-'' else [])"

theorem pick_number_digits:
  assumes "text_ok T" "list_all is_digit ds" "ds \<noteq> []" "ends_number s"
  shows "pick_number T (sign negative @ ds @ s) = ((if negative then - of_nat (digits_value ds) else of_nat (digits_value ds)), s)"
proof -
  obtain d ds' where ds: "ds = d # ds'" "is_digit d" using assms(2,3) by (cases ds) auto
  have "takeWhile (\<lambda>c. c = CHR ''-'') (sign negative @ ds @ s) = sign negative"
       "dropWhile (\<lambda>c. c = CHR ''-'') (sign negative @ ds @ s) = ds @ s"
    using ds by (simp_all add: sign_def)
  moreover have "\<not> at_end (sign negative @ ds @ s)" "\<not> at_end (ds @ s)"
    using ds by (simp_all add: at_end_def sign_def)
  moreover note pick_unsigned_digits [OF assms]
  ultimately show ?thesis
    by (auto simp: pick_number_def Let_def sign_def not_eq_complement)
qed

section \<open>Spaces\<close>

lemma skip_space_spaces: "spaces T sp \<Longrightarrow> skip_space T (sp @ s) = skip_space T s"
  by (induction sp) (auto simp: skip_space_def spaces_def)

lemma skip_space_id: "s = [] \<or> \<not> ta_is_space T (hd s) \<Longrightarrow> skip_space T s = s"
  by (cases s) (auto simp: skip_space_def)

section \<open>Durations\<close>

text \<open>The units and how many nanoseconds each stands for; no unit is seconds.\<close>

lemma sint_word_of_int_id:
  "- (2 ^ (LENGTH('w) - 1)) \<le> x \<Longrightarrow> x < 2 ^ (LENGTH('w) - 1) \<Longrightarrow> sint (word_of_int x :: 'w::len word) = x"
  by (simp add: signed_of_int signed_take_bit_int_eq_self)
lemma ucast_i32: "(ucast (word_of_int x :: i64) :: i32) = word_of_int x"
  by (simp add: unsigned_of_int wi_bintr)
lemma abs_smod: "\<bar>a smod b\<bar> < \<bar>b\<bar>" if "b \<noteq> 0" for a b :: int
  using that by (simp add: signed_modulo_int_def abs_mult)
lemma sdiv_bounds:
  fixes a k :: int
  assumes "0 < k" "lo \<le> a" "a < hi" "lo \<le> 0" "0 < hi"
  shows "lo \<le> a sdiv k \<and> a sdiv k < hi"
proof (cases "0 \<le> a")
  case True
  have "a div k \<le> a div 1" by (rule zdiv_mono2) (use assms True in auto)
  moreover have "a sdiv k = a div k" "0 \<le> a div k"
    using assms True by (auto simp: signed_divide_int_def sgn_if pos_imp_zdiv_nonneg_iff)
  ultimately show ?thesis using assms by simp
next
  case False
  have "(- a) div k \<le> (- a) div 1" by (rule zdiv_mono2) (use assms False in auto)
  moreover have "a sdiv k = - ((- a) div k)" "0 \<le> (- a) div k"
    using assms False by (auto simp: signed_divide_int_def sgn_if pos_imp_zdiv_nonneg_iff)
  ultimately show ?thesis using assms by simp
qed

text \<open>A duration in nanoseconds.\<close>

definition duration_total :: "pb_duration \<Rightarrow> int" where
  "duration_total d = sint (dur_seconds d) * 10 ^ 9 + sint (dur_nanos d)"

definition duration_units :: "(string \<times> int) list" where
  "duration_units =
     [('''', 10 ^ 9), (''s'', 10 ^ 9), (''sec'', 10 ^ 9), (''second'', 10 ^ 9), (''seconds'', 10 ^ 9),
      (''ms'', 10 ^ 6), (''millisecond'', 10 ^ 6), (''milliseconds'', 10 ^ 6),
      (''us'', 10 ^ 3), (''microsecond'', 10 ^ 3), (''microseconds'', 10 ^ 3),
      (''ns'', 1), (''nanosecond'', 1), (''nanoseconds'', 1),
      (''m'', 60 * 10 ^ 9), (''minute'', 60 * 10 ^ 9), (''minutes'', 60 * 10 ^ 9),
      (''h'', 3600 * 10 ^ 9), (''hour'', 3600 * 10 ^ 9), (''hours'', 3600 * 10 ^ 9),
      (''d'', 86400 * 10 ^ 9), (''day'', 86400 * 10 ^ 9), (''days'', 86400 * 10 ^ 9),
      (''w'', 604800 * 10 ^ 9), (''week'', 604800 * 10 ^ 9), (''weeks'', 604800 * 10 ^ 9)]"

lemma sub_second_unit:
  assumes "0 < k" "k * j = 10 ^ 9" "0 < j"
  shows "sint (i64_div v k) * 10 ^ 9 + sint (ucast (i64_mod v k * word_of_int j) :: i32) = sint v * j"
    and "\<bar>sint (ucast (i64_mod v k * word_of_int j) :: i32)\<bar> < 10 ^ 9"
proof -
  have "- (2 ^ 63) \<le> sint v" "sint v < 2 ^ 63" using sint_ge [of v] sint_lt [of v] by simp_all
  then have "- (2 ^ 63) \<le> sint v sdiv k \<and> sint v sdiv k < 2 ^ 63"
    using assms by (intro sdiv_bounds) simp_all
  then have a: "sint (i64_div v k) = sint v sdiv k"
    by (intro sint_word_of_int_id) simp_all
  have m: "\<bar>(sint v smod k) * j\<bar> < 10 ^ 9"
    using mult_strict_right_mono [OF abs_smod [of k "sint v"], of j] assms by (simp add: abs_mult)
  have u: "(ucast (i64_mod v k * word_of_int j) :: i32) = word_of_int (sint v smod k * j)"
    unfolding wi_hom_mult by (rule ucast_i32)
  have b: "sint (ucast (i64_mod v k * word_of_int j) :: i32) = sint v smod k * j"
    unfolding u by (intro sint_word_of_int_id) (use m in \<open>simp_all add: abs_less_iff\<close>)
  show "sint (i64_div v k) * 10 ^ 9 + sint (ucast (i64_mod v k * word_of_int j) :: i32) = sint v * j"
  proof -
    have "(sint v sdiv k * k + sint v smod k) * j = sint v * j" by (simp add: sdiv_mult_smod_eq)
    then show ?thesis unfolding a b assms(2) [symmetric] by (simp add: algebra_simps)
  qed
  show "\<bar>sint (ucast (i64_mod v k * word_of_int j) :: i32)\<bar> < 10 ^ 9" using m by (simp add: b)
qed

lemma whole_unit:
  assumes "- (2 ^ 63) * 10 ^ 9 \<le> sint v * (k * 10 ^ 9)" "sint v * (k * 10 ^ 9) < 2 ^ 63 * 10 ^ 9"
  shows "sint (v * word_of_int k :: i64) = sint v * k"
proof -
  have "v * word_of_int k = word_of_int (sint v * k)" by (simp add: wi_hom_syms)
  moreover have "- (2 ^ 63) \<le> sint v * k" "sint v * k < 2 ^ 63" using assms by (simp_all add: mult.commute)
  ultimately show ?thesis using sint_word_of_int_id [of "sint v * k", where 'w = 64] by simp
qed
lemma duration_of_unit_cases:
  assumes "(unit, scale) \<in> set duration_units"
  obtains "scale = 10 ^ 9" "duration_of_unit v unit = \<lparr>dur_seconds = v, dur_nanos = 0\<rparr>"
  | k j where "scale = j" "k * j = 10 ^ 9" "0 < k" "0 < j"
      "duration_of_unit v unit = \<lparr>dur_seconds = i64_div v k, dur_nanos = ucast (i64_mod v k * word_of_int j)\<rparr>"
  | k where "scale = k * 10 ^ 9" "duration_of_unit v unit = \<lparr>dur_seconds = v * word_of_int k, dur_nanos = 0\<rparr>"
proof -
  have "scale = 10 ^ 9 \<and> duration_of_unit v unit = \<lparr>dur_seconds = v, dur_nanos = 0\<rparr> \<or>
    (\<exists>(k, j) \<in> {(1000, 1000000), (1000000, 1000), (1000000000, 1)}. scale = j \<and>
       duration_of_unit v unit = \<lparr>dur_seconds = i64_div v k, dur_nanos = ucast (i64_mod v k * word_of_int j)\<rparr>) \<or>
    (\<exists>k \<in> {60, 3600, 86400, 604800}. scale = k * 10 ^ 9 \<and>
       duration_of_unit v unit = \<lparr>dur_seconds = v * word_of_int k, dur_nanos = 0\<rparr>)"
    using assms
    by (simp add: duration_units_def) (elim disjE; simp add: duration_of_unit_def mult.assoc)
  then show thesis using that by auto
qed

lemma duration_of_unit_exact:
  assumes "(unit, scale) \<in> set duration_units"
    and fits: "- (2 ^ 63) * 10 ^ 9 \<le> sint v * scale" "sint v * scale < 2 ^ 63 * 10 ^ 9"
  shows "duration_total (duration_of_unit v unit) = sint v * scale \<and>
    \<bar>sint (dur_nanos (duration_of_unit v unit))\<bar> < 10 ^ 9"
  using assms(1)
proof (cases rule: duration_of_unit_cases [where v = v])
  case (2 k j)
  then show ?thesis using sub_second_unit [of k j v] by (simp add: duration_total_def)
next
  case (3 k)
  then show ?thesis using whole_unit [of v k] fits by (simp add: duration_total_def)
qed (simp add: duration_total_def)
text \<open>A unit of the table is lower case and does not continue a number.\<close>

lemma duration_unit_text:
  assumes "text_ok T" "(unit, scale) \<in> set duration_units"
  shows "map (ta_tolower T) unit = unit" "skip_space T unit = unit" "ends_number unit"
proof -
  have lower: "\<forall>c\<in>set unit. CHR ''a'' \<le> c \<and> c \<le> CHR ''z''"
    using assms(2) by (auto simp: duration_units_def)
  then show "map (ta_tolower T) unit = unit" using assms(1) by (simp add: text_ok_def map_idI)
  have "\<forall>c\<in>set unit. \<not> ta_is_space T c" using lower assms(1) by (auto simp: text_ok_def less_eq_char_def)
  then show "skip_space T unit = unit" by (intro skip_space_id) (cases unit, auto)
  show "ends_number unit"
    using assms(2) by (auto simp: duration_units_def ends_number_def is_digit_def)
qed

lemma spaces_end_number:
  assumes "text_ok T" "spaces T sp" "ends_number s"
  shows "ends_number (sp @ s)"
proof (cases sp)
  case (Cons c sp')
  then have "ta_is_space T c" using assms(2) by (simp add: spaces_def)
  moreover have "\<not> ta_is_space T CHR ''x''" "\<not> ta_is_space T CHR ''X''"
    using assms(1) by (simp_all add: text_ok_def)
  ultimately show ?thesis
    using Cons text_ok_digit [OF assms(1)] by (auto simp: ends_number_def)
qed (use assms in simp)

lemma skip_space_sign_digits:
  assumes "text_ok T" "list_all is_digit ds" "ds \<noteq> []"
  shows "skip_space T (sign negative @ ds @ s) = sign negative @ ds @ s"
proof (rule skip_space_id)
  have "\<not> ta_is_space T CHR ''-''" using assms(1) by (simp add: text_ok_def)
  then show "sign negative @ ds @ s = [] \<or> \<not> ta_is_space T (hd (sign negative @ ds @ s))"
    using assms text_ok_digit [OF assms(1)] by (cases ds) (auto simp: sign_def)
qed

text \<open>The number a text with this sign and these digits stands for.\<close>

definition signed_value :: "bool \<Rightarrow> string \<Rightarrow> int" where
  "signed_value negative ds = (if negative then - int (digits_value ds) else int (digits_value ds))"

lemma sint_signed_value:
  assumes "digits_value ds < 2 ^ 63"
  shows "sint (if negative then - of_nat (digits_value ds) else of_nat (digits_value ds) :: i64) = signed_value negative ds"
proof -
  have "(if negative then - of_nat (digits_value ds) else of_nat (digits_value ds) :: i64) = word_of_int (signed_value negative ds)"
    by (simp add: signed_value_def wi_hom_syms)
  moreover have "sint (word_of_int (signed_value negative ds) :: i64) = signed_value negative ds"
    by (rule sint_word_of_int_id) (use assms in \<open>auto simp: signed_value_def\<close>)
  ultimately show ?thesis by simp
qed

lemma parse_duration_text:
  assumes "text_ok T" "list_all is_digit ds" "ds \<noteq> []" "spaces T sp" "spaces T sp'" "ends_number s" "skip_space T s = s"
  shows "parse_duration T (sp @ sign negative @ ds @ sp' @ s) =
    duration_of_unit (if negative then - of_nat (digits_value ds) else of_nat (digits_value ds)) (map (ta_tolower T) s)"
  by (simp add: parse_duration_def pick_duration_def skip_space_spaces [OF assms(4)] skip_space_spaces [OF assms(5)]
      skip_space_sign_digits [OF assms(1-3)] assms(7)
      pick_number_digits [OF assms(1-3) spaces_end_number [OF assms(1,5,6)]])

section \<open>Booleans\<close>

text \<open>The words that mean false.\<close>

definition false_words :: "string list" where
  "false_words = [''0'', ''false'', ''no'', ''disable'', ''disabled'']"

lemma strncase_eq_prefix:
  "NUL \<notin> set s \<Longrightarrow> strncase_eq l s \<longleftrightarrow> take (length s) (map ascii_lower l) = map ascii_lower s"
  by (induction l s rule: strncase_eq.induct) auto

lemma dump_pick_logic_bool_alt:
  "dump_pick_logic_bool val \<longleftrightarrow> val \<noteq> [] \<and> \<not> list_ex (\<lambda>w. strncase_eq w val) false_words"
  by (auto simp: dump_pick_logic_bool_def false_words_def)

section \<open>Limits\<close>

text \<open>What the comparison of a type of field has to be for the limits to work.\<close>

locale field_order =
  fixes less :: "'v \<Rightarrow> 'v \<Rightarrow> bool"
  assumes irreflexive: "\<not> less v v"
begin

lemma clamped:
  assumes "fk_less K = less" "\<not> less max_value min_value"
  shows "\<not> less (clamp_field K min_value max_value v) min_value"
    and "\<not> less max_value (clamp_field K min_value max_value v)"
  using assms by (auto simp: clamp_field_def Let_def irreflexive)

lemma clamp_inside:
  assumes "fk_less K = less" "\<not> less v min_value" "\<not> less max_value v"
  shows "clamp_field K min_value max_value v = v"
  using assms by (simp add: clamp_field_def)

end

interpretation bool_limits: field_order "fk_less bool_kind"
  by unfold_locales (simp add: bool_kind_def)

interpretation string_limits: field_order "fk_less string_kind"
  by unfold_locales (simp add: string_kind_def)

interpretation unsigned_limits: field_order "fk_less (unsigned_kind T str2int)"
  by unfold_locales (simp add: unsigned_kind_def)

interpretation signed_limits: field_order "fk_less (signed_kind T str2int)"
  by unfold_locales (simp add: signed_kind_def)

interpretation duration_limits: field_order "fk_less (duration_kind T)"
  by unfold_locales (simp add: duration_kind_def duration_less_def)

interpretation timestamp_limits: field_order "fk_less (timestamp_kind T Z)"
  by unfold_locales (simp add: timestamp_kind_def timestamp_less_def)

text \<open>The limits a field has: its options, or the ends of the type.\<close>

abbreviation field_min :: "'v field_kind \<Rightarrow> configure_meta option \<Rightarrow> 'v" where
  "field_min K meta \<equiv> pick_limit K (fk_min K) cm_min_value meta"

abbreviation field_max :: "'v field_kind \<Rightarrow> configure_meta option \<Rightarrow> 'v" where
  "field_max K meta \<equiv> pick_limit K (fk_max K) cm_max_value meta"

lemma dump_pick_field_clamped:
  "\<exists>v. fst (dump_pick_field_with_extensions K getenv meta val_str) = clamp_field K (field_min K meta) (field_max K meta) v"
  by (auto simp: dump_pick_field_with_extensions_def Let_def)

end
