(* ===== verification/Config_Time_Facts.thy ===== *)
theory Config_Time_Facts
  imports Config_Value_Facts
begin

text \<open>
  Facts on time points: a text \<^verbatim>\<open>year-month-dayThour:minute:second\<close> followed by a zone is
  read into the fields of \<^verbatim>\<open>struct tm\<close>, and what the zone suffix does to the result.
\<close>

section \<open>The text of a date and its fields\<close>

record date_text =
  dt_year :: string
  dt_mon :: string
  dt_mday :: string
  dt_hour :: string
  dt_min :: string
  dt_sec :: string

definition number_text :: "string \<Rightarrow> bool" where
  "number_text ds \<longleftrightarrow> list_all is_digit ds \<and> ds \<noteq> []"

definition date_ok :: "date_text \<Rightarrow> bool" where
  "date_ok d \<longleftrightarrow> number_text (dt_year d) \<and> number_text (dt_mon d) \<and> number_text (dt_mday d) \<and>
     number_text (dt_hour d) \<and> number_text (dt_min d) \<and> number_text (dt_sec d)"

definition date_string :: "date_text \<Rightarrow> string" where
  "date_string d = dt_year d @ CHR ''-'' # dt_mon d @ CHR ''-'' # dt_mday d @ CHR ''T'' # dt_hour d @ CHR '':'' # dt_min d @ CHR '':'' # dt_sec d"

definition number :: "string \<Rightarrow> 'w::len word" where
  "number ds = of_nat (digits_value ds)"

definition tm_of :: "date_text \<Rightarrow> tm" where
  "tm_of d =
     \<lparr>tm_year = number (dt_year d) - 1900, tm_mon = number (dt_mon d) - 1, tm_mday = number (dt_mday d),
      tm_hour = number (dt_hour d), tm_min = number (dt_min d), tm_sec = number (dt_sec d)\<rparr>"

section \<open>Reading it\<close>

lemma pick_number_text:
  "text_ok T \<Longrightarrow> number_text ds \<Longrightarrow> ends_number s \<Longrightarrow> pick_number T (ds @ s) = (number ds, s)"
  using pick_number_digits [of T ds s False] by (simp add: number_text_def number_def sign_def)

lemma number_text_no_space: "text_ok T \<Longrightarrow> number_text ds \<Longrightarrow> skip_space T (ds @ s) = ds @ s"
  using skip_space_sign_digits [of T ds False s] by (simp add: number_text_def sign_def)

definition separator :: "char \<Rightarrow> bool" where
  "separator c \<longleftrightarrow> c \<in> set ''-T:Z+''"

lemma separator_no_space: "text_ok T \<Longrightarrow> separator c \<Longrightarrow> \<not> ta_is_space T c"
  by (auto simp: separator_def text_ok_def)

lemma separator_ends: "separator c \<Longrightarrow> ends_number (c # s)"
  by (auto simp: separator_def ends_number_def is_digit_def)

lemma pick_tm_field_text:
  assumes "text_ok T" "number_text ds" "separator sep" "skip_space T s = s"
  shows "pick_tm_field T sep (ds @ sep # s) = (number ds, s)"
  using assms separator_no_space [OF assms(1,3)]
  by (simp add: pick_tm_field_def pick_number_text separator_ends skip_space_id)

lemma pick_tm_text:
  assumes "text_ok T" "date_ok d" "s = [] \<or> separator (hd s)"
  shows "pick_tm T (date_string d @ s) = (tm_of d, s)"
proof -
  have "ends_number s" using assms(3) separator_ends by (cases s) (auto simp: ends_number_def)
  moreover have "skip_space T s = s" using assms(1,3) separator_no_space by (intro skip_space_id) auto
  ultimately show ?thesis
    using assms(1,2)
    by (simp add: pick_tm_def date_string_def date_ok_def tm_of_def pick_tm_field_text pick_number_text
        number_text_no_space separator_def)
qed

text \<open>The offset the code takes from \<^verbatim>\<open>hours:minutes\<close>.\<close>

lemma pick_zone_offset_text:
  assumes "text_ok T" "number_text hh" "number_text mm"
  shows "pick_zone_offset T (hh @ CHR '':'' # mm) = number hh * 60 + number mm"
proof -
  have "pick_number T (hh @ CHR '':'' # mm) = (number hh :: i64, CHR '':'' # mm)"
    using assms by (intro pick_number_text separator_ends) (auto simp: separator_def)
  moreover have "pick_number T mm = (number mm :: i64, [])"
    using pick_number_text [OF assms(1,3), of "[]"] by (simp add: ends_number_def)
  ultimately show ?thesis by (simp add: pick_zone_offset_def at_end_def)
qed

lemma parse_timepoint_text:
  assumes "text_ok T" "date_ok d" "s = [] \<or> separator (hd s)"
  shows "parse_timepoint T Z (date_string d @ s) =
    \<lparr>ts_seconds =
       (if s \<noteq> [] \<and> hd s = CHR ''Z'' then tz_mktime Z (tm_of d) - tz_sys_zone_offset Z
        else if s \<noteq> [] \<and> hd s = CHR ''+'' then tz_mktime Z (tm_of d) - tz_sys_zone_offset Z - pick_zone_offset T (tl s)
        else if s \<noteq> [] \<and> hd s = CHR ''-'' then tz_mktime Z (tm_of d) - tz_sys_zone_offset Z + pick_zone_offset T (tl s)
        else tz_mktime Z (tm_of d)),
     ts_nanos = 0\<rparr>"
proof -
  have "skip_space T (date_string d @ s) = date_string d @ s"
    using assms(1,2) by (simp add: date_string_def date_ok_def number_text_no_space)
  then show ?thesis
    using pick_tm_text [OF assms] by (simp add: parse_timepoint_def pick_timestamp_def)
qed

text \<open>Hours and minutes of a zone as seconds and as the code counts them.\<close>

lemma zone_offset_differs:
  assumes "h < 100" "m < 100" "0 < h * 60 + m"
  shows "(of_nat h * 3600 + of_nat m * 60 :: i64) \<noteq> of_nat h * 60 + of_nat m"
proof
  assume "(of_nat h * 3600 + of_nat m * 60 :: i64) = of_nat h * 60 + of_nat m"
  then have "(of_nat (h * 3600 + m * 60) :: i64) = of_nat (h * 60 + m)" by simp
  then have "(h * 3600 + m * 60) mod 2 ^ 64 = (h * 60 + m) mod 2 ^ 64"
    by (simp only: word_of_nat_eq_iff take_bit_eq_mod) simp
  then show False using assms by simp
qed

end
