(* ===== verification/Proto_Message.thy ===== *)
theory Proto_Message
  imports Config_Value "HOL-Library.Monad_Syntax"
begin

text \<open>
  Protobuf messages as the configuration loaders see them through reflection: descriptors,
  values, and the reflection calls the code makes. A call that protobuf ends with a fatal
  error (adding to a singular field, setting a repeated one) has no result.
\<close>

section \<open>Descriptors and values\<close>

datatype cpp_type =
    CPPTYPE_INT32 | CPPTYPE_INT64 | CPPTYPE_UINT32 | CPPTYPE_UINT64 | CPPTYPE_DOUBLE | CPPTYPE_FLOAT
  | CPPTYPE_BOOL | CPPTYPE_ENUM | CPPTYPE_STRING | CPPTYPE_MESSAGE

record field_descriptor =
  fd_name :: string
  fd_cpp_type :: cpp_type
  fd_repeated :: bool
  fd_map :: bool
  fd_oneof :: "string option" \<comment> \<open>\<^verbatim>\<open>containing_oneof()\<close>\<close>
  fd_message_type :: string \<comment> \<open>full name of the type of a message field\<close>
  fd_enum_type :: "enum_value list"
  fd_configure :: "configure_meta option" \<comment> \<open>the \<^verbatim>\<open>CONFIGURE\<close> extension\<close>

text \<open>The fields of a message type in the order of its descriptor, by the full name of the type.\<close>

type_synonym descriptor_pool = "string \<Rightarrow> field_descriptor list"

text \<open>
  A value of a field. Floating-point numbers are their bit patterns. A message holds, by the
  name of a field, the values of the field: at most one for a singular field, none when it is
  not set.
\<close>

datatype pb_value =
    PB_Int32 i32 | PB_Int64 i64 | PB_Uint32 u32 | PB_Uint64 u64 | PB_Double u64 | PB_Float u32
  | PB_Bool bool | PB_Enum i32 | PB_String string | PB_Message message
  and message = Message (msg_type: string) (msg_fields: "(string \<times> pb_value list) list")

section \<open>Reflection\<close>

definition field_values :: "message \<Rightarrow> string \<Rightarrow> pb_value list" where
  "field_values m n = (case map_of (msg_fields m) n of None \<Rightarrow> [] | Some vs \<Rightarrow> vs)"

definition put_values :: "string \<Rightarrow> pb_value list \<Rightarrow> message \<Rightarrow> message" where
  "put_values n vs m = Message (msg_type m) (AList.update n vs (msg_fields m))"

definition field_size :: "message \<Rightarrow> field_descriptor \<Rightarrow> nat" where
  "field_size m fds = length (field_values m (fd_name fds))"

definition has_oneof :: "descriptor_pool \<Rightarrow> message \<Rightarrow> string \<Rightarrow> bool" where
  "has_oneof P m oneof = list_ex (\<lambda>f. fd_oneof f = Some oneof \<and> field_values m (fd_name f) \<noteq> []) (P (msg_type m))"

text \<open>Setting a member of a oneof clears the others.\<close>

definition clear_oneof :: "descriptor_pool \<Rightarrow> field_descriptor \<Rightarrow> message \<Rightarrow> message" where
  "clear_oneof P fds m =
     (if fd_oneof fds = None then m
      else fold (\<lambda>f. if fd_oneof f = fd_oneof fds then put_values (fd_name f) [] else id) (P (msg_type m)) m)"

definition set_value :: "descriptor_pool \<Rightarrow> field_descriptor \<Rightarrow> pb_value \<Rightarrow> message \<Rightarrow> message option" where
  "set_value P fds v m =
     (if fd_repeated fds then None else Some (put_values (fd_name fds) [v] (clear_oneof P fds m)))"

definition add_value :: "field_descriptor \<Rightarrow> pb_value \<Rightarrow> message \<Rightarrow> message option" where
  "add_value fds v m =
     (if fd_repeated fds then Some (put_values (fd_name fds) (field_values m (fd_name fds) @ [v]) m) else None)"

definition empty_message :: "string \<Rightarrow> message" where
  "empty_message t = Message t []"

text \<open>The message \<^verbatim>\<open>MutableMessage\<close> points to: the one there, or a new one.\<close>

definition sub_message :: "field_descriptor \<Rightarrow> message \<Rightarrow> message" where
  "sub_message fds m =
     (case field_values m (fd_name fds) of PB_Message s # _ \<Rightarrow> s | _ \<Rightarrow> empty_message (fd_message_type fds))"

section \<open>Durations and time points as messages\<close>

definition duration_type :: string where
  "duration_type = ''google.protobuf.Duration''"

definition timestamp_type :: string where
  "timestamp_type = ''google.protobuf.Timestamp''"

definition time_message :: "string \<Rightarrow> i64 \<Rightarrow> i32 \<Rightarrow> message" where
  "time_message t seconds nanos = Message t [(''seconds'', [PB_Int64 seconds]), (''nanos'', [PB_Int32 nanos])]"

definition is_time_type :: "string \<Rightarrow> bool" where
  "is_time_type t \<longleftrightarrow> t = duration_type \<or> t = timestamp_type"

section \<open>Loops over fields\<close>

fun fold_option :: "('a \<Rightarrow> 's \<Rightarrow> 's option) \<Rightarrow> 'a list \<Rightarrow> 's \<Rightarrow> 's option" where
  "fold_option f [] s = Some s"
| "fold_option f (x # xs) s = do { s' \<leftarrow> f x s; fold_option f xs s' }"

text \<open>A loop that runs every step and tells whether any of them returned true.\<close>

fun any_step :: "('a \<Rightarrow> 's \<Rightarrow> (bool \<times> 's) option) \<Rightarrow> 'a list \<Rightarrow> 's \<Rightarrow> (bool \<times> 's) option" where
  "any_step f [] s = Some (False, s)"
| "any_step f (x # xs) s = do { (b, s') \<leftarrow> f x s; (b', s'') \<leftarrow> any_step f xs s'; Some (b \<or> b', s'') }"

text \<open>The invariant rule of the two loops.\<close>

lemma fold_option_invariant:
  assumes "fold_option f xs s = Some s'" "I s"
    and "\<And>x u v. x \<in> set xs \<Longrightarrow> I u \<Longrightarrow> f x u = Some v \<Longrightarrow> I v"
  shows "I s'"
  using assms by (induction xs arbitrary: s) (auto simp: bind_eq_Some_conv)

lemma any_step_invariant:
  assumes "any_step f xs s = Some (b, s')" "I s"
    and "\<And>x u b v. x \<in> set xs \<Longrightarrow> I u \<Longrightarrow> f x u = Some (b, v) \<Longrightarrow> I v"
  shows "I s'"
  using assms
proof (induction xs arbitrary: s b)
  case (Cons x xs)
  from Cons.prems(1) obtain c u c' where u: "f x s = Some (c, u)" "any_step f xs u = Some (c', s')"
    by (auto simp: bind_eq_Some_conv)
  have "I u" by (rule Cons.prems(3) [OF _ Cons.prems(2) u(1)]) simp
  then show ?case by (rule Cons.IH [OF u(2)]) (rule Cons.prems(3), simp_all)
qed simp

section \<open>Reading and writing fields\<close>

lemma msg_type_put [simp]: "msg_type (put_values n vs m) = msg_type m"
  by (simp add: put_values_def)

lemma field_values_put [simp]:
  "field_values (put_values n vs m) n' = (if n' = n then vs else field_values m n')"
  by (simp add: field_values_def put_values_def update_conv')

lemma field_values_empty [simp]: "field_values (empty_message t) n = []"
  by (simp add: field_values_def empty_message_def)

lemma msg_type_empty [simp]: "msg_type (empty_message t) = t"
  by (simp add: empty_message_def)

lemma clear_oneof_fields:
  "msg_type (clear_oneof P fds m) = msg_type m"
  "field_values (clear_oneof P fds m) n =
     (if fd_oneof fds \<noteq> None \<and> (\<exists>f\<in>set (P (msg_type m)). fd_name f = n \<and> fd_oneof f = fd_oneof fds) then []
      else field_values m n)"
proof -
  let ?step = "\<lambda>f. if fd_oneof f = fd_oneof fds then put_values (fd_name f) [] else id"
  have "msg_type (fold ?step fs m) = msg_type m \<and>
    field_values (fold ?step fs m) n =
      (if \<exists>f\<in>set fs. fd_name f = n \<and> fd_oneof f = fd_oneof fds then [] else field_values m n)" for fs
    by (induction fs rule: rev_induct) auto
  note step = this [of "P (msg_type m)"]
  show "msg_type (clear_oneof P fds m) = msg_type m"
    using step by (auto simp: clear_oneof_def)
  show "field_values (clear_oneof P fds m) n =
    (if fd_oneof fds \<noteq> None \<and> (\<exists>f\<in>set (P (msg_type m)). fd_name f = n \<and> fd_oneof f = fd_oneof fds) then []
     else field_values m n)"
  proof (cases "fd_oneof fds = None")
    case True
    then show ?thesis by (simp add: clear_oneof_def)
  next
    case False
    then show ?thesis unfolding clear_oneof_def using conjunct2 [OF step] by (simp only: False if_False simp_thms)
  qed
qed

end
