(* ===== verification/Config_Loader.thy ===== *)
theory Config_Loader
  imports Proto_Message
begin

text \<open>
  The configuration loaders (\<^verbatim>\<open>src/atframe/atapp_conf.cpp\<close>), part one: how a value is put
  into a field and recorded in the set of existing keys, the defaults, and the environment.
  A loader has no result when the process does not get there: a fatal error of reflection, or
  a recursion deeper than its fuel.
\<close>

section \<open>Text\<close>

text \<open>Decimal notation, as the format strings print an index.\<close>

fun dec_str :: "nat \<Rightarrow> string" where
  "dec_str n = (if n < 10 then [char_of (48 + n)] else dec_str (n div 10) @ [char_of (48 + n mod 10)])"

declare dec_str.simps [simp del]

text \<open>
  What the loaders call outside the repository: character functions, the C library's time,
  environment and \<^verbatim>\<open>strtod\<close>, and the integer parsers of atframe\_utils, one for each type.
\<close>

record conf_api =
  ca_text :: text_api
  ca_toupper :: "char \<Rightarrow> char"
  ca_time :: time_api
  ca_getenv :: "string \<Rightarrow> string"
  ca_float :: "u32 float_api"
  ca_double :: "u64 float_api"
  ca_str2int32 :: "string \<Rightarrow> i32 \<times> string"
  ca_str2int64 :: "string \<Rightarrow> i64 \<times> string"
  ca_str2uint32 :: "string \<Rightarrow> u32 \<times> string"
  ca_str2uint64 :: "string \<Rightarrow> u64 \<times> string"
  ca_to_int32 :: "string \<Rightarrow> i32"
  ca_to_size :: "string \<Rightarrow> u64"

section \<open>Conversion by the type of the field\<close>

abbreviation pick_as :: "conf_api \<Rightarrow> 'v field_kind \<Rightarrow> field_descriptor \<Rightarrow> string \<Rightarrow> 'v \<times> bool" where
  "pick_as A K fds val \<equiv> dump_pick_field_with_extensions K (ca_getenv A) (fd_configure fds) val"

text \<open>
  The value of a field from a string, and whether it is the default. An enum without a value
  for the text and for zero is a null pointer, which \<^verbatim>\<open>SetEnum\<close> dereferences.
\<close>

definition pick_enum :: "conf_api \<Rightarrow> field_descriptor \<Rightarrow> string \<Rightarrow> (pb_value \<times> bool) option" where
  "pick_enum A fds val =
     (case dump_pick_enum_field_with_extensions (ca_text A) (ca_to_int32 A) (ca_getenv A) (fd_configure fds) (fd_enum_type fds) val of
        (Some v, is_default) \<Rightarrow> Some (PB_Enum (ev_number v), is_default)
      | (None, _) \<Rightarrow> None)"

definition pick_time :: "conf_api \<Rightarrow> field_descriptor \<Rightarrow> string \<Rightarrow> pb_value \<times> bool" where
  "pick_time A fds val =
     (if fd_message_type fds = duration_type
      then let (d, is_default) = pick_as A (duration_kind (ca_text A)) fds val
           in (PB_Message (time_message (fd_message_type fds) (dur_seconds d) (dur_nanos d)), is_default)
      else let (t, is_default) = pick_as A (timestamp_kind (ca_text A) (ca_time A)) fds val
           in (PB_Message (time_message (fd_message_type fds) (ts_seconds t) (ts_nanos t)), is_default))"

definition pick_value :: "conf_api \<Rightarrow> field_descriptor \<Rightarrow> string \<Rightarrow> (pb_value \<times> bool) option" where
  "pick_value A fds val =
     (case fd_cpp_type fds of
        CPPTYPE_INT32 \<Rightarrow> Some (apfst PB_Int32 (pick_as A (signed_kind (ca_text A) (ca_str2int32 A)) fds val))
      | CPPTYPE_INT64 \<Rightarrow> Some (apfst PB_Int64 (pick_as A (signed_kind (ca_text A) (ca_str2int64 A)) fds val))
      | CPPTYPE_UINT32 \<Rightarrow> Some (apfst PB_Uint32 (pick_as A (unsigned_kind (ca_text A) (ca_str2uint32 A)) fds val))
      | CPPTYPE_UINT64 \<Rightarrow> Some (apfst PB_Uint64 (pick_as A (unsigned_kind (ca_text A) (ca_str2uint64 A)) fds val))
      | CPPTYPE_DOUBLE \<Rightarrow> Some (apfst PB_Double (pick_as A (float_kind (ca_double A)) fds val))
      | CPPTYPE_FLOAT \<Rightarrow> Some (apfst PB_Float (pick_as A (float_kind (ca_float A)) fds val))
      | CPPTYPE_BOOL \<Rightarrow> Some (apfst PB_Bool (pick_as A bool_kind fds val))
      | CPPTYPE_ENUM \<Rightarrow> pick_enum A fds val
      | CPPTYPE_STRING \<Rightarrow> Some (apfst PB_String (pick_as A string_kind fds val))
      | CPPTYPE_MESSAGE \<Rightarrow> Some (pick_time A fds val))"

section \<open>Putting a value into a field\<close>

text \<open>The message a loader fills, and the keys read so far when the caller asks for them.\<close>

type_synonym load_state = "message \<times> string set option"

definition mark_existed :: "string \<Rightarrow> string set option \<Rightarrow> string set option" where
  "mark_existed key es = map_option (insert key) es"

definition not_existed :: "string \<Rightarrow> string set option \<Rightarrow> bool" where
  "not_existed key es = (case es of None \<Rightarrow> True | Some s \<Rightarrow> key \<notin> s)"

definition index_key :: "string \<Rightarrow> field_descriptor \<Rightarrow> nat \<Rightarrow> string" where
  "index_key prefix fds i = prefix @ fd_name fds @ ''.'' @ dec_str i"

definition dump_field_with_value_delegate ::
  "(pb_value \<Rightarrow> message \<Rightarrow> message option) \<Rightarrow> (pb_value \<Rightarrow> message \<Rightarrow> message option) \<Rightarrow>
   field_descriptor \<Rightarrow> string \<Rightarrow> pb_value \<times> bool \<Rightarrow> load_state \<Rightarrow> (bool \<times> load_state) option" where
  "dump_field_with_value_delegate add_fn set_fn fds prefix val st =
     (let (v, is_default) = val; (dst, es) = st in
      if fd_repeated fds then
        (if \<not> is_default
         then do { dst' \<leftarrow> add_fn v dst; Some (True, dst', mark_existed (index_key prefix fds (field_size dst fds)) es) }
         else Some (False, st))
      else
        (if is_default
         then (if not_existed (prefix @ fd_name fds) es
               then do { dst' \<leftarrow> set_fn v dst; Some (True, dst', es) }
               else Some (False, st))
         else do { dst' \<leftarrow> set_fn v dst; Some (True, dst', mark_existed (prefix @ fd_name fds) es) }))"

text \<open>The same for a duration or time point, whose message is added or made mutable and copied into.\<close>

definition dump_field_with_message_delegate ::
  "descriptor_pool \<Rightarrow> field_descriptor \<Rightarrow> string \<Rightarrow> pb_value \<times> bool \<Rightarrow> load_state \<Rightarrow> (bool \<times> load_state) option" where
  "dump_field_with_message_delegate P fds prefix val st =
     (let (v, is_default) = val; (dst, es) = st in
      if fd_repeated fds then
        (if \<not> is_default
         then do { dst' \<leftarrow> add_value fds v dst; Some (True, dst', mark_existed (index_key prefix fds (field_size dst fds)) es) }
         else Some (False, st))
      else if is_default then
        (if not_existed (prefix @ fd_name fds) es
         then do { dst' \<leftarrow> set_value P fds v dst; Some (True, dst', es) }
         else Some (False, st))
      else do { dst' \<leftarrow> set_value P fds v dst; Some (True, dst', mark_existed (prefix @ fd_name fds) es) })"

text \<open>The overloads: the one for \<^verbatim>\<open>float\<close> passes \<^verbatim>\<open>AddFloat\<close> for both calls.\<close>

definition dump_field_with_value ::
  "descriptor_pool \<Rightarrow> field_descriptor \<Rightarrow> string \<Rightarrow> pb_value \<times> bool \<Rightarrow> load_state \<Rightarrow> (bool \<times> load_state) option" where
  "dump_field_with_value P fds prefix val st =
     (case fst val of
        PB_Message _ \<Rightarrow> dump_field_with_message_delegate P fds prefix val st
      | PB_Float _ \<Rightarrow> dump_field_with_value_delegate (add_value fds) (add_value fds) fds prefix val st
      | _ \<Rightarrow> dump_field_with_value_delegate (add_value fds) (set_value P fds) fds prefix val st)"

section \<open>Defaults\<close>

text \<open>Fields that take their default from a string: all but messages that are not a time.\<close>

definition allow_string_default_value :: "field_descriptor \<Rightarrow> bool" where
  "allow_string_default_value fds \<longleftrightarrow> fd_cpp_type fds \<noteq> CPPTYPE_MESSAGE \<or> is_time_type (fd_message_type fds)"

definition skip_default :: "descriptor_pool \<Rightarrow> field_descriptor \<Rightarrow> string set \<Rightarrow> string \<Rightarrow> message \<Rightarrow> bool" where
  "skip_default P fds existed_set prefix dst \<longleftrightarrow>
     (case fd_oneof fds of None \<Rightarrow> False | Some oneof \<Rightarrow> has_oneof P dst oneof) \<or>
     allow_string_default_value fds \<and>
       (case fd_configure fds of None \<Rightarrow> True
        | Some meta \<Rightarrow> cm_default_value meta = [] \<or> fd_repeated fds \<or> prefix @ fd_name fds \<in> existed_set)"

text \<open>The elements of a repeated message field, each with its index.\<close>

definition update_elements ::
  "(nat \<Rightarrow> message \<Rightarrow> message option) \<Rightarrow> field_descriptor \<Rightarrow> message \<Rightarrow> message option" where
  "update_elements f fds dst =
     do { vs \<leftarrow> those (map (\<lambda>(i, v). case v of PB_Message s \<Rightarrow> map_option PB_Message (f i s) | _ \<Rightarrow> Some v)
                        (enumerate 0 (field_values dst (fd_name fds))));
          Some (put_values (fd_name fds) vs dst) }"

primrec dump_pick_default_field ::
  "descriptor_pool \<Rightarrow> conf_api \<Rightarrow> string set \<Rightarrow> nat \<Rightarrow> string \<Rightarrow> field_descriptor \<Rightarrow> message \<Rightarrow> message option" where
  "dump_pick_default_field P A existed_set 0 prefix fds dst = None"
| "dump_pick_default_field P A existed_set (Suc fuel) prefix fds dst =
     (let fields = (\<lambda>new_prefix submsg.
            fold_option (dump_pick_default_field P A existed_set fuel new_prefix) (P (msg_type submsg)) submsg)
      in
      if skip_default P fds existed_set prefix dst then Some dst
      else if allow_string_default_value fds then do { (v, _) \<leftarrow> pick_value A fds []; set_value P fds v dst }
      else if fd_repeated fds then update_elements (\<lambda>i. fields (index_key prefix fds i @ ''.'')) fds dst
      else do { submsg \<leftarrow> fields (prefix @ fd_name fds @ ''.'') (sub_message fds dst);
                set_value P fds (PB_Message submsg) dst })"

definition default_loader_dump_to ::
  "descriptor_pool \<Rightarrow> conf_api \<Rightarrow> nat \<Rightarrow> string set \<Rightarrow> message \<Rightarrow> message option" where
  "default_loader_dump_to P A fuel existed_set dst =
     fold_option (dump_pick_default_field P A existed_set fuel []) (P (msg_type dst)) dst"

section \<open>The environment\<close>

text \<open>
  The functions recurse through each other; \<open>message_item\<close> is the loader of a sub-message,
  the recursion is closed by \<open>dump_environment_message_item\<close> below.
\<close>

definition env_value :: "conf_api \<Rightarrow> string \<Rightarrow> string" where
  "env_value A key = ca_getenv A (c_str key)"

text \<open>The sub-message of a field: added and removed again when it stays empty, or made mutable.\<close>

definition environment_sub_message ::
  "descriptor_pool \<Rightarrow> (string \<Rightarrow> string \<Rightarrow> load_state \<Rightarrow> (bool \<times> load_state) option) \<Rightarrow>
   string \<Rightarrow> field_descriptor \<Rightarrow> string \<Rightarrow> load_state \<Rightarrow> (bool \<times> load_state) option" where
  "environment_sub_message P message_item key fds prefix st =
     (let (dst, es) = st in
      if fd_repeated fds then
        (let index = field_size dst fds in
         do { (has, submsg, es') \<leftarrow> message_item key (index_key prefix fds index @ ''.'') (empty_message (fd_message_type fds), es);
              if has
              then do { dst' \<leftarrow> add_value fds (PB_Message submsg) dst;
                        Some (True, dst', mark_existed (index_key prefix fds index) es') }
              else Some (False, dst, es') })
      else
        do { (has, submsg, es') \<leftarrow> message_item key (prefix @ fd_name fds @ ''.'') (sub_message fds dst, es);
             dst' \<leftarrow> set_value P fds (PB_Message submsg) dst;
             Some (has, dst', if has then mark_existed (prefix @ fd_name fds) es' else es') })"

definition dump_environment_pick_field ::
  "descriptor_pool \<Rightarrow> conf_api \<Rightarrow> (string \<Rightarrow> string \<Rightarrow> load_state \<Rightarrow> (bool \<times> load_state) option) \<Rightarrow>
   string \<Rightarrow> field_descriptor \<Rightarrow> string \<Rightarrow> load_state \<Rightarrow> (bool \<times> load_state) option" where
  "dump_environment_pick_field P A message_item key fds prefix st =
     (let val = env_value A key in
      if fd_cpp_type fds = CPPTYPE_MESSAGE then
        (if val \<noteq> []
         then (if is_time_type (fd_message_type fds)
               then dump_field_with_value P fds prefix (pick_time A fds val) st
               else Some (False, st))
         else environment_sub_message P message_item key fds prefix st)
      else if val = [] then Some (False, st)
      else do { v \<leftarrow> pick_value A fds val; dump_field_with_value P fds prefix v st })"

text \<open>The loop over \<^verbatim>\<open>KEY_0\<close>, \<^verbatim>\<open>KEY_1\<close>, ... up to the first one without a value.\<close>

primrec environment_indexed_loop ::
  "(nat \<Rightarrow> load_state \<Rightarrow> (bool \<times> load_state) option) \<Rightarrow> nat \<Rightarrow> nat \<Rightarrow> load_state \<Rightarrow> (bool \<times> load_state) option" where
  "environment_indexed_loop pick 0 i st = None"
| "environment_indexed_loop pick (Suc fuel) i st =
     do { (b, st') \<leftarrow> pick i st;
          if b then map_option (\<lambda>(_, st''). (True, st'')) (environment_indexed_loop pick fuel (i + 1) st')
          else Some (False, st') }"

definition env_key :: "conf_api \<Rightarrow> string \<Rightarrow> string \<Rightarrow> string" where
  "env_key A prefix name = map (ca_toupper A) ((if prefix \<noteq> [] then prefix @ ''_'' else []) @ name)"

text \<open>The \<^verbatim>\<open>field_match\<close> option of a field, when both its texts are given.\<close>

definition same_level_match :: "field_descriptor \<Rightarrow> (string \<times> string) option" where
  "same_level_match fds =
     (if fd_repeated fds then None
      else case fd_configure fds of None \<Rightarrow> None
           | Some meta \<Rightarrow> let (name, val) = cm_field_match meta
                          in if name \<noteq> [] \<and> val \<noteq> [] then Some (name, val) else None)"

definition dump_environment_field_item ::
  "descriptor_pool \<Rightarrow> conf_api \<Rightarrow> nat \<Rightarrow> (string \<Rightarrow> string \<Rightarrow> load_state \<Rightarrow> (bool \<times> load_state) option) \<Rightarrow>
   string \<Rightarrow> string \<Rightarrow> field_descriptor \<Rightarrow> load_state \<Rightarrow> (bool \<times> load_state) option" where
  "dump_environment_field_item P A fuel message_item prefix existed_prefix fds st =
     (case same_level_match fds of
        Some (name, val) \<Rightarrow>
          if env_value A (env_key A prefix name) \<noteq> val then Some (False, st)
          else do { (b, submsg, es') \<leftarrow> message_item prefix existed_prefix (sub_message fds (fst st), snd st);
                    dst' \<leftarrow> set_value P fds (PB_Message submsg) (fst st);
                    Some (b, dst', es') }
      | None \<Rightarrow>
          let key = env_key A prefix (fd_name fds);
              pick = (\<lambda>k. dump_environment_pick_field P A message_item k fds existed_prefix)
          in if fd_repeated fds
             then do { (has_value, st') \<leftarrow> environment_indexed_loop (\<lambda>i. pick (key @ ''_'' @ dec_str i)) fuel 0 st;
                       if \<not> has_value then pick key st' else Some (True, st') }
             else pick key st)"

primrec dump_environment_message_item ::
  "descriptor_pool \<Rightarrow> conf_api \<Rightarrow> nat \<Rightarrow> string \<Rightarrow> string \<Rightarrow> load_state \<Rightarrow> (bool \<times> load_state) option" where
  "dump_environment_message_item P A 0 prefix existed_prefix st = None"
| "dump_environment_message_item P A (Suc fuel) prefix existed_prefix st =
     any_step (dump_environment_field_item P A fuel (dump_environment_message_item P A fuel) prefix existed_prefix)
       (P (msg_type (fst st))) st"

definition environment_loader_dump_to ::
  "descriptor_pool \<Rightarrow> conf_api \<Rightarrow> nat \<Rightarrow> string \<Rightarrow> load_state \<Rightarrow> (bool \<times> load_state) option" where
  "environment_loader_dump_to P A fuel prefix st = dump_environment_message_item P A fuel prefix [] st"

end
