(* ===== verification/Config_Ini.thy ===== *)
theory Config_Ini
  imports Config_Loader
begin

text \<open>
  The configuration loaders, part two: INI files. A parsed section is a tree of the
  \<^verbatim>\<open>ini_value\<close> of atframe\_utils, seen through the calls the loader makes: \<^verbatim>\<open>size()\<close>,
  \<^verbatim>\<open>as_cpp_string(i)\<close> and \<^verbatim>\<open>get_children()\<close> in the order of its iteration.
\<close>

datatype ini_value =
  Ini (ini_size: nat) (as_cpp_string: "nat \<Rightarrow> string") (get_children: "(string \<times> ini_value option) list")

section \<open>Keys of maps\<close>

definition map_key_type :: "cpp_type \<Rightarrow> bool" where
  "map_key_type t \<longleftrightarrow>
     t \<in> {CPPTYPE_INT32, CPPTYPE_INT64, CPPTYPE_UINT32, CPPTYPE_UINT64, CPPTYPE_STRING, CPPTYPE_BOOL}"

definition dump_pick_map_key_field ::
  "descriptor_pool \<Rightarrow> conf_api \<Rightarrow> string \<Rightarrow> field_descriptor \<Rightarrow> string \<Rightarrow> load_state \<Rightarrow> (bool \<times> load_state) option" where
  "dump_pick_map_key_field P A val_str fds existed_prefix st =
     (if fd_repeated fds then Some (False, st)
      else if map_key_type (fd_cpp_type fds)
      then do { v \<leftarrow> pick_value A fds val_str; dump_field_with_value P fds existed_prefix v st }
      else Some (False, st))"

section \<open>Fields\<close>

type_synonym ini_pick = "ini_value \<Rightarrow> field_descriptor \<Rightarrow> nat \<Rightarrow> string \<Rightarrow> load_state \<Rightarrow> (bool \<times> load_state) option"
type_synonym ini_load = "ini_value \<Rightarrow> string \<Rightarrow> load_state \<Rightarrow> (bool \<times> load_state) option"

text \<open>One child of a section as an entry of a map field.\<close>

definition ini_map_entry ::
  "descriptor_pool \<Rightarrow> conf_api \<Rightarrow> ini_pick \<Rightarrow> field_descriptor \<Rightarrow> field_descriptor \<Rightarrow> field_descriptor \<Rightarrow>
   string \<Rightarrow> string \<times> ini_value option \<Rightarrow> load_state \<Rightarrow> (bool \<times> load_state) option" where
  "ini_map_entry P A pick fds key_fds value_fds prefix child st =
     (case snd child of
        None \<Rightarrow> Some (False, st)
      | Some val \<Rightarrow>
          let (dst, es) = st;
              idx = field_size dst fds;
              sub_prefix = index_key prefix fds idx @ ''.'';
              enabled = field_has_enable_expression (fd_configure fds);
              map_key = (if enabled then expand_expression_impl (ca_getenv A) (fst child) 0 else fst child)
          in do { (has_key, st1) \<leftarrow> dump_pick_map_key_field P A map_key key_fds sub_prefix (empty_message (fd_message_type fds), es);
                  (has_value, st2) \<leftarrow>
                    (if enabled \<and> fd_cpp_type value_fds = CPPTYPE_STRING
                     then dump_field_with_value P value_fds sub_prefix
                            (PB_String (expand_expression_impl (ca_getenv A) (as_cpp_string val 0) 0), False) st1
                     else pick val value_fds 0 sub_prefix st1);
                  dst' \<leftarrow> add_value fds (PB_Message (fst st2)) dst;
                  let has_data = has_key \<or> has_value
                  in Some (has_data, dst', if has_data then mark_existed (index_key prefix fds idx) (snd st2) else snd st2) })"

text \<open>
  The children \<^verbatim>\<open>0\<close>, \<^verbatim>\<open>1\<close>, ... up to the first missing one; there are at most as many as
  the section has children.
\<close>

definition ini_child :: "ini_value \<Rightarrow> string \<Rightarrow> ini_value option" where
  "ini_child val key = (case map_of (get_children val) key of Some (Some child) \<Rightarrow> Some child | _ \<Rightarrow> None)"

definition ini_elements :: "ini_value \<Rightarrow> (nat \<times> ini_value) list" where
  "ini_elements val =
     map (\<lambda>j. (j, the (ini_child val (dec_str j))))
       (takeWhile (\<lambda>j. \<not> Option.is_none (ini_child val (dec_str j))) [0..<length (get_children val)])"

definition ini_repeated_element ::
  "descriptor_pool \<Rightarrow> ini_load \<Rightarrow> field_descriptor \<Rightarrow> string \<Rightarrow> nat \<times> ini_value \<Rightarrow> load_state \<Rightarrow> (bool \<times> load_state) option" where
  "ini_repeated_element P load fds prefix elem st =
     (let (j, val) = elem; (dst, es) = st; key = index_key prefix fds j @ ''.'' in
      do { (b, submsg, es') \<leftarrow> load val key (empty_message (fd_message_type fds), es);
           dst' \<leftarrow> add_value fds (PB_Message submsg) dst;
           Some (b, dst', if b then mark_existed key es' else es') })"

definition ini_pick_message ::
  "descriptor_pool \<Rightarrow> conf_api \<Rightarrow> ini_pick \<Rightarrow> ini_load \<Rightarrow> ini_pick" where
  "ini_pick_message P A pick load val fds index prefix st =
     (if is_time_type (fd_message_type fds)
      then dump_field_with_value P fds prefix (pick_time A fds (as_cpp_string val index)) st
      else if fd_map fds then
        (case P (fd_message_type fds) of
           key_fds # value_fds # _ \<Rightarrow> any_step (ini_map_entry P A pick fds key_fds value_fds prefix) (get_children val) st
         | _ \<Rightarrow> Some (False, st))
      else if fd_repeated fds then any_step (ini_repeated_element P load fds prefix) (ini_elements val) st
      else
        do { (b, submsg, es') \<leftarrow> load val (prefix @ fd_name fds @ ''.'') (sub_message fds (fst st), snd st);
             dst' \<leftarrow> set_value P fds (PB_Message submsg) (fst st);
             Some (b, dst', if b then mark_existed (prefix @ fd_name fds) es' else es') })"

text \<open>One field of a message from a section: \<^verbatim>\<open>dump_field_item\<close>.\<close>

definition ini_field_item ::
  "descriptor_pool \<Rightarrow> ini_pick \<Rightarrow> ini_load \<Rightarrow> ini_value \<Rightarrow> string \<Rightarrow> field_descriptor \<Rightarrow> load_state \<Rightarrow> (bool \<times> load_state) option" where
  "ini_field_item P pick load src prefix fds st =
     (case same_level_match fds of
        Some (name, val) \<Rightarrow>
          (case map_of (get_children src) name of
             Some (Some field_value) \<Rightarrow>
               if as_cpp_string field_value 0 \<noteq> val then Some (False, st)
               else do { (b, submsg, es') \<leftarrow> load src prefix (sub_message fds (fst st), snd st);
                         dst' \<leftarrow> set_value P fds (PB_Message submsg) (fst st);
                         Some (b, dst', es') }
           | _ \<Rightarrow> Some (False, st))
      | None \<Rightarrow>
          (case map_of (get_children src) (fd_name fds) of
             Some (Some child) \<Rightarrow>
               if fd_repeated fds \<and> fd_cpp_type fds \<noteq> CPPTYPE_MESSAGE
               then any_step (\<lambda>i. pick child fds i prefix) [0..<ini_size child] st
               else pick child fds 0 prefix st
           | _ \<Rightarrow> Some (False, st)))"

fun ini_pick_field :: "descriptor_pool \<Rightarrow> conf_api \<Rightarrow> nat \<Rightarrow> ini_value \<Rightarrow> field_descriptor \<Rightarrow> nat \<Rightarrow> string \<Rightarrow> load_state \<Rightarrow> (bool \<times> load_state) option"
  and ini_loader_dump_to :: "descriptor_pool \<Rightarrow> conf_api \<Rightarrow> nat \<Rightarrow> ini_value \<Rightarrow> string \<Rightarrow> load_state \<Rightarrow> (bool \<times> load_state) option" where
  "ini_pick_field P A 0 val fds index prefix st = None"
| "ini_pick_field P A (Suc fuel) val fds index prefix st =
     (if fd_cpp_type fds = CPPTYPE_MESSAGE
      then ini_pick_message P A (ini_pick_field P A fuel) (ini_loader_dump_to P A fuel) val fds index prefix st
      else do { v \<leftarrow> pick_value A fds (as_cpp_string val index); dump_field_with_value P fds prefix v st })"
| "ini_loader_dump_to P A 0 src prefix st = None"
| "ini_loader_dump_to P A (Suc fuel) src prefix st =
     any_step (ini_field_item P (ini_pick_field P A fuel) (ini_loader_dump_to P A fuel) src prefix) (P (msg_type (fst st))) st"

section \<open>Into a map of strings\<close>

type_synonym string_map_state = "(string \<times> string) list \<times> string set option"

definition sub_prefix :: "string \<Rightarrow> string \<Rightarrow> string" where
  "sub_prefix prefix name = (if prefix = [] then name else prefix @ ''.'' @ name)"

definition log_sink_type :: string where
  "log_sink_type = ''atframework.atapp.protocol.atapp_log_sink''"

definition unresolved_key :: "descriptor_pool \<Rightarrow> string \<Rightarrow> string \<Rightarrow> bool" where
  "unresolved_key P prefix name \<longleftrightarrow>
     prefix \<noteq> [] \<or> name \<notin> fd_name ` set (P log_sink_type) \<or> name = ''unresolved_key_values''"

definition ini_map_values :: "ini_value \<Rightarrow> string \<Rightarrow> string \<Rightarrow> string_map_state \<Rightarrow> bool \<times> string_map_state" where
  "ini_map_values src prefix existed_prefix st =
     (if ini_size src = 0 then (False, st)
      else if ini_size src = 1
      then (True, AList.update prefix (as_cpp_string src 0) (fst st), mark_existed (butlast existed_prefix) (snd st))
      else (True, fold (\<lambda>i (dst, es). (AList.update (sub_prefix prefix (dec_str i)) (as_cpp_string src i) dst,
                                       mark_existed (existed_prefix @ dec_str i) es))
                    [0..<ini_size src] st))"

primrec ini_loader_dump_to_map ::
  "descriptor_pool \<Rightarrow> nat \<Rightarrow> ini_value \<Rightarrow> string \<Rightarrow> string \<Rightarrow> string_map_state \<Rightarrow> (bool \<times> string_map_state) option" where
  "ini_loader_dump_to_map P 0 src prefix existed_prefix st = None"
| "ini_loader_dump_to_map P (Suc fuel) src prefix existed_prefix st =
     (let (b, st1) = ini_map_values src prefix existed_prefix st in
      do { (b', st2) \<leftarrow>
             any_step (\<lambda>(name, child) st.
                 case child of
                   None \<Rightarrow> Some (False, st)
                 | Some val \<Rightarrow>
                     if unresolved_key P prefix name
                     then ini_loader_dump_to_map P fuel val (sub_prefix prefix name) (existed_prefix @ name @ ''.'') st
                     else Some (False, st))
               (get_children src) st1;
           Some (b \<or> b', st2) })"

end
