(* ===== verification/Config_Yaml.thy ===== *)
theory Config_Yaml
  imports Config_Loader
begin

text \<open>
  The configuration loaders, part three: YAML. A node is a tree in the data model of YAML;
  an undefined node (a key that is not there) is \<open>None\<close>. The exceptions the code catches all
  end the call with what it has done so far.
\<close>

datatype yaml =
    YAML_Null
  | YAML_Scalar string
  | YAML_Sequence "yaml list"
  | YAML_Map "(yaml \<times> yaml) list"

fun is_scalar :: "yaml \<Rightarrow> bool" where
  "is_scalar (YAML_Scalar s) = True"
| "is_scalar _ = False"

fun scalar_text :: "yaml \<Rightarrow> string" where
  "scalar_text (YAML_Scalar s) = s"
| "scalar_text _ = []"

text \<open>The child of a map with this key.\<close>

definition yaml_child :: "(yaml \<times> yaml) list \<Rightarrow> string \<Rightarrow> yaml option" where
  "yaml_child entries key = map_of entries (YAML_Scalar key)"

section \<open>Values\<close>

text \<open>
  The overload of \<^verbatim>\<open>dump_pick_field_with_extensions\<close> for nodes. It never calls its result a
  default, and a scalar that expands to nothing does not fall back to one.
\<close>

definition yaml_pick_with_extensions ::
  "'v field_kind \<Rightarrow> (string \<Rightarrow> string) \<Rightarrow> configure_meta option \<Rightarrow> yaml \<Rightarrow> 'v \<times> bool" where
  "yaml_pick_with_extensions K getenv meta val =
     (let v =
        (if \<not> is_scalar val \<or> scalar_text val = []
         then (case meta of
                 None \<Rightarrow> fk_from_str K [] False
               | Some m \<Rightarrow> fk_from_str K (expand_if_enabled getenv (cm_enable_expression m) (cm_default_value m)) (cm_size_mode m))
         else let scalar = (if field_has_enable_expression meta then expand_expression_impl getenv (scalar_text val) 0
                            else scalar_text val)
              in (case meta of None \<Rightarrow> fk_from_str K scalar False | Some m \<Rightarrow> fk_from_str K scalar (cm_size_mode m)))
      in (clamp_field K (pick_limit K (fk_min K) cm_min_value meta) (pick_limit K (fk_max K) cm_max_value meta) v, False))"

abbreviation yaml_pick_as :: "conf_api \<Rightarrow> 'v field_kind \<Rightarrow> field_descriptor \<Rightarrow> yaml \<Rightarrow> 'v \<times> bool" where
  "yaml_pick_as A K fds val \<equiv> yaml_pick_with_extensions K (ca_getenv A) (fd_configure fds) val"

definition yaml_pick_time :: "conf_api \<Rightarrow> field_descriptor \<Rightarrow> yaml \<Rightarrow> pb_value \<times> bool" where
  "yaml_pick_time A fds val =
     (if fd_message_type fds = duration_type
      then let (d, is_default) = yaml_pick_as A (duration_kind (ca_text A)) fds val
           in (PB_Message (time_message (fd_message_type fds) (dur_seconds d) (dur_nanos d)), is_default)
      else let (t, is_default) = yaml_pick_as A (timestamp_kind (ca_text A) (ca_time A)) fds val
           in (PB_Message (time_message (fd_message_type fds) (ts_seconds t) (ts_nanos t)), is_default))"

text \<open>
  The value of a field that is no message: \<open>None\<close> when the branch leaves the switch, and
  \<open>Some None\<close> when it does not return. Strings, booleans and enums go through the overload
  for strings.
\<close>

definition yaml_pick_value :: "conf_api \<Rightarrow> field_descriptor \<Rightarrow> yaml \<Rightarrow> (pb_value \<times> bool) option option" where
  "yaml_pick_value A fds val =
     (case fd_cpp_type fds of
        CPPTYPE_INT32 \<Rightarrow> Some (Some (apfst PB_Int32 (yaml_pick_as A (signed_kind (ca_text A) (ca_str2int32 A)) fds val)))
      | CPPTYPE_INT64 \<Rightarrow> Some (Some (apfst PB_Int64 (yaml_pick_as A (signed_kind (ca_text A) (ca_str2int64 A)) fds val)))
      | CPPTYPE_UINT32 \<Rightarrow> Some (Some (apfst PB_Uint32 (yaml_pick_as A (unsigned_kind (ca_text A) (ca_str2uint32 A)) fds val)))
      | CPPTYPE_UINT64 \<Rightarrow> Some (Some (apfst PB_Uint64 (yaml_pick_as A (unsigned_kind (ca_text A) (ca_str2uint64 A)) fds val)))
      | CPPTYPE_DOUBLE \<Rightarrow> Some (Some (apfst PB_Double (yaml_pick_as A (float_kind (ca_double A)) fds val)))
      | CPPTYPE_FLOAT \<Rightarrow> Some (Some (apfst PB_Float (yaml_pick_as A (float_kind (ca_float A)) fds val)))
      | _ \<Rightarrow> if is_scalar val then Some (pick_value A fds (scalar_text val)) else None)"

section \<open>Fields\<close>

type_synonym yaml_pick = "yaml \<Rightarrow> field_descriptor \<Rightarrow> string \<Rightarrow> load_state \<Rightarrow> (bool \<times> load_state) option"
type_synonym yaml_load = "yaml \<Rightarrow> string \<Rightarrow> load_state \<Rightarrow> (bool \<times> load_state) option"

text \<open>The node with its expression expanded, for the keys and values of a map that enables them.\<close>

definition expand_node :: "conf_api \<Rightarrow> bool \<Rightarrow> yaml \<Rightarrow> yaml" where
  "expand_node A enabled node =
     (if enabled \<and> is_scalar node then YAML_Scalar (expand_expression_impl (ca_getenv A) (scalar_text node) 0) else node)"

definition yaml_map_entry ::
  "conf_api \<Rightarrow> yaml_pick \<Rightarrow> field_descriptor \<Rightarrow> field_descriptor \<Rightarrow> field_descriptor \<Rightarrow> string \<Rightarrow> yaml \<times> yaml \<Rightarrow>
   load_state \<Rightarrow> (bool \<times> load_state) option" where
  "yaml_map_entry A pick fds key_fds value_fds prefix entry st =
     (let (dst, es) = st;
          idx = field_size dst fds;
          sub_prefix = index_key prefix fds idx @ ''.'';
          enabled = field_has_enable_expression (fd_configure fds)
      in do { (has_key, st1) \<leftarrow> pick (expand_node A enabled (fst entry)) key_fds sub_prefix (empty_message (fd_message_type fds), es);
              (has_value, st2) \<leftarrow>
                pick (expand_node A (enabled \<and> fd_cpp_type value_fds \<noteq> CPPTYPE_MESSAGE) (snd entry)) value_fds sub_prefix st1;
              dst' \<leftarrow> add_value fds (PB_Message (fst st2)) dst;
              let has_data = has_key \<or> has_value
              in Some (has_data, dst', if has_data then mark_existed (index_key prefix fds idx) (snd st2) else snd st2) })"

definition yaml_pick_message :: "descriptor_pool \<Rightarrow> conf_api \<Rightarrow> yaml_pick \<Rightarrow> yaml_load \<Rightarrow> yaml_pick" where
  "yaml_pick_message P A pick load val fds prefix st =
     (case val of
        YAML_Scalar s \<Rightarrow>
          if is_time_type (fd_message_type fds) then dump_field_with_value P fds prefix (yaml_pick_time A fds val) st
          else Some (False, st)
      | YAML_Map entries \<Rightarrow>
          if fd_map fds then
            (case P (fd_message_type fds) of
               key_fds # value_fds # _ \<Rightarrow> any_step (yaml_map_entry A pick fds key_fds value_fds prefix) entries st
             | _ \<Rightarrow> Some (False, st))
          else if fd_repeated fds then
            (let key = index_key prefix fds (field_size (fst st) fds) @ ''.''
             in do { (b, submsg, es') \<leftarrow> load val key (empty_message (fd_message_type fds), snd st);
                     dst' \<leftarrow> add_value fds (PB_Message submsg) (fst st);
                     Some (b, dst', if b then mark_existed key es' else es') })
          else
            do { (b, submsg, es') \<leftarrow> load val (prefix @ fd_name fds @ ''.'') (sub_message fds (fst st), snd st);
                 dst' \<leftarrow> set_value P fds (PB_Message submsg) (fst st);
                 Some (b, dst', if b then mark_existed (prefix @ fd_name fds) es' else es') }
      | _ \<Rightarrow> Some (False, st))"

text \<open>One field of a message from a map: \<^verbatim>\<open>dump_field_item\<close>.\<close>

definition yaml_field_item ::
  "descriptor_pool \<Rightarrow> yaml_pick \<Rightarrow> yaml_load \<Rightarrow> (yaml \<times> yaml) list \<Rightarrow> string \<Rightarrow> field_descriptor \<Rightarrow> load_state \<Rightarrow> (bool \<times> load_state) option" where
  "yaml_field_item P pick load entries prefix fds st =
     (case same_level_match fds of
        Some (name, val) \<Rightarrow>
          (case yaml_child entries name of
             Some (YAML_Scalar s) \<Rightarrow>
               if s \<noteq> val then Some (False, st)
               else do { (b, submsg, es') \<leftarrow> load (YAML_Map entries) prefix (sub_message fds (fst st), snd st);
                         dst' \<leftarrow> set_value P fds (PB_Message submsg) (fst st);
                         Some (b, dst', es') }
           | _ \<Rightarrow> Some (False, st))
      | None \<Rightarrow>
          (case yaml_child entries (fd_name fds) of
             None \<Rightarrow> Some (False, st)
           | Some YAML_Null \<Rightarrow> Some (False, st)
           | Some (YAML_Sequence children) \<Rightarrow>
               if fd_repeated fds then any_step (\<lambda>child. pick child fds prefix) children st else Some (False, st)
           | Some child \<Rightarrow> pick child fds prefix st))"

fun yaml_pick_field :: "descriptor_pool \<Rightarrow> conf_api \<Rightarrow> nat \<Rightarrow> yaml \<Rightarrow> field_descriptor \<Rightarrow> string \<Rightarrow> load_state \<Rightarrow> (bool \<times> load_state) option"
  and dump_message_item :: "descriptor_pool \<Rightarrow> conf_api \<Rightarrow> nat \<Rightarrow> yaml \<Rightarrow> string \<Rightarrow> load_state \<Rightarrow> (bool \<times> load_state) option" where
  "yaml_pick_field P A 0 val fds prefix st = None"
| "yaml_pick_field P A (Suc fuel) val fds prefix st =
     (case val of
        YAML_Null \<Rightarrow> Some (False, st)
      | YAML_Sequence _ \<Rightarrow> Some (False, st)
      | _ \<Rightarrow>
          if fd_cpp_type fds = CPPTYPE_MESSAGE
          then yaml_pick_message P A (yaml_pick_field P A fuel) (dump_message_item P A fuel) val fds prefix st
          else (case yaml_pick_value A fds val of
                  None \<Rightarrow> Some (False, st)
                | Some picked \<Rightarrow> do { v \<leftarrow> picked; dump_field_with_value P fds prefix v st }))"
| "dump_message_item P A 0 src prefix st = None"
| "dump_message_item P A (Suc fuel) src prefix st =
     (case src of
        YAML_Map entries \<Rightarrow>
          any_step (yaml_field_item P (yaml_pick_field P A fuel) (dump_message_item P A fuel) entries prefix) (P (msg_type (fst st))) st
      | _ \<Rightarrow> Some (False, st))"

definition yaml_loader_dump_to :: "descriptor_pool \<Rightarrow> conf_api \<Rightarrow> nat \<Rightarrow> yaml \<Rightarrow> string \<Rightarrow> load_state \<Rightarrow> load_state option" where
  "yaml_loader_dump_to P A fuel src prefix st = map_option snd (dump_message_item P A fuel src prefix st)"

section \<open>Paths\<close>

definition path_separator :: "char \<Rightarrow> bool" where
  "path_separator c \<longleftrightarrow> c = CHR ''.'' \<or> c = CHR '' '' \<or> c = CHR 0x09 \<or> c = CHR 0x0D \<or> c = CHR 0x0A"

lemma length_skip_space: "length (skip_space T s) \<le> length s"
  by (simp add: skip_space_def length_dropWhile_le)

function split_path :: "text_api \<Rightarrow> string \<Rightarrow> string list" where
  "split_path T path =
     (case skip_space T path of
        [] \<Rightarrow> []
      | c # cs \<Rightarrow>
          if c = NUL then []
          else let key = c # takeWhile (\<lambda>c. c \<noteq> NUL \<and> \<not> path_separator c) cs;
                   rest = skip_space T (dropWhile (\<lambda>c. c \<noteq> NUL \<and> \<not> path_separator c) cs)
               in key # split_path T (if rest \<noteq> [] \<and> hd rest = CHR ''.'' then skip_space T (tl rest) else rest))"
  by pat_completeness auto

termination
proof (relation "measure (\<lambda>(_, s). length s)", simp, goal_cases)
  case (1 T path c cs key rest)
  have "length (skip_space T (tl rest)) \<le> length (tl rest)" by (rule length_skip_space)
  moreover have "length (tl rest) \<le> length rest" by simp
  moreover have "length rest \<le> length cs"
    unfolding 1 by (rule order.trans [OF length_skip_space length_dropWhile_le])
  moreover have "length (c # cs) \<le> length path"
    using length_skip_space [of T path] 1 by simp
  ultimately show ?case by auto
qed

declare split_path.simps [simp del]

text \<open>Following the keys; where a key does not lead on, the node reached so far is the answer.\<close>

fun yaml_walk :: "(string \<Rightarrow> u64) \<Rightarrow> yaml \<Rightarrow> string list \<Rightarrow> yaml" where
  "yaml_walk to_size node [] = node"
| "yaml_walk to_size node (key # keys) =
     (if key = [] then yaml_walk to_size node keys
      else case node of
        YAML_Sequence children \<Rightarrow>
          if CHR ''0'' \<le> hd key \<and> hd key \<le> CHR ''9'' then
            (let idx = unat (to_size key)
             in if length children > idx then yaml_walk to_size (children ! idx) keys else yaml_walk to_size node keys)
          else node
      | YAML_Map entries \<Rightarrow>
          (case yaml_child entries key of Some child \<Rightarrow> yaml_walk to_size child keys | None \<Rightarrow> node)
      | _ \<Rightarrow> node)"

definition yaml_loader_get_child_by_path :: "conf_api \<Rightarrow> yaml \<Rightarrow> string \<Rightarrow> yaml" where
  "yaml_loader_get_child_by_path A src path = yaml_walk (ca_to_size A) src (split_path (ca_text A) path)"

section \<open>Into a map of strings\<close>

type_synonym yaml_map_state = "(string \<times> string) list \<times> string set option"

definition map_key :: "string \<Rightarrow> string \<Rightarrow> string" where
  "map_key prefix name = (if prefix = [] then name else prefix @ ''.'' @ name)"

primrec yaml_loader_dump_to_map :: "nat \<Rightarrow> yaml \<Rightarrow> string \<Rightarrow> string \<Rightarrow> yaml_map_state \<Rightarrow> yaml_map_state option" where
  "yaml_loader_dump_to_map 0 src prefix existed_prefix st = None"
| "yaml_loader_dump_to_map (Suc fuel) src prefix existed_prefix st =
     (case src of
        YAML_Scalar s \<Rightarrow> Some (AList.update prefix s (fst st), mark_existed (butlast existed_prefix) (snd st))
      | YAML_Map entries \<Rightarrow>
          fold_option (\<lambda>(k, v) st.
              if is_scalar k
              then yaml_loader_dump_to_map fuel v (map_key prefix (scalar_text k)) (existed_prefix @ scalar_text k @ ''.'') st
              else Some st) entries st
      | YAML_Sequence [child] \<Rightarrow> yaml_loader_dump_to_map fuel child prefix (existed_prefix @ dec_str 0 @ ''.'') st
      | YAML_Sequence children \<Rightarrow>
          fold_option (\<lambda>(i, v). yaml_loader_dump_to_map fuel v (map_key prefix (dec_str i)) (existed_prefix @ dec_str i @ ''.''))
            (enumerate 0 children) st
      | YAML_Null \<Rightarrow> Some st)"

end
