(* ===== verification/Loader_Contract.thy ===== *)
theory Loader_Contract
  imports Config_Ini Config_Yaml
begin

text \<open>
  What the loaders do to a message, seen from the outside: they put converted values into
  fields, load sub-messages and put them back, and record keys. \<open>field_loader\<close> states this as
  an interface over a relation between the states before and after; every relation that meets
  its laws holds of the environment and the YAML loader, and with \<open>section_loader\<close> of the INI
  loader.
\<close>

section \<open>Values a conversion yields\<close>

fun value_type :: "pb_value \<Rightarrow> cpp_type" where
  "value_type (PB_Int32 _) = CPPTYPE_INT32"
| "value_type (PB_Int64 _) = CPPTYPE_INT64"
| "value_type (PB_Uint32 _) = CPPTYPE_UINT32"
| "value_type (PB_Uint64 _) = CPPTYPE_UINT64"
| "value_type (PB_Double _) = CPPTYPE_DOUBLE"
| "value_type (PB_Float _) = CPPTYPE_FLOAT"
| "value_type (PB_Bool _) = CPPTYPE_BOOL"
| "value_type (PB_Enum _) = CPPTYPE_ENUM"
| "value_type (PB_String _) = CPPTYPE_STRING"
| "value_type (PB_Message _) = CPPTYPE_MESSAGE"

text \<open>A value of the field's type; a message is a duration or a time point.\<close>

definition converted :: "field_descriptor \<Rightarrow> pb_value \<Rightarrow> bool" where
  "converted fds v \<longleftrightarrow>
     value_type v = fd_cpp_type fds \<and>
     (case v of PB_Message s \<Rightarrow> is_time_type (fd_message_type fds) \<and> (\<exists>a b. s = time_message (fd_message_type fds) a b) | _ \<Rightarrow> True)"

text \<open>
  A value and whether it is the default: a default is what the empty text converts to, but for
  an enum, where it also stands for a text that names no value.
\<close>

definition converts :: "conf_api \<Rightarrow> field_descriptor \<Rightarrow> pb_value \<times> bool \<Rightarrow> bool" where
  "converts A fds r \<longleftrightarrow>
     converted fds (fst r) \<and> (snd r \<and> fd_cpp_type fds \<noteq> CPPTYPE_ENUM \<longrightarrow> pick_value A fds [] = Some r)"

lemma pick_time_converted:
  "fd_cpp_type fds = CPPTYPE_MESSAGE \<Longrightarrow> is_time_type (fd_message_type fds) \<Longrightarrow> converted fds (fst (pick_time A fds val))"
  by (auto simp: pick_time_def converted_def split: prod.splits)

lemma pick_value_converted:
  "pick_value A fds val = Some r \<Longrightarrow> fd_cpp_type fds \<noteq> CPPTYPE_MESSAGE \<Longrightarrow> converted fds (fst r)"
  by (auto simp: pick_value_def pick_enum_def converted_def split: cpp_type.splits option.splits prod.splits)

text \<open>A text that is or expands to nothing gives the default, the same as the empty text.\<close>

lemma expand_Nil [simp]: "expand_if_enabled g b [] = []"
  by (simp add: expand_if_enabled_def)

lemma pick_default:
  "snd (dump_pick_field_with_extensions K g meta val) \<Longrightarrow>
   dump_pick_field_with_extensions K g meta [] = dump_pick_field_with_extensions K g meta val"
  by (cases meta) (auto simp: dump_pick_field_with_extensions_def Let_def)

lemma pick_time_default:
  assumes "snd (pick_time A fds val)"
  shows "pick_time A fds [] = pick_time A fds val"
proof (cases "fd_message_type fds = duration_type")
  case True
  then have "snd (pick_as A (duration_kind (ca_text A)) fds val)"
    using assms by (simp add: pick_time_def split: prod.splits)
  from pick_default [OF this] show ?thesis using True by (simp add: pick_time_def)
next
  case False
  then have "snd (pick_as A (timestamp_kind (ca_text A) (ca_time A)) fds val)"
    using assms by (simp add: pick_time_def split: prod.splits)
  from pick_default [OF this] show ?thesis using False by (simp add: pick_time_def)
qed

lemma pick_value_converts:
  assumes "pick_value A fds val = Some r" "fd_cpp_type fds \<noteq> CPPTYPE_MESSAGE"
  shows "converts A fds r"
proof -
  have "pick_value A fds [] = Some r" if "snd r" "fd_cpp_type fds \<noteq> CPPTYPE_ENUM"
    using assms that by (cases "fd_cpp_type fds") (auto simp: pick_value_def pick_default)
  then show ?thesis using pick_value_converted [OF assms] by (simp add: converts_def)
qed

lemma pick_time_converts:
  assumes "fd_cpp_type fds = CPPTYPE_MESSAGE" "is_time_type (fd_message_type fds)"
  shows "converts A fds (pick_time A fds val)"
  using pick_time_converted [OF assms, of A val] pick_time_default [of A fds val] assms(1)
  by (auto simp: converts_def pick_value_def)

lemma yaml_pick_value_converts:
  assumes "yaml_pick_value A fds val = Some (Some r)" "fd_cpp_type fds \<noteq> CPPTYPE_MESSAGE"
  shows "converts A fds r"
  using assms pick_value_converts
  by (auto simp: yaml_pick_value_def converts_def converted_def yaml_pick_with_extensions_def Let_def
      split: cpp_type.splits if_splits)

lemma yaml_pick_time_converts:
  assumes "fd_cpp_type fds = CPPTYPE_MESSAGE" "is_time_type (fd_message_type fds)"
  shows "converts A fds (yaml_pick_time A fds val)"
  using assms
  by (auto simp: yaml_pick_time_def converts_def converted_def yaml_pick_with_extensions_def Let_def split: prod.splits)

section \<open>The contract of a loader\<close>

text \<open>
  \<open>R p b st st'\<close> relates the states before and after a loader that ran at the key prefix \<open>p\<close>
  and returned \<open>b\<close>.
\<close>

locale field_loader =
  fixes P :: descriptor_pool
    and A :: conf_api
    and R :: "string \<Rightarrow> bool \<Rightarrow> load_state \<Rightarrow> load_state \<Rightarrow> bool"
  assumes R_refl: "R p False st st"
    and R_trans: "R p b st st' \<Longrightarrow> R p b' st' st'' \<Longrightarrow> R p (b \<or> b') st st''"
    and R_type: "R p b st st' \<Longrightarrow> msg_type (fst st') = msg_type (fst st)"
    and R_value: "fds \<in> set (P (msg_type (fst st))) \<Longrightarrow> converts A fds r \<Longrightarrow>
      dump_field_with_value P fds p r st = Some (b, st') \<Longrightarrow> R p b st st'"
    and R_sub: "fds \<in> set (P (msg_type m)) \<Longrightarrow> fd_cpp_type fds = CPPTYPE_MESSAGE \<Longrightarrow>
      R (p @ fd_name fds @ ''.'') b (sub_message fds m, es) (s, es') \<Longrightarrow> set_value P fds (PB_Message s) m = Some m' \<Longrightarrow>
      R p b (m, es) (m', if b then mark_existed (p @ fd_name fds) es' else es')"
    and R_same: "fds \<in> set (P (msg_type m)) \<Longrightarrow> same_level_match fds \<noteq> None \<Longrightarrow>
      R p b (sub_message fds m, es) (s, es') \<Longrightarrow> set_value P fds (PB_Message s) m = Some m' \<Longrightarrow> R p b (m, es) (m', es')"
    and R_element: "fds \<in> set (P (msg_type m)) \<Longrightarrow> fd_cpp_type fds = CPPTYPE_MESSAGE \<Longrightarrow>
      R (index_key p fds (field_size m fds) @ ''.'') b (empty_message (fd_message_type fds), es) (s, es') \<Longrightarrow>
      add_value fds (PB_Message s) m = Some m' \<Longrightarrow> R p b (m, es) (m', es')"
    and R_mark: "R p b st (m, es) \<Longrightarrow> R p b st (m, mark_existed k es)"
    and R_drop: "R q False (s, es) (s', es') \<Longrightarrow> R p False (m, es) (m, es')"
begin

lemma any_step_R:
  assumes "any_step f xs st = Some (b, st')"
    and "\<And>x u b v. x \<in> set xs \<Longrightarrow> msg_type (fst u) = msg_type (fst st) \<Longrightarrow> f x u = Some (b, v) \<Longrightarrow> R p b u v"
  shows "R p b st st'"
  using assms
proof (induction xs arbitrary: st b)
  case (Cons x xs)
  from Cons.prems(1) obtain c u c' where u: "f x st = Some (c, u)" "any_step f xs u = Some (c', st')" "b = (c \<or> c')"
    by (auto simp: bind_eq_Some_conv)
  have x: "R p c st u" by (rule Cons.prems(2) [OF _ refl u(1)]) simp
  have "R p c' u st'"
  proof (rule Cons.IH [OF u(2)])
    fix y v d w
    assume "y \<in> set xs" "msg_type (fst v) = msg_type (fst u)" "f y v = Some (d, w)"
    then show "R p d v w" using R_type [OF x] by (intro Cons.prems(2)) simp_all
  qed
  then show ?case unfolding u(3) by (rule R_trans [OF x])
qed (simp add: R_refl)

lemma R_mark_if: "R p b st (m, es) \<Longrightarrow> R p b st (m, if c then mark_existed k es else es)"
  by (simp add: R_mark)

lemma indexed_loop_R:
  assumes "environment_indexed_loop pick fuel i st = Some (b, st')"
    and "\<And>j u b v. msg_type (fst u) = msg_type (fst st) \<Longrightarrow> pick j u = Some (b, v) \<Longrightarrow> R p b u v"
  shows "R p b st st'"
  using assms
proof (induction fuel arbitrary: i st b)
  case (Suc fuel)
  from Suc.prems(1) obtain c u where u: "pick i st = Some (c, u)"
    by (auto simp: bind_eq_Some_conv)
  have x: "R p c st u" by (rule Suc.prems(2) [OF refl u])
  show ?case
  proof (cases c)
    case True
    then obtain d where d: "environment_indexed_loop pick fuel (i + 1) u = Some (d, st')" "b"
      using Suc.prems(1) u by auto
    have "R p d u st'"
      by (rule Suc.IH [OF d(1)]) (use R_type [OF x] Suc.prems(2) in simp)
    then show ?thesis using R_trans [OF x, of d] d(2) True by simp
  qed (use Suc.prems(1) u x in simp)
qed simp

end

section \<open>The environment loader keeps the contract\<close>

text \<open>The contract of a loader of messages that is called back.\<close>

definition keeps :: "(string \<Rightarrow> bool \<Rightarrow> load_state \<Rightarrow> load_state \<Rightarrow> bool) \<Rightarrow> ('k \<Rightarrow> string \<Rightarrow> load_state \<Rightarrow> (bool \<times> load_state) option) \<Rightarrow> bool" where
  "keeps R load \<longleftrightarrow> (\<forall>k p st b st'. load k p st = Some (b, st') \<longrightarrow> R p b st st')"

lemma keepsD: "keeps R load \<Longrightarrow> load k p st = Some (b, st') \<Longrightarrow> R p b st st'"
  unfolding keeps_def by blast

context field_loader
begin

lemma environment_sub_message_R:
  assumes "fds \<in> set (P (msg_type (fst st)))" "fd_cpp_type fds = CPPTYPE_MESSAGE" "keeps R item"
    and "environment_sub_message P item key fds p st = Some (b, st')"
  shows "R p b st st'"
proof (cases "fd_repeated fds")
  case True
  obtain m es where st: "st = (m, es)" by (cases st)
  let ?k = "index_key p fds (field_size m fds)"
  from assms(4) True obtain has s es' where
    load: "item key (?k @ ''.'') (empty_message (fd_message_type fds), es) = Some (has, s, es')"
    and rest: "if has then \<exists>m'. add_value fds (PB_Message s) m = Some m' \<and> b \<and> st' = (m', mark_existed ?k es')
      else \<not> b \<and> st' = (m, es')"
    by (auto simp: environment_sub_message_def st Let_def bind_eq_Some_conv split: if_splits)
  note R = keepsD [OF assms(3) load]
  show ?thesis
  proof (cases has)
    case True
    then show ?thesis using rest R R_element [of fds m p has es s es'] assms(1,2) by (auto simp: st intro!: R_mark)
  next
    case False
    then show ?thesis using rest R by (auto simp: st intro: R_drop)
  qed
next
  case False
  obtain m es where st: "st = (m, es)" by (cases st)
  from assms(4) False obtain s es' m' where
    load: "item key (p @ fd_name fds @ ''.'') (sub_message fds m, es) = Some (b, s, es')"
    and set: "set_value P fds (PB_Message s) m = Some m'"
    and st': "st' = (m', if b then mark_existed (p @ fd_name fds) es' else es')"
    by (auto simp: environment_sub_message_def st Let_def bind_eq_Some_conv split: if_splits)
  show ?thesis unfolding st st'
    by (rule R_sub [OF _ assms(2) keepsD [OF assms(3) load] set]) (use assms(1) st in simp)
qed

lemma dump_environment_pick_field_R:
  assumes "fds \<in> set (P (msg_type (fst st)))" "keeps R item"
    and "dump_environment_pick_field P A item key fds p st = Some (b, st')"
  shows "R p b st st'"
proof (cases "fd_cpp_type fds = CPPTYPE_MESSAGE")
  case True
  then show ?thesis
    using assms environment_sub_message_R [OF assms(1) True assms(2), of key p b st']
      R_value [OF assms(1) pick_time_converts [OF True], where p = p and b = b and st' = st']
    by (auto simp: dump_environment_pick_field_def Let_def R_refl split: if_splits)
next
  case False
  show ?thesis
  proof (cases "env_value A key = []")
    case True
    then show ?thesis using assms(3) False by (simp add: dump_environment_pick_field_def R_refl)
  next
    case val: False
    then obtain v where "pick_value A fds (env_value A key) = Some v" "dump_field_with_value P fds p v st = Some (b, st')"
      using assms(3) False by (auto simp: dump_environment_pick_field_def bind_eq_Some_conv)
    then show ?thesis by (intro R_value [OF assms(1) pick_value_converts [OF _ False]])
  qed
qed

lemma dump_environment_field_item_R:
  assumes fds: "fds \<in> set (P (msg_type (fst st)))" and item: "keeps R item"
    and run: "dump_environment_field_item P A fuel item prefix p fds st = Some (b, st')"
  shows "R p b st st'"
proof (cases "same_level_match fds")
  case (Some match)
  obtain name val where match: "match = (name, val)" by (cases match)
  show ?thesis
  proof (cases "env_value A (env_key A prefix name) = val")
    case True
    then obtain s es' m' where
      load: "item prefix p (sub_message fds (fst st), snd st) = Some (b, s, es')" and
      set: "set_value P fds (PB_Message s) (fst st) = Some m'" and st': "st' = (m', es')"
      using run Some match by (auto simp: dump_environment_field_item_def bind_eq_Some_conv)
    have "R p b (fst st, snd st) (m', es')"
      by (rule R_same [OF fds _ keepsD [OF item load] set]) (use Some in simp)
    then show ?thesis by (simp add: st')
  qed (use run Some match in \<open>simp add: dump_environment_field_item_def R_refl\<close>)
next
  case None
  let ?key = "env_key A prefix (fd_name fds)"
  have pick: "R p b u v" if "msg_type (fst u) = msg_type (fst st)" "dump_environment_pick_field P A item k fds p u = Some (b, v)" for k b u v
    by (rule dump_environment_pick_field_R [OF _ item that(2)]) (use fds that(1) in simp)
  show ?thesis
  proof (cases "fd_repeated fds")
    case True
    with run None obtain has u where
      loop: "environment_indexed_loop (\<lambda>i. dump_environment_pick_field P A item (?key @ ''_'' @ dec_str i) fds p) fuel 0 st = Some (has, u)"
      and rest: "if \<not> has then dump_environment_pick_field P A item ?key fds p u = Some (b, st') else b \<and> st' = u"
      by (auto simp: dump_environment_field_item_def Let_def bind_eq_Some_conv split: if_splits)
    have x: "R p has st u" by (rule indexed_loop_R [OF loop]) (rule pick)
    show ?thesis
    proof (cases has)
      case False
      then have "R p b u st'" using rest by (intro pick) (simp_all add: R_type [OF x])
      then show ?thesis using R_trans [OF x, of b] False by simp
    qed (use rest x in simp)
  next
    case False
    then show ?thesis using run None by (intro pick) (simp_all add: dump_environment_field_item_def Let_def)
  qed
qed

lemma dump_environment_message_item_R: "keeps R (dump_environment_message_item P A fuel)"
proof (induction fuel)
  case (Suc fuel)
  show ?case
    unfolding keeps_def dump_environment_message_item.simps
  proof (intro allI impI)
    fix key p st b st'
    assume "any_step (dump_environment_field_item P A fuel (dump_environment_message_item P A fuel) key p) (P (msg_type (fst st))) st = Some (b, st')"
    then show "R p b st st'"
      by (rule any_step_R) (rule dump_environment_field_item_R [OF _ Suc.IH], simp_all)
  qed
qed (simp add: keeps_def)

end

end
