(* ===== verification/Loader_Keeps.thy ===== *)
theory Loader_Keeps
  imports Loader_Contract
begin

text \<open>
  The YAML and the INI loader keep every relation that meets the contract of
  \<open>Loader_Contract\<close>.
\<close>

definition keeps_field ::
  "descriptor_pool \<Rightarrow> (string \<Rightarrow> bool \<Rightarrow> load_state \<Rightarrow> load_state \<Rightarrow> bool) \<Rightarrow>
   ('k \<Rightarrow> field_descriptor \<Rightarrow> string \<Rightarrow> load_state \<Rightarrow> (bool \<times> load_state) option) \<Rightarrow> bool" where
  "keeps_field P R pick \<longleftrightarrow>
     (\<forall>val fds p st b st'. fds \<in> set (P (msg_type (fst st))) \<longrightarrow> pick val fds p st = Some (b, st') \<longrightarrow> R p b st st')"

lemma keeps_fieldD:
  "keeps_field P R pick \<Longrightarrow> fds \<in> set (P (msg_type (fst st))) \<Longrightarrow> pick val fds p st = Some (b, st') \<Longrightarrow> R p b st st'"
  unfolding keeps_field_def by blast

context field_loader
begin

text \<open>A sub-message loaded in place and put back.\<close>

lemma put_back_R:
  assumes "fds \<in> set (P (msg_type (fst st)))" "fd_cpp_type fds = CPPTYPE_MESSAGE" "keeps R load"
    and "do { (b, submsg, es') \<leftarrow> load k (p @ fd_name fds @ ''.'') (sub_message fds (fst st), snd st);
              dst' \<leftarrow> set_value P fds (PB_Message submsg) (fst st);
              Some (b, dst', if b then mark_existed (p @ fd_name fds) es' else es') } = Some (b, st')"
  shows "R p b st st'"
proof -
  from assms(4) obtain s es' m' where
    load: "load k (p @ fd_name fds @ ''.'') (sub_message fds (fst st), snd st) = Some (b, s, es')"
    and set: "set_value P fds (PB_Message s) (fst st) = Some m'"
    and st': "st' = (m', if b then mark_existed (p @ fd_name fds) es' else es')"
    by (auto simp: bind_eq_Some_conv)
  have "R p b (fst st, snd st) (m', if b then mark_existed (p @ fd_name fds) es' else es')"
    by (rule R_sub [OF assms(1,2) keepsD [OF assms(3) load] set])
  then show ?thesis by (simp add: st')
qed

text \<open>A sub-message loaded at the same level.\<close>

lemma put_back_same_R:
  assumes "fds \<in> set (P (msg_type (fst st)))" "same_level_match fds \<noteq> None" "keeps R load"
    and "do { (b, submsg, es') \<leftarrow> load k p (sub_message fds (fst st), snd st);
              dst' \<leftarrow> set_value P fds (PB_Message submsg) (fst st);
              Some (b, dst', es') } = Some (b, st')"
  shows "R p b st st'"
proof -
  from assms(4) obtain s es' m' where
    load: "load k p (sub_message fds (fst st), snd st) = Some (b, s, es')"
    and set: "set_value P fds (PB_Message s) (fst st) = Some m'" and st': "st' = (m', es')"
    by (auto simp: bind_eq_Some_conv)
  have "R p b (fst st, snd st) (m', es')"
    by (rule R_same [OF assms(1,2) keepsD [OF assms(3) load] set])
  then show ?thesis by (simp add: st')
qed

text \<open>A loaded element added to a repeated field.\<close>

lemma add_element_R:
  assumes "fds \<in> set (P (msg_type (fst st)))" "fd_cpp_type fds = CPPTYPE_MESSAGE"
    and "R (index_key p fds (field_size (fst st) fds) @ ''.'') b (empty_message (fd_message_type fds), snd st) (s, es')"
    and "add_value fds (PB_Message s) (fst st) = Some m'"
  shows "R p b st (m', if c then mark_existed k es' else es')"
proof -
  have "R p b (fst st, snd st) (m', es')"
    by (rule R_element [OF assms])
  then show ?thesis by (cases st) (auto intro: R_mark)
qed

lemma yaml_map_entry_R:
  assumes fds: "fds \<in> set (P (msg_type (fst st)))" "fd_cpp_type fds = CPPTYPE_MESSAGE" and pick: "keeps_field P R pick"
    and entry: "P (fd_message_type fds) = key_fds # value_fds # rest"
    and run: "yaml_map_entry A pick fds key_fds value_fds p entry st = Some (b, st')"
  shows "R p b st st'"
proof -
  let ?k = "index_key p fds (field_size (fst st) fds)"
  let ?enabled = "field_has_enable_expression (fd_configure fds)"
  let ?k1 = "expand_node A ?enabled (fst entry)"
  let ?k2 = "expand_node A (?enabled \<and> fd_cpp_type value_fds \<noteq> CPPTYPE_MESSAGE) (snd entry)"
  note run = run [unfolded yaml_map_entry_def Let_def split_beta]
  obtain b1 st1 where key: "pick ?k1 key_fds (?k @ ''.'') (empty_message (fd_message_type fds), snd st) = Some (b1, st1)"
    using run by (cases "pick ?k1 key_fds (?k @ ''.'') (empty_message (fd_message_type fds), snd st)") auto
  obtain b2 s es' where val: "pick ?k2 value_fds (?k @ ''.'') st1 = Some (b2, s, es')"
    using run key by (cases "pick ?k2 value_fds (?k @ ''.'') st1") auto
  obtain m' where add: "add_value fds (PB_Message s) (fst st) = Some m'"
    using run key val by (cases "add_value fds (PB_Message s) (fst st)") auto
  have b: "b = (b1 \<or> b2)" and st': "st' = (m', if b then mark_existed ?k es' else es')"
    using run key val add by auto
  have 1: "R (?k @ ''.'') b1 (empty_message (fd_message_type fds), snd st) st1"
    by (rule keeps_fieldD [OF pick _ key]) (simp add: entry)
  have 2: "R (?k @ ''.'') b2 st1 (s, es')"
    by (rule keeps_fieldD [OF pick _ val]) (simp add: R_type [OF 1] entry)
  show ?thesis unfolding st' by (rule add_element_R [OF fds _ add]) (simp add: b R_trans [OF 1 2])
qed

lemma yaml_pick_message_R:
  assumes fds: "fds \<in> set (P (msg_type (fst st)))" "fd_cpp_type fds = CPPTYPE_MESSAGE"
    and pick: "keeps_field P R pick" and load: "keeps R load"
    and run: "yaml_pick_message P A pick load val fds p st = Some (b, st')"
  shows "R p b st st'"
proof (cases val)
  case (YAML_Scalar s)
  then show ?thesis
    using run R_value [OF fds(1) yaml_pick_time_converts [OF fds(2)], where p = p and b = b and st' = st']
    by (auto simp: yaml_pick_message_def R_refl split: if_splits)
next
  case (YAML_Map entries)
  consider (map) "fd_map fds" | (repeated) "\<not> fd_map fds" "fd_repeated fds" | (singular) "\<not> fd_map fds" "\<not> fd_repeated fds"
    by blast
  then show ?thesis
  proof cases
    case map
    show ?thesis
    proof (cases "\<exists>key_fds value_fds rest. P (fd_message_type fds) = key_fds # value_fds # rest")
      case True
      then obtain key_fds value_fds rest where entry: "P (fd_message_type fds) = key_fds # value_fds # rest" by blast
      with run YAML_Map map have "any_step (yaml_map_entry A pick fds key_fds value_fds p) entries st = Some (b, st')"
        by (simp add: yaml_pick_message_def)
      then show ?thesis
        by (rule any_step_R) (rule yaml_map_entry_R [OF _ fds(2) pick entry], use fds(1) in simp_all)
    qed (use run YAML_Map map in \<open>auto simp: yaml_pick_message_def R_refl split: list.splits\<close>)
  next
    case repeated
    with run YAML_Map obtain s es' m' where
      run': "load val (index_key p fds (field_size (fst st) fds) @ ''.'') (empty_message (fd_message_type fds), snd st) = Some (b, s, es')"
      and add: "add_value fds (PB_Message s) (fst st) = Some m'"
      and st': "st' = (m', if b then mark_existed (index_key p fds (field_size (fst st) fds) @ ''.'') es' else es')"
      by (auto simp: yaml_pick_message_def Let_def bind_eq_Some_conv)
    show ?thesis unfolding st' by (rule add_element_R [OF fds keepsD [OF load run'] add])
  next
    case singular
    then show ?thesis
      using run YAML_Map by (intro put_back_R [OF fds load, of val]) (simp add: yaml_pick_message_def)
  qed
qed (use run in \<open>simp_all add: yaml_pick_message_def R_refl\<close>)

lemma yaml_field_item_R:
  assumes fds: "fds \<in> set (P (msg_type (fst st)))" and pick: "keeps_field P R pick" and load: "keeps R load"
    and run: "yaml_field_item P pick load entries p fds st = Some (b, st')"
  shows "R p b st st'"
proof (cases "same_level_match fds")
  case (Some match)
  then have same: "same_level_match fds \<noteq> None" by simp
  obtain name val where "match = (name, val)" by (cases match)
  then show ?thesis
    using run Some put_back_same_R [OF fds same load, of "YAML_Map entries" p b st']
    by (cases "yaml_child entries name = Some (YAML_Scalar val)")
      (auto simp: yaml_field_item_def R_refl split: option.splits yaml.splits if_splits)
next
  case None
  have step: "R p b u v" if "msg_type (fst u) = msg_type (fst st)" "pick child fds p u = Some (b, v)" for child b u v
    by (rule keeps_fieldD [OF pick _ that(2)]) (use fds that(1) in simp)
  show ?thesis
  proof (cases "\<exists>children. yaml_child entries (fd_name fds) = Some (YAML_Sequence children) \<and> fd_repeated fds")
    case True
    then obtain children where "any_step (\<lambda>child. pick child fds p) children st = Some (b, st')"
      using run None by (auto simp: yaml_field_item_def)
    then show ?thesis by (rule any_step_R) (rule step)
  next
    case False
    then show ?thesis
      using run None step [OF refl]
      by (auto simp: yaml_field_item_def R_refl split: option.splits yaml.splits if_splits)
  qed
qed

lemma yaml_pick_field_R:
  assumes fds: "fds \<in> set (P (msg_type (fst st)))" and pick: "keeps_field P R (yaml_pick_field P A fuel)"
    and load: "keeps R (dump_message_item P A fuel)"
    and run: "yaml_pick_field P A (Suc fuel) val fds p st = Some (b, st')"
  shows "R p b st st'"
proof (cases "val = YAML_Null \<or> (\<exists>children. val = YAML_Sequence children)")
  case True
  then show ?thesis using run by (auto simp: R_refl)
next
  case False
  then have step: "yaml_pick_field P A (Suc fuel) val fds p st =
    (if fd_cpp_type fds = CPPTYPE_MESSAGE
     then yaml_pick_message P A (yaml_pick_field P A fuel) (dump_message_item P A fuel) val fds p st
     else (case yaml_pick_value A fds val of
             None \<Rightarrow> Some (False, st)
           | Some picked \<Rightarrow> do { v \<leftarrow> picked; dump_field_with_value P fds p v st }))"
    by (cases val) auto
  show ?thesis
  proof (cases "fd_cpp_type fds = CPPTYPE_MESSAGE")
    case True
    then show ?thesis using run unfolding step by (intro yaml_pick_message_R [OF fds True pick load]) simp
  next
    case no_message: False
    show ?thesis
    proof (cases "yaml_pick_value A fds val")
      case (Some picked)
      then obtain v where v: "picked = Some v" "dump_field_with_value P fds p v st = Some (b, st')"
        using run no_message unfolding step by (cases picked) auto
      show ?thesis
        by (rule R_value [OF fds yaml_pick_value_converts [OF Some [unfolded v(1)] no_message] v(2)])
    qed (use run no_message step in \<open>simp add: R_refl\<close>)
  qed
qed

lemma yaml_loader_R: "keeps_field P R (yaml_pick_field P A fuel) \<and> keeps R (dump_message_item P A fuel)"
proof (induction fuel)
  case (Suc fuel)
  then have pick: "keeps_field P R (yaml_pick_field P A fuel)" and load: "keeps R (dump_message_item P A fuel)" by auto
  have "R p b st st'" if "dump_message_item P A (Suc fuel) src p st = Some (b, st')" for src p b st st'
  proof (cases src)
    case (YAML_Map entries)
    with that have "any_step (yaml_field_item P (yaml_pick_field P A fuel) (dump_message_item P A fuel) entries p)
        (P (msg_type (fst st))) st = Some (b, st')"
      by simp
    then show ?thesis by (rule any_step_R) (rule yaml_field_item_R [OF _ pick load], simp_all)
  qed (use that in \<open>auto simp: R_refl\<close>)
  then have "keeps R (dump_message_item P A (Suc fuel))" unfolding keeps_def by blast
  moreover have "keeps_field P R (yaml_pick_field P A (Suc fuel))"
    unfolding keeps_field_def using yaml_pick_field_R [OF _ pick load] by blast
  ultimately show ?case by blast
qed (simp add: keeps_def keeps_field_def)

end

section \<open>INI sections\<close>

text \<open>
  The INI loader numbers the elements of a section from zero, whatever the field already holds.
\<close>

locale section_loader = field_loader +
  assumes R_numbered: "fds \<in> set (P (msg_type m)) \<Longrightarrow> fd_cpp_type fds = CPPTYPE_MESSAGE \<Longrightarrow>
      R (index_key p fds j @ ''.'') b (empty_message (fd_message_type fds), es) (s, es') \<Longrightarrow>
      add_value fds (PB_Message s) m = Some m' \<Longrightarrow> R p b (m, es) (m', es')"
begin

text \<open>The pick function of the INI loader with the index next to the node.\<close>

definition indexed :: "ini_pick \<Rightarrow> ini_value \<times> nat \<Rightarrow> field_descriptor \<Rightarrow> string \<Rightarrow> load_state \<Rightarrow> (bool \<times> load_state) option" where
  "indexed pick v fds p st = pick (fst v) fds (snd v) p st"

lemma indexedD:
  "keeps_field P R (indexed pick) \<Longrightarrow> fds \<in> set (P (msg_type (fst st))) \<Longrightarrow> pick val fds i p st = Some (b, st') \<Longrightarrow> R p b st st'"
  using keeps_fieldD [where pick = "indexed pick" and val = "(val, i)"] by (simp add: indexed_def)

lemma dump_pick_map_key_field_R:
  assumes "fds \<in> set (P (msg_type (fst st)))" "dump_pick_map_key_field P A val fds p st = Some (b, st')"
  shows "R p b st st'"
proof (cases "fd_repeated fds \<or> \<not> map_key_type (fd_cpp_type fds)")
  case True
  then show ?thesis using assms by (auto simp: dump_pick_map_key_field_def R_refl split: if_splits)
next
  case False
  then obtain v where v: "pick_value A fds val = Some v" "dump_field_with_value P fds p v st = Some (b, st')"
    using assms by (auto simp: dump_pick_map_key_field_def bind_eq_Some_conv)
  have "fd_cpp_type fds \<noteq> CPPTYPE_MESSAGE" using False by (auto simp: map_key_type_def)
  then show ?thesis by (rule R_value [OF assms(1) pick_value_converts [OF v(1)] v(2)])
qed

lemma ini_map_entry_R:
  assumes fds: "fds \<in> set (P (msg_type (fst st)))" "fd_cpp_type fds = CPPTYPE_MESSAGE"
    and pick: "keeps_field P R (indexed pick)"
    and entry: "P (fd_message_type fds) = key_fds # value_fds # rest"
    and run: "ini_map_entry P A pick fds key_fds value_fds p child st = Some (b, st')"
  shows "R p b st st'"
proof (cases "snd child")
  case None
  then show ?thesis using run by (simp add: ini_map_entry_def R_refl)
next
  case (Some val)
  let ?k = "index_key p fds (field_size (fst st) fds)"
  let ?enabled = "field_has_enable_expression (fd_configure fds)"
  let ?key = "if ?enabled then expand_expression_impl (ca_getenv A) (fst child) 0 else fst child"
  let ?text = "(PB_String (expand_expression_impl (ca_getenv A) (as_cpp_string val 0) 0), False)"
  let ?val = "\<lambda>st1. if ?enabled \<and> fd_cpp_type value_fds = CPPTYPE_STRING
    then dump_field_with_value P value_fds (?k @ ''.'') ?text st1 else pick val value_fds 0 (?k @ ''.'') st1"
  note run = run [unfolded ini_map_entry_def Some option.case Let_def split_beta]
  obtain b1 st1 where
    key: "dump_pick_map_key_field P A ?key key_fds (?k @ ''.'') (empty_message (fd_message_type fds), snd st) = Some (b1, st1)"
    using run by (cases "dump_pick_map_key_field P A ?key key_fds (?k @ ''.'') (empty_message (fd_message_type fds), snd st)") auto
  note run = run [unfolded key Option.bind.simps fst_conv snd_conv]
  obtain b2 s es' where val: "?val st1 = Some (b2, s, es')"
    using run by (cases "?val st1") (auto split del: if_split)
  obtain m' where add: "add_value fds (PB_Message s) (fst st) = Some m'"
    using run val by (cases "add_value fds (PB_Message s) (fst st)") (auto split del: if_split)
  have b: "b = (b1 \<or> b2)" and st': "st' = (m', if b then mark_existed ?k es' else es')"
    using run val add by (auto split del: if_split)
  have 1: "R (?k @ ''.'') b1 (empty_message (fd_message_type fds), snd st) st1"
    by (rule dump_pick_map_key_field_R [OF _ key]) (simp add: entry)
  have value_fds: "value_fds \<in> set (P (msg_type (fst st1)))" by (simp add: R_type [OF 1] entry)
  have 2: "R (?k @ ''.'') b2 st1 (s, es')"
  proof (cases "?enabled \<and> fd_cpp_type value_fds = CPPTYPE_STRING")
    case True
    then have "converts A value_fds ?text" by (simp add: converts_def converted_def)
    then show ?thesis using val True by (intro R_value [OF value_fds]) simp_all
  qed (use val in \<open>auto intro: indexedD [OF pick value_fds]\<close>)
  show ?thesis unfolding st' by (rule add_element_R [OF fds _ add]) (simp add: b R_trans [OF 1 2])
qed

lemma ini_repeated_element_R:
  assumes fds: "fds \<in> set (P (msg_type (fst st)))" "fd_cpp_type fds = CPPTYPE_MESSAGE" and load: "keeps R load"
    and run: "ini_repeated_element P load fds p elem st = Some (b, st')"
  shows "R p b st st'"
proof -
  let ?key = "index_key p fds (fst elem) @ ''.''"
  note run = run [unfolded ini_repeated_element_def Let_def split_beta]
  obtain c s es' where l: "load (snd elem) ?key (empty_message (fd_message_type fds), snd st) = Some (c, s, es')"
    using run by (cases "load (snd elem) ?key (empty_message (fd_message_type fds), snd st)") auto
  obtain m' where add: "add_value fds (PB_Message s) (fst st) = Some m'"
    using run l by (cases "add_value fds (PB_Message s) (fst st)") auto
  have st': "b = c" "st' = (m', if b then mark_existed ?key es' else es')"
    using run l add by auto
  have "R p b (fst st, snd st) (m', es')"
    unfolding st'(1) by (rule R_numbered [OF fds keepsD [OF load l] add])
  then show ?thesis unfolding st'(2) by (cases st) (auto intro: R_mark)
qed

lemma ini_pick_message_R:
  assumes fds: "fds \<in> set (P (msg_type (fst st)))" "fd_cpp_type fds = CPPTYPE_MESSAGE"
    and pick: "keeps_field P R (indexed pick)" and load: "keeps R load"
    and run: "ini_pick_message P A pick load val fds i p st = Some (b, st')"
  shows "R p b st st'"
proof -
  consider (time) "is_time_type (fd_message_type fds)"
    | (map) "\<not> is_time_type (fd_message_type fds)" "fd_map fds"
    | (repeated) "\<not> is_time_type (fd_message_type fds)" "\<not> fd_map fds" "fd_repeated fds"
    | (singular) "\<not> is_time_type (fd_message_type fds)" "\<not> fd_map fds" "\<not> fd_repeated fds"
    by blast
  then show ?thesis
  proof cases
    case time
    then show ?thesis
      using run by (intro R_value [OF fds(1) pick_time_converts [OF fds(2) time]]) (simp add: ini_pick_message_def)
  next
    case map
    show ?thesis
    proof (cases "\<exists>key_fds value_fds rest. P (fd_message_type fds) = key_fds # value_fds # rest")
      case True
      then obtain key_fds value_fds rest where entry: "P (fd_message_type fds) = key_fds # value_fds # rest" by blast
      with run map have "any_step (ini_map_entry P A pick fds key_fds value_fds p) (get_children val) st = Some (b, st')"
        by (simp add: ini_pick_message_def)
      then show ?thesis
        by (rule any_step_R) (rule ini_map_entry_R [OF _ fds(2) pick entry], use fds(1) in simp_all)
    qed (use run map in \<open>auto simp: ini_pick_message_def R_refl split: list.splits\<close>)
  next
    case repeated
    with run have "any_step (ini_repeated_element P load fds p) (ini_elements val) st = Some (b, st')"
      by (simp add: ini_pick_message_def)
    then show ?thesis
      by (rule any_step_R) (rule ini_repeated_element_R [OF _ fds(2) load], use fds(1) in simp_all)
  next
    case singular
    then show ?thesis
      using run by (intro put_back_R [OF fds load, of val]) (simp add: ini_pick_message_def)
  qed
qed

lemma ini_field_item_R:
  assumes fds: "fds \<in> set (P (msg_type (fst st)))" and pick: "keeps_field P R (indexed pick)" and load: "keeps R load"
    and run: "ini_field_item P pick load src p fds st = Some (b, st')"
  shows "R p b st st'"
proof (cases "same_level_match fds")
  case (Some match)
  then have same: "same_level_match fds \<noteq> None" by simp
  obtain name val where match: "match = (name, val)" by (cases match)
  show ?thesis
  proof (cases "\<exists>v. map_of (get_children src) name = Some (Some v) \<and> as_cpp_string v 0 = val")
    case True
    then show ?thesis
      using run Some match by (intro put_back_same_R [OF fds same load, of src]) (auto simp: ini_field_item_def)
  qed (use run Some match in \<open>auto simp: ini_field_item_def R_refl split: option.splits if_splits\<close>)
next
  case None
  have step: "R p b u v" if "msg_type (fst u) = msg_type (fst st)" "pick child fds i p u = Some (b, v)" for child i b u v
    by (rule indexedD [OF pick _ that(2)]) (use fds that(1) in simp)
  show ?thesis
  proof (cases "\<exists>child. map_of (get_children src) (fd_name fds) = Some (Some child)")
    case True
    then obtain child where child: "map_of (get_children src) (fd_name fds) = Some (Some child)" by blast
    show ?thesis
    proof (cases "fd_repeated fds \<and> fd_cpp_type fds \<noteq> CPPTYPE_MESSAGE")
      case True
      then have "any_step (\<lambda>i. pick child fds i p) [0..<ini_size child] st = Some (b, st')"
        using run None child by (simp add: ini_field_item_def)
      then show ?thesis by (rule any_step_R) (rule step)
    next
      case False
      then have "pick child fds 0 p st = Some (b, st')" using run None child by (auto simp: ini_field_item_def)
      then show ?thesis by (rule step [OF refl])
    qed
  qed (use run None in \<open>auto simp: ini_field_item_def R_refl split: option.splits\<close>)
qed

lemma ini_loader_R:
  "keeps_field P R (indexed (ini_pick_field P A fuel)) \<and> keeps R (ini_loader_dump_to P A fuel)"
proof (induction fuel)
  case (Suc fuel)
  then have pick: "keeps_field P R (indexed (ini_pick_field P A fuel))" and load: "keeps R (ini_loader_dump_to P A fuel)"
    by auto
  have "R p b st st'"
    if fds: "fds \<in> set (P (msg_type (fst st)))" and run: "ini_pick_field P A (Suc fuel) val fds i p st = Some (b, st')"
    for val fds i p st b st'
  proof (cases "fd_cpp_type fds = CPPTYPE_MESSAGE")
    case True
    then show ?thesis using run by (intro ini_pick_message_R [OF fds True pick load]) simp
  next
    case False
    then obtain v where v: "pick_value A fds (as_cpp_string val i) = Some v" "dump_field_with_value P fds p v st = Some (b, st')"
      using run by (auto simp: bind_eq_Some_conv)
    show ?thesis by (rule R_value [OF fds pick_value_converts [OF v(1) False] v(2)])
  qed
  then have "keeps_field P R (indexed (ini_pick_field P A (Suc fuel)))"
    unfolding keeps_field_def indexed_def by blast
  moreover have "R p b st st'" if "ini_loader_dump_to P A (Suc fuel) src p st = Some (b, st')" for src p b st st'
  proof -
    from that have "any_step (ini_field_item P (ini_pick_field P A fuel) (ini_loader_dump_to P A fuel) src p)
        (P (msg_type (fst st))) st = Some (b, st')"
      by simp
    then show ?thesis by (rule any_step_R) (rule ini_field_item_R [OF _ pick load], simp_all)
  qed
  then have "keeps R (ini_loader_dump_to P A (Suc fuel))" unfolding keeps_def by blast
  ultimately show ?case by blast
qed (simp add: keeps_def keeps_field_def indexed_def)

end

end
