(* ===== verification/Config_Typed.thy ===== *)
theory Config_Typed
  imports Loader_Keeps
begin

text \<open>
  Messages that fit their descriptors, and that every loader keeps them so: what a loader
  writes into a field has the type of the field, and a singular field has at most one value.
\<close>

section \<open>Typed messages\<close>

definition value_fits :: "field_descriptor \<Rightarrow> pb_value \<Rightarrow> bool" where
  "value_fits fds v \<longleftrightarrow>
     value_type v = fd_cpp_type fds \<and> (case v of PB_Message s \<Rightarrow> msg_type s = fd_message_type fds | _ \<Rightarrow> True)"

inductive typed :: "descriptor_pool \<Rightarrow> message \<Rightarrow> bool" for P where
  typed_message:
    "(\<And>fds. fds \<in> set (P (msg_type m)) \<Longrightarrow> fd_repeated fds \<or> length (field_values m (fd_name fds)) \<le> 1) \<Longrightarrow>
     (\<And>fds v. fds \<in> set (P (msg_type m)) \<Longrightarrow> v \<in> set (field_values m (fd_name fds)) \<Longrightarrow>
        value_fits fds v \<and> (\<forall>s. v = PB_Message s \<longrightarrow> typed P s)) \<Longrightarrow>
     typed P m"

inductive_cases typedE: "typed P m"

text \<open>A value that may be stored in the field.\<close>

definition storable :: "descriptor_pool \<Rightarrow> field_descriptor \<Rightarrow> pb_value \<Rightarrow> bool" where
  "storable P fds v \<longleftrightarrow> value_fits fds v \<and> (\<forall>s. v = PB_Message s \<longrightarrow> typed P s)"

lemma typed_fieldD:
  "typed P m \<Longrightarrow> fds \<in> set (P (msg_type m)) \<Longrightarrow> v \<in> set (field_values m (fd_name fds)) \<Longrightarrow> storable P fds v"
  by (auto simp: storable_def elim: typedE)

lemma typed_singularD:
  "typed P m \<Longrightarrow> fds \<in> set (P (msg_type m)) \<Longrightarrow> fd_repeated fds \<or> length (field_values m (fd_name fds)) \<le> 1"
  by (auto elim: typedE)

lemma typedI:
  assumes "\<And>fds. fds \<in> set (P (msg_type m)) \<Longrightarrow> fd_repeated fds \<or> length (field_values m (fd_name fds)) \<le> 1"
    and "\<And>fds v. fds \<in> set (P (msg_type m)) \<Longrightarrow> v \<in> set (field_values m (fd_name fds)) \<Longrightarrow> storable P fds v"
  shows "typed P m"
  using assms by (intro typed_message) (auto simp: storable_def)

text \<open>
  Descriptors as protobuf builds them: names are unique in a message, only message fields
  have a \<^verbatim>\<open>field_match\<close>, and a duration or time point has its seconds and nanoseconds.
\<close>

definition time_fields :: "field_descriptor list \<Rightarrow> bool" where
  "time_fields fs \<longleftrightarrow>
     (case fs of
        [f, g] \<Rightarrow> fd_name f = ''seconds'' \<and> fd_cpp_type f = CPPTYPE_INT64 \<and> \<not> fd_repeated f \<and> fd_oneof f = None \<and>
                  fd_name g = ''nanos'' \<and> fd_cpp_type g = CPPTYPE_INT32 \<and> \<not> fd_repeated g \<and> fd_oneof g = None
      | _ \<Rightarrow> False)"

definition pool_ok :: "descriptor_pool \<Rightarrow> bool" where
  "pool_ok P \<longleftrightarrow>
     (\<forall>t. distinct (map fd_name (P t)) \<and>
        (\<forall>fds\<in>set (P t). same_level_match fds \<noteq> None \<longrightarrow> fd_cpp_type fds = CPPTYPE_MESSAGE) \<and>
        (is_time_type t \<longrightarrow> time_fields (P t)))"

lemma time_fieldsE:
  assumes "time_fields fs"
  obtains f g where "fs = [f, g]" "fd_name f = ''seconds''" "fd_cpp_type f = CPPTYPE_INT64" "\<not> fd_repeated f" "fd_oneof f = None"
    "fd_name g = ''nanos''" "fd_cpp_type g = CPPTYPE_INT32" "\<not> fd_repeated g" "fd_oneof g = None"
  using assms by (auto simp: time_fields_def split: list.splits)

lemma pool_ok_time: "pool_ok P \<Longrightarrow> is_time_type t \<Longrightarrow> time_fields (P t)"
  by (simp add: pool_ok_def)

lemma pool_ok_unique:
  "pool_ok P \<Longrightarrow> f \<in> set (P t) \<Longrightarrow> g \<in> set (P t) \<Longrightarrow> fd_name f = fd_name g \<Longrightarrow> f = g"
  by (auto simp: pool_ok_def distinct_map inj_on_def)

lemma pool_ok_same_level:
  "pool_ok P \<Longrightarrow> fds \<in> set (P t) \<Longrightarrow> same_level_match fds \<noteq> None \<Longrightarrow> fd_cpp_type fds = CPPTYPE_MESSAGE"
  unfolding pool_ok_def by blast

section \<open>The reflection calls keep messages typed\<close>

lemma typed_empty: "typed P (empty_message t)"
  by (rule typedI) simp_all

lemma msg_type_time [simp]: "msg_type (time_message t a b) = t"
  by (simp add: time_message_def)

lemma field_values_time [simp]:
  "field_values (time_message t a b) n =
     (if n = ''seconds'' then [PB_Int64 a] else if n = ''nanos'' then [PB_Int32 b] else [])"
  by (simp add: time_message_def field_values_def)

lemma typed_time_message:
  assumes "pool_ok P" "is_time_type t"
  shows "typed P (time_message t a b)"
proof (rule typedI)
  fix fds :: field_descriptor
  show "fd_repeated fds \<or> length (field_values (time_message t a b) (fd_name fds)) \<le> 1"
    by simp
  fix v
  assume "fds \<in> set (P (msg_type (time_message t a b)))" "v \<in> set (field_values (time_message t a b) (fd_name fds))"
  then show "storable P fds v"
    using pool_ok_time [OF assms] by (auto simp: storable_def value_fits_def elim!: time_fieldsE split: if_splits)
qed

lemma converted_storable: "pool_ok P \<Longrightarrow> converted fds v \<Longrightarrow> storable P fds v"
  using typed_time_message [of P "fd_message_type fds"]
  by (auto simp: converted_def storable_def value_fits_def split: pb_value.splits)

lemma typed_put:
  assumes "pool_ok P" "typed P m" "fds \<in> set (P (msg_type m))" "fd_repeated fds \<or> length vs \<le> 1"
    and "\<And>v. v \<in> set vs \<Longrightarrow> storable P fds v"
  shows "typed P (put_values (fd_name fds) vs m)"
proof (rule typedI, unfold msg_type_put)
  fix f
  assume f: "f \<in> set (P (msg_type m))"
  have same: "f = fds" if "fd_name f = fd_name fds" by (rule pool_ok_unique [OF assms(1) f assms(3) that])
  show "fd_repeated f \<or> length (field_values (put_values (fd_name fds) vs m) (fd_name f)) \<le> 1"
    using same assms(4) typed_singularD [OF assms(2) f] by auto
  show "storable P f v" if "v \<in> set (field_values (put_values (fd_name fds) vs m) (fd_name f))" for v
    using that same assms(5) typed_fieldD [OF assms(2) f] by (auto split: if_splits)
qed

lemma typed_clear: "typed P m \<Longrightarrow> typed P (clear_oneof P fds m)"
  by (rule typedI) (auto simp: clear_oneof_fields dest: typed_singularD typed_fieldD split: if_splits)

lemma typed_set_value:
  assumes "pool_ok P" "typed P m" "fds \<in> set (P (msg_type m))" "storable P fds v" "set_value P fds v m = Some m'"
  shows "typed P m'"
  using assms typed_put [OF assms(1) typed_clear [OF assms(2)], of fds fds "[v]"]
  by (auto simp: set_value_def clear_oneof_fields split: if_splits)

lemma typed_add_value:
  assumes "pool_ok P" "typed P m" "fds \<in> set (P (msg_type m))" "storable P fds v" "add_value fds v m = Some m'"
  shows "typed P m'"
  using assms typed_put [OF assms(1,2,3), of "field_values m (fd_name fds) @ [v]"] typed_fieldD [OF assms(2,3)]
  by (auto simp: add_value_def split: if_splits)

lemma msg_type_set_value: "set_value P fds v m = Some m' \<Longrightarrow> msg_type m' = msg_type m"
  by (auto simp: set_value_def clear_oneof_fields split: if_splits)

lemma msg_type_add_value: "add_value fds v m = Some m' \<Longrightarrow> msg_type m' = msg_type m"
  by (auto simp: add_value_def split: if_splits)

lemma sub_message_typed:
  assumes "typed P m" "fds \<in> set (P (msg_type m))"
  shows "typed P (sub_message fds m) \<and> msg_type (sub_message fds m) = fd_message_type fds"
proof (cases "\<exists>s vs. field_values m (fd_name fds) = PB_Message s # vs")
  case True
  then obtain s vs where s: "field_values m (fd_name fds) = PB_Message s # vs" by blast
  then have "storable P fds (PB_Message s)" using typed_fieldD [OF assms] by simp
  then show ?thesis using s by (simp add: sub_message_def storable_def value_fits_def)
next
  case False
  then have "sub_message fds m = empty_message (fd_message_type fds)"
    by (auto simp: sub_message_def split: list.splits pb_value.splits)
  then show ?thesis by (simp add: typed_empty)
qed

text \<open>A value put into a field by either delegate.\<close>

lemma dump_field_with_valueE:
  assumes "dump_field_with_value P fds p r st = Some (b, st')"
  obtains "st' = st" "\<not> b"
  | m' where "set_value P fds (fst r) (fst st) = Some m' \<or> add_value fds (fst r) (fst st) = Some m'" "fst st' = m'" "b"
proof -
  have "st' = st \<and> \<not> b \<or> (set_value P fds (fst r) (fst st) = Some (fst st') \<or> add_value fds (fst r) (fst st) = Some (fst st')) \<and> b"
    using assms
    by (auto simp: dump_field_with_value_def dump_field_with_value_delegate_def dump_field_with_message_delegate_def
        Let_def bind_eq_Some_conv split: pb_value.splits if_splits prod.splits)
  then show thesis using that by auto
qed

section \<open>The loaders keep messages typed\<close>

definition typed_step :: "descriptor_pool \<Rightarrow> string \<Rightarrow> bool \<Rightarrow> load_state \<Rightarrow> load_state \<Rightarrow> bool" where
  "typed_step P p b st st' \<longleftrightarrow>
     msg_type (fst st') = msg_type (fst st) \<and> (pool_ok P \<and> typed P (fst st) \<longrightarrow> typed P (fst st'))"

lemma typed_step_value:
  assumes "fds \<in> set (P (msg_type (fst st)))" "converts A fds r" "dump_field_with_value P fds p r st = Some (b, st')"
  shows "typed_step P p b st st'"
  using assms(3)
proof (cases rule: dump_field_with_valueE)
  case (2 m')
  have stored: "pool_ok P \<Longrightarrow> storable P fds (fst r)"
    using assms(2) by (simp add: converts_def converted_storable)
  have "typed P m'" if "pool_ok P" "typed P (fst st)"
    using 2(1) typed_set_value [OF that assms(1) stored [OF that(1)]] typed_add_value [OF that assms(1) stored [OF that(1)]]
    by blast
  moreover have "msg_type m' = msg_type (fst st)"
    using 2(1) msg_type_set_value msg_type_add_value by blast
  ultimately show ?thesis using 2(2) by (simp add: typed_step_def)
qed (simp add: typed_step_def)

lemma typed_step_set:
  assumes "fds \<in> set (P (msg_type m))" "pool_ok P \<Longrightarrow> fd_cpp_type fds = CPPTYPE_MESSAGE"
    and "typed_step P q b (sub_message fds m, es) (s, es')" "set_value P fds (PB_Message s) m = Some m'"
  shows "typed_step P p b (m, es) (m', es'')"
proof -
  have "typed P m'" if "pool_ok P" "typed P m"
  proof -
    have "typed P s \<and> msg_type s = fd_message_type fds"
      using assms(3) that sub_message_typed [OF that(2) assms(1)] by (simp add: typed_step_def)
    then have "storable P fds (PB_Message s)" using assms(2) [OF that(1)] by (simp add: storable_def value_fits_def)
    then show ?thesis by (rule typed_set_value [OF that assms(1) _ assms(4)])
  qed
  then show ?thesis using msg_type_set_value [OF assms(4)] by (simp add: typed_step_def)
qed

lemma typed_step_add:
  assumes "fds \<in> set (P (msg_type m))" "fd_cpp_type fds = CPPTYPE_MESSAGE"
    and "typed_step P q b (empty_message (fd_message_type fds), es) (s, es')" "add_value fds (PB_Message s) m = Some m'"
  shows "typed_step P p b (m, es) (m', es'')"
proof -
  have "typed P m'" if "pool_ok P" "typed P m"
  proof -
    have "storable P fds (PB_Message s)"
      using assms(2,3) that(1) by (simp add: typed_step_def typed_empty storable_def value_fits_def)
    then show ?thesis by (rule typed_add_value [OF that assms(1) _ assms(4)])
  qed
  then show ?thesis using msg_type_add_value [OF assms(4)] by (simp add: typed_step_def)
qed

interpretation typed_loader: section_loader P A "typed_step P"
proof (unfold_locales, goal_cases)
  case 4 \<comment> \<open>a value\<close>
  then show ?case by (rule typed_step_value)
next
  case 5 \<comment> \<open>a sub-message\<close>
  show ?case by (rule typed_step_set [OF 5(1) _ 5(3,4)]) (rule 5(2))
next
  case 6 \<comment> \<open>a sub-message of the same level\<close>
  show ?case by (rule typed_step_set [OF 6(1) _ 6(3,4)]) (use 6(1,2) in \<open>blast dest: pool_ok_same_level\<close>)
next
  case 7 \<comment> \<open>an element\<close>
  then show ?case by (rule typed_step_add)
next
  case 10 \<comment> \<open>a numbered element\<close>
  then show ?case by (rule typed_step_add)
qed (auto simp: typed_step_def)

section \<open>The defaults keep messages typed\<close>

lemma pick_value_storable:
  assumes "pool_ok P" "pick_value A fds val = Some (v, d)" "fd_cpp_type fds \<noteq> CPPTYPE_MESSAGE \<or> is_time_type (fd_message_type fds)"
  shows "storable P fds v"
proof (cases "fd_cpp_type fds = CPPTYPE_MESSAGE")
  case True
  then show ?thesis
    using assms pick_time_converted [of fds A val] by (auto simp: pick_value_def intro: converted_storable)
next
  case False
  then show ?thesis using pick_value_converted [OF assms(2)] assms(1) by (auto intro: converted_storable)
qed

lemma fold_fields_typed:
  assumes "fold_option f fs m = Some m'" "typed P m" "set fs \<subseteq> set (P (msg_type m))"
    and "\<And>g u v. g \<in> set (P (msg_type u)) \<Longrightarrow> typed P u \<Longrightarrow> f g u = Some v \<Longrightarrow> typed P v \<and> msg_type v = msg_type u"
  shows "typed P m' \<and> msg_type m' = msg_type m"
  using assms(1)
proof (rule fold_option_invariant [where I = "\<lambda>u. typed P u \<and> msg_type u = msg_type m"])
  fix g u v
  assume "g \<in> set fs" "typed P u \<and> msg_type u = msg_type m" "f g u = Some v"
  then show "typed P v \<and> msg_type v = msg_type m" using assms(3,4) by (metis subset_iff)
qed (use assms(2) in simp)

lemma those_map_Some: "those (map f xs) = Some ys \<Longrightarrow> length ys = length xs \<and> (\<forall>i<length xs. f (xs ! i) = Some (ys ! i))"
proof (induction xs arbitrary: ys)
  case (Cons x xs)
  then obtain y ys' where "f x = Some y" "those (map f xs) = Some ys'" "ys = y # ys'"
    by (auto split: option.splits)
  then show ?case using Cons.IH by (auto simp: nth_Cons split: nat.splits)
qed simp

text \<open>Updating the elements of a repeated field: each value becomes one, at its index.\<close>

lemma update_elementsE:
  assumes "update_elements f fds m = Some m'"
  obtains vs where "m' = put_values (fd_name fds) vs m" "length vs = field_size m fds"
    "\<And>i. i < field_size m fds \<Longrightarrow>
       (case field_values m (fd_name fds) ! i of
          PB_Message s \<Rightarrow> \<exists>s'. f i s = Some s' \<and> vs ! i = PB_Message s' | v \<Rightarrow> vs ! i = v)"
proof -
  let ?old = "field_values m (fd_name fds)"
  let ?g = "\<lambda>(i, v). case v of PB_Message s \<Rightarrow> map_option PB_Message (f i s) | _ \<Rightarrow> Some v"
  from assms obtain vs where vs: "those (map ?g (enumerate 0 ?old)) = Some vs" "m' = put_values (fd_name fds) vs m"
    by (auto simp: update_elements_def bind_eq_Some_conv)
  have len: "length vs = length ?old" and each: "\<forall>i<length ?old. ?g (i, ?old ! i) = Some (vs ! i)"
    using those_map_Some [OF vs(1)] by (auto simp: nth_enumerate_eq)
  show thesis
  proof (rule that [OF vs(2)])
    fix i
    assume "i < field_size m fds"
    with each have "?g (i, ?old ! i) = Some (vs ! i)" by (simp add: field_size_def)
    then show "case ?old ! i of PB_Message s \<Rightarrow> \<exists>s'. f i s = Some s' \<and> vs ! i = PB_Message s' | v \<Rightarrow> vs ! i = v"
      by (auto split: pb_value.splits)
  qed (simp add: len field_size_def)
qed

lemma update_elements_typed:
  assumes "update_elements f fds m = Some m'" "pool_ok P" "typed P m" "fds \<in> set (P (msg_type m))" "fd_repeated fds"
    and "\<And>i u v. typed P u \<Longrightarrow> f i u = Some v \<Longrightarrow> typed P v \<and> msg_type v = msg_type u"
  shows "typed P m' \<and> msg_type m' = msg_type m"
  using assms(1)
proof (cases rule: update_elementsE)
  case (1 vs)
  let ?old = "field_values m (fd_name fds)"
  have "storable P fds v" if v: "v \<in> set vs" for v
  proof -
    from v obtain i where i: "i < field_size m fds" "v = vs ! i" using 1(2) by (auto simp: in_set_conv_nth)
    have old: "storable P fds (?old ! i)"
      using typed_fieldD [OF assms(3,4)] i(1) by (simp add: field_size_def)
    show ?thesis
    proof (cases "\<exists>s. ?old ! i = PB_Message s")
      case True
      then obtain s s' where s: "?old ! i = PB_Message s" "f i s = Some s'" "vs ! i = PB_Message s'"
        using 1(3) [OF i(1)] by auto
      then show ?thesis using old assms(6) [of s i s'] i(2) by (auto simp: storable_def value_fits_def)
    next
      case False
      then have "vs ! i = ?old ! i" using 1(3) [OF i(1)] by (auto split: pb_value.splits)
      then show ?thesis using old i(2) by simp
    qed
  qed
  then show ?thesis using 1(1) typed_put [OF assms(2-4)] assms(5) by simp
qed

theorem dump_pick_default_field_typed:
  assumes "dump_pick_default_field P A S fuel p fds m = Some m'" "pool_ok P" "typed P m" "fds \<in> set (P (msg_type m))"
  shows "typed P m' \<and> msg_type m' = msg_type m"
  using assms
proof (induction fuel arbitrary: p fds m m')
  case (Suc fuel)
  let ?fields = "\<lambda>q s. fold_option (dump_pick_default_field P A S fuel q) (P (msg_type s)) s"
  have fields: "typed P v \<and> msg_type v = msg_type u" if "?fields q u = Some v" "typed P u" for q u v
    by (rule fold_fields_typed [OF that]) (use Suc.IH Suc.prems(2) in auto)
  consider (skip) "skip_default P fds S p m"
    | (leaf) "\<not> skip_default P fds S p m" "allow_string_default_value fds"
    | (repeated) "\<not> skip_default P fds S p m" "\<not> allow_string_default_value fds" "fd_repeated fds"
    | (sub) "\<not> skip_default P fds S p m" "\<not> allow_string_default_value fds" "\<not> fd_repeated fds"
    by blast
  then show ?case
  proof cases
    case skip
    then show ?thesis using Suc.prems by simp
  next
    case leaf
    then obtain v d where v: "pick_value A fds [] = Some (v, d)" "set_value P fds v m = Some m'"
      using Suc.prems(1) by (auto simp: bind_eq_Some_conv)
    have "storable P fds v"
      by (rule pick_value_storable [OF Suc.prems(2) v(1)]) (use leaf(2) in \<open>auto simp: allow_string_default_value_def\<close>)
    then show ?thesis
      using typed_set_value [OF Suc.prems(2-4) _ v(2)] msg_type_set_value [OF v(2)] by simp
  next
    case repeated
    then have "update_elements (\<lambda>i. ?fields (index_key p fds i @ ''.'')) fds m = Some m'"
      using Suc.prems(1) by (simp add: Let_def)
    then show ?thesis
      by (rule update_elements_typed [OF _ Suc.prems(2-4) repeated(3)]) (rule fields)
  next
    case sub
    then obtain s where s: "?fields (p @ fd_name fds @ ''.'') (sub_message fds m) = Some s" "set_value P fds (PB_Message s) m = Some m'"
      using Suc.prems(1) by (auto simp: Let_def bind_eq_Some_conv)
    have "storable P fds (PB_Message s)"
      using fields [OF s(1)] sub_message_typed [OF Suc.prems(3,4)] sub(2)
      by (simp add: storable_def value_fits_def allow_string_default_value_def)
    then show ?thesis
      using typed_set_value [OF Suc.prems(2-4) _ s(2)] msg_type_set_value [OF s(2)] by simp
  qed
qed simp

lemma default_loader_typed:
  assumes "default_loader_dump_to P A fuel S m = Some m'" "pool_ok P" "typed P m"
  shows "typed P m' \<and> msg_type m' = msg_type m"
  using assms(1)[unfolded default_loader_dump_to_def]
  by (rule fold_fields_typed [OF _ assms(3)]) (use dump_pick_default_field_typed assms(2) in auto)

end
