(* ===== verification/Config_Parse.thy ===== *)
theory Config_Parse
  imports Config_Typed
begin

text \<open>
  \<^verbatim>\<open>app::parse_configures_into\<close> (\<^verbatim>\<open>src/atframe/atapp.cpp\<close>): the environment, the INI
  section, every YAML document and the defaults, in this order, into one message.
\<close>

text \<open>
  What the application has loaded: the root of its INI loader with \<^verbatim>\<open>get_child_by_path\<close> of
  atframe\_utils, and the documents of each YAML file.
\<close>

record conf_sources =
  cs_ini_root :: ini_value
  cs_ini_child_by_path :: "ini_value \<Rightarrow> string \<Rightarrow> ini_value option"
  cs_yaml_loader :: "yaml list list"

definition load_environment :: "descriptor_pool \<Rightarrow> conf_api \<Rightarrow> nat \<Rightarrow> string \<Rightarrow> load_state \<Rightarrow> load_state option" where
  "load_environment P A fuel env_prefix st =
     (if env_prefix \<noteq> [] then map_option snd (environment_loader_dump_to P A fuel env_prefix st) else Some st)"

definition load_ini :: "descriptor_pool \<Rightarrow> conf_api \<Rightarrow> conf_sources \<Rightarrow> nat \<Rightarrow> string \<Rightarrow> load_state \<Rightarrow> load_state option" where
  "load_ini P A C fuel path st =
     (case (if path \<noteq> [] then cs_ini_child_by_path C (cs_ini_root C) path else Some (cs_ini_root C)) of
        None \<Rightarrow> Some st
      | Some section \<Rightarrow> map_option snd (ini_loader_dump_to P A fuel section [] st))"

definition load_yaml :: "descriptor_pool \<Rightarrow> conf_api \<Rightarrow> conf_sources \<Rightarrow> nat \<Rightarrow> string \<Rightarrow> load_state \<Rightarrow> load_state option" where
  "load_yaml P A C fuel path st =
     fold_option (\<lambda>doc. yaml_loader_dump_to P A fuel (yaml_loader_get_child_by_path A doc path) []) (concat (cs_yaml_loader C)) st"

definition parse_configures_into ::
  "descriptor_pool \<Rightarrow> conf_api \<Rightarrow> conf_sources \<Rightarrow> nat \<Rightarrow> string \<Rightarrow> string \<Rightarrow> load_state \<Rightarrow> load_state option" where
  "parse_configures_into P A C fuel path env_prefix st =
     do { st \<leftarrow> load_environment P A fuel env_prefix (fst st, Some (case snd st of None \<Rightarrow> {} | Some keys \<Rightarrow> keys));
          st \<leftarrow> load_ini P A C fuel path st;
          (dst, keys) \<leftarrow> load_yaml P A C fuel path st;
          dst \<leftarrow> default_loader_dump_to P A fuel (the keys) dst;
          Some (dst, keys) }"

context field_loader
begin

lemma load_environment_R:
  assumes "load_environment P A fuel env st = Some st'"
  shows "\<exists>b. R [] b st st'"
proof (cases "env = []")
  case True
  then show ?thesis using assms R_refl [of "[]" st] by (auto simp: load_environment_def)
next
  case False
  then obtain b where "dump_environment_message_item P A fuel env [] st = Some (b, st')"
    using assms by (auto simp: load_environment_def environment_loader_dump_to_def)
  then show ?thesis using keepsD [OF dump_environment_message_item_R] by blast
qed

lemma load_yaml_R:
  assumes "load_yaml P A C fuel path st = Some st'"
  shows "\<exists>b. R [] b st st'"
  using assms unfolding load_yaml_def
proof (rule fold_option_invariant [where I = "\<lambda>u. \<exists>b. R [] b st u"])
  show "\<exists>b. R [] b st st" using R_refl by blast
next
  fix doc u v
  assume u: "\<exists>b. R [] b st u" and run: "yaml_loader_dump_to P A fuel (yaml_loader_get_child_by_path A doc path) [] u = Some v"
  from run obtain b where "dump_message_item P A fuel (yaml_loader_get_child_by_path A doc path) [] u = Some (b, v)"
    by (auto simp: yaml_loader_dump_to_def)
  then have "R [] b u v" using keepsD [OF conjunct2 [OF yaml_loader_R]] by blast
  then show "\<exists>b. R [] b st v" using u R_trans by blast
qed

end

context section_loader
begin

lemma load_ini_R:
  assumes "load_ini P A C fuel path st = Some st'"
  shows "\<exists>b. R [] b st st'"
proof (cases "if path \<noteq> [] then cs_ini_child_by_path C (cs_ini_root C) path else Some (cs_ini_root C)")
  case None
  then show ?thesis using assms R_refl [of "[]" st] by (auto simp: load_ini_def)
next
  case (Some sect)
  then obtain b where "ini_loader_dump_to P A fuel sect [] st = Some (b, st')"
    using assms by (auto simp: load_ini_def)
  then show ?thesis using keepsD [OF conjunct2 [OF ini_loader_R]] by blast
qed

end

theorem parse_configures_into_typed:
  assumes "parse_configures_into P A C fuel path env st = Some st'" "pool_ok P" "typed P (fst st)"
  shows "typed P (fst st') \<and> msg_type (fst st') = msg_type (fst st)"
proof -
  from assms(1) obtain st1 st2 st3 m where
    env: "load_environment P A fuel env (fst st, Some (case snd st of None \<Rightarrow> {} | Some keys \<Rightarrow> keys)) = Some st1"
    and ini: "load_ini P A C fuel path st1 = Some st2"
    and yaml: "load_yaml P A C fuel path st2 = Some st3"
    and def: "default_loader_dump_to P A fuel (the (snd st3)) (fst st3) = Some m" and st': "fst st' = m"
    by (auto simp: parse_configures_into_def bind_eq_Some_conv)
  obtain b1 b2 b3 where "typed_step P [] b1 (fst st, Some (case snd st of None \<Rightarrow> {} | Some keys \<Rightarrow> keys)) st1"
    "typed_step P [] b2 st1 st2" "typed_step P [] b3 st2 st3"
    using typed_loader.load_environment_R [OF env] typed_loader.load_ini_R [OF ini] typed_loader.load_yaml_R [OF yaml] by blast
  then have "typed P (fst st3) \<and> msg_type (fst st3) = msg_type (fst st)"
    using assms(2,3) by (simp add: typed_step_def)
  then show ?thesis using default_loader_typed [OF def assms(2)] st' by simp
qed

end
