(* ===== verification/Config_Paths.thy ===== *)
theory Config_Paths
  imports Config_Parse
begin

text \<open>
  Where a value sits in a message: a path of sub-messages and elements to a leaf field, the key
  under which the loaders record it, and what setting and adding fields does to the values at
  other paths.
\<close>

section \<open>Paths\<close>

datatype path_step = Field field_descriptor | Element field_descriptor nat

fun step_field :: "path_step \<Rightarrow> field_descriptor" where
  "step_field (Field g) = g"
| "step_field (Element g i) = g"

fun step_key :: "path_step \<Rightarrow> string" where
  "step_key (Field g) = fd_name g @ ''.''"
| "step_key (Element g i) = fd_name g @ ''.'' @ dec_str i @ ''.''"

definition leaf_key :: "string \<Rightarrow> path_step list \<Rightarrow> field_descriptor \<Rightarrow> string" where
  "leaf_key p path f = p @ concat (map step_key path) @ fd_name f"

text \<open>
  The paths the facts are about: through fields outside of any oneof to a singular leaf that
  is no enum. A duration or time point is a leaf.
\<close>

definition plain_step :: "path_step \<Rightarrow> bool" where
  "plain_step s \<longleftrightarrow>
     fd_cpp_type (step_field s) = CPPTYPE_MESSAGE \<and> \<not> is_time_type (fd_message_type (step_field s)) \<and>
     fd_oneof (step_field s) = None \<and>
     (case s of Field g \<Rightarrow> \<not> fd_repeated g | Element g i \<Rightarrow> fd_repeated g)"

definition plain_leaf :: "field_descriptor \<Rightarrow> bool" where
  "plain_leaf f \<longleftrightarrow>
     allow_string_default_value f \<and> fd_cpp_type f \<noteq> CPPTYPE_ENUM \<and> \<not> fd_repeated f \<and> fd_oneof f = None"

fun valid_path :: "descriptor_pool \<Rightarrow> string \<Rightarrow> path_step list \<Rightarrow> field_descriptor \<Rightarrow> bool" where
  "valid_path P t [] f \<longleftrightarrow> f \<in> set (P t) \<and> plain_leaf f"
| "valid_path P t (s # path) f \<longleftrightarrow>
     step_field s \<in> set (P t) \<and> plain_step s \<and> valid_path P (fd_message_type (step_field s)) path f"

text \<open>The message a step leads to; where there is none, an empty one.\<close>

fun step_message :: "path_step \<Rightarrow> message \<Rightarrow> message" where
  "step_message (Field g) m = sub_message g m"
| "step_message (Element g i) m =
     (if i < field_size m g
      then case field_values m (fd_name g) ! i of PB_Message s \<Rightarrow> s | _ \<Rightarrow> empty_message (fd_message_type g)
      else empty_message (fd_message_type g))"

text \<open>What a leaf holds; of a duration or time point, its two numbers.\<close>

definition time_values :: "message \<Rightarrow> pb_value list" where
  "time_values s = field_values s ''seconds'' @ field_values s ''nanos''"

definition leaf_values :: "field_descriptor \<Rightarrow> message \<Rightarrow> pb_value list" where
  "leaf_values f m = (if fd_cpp_type f = CPPTYPE_MESSAGE then time_values (sub_message f m) else field_values m (fd_name f))"

fun value_at :: "message \<Rightarrow> path_step list \<Rightarrow> field_descriptor \<Rightarrow> pb_value list" where
  "value_at m [] f = leaf_values f m"
| "value_at m (s # path) f = value_at (step_message s m) path f"

text \<open>What a leaf holds when it has its default.\<close>

definition default_values :: "conf_api \<Rightarrow> field_descriptor \<Rightarrow> pb_value list" where
  "default_values A f =
     (case pick_value A f [] of
        Some (PB_Message s, _) \<Rightarrow> time_values s
      | Some (v, _) \<Rightarrow> [v]
      | None \<Rightarrow> [])"

section \<open>Writing one field leaves the others\<close>

lemma sub_message_cong: "field_values m' (fd_name g) = field_values m (fd_name g) \<Longrightarrow> sub_message g m' = sub_message g m"
  by (simp add: sub_message_def)

lemma value_at_other:
  assumes same: "\<And>g. g \<in> set (P t) \<Longrightarrow> fd_oneof g = None \<Longrightarrow> g \<noteq> fds \<Longrightarrow> field_values m' (fd_name g) = field_values m (fd_name g)"
    and path: "valid_path P t path f" and other: "(case path of [] \<Rightarrow> f | s # _ \<Rightarrow> step_field s) \<noteq> fds"
  shows "value_at m' path f = value_at m path f"
proof (cases path)
  case Nil
  then have "field_values m' (fd_name f) = field_values m (fd_name f)"
    using path other by (intro same) (auto simp: plain_leaf_def)
  then show ?thesis using Nil by (simp add: leaf_values_def sub_message_cong [of m' f m])
next
  case (Cons s path')
  then have "field_values m' (fd_name (step_field s)) = field_values m (fd_name (step_field s))"
    using path other by (intro same) (auto simp: plain_step_def)
  then have "step_message s m' = step_message s m"
    using sub_message_cong [of m' "step_field s" m] by (cases s) (simp_all add: field_size_def)
  then show ?thesis using Cons by simp
qed

lemma set_value_values:
  assumes "pool_ok P" "fds \<in> set (P (msg_type m))" "set_value P fds v m = Some m'"
  shows "field_values m' (fd_name fds) = [v]"
    and "\<And>g. g \<in> set (P (msg_type m)) \<Longrightarrow> fd_oneof g = None \<Longrightarrow> g \<noteq> fds \<Longrightarrow> field_values m' (fd_name g) = field_values m (fd_name g)"
proof -
  have m': "m' = put_values (fd_name fds) [v] (clear_oneof P fds m)"
    using assms(3) by (simp add: set_value_def split: if_splits)
  show "field_values m' (fd_name fds) = [v]" by (simp add: m')
  fix g
  assume g: "g \<in> set (P (msg_type m))" "fd_oneof g = None" "g \<noteq> fds"
  then have "fd_name g \<noteq> fd_name fds" using pool_ok_unique [OF assms(1) g(1) assms(2)] by blast
  moreover have "\<not> (\<exists>f\<in>set (P (msg_type m)). fd_name f = fd_name g \<and> fd_oneof f = fd_oneof fds)" if "fd_oneof fds \<noteq> None"
    using pool_ok_unique [OF assms(1) _ g(1)] g(2) that by metis
  ultimately show "field_values m' (fd_name g) = field_values m (fd_name g)"
    by (auto simp: m' clear_oneof_fields)
qed

lemma add_value_values:
  assumes "pool_ok P" "fds \<in> set (P (msg_type m))" "add_value fds v m = Some m'"
  shows "field_values m' (fd_name fds) = field_values m (fd_name fds) @ [v]"
    and "\<And>g. g \<in> set (P (msg_type m)) \<Longrightarrow> fd_oneof g = None \<Longrightarrow> g \<noteq> fds \<Longrightarrow> field_values m' (fd_name g) = field_values m (fd_name g)"
proof -
  have m': "m' = put_values (fd_name fds) (field_values m (fd_name fds) @ [v]) m"
    using assms(3) by (simp add: add_value_def split: if_splits)
  show "field_values m' (fd_name fds) = field_values m (fd_name fds) @ [v]" by (simp add: m')
  fix g
  assume g: "g \<in> set (P (msg_type m))" "fd_oneof g = None" "g \<noteq> fds"
  then have "fd_name g \<noteq> fd_name fds" using pool_ok_unique [OF assms(1) g(1) assms(2)] by blast
  then show "field_values m' (fd_name g) = field_values m (fd_name g)" by (simp add: m')
qed

lemma set_value_singular: "set_value P fds v m = Some m' \<Longrightarrow> \<not> fd_repeated fds"
  by (simp add: set_value_def split: if_splits)

lemma add_value_repeated: "add_value fds v m = Some m' \<Longrightarrow> fd_repeated fds"
  by (simp add: add_value_def split: if_splits)

text \<open>The leaf a converted value is put into.\<close>

lemma leaf_values_set:
  assumes "field_values m' (fd_name f) = [v]" "converted f v"
  shows "leaf_values f m' = (case v of PB_Message s \<Rightarrow> time_values s | _ \<Rightarrow> [v])"
  using assms by (auto simp: leaf_values_def converted_def sub_message_def split: pb_value.splits)

end
