(* ===== verification/Config_Survival.thy ===== *)
theory Config_Survival
  imports Config_Paths
begin

text \<open>
  What a loader reads is recorded, and what is recorded the defaults leave alone: for a path
  whose value a loader changed, the key of the path is in the set of existing keys or the
  value is the default of the field.
\<close>

section \<open>Recording\<close>

definition recorded :: "string \<Rightarrow> string set option \<Rightarrow> bool" where
  "recorded k es \<longleftrightarrow> (case es of None \<Rightarrow> True | Some keys \<Rightarrow> k \<in> keys)"

lemma recorded_mark [simp]: "recorded k (mark_existed k' es) \<longleftrightarrow> recorded k es \<or> k = k'"
  by (auto simp: recorded_def mark_existed_def split: option.splits)

text \<open>A change of the value at a path that is accounted for.\<close>

definition accounted :: "conf_api \<Rightarrow> string \<Rightarrow> bool \<Rightarrow> string set option \<Rightarrow> message \<Rightarrow> message \<Rightarrow> path_step list \<Rightarrow> field_descriptor \<Rightarrow> bool" where
  "accounted A p b es' m m' path f \<longleftrightarrow>
     value_at m' path f = value_at m path f \<or>
     b \<and> (recorded (leaf_key p path f) es' \<or> value_at m' path f = default_values A f)"

definition no_same_level :: "descriptor_pool \<Rightarrow> bool" where
  "no_same_level P \<longleftrightarrow> (\<forall>t. \<forall>fds\<in>set (P t). same_level_match fds = None)"

definition recorded_step :: "descriptor_pool \<Rightarrow> conf_api \<Rightarrow> string \<Rightarrow> bool \<Rightarrow> load_state \<Rightarrow> load_state \<Rightarrow> bool" where
  "recorded_step P A p b st st' \<longleftrightarrow>
     typed_step P p b st st' \<and> (\<forall>k. recorded k (snd st) \<longrightarrow> recorded k (snd st')) \<and>
     (pool_ok P \<and> no_same_level P \<and> typed P (fst st) \<longrightarrow>
        (\<forall>path f. valid_path P (msg_type (fst st)) path f \<longrightarrow> accounted A p b (snd st') (fst st) (fst st') path f))"

lemma recorded_step_type: "recorded_step P A p b st st' \<Longrightarrow> msg_type (fst st') = msg_type (fst st)"
  by (simp add: recorded_step_def typed_step_def)

lemma recorded_step_trans:
  assumes "recorded_step P A p b st st'" "recorded_step P A p b' st' st''"
  shows "recorded_step P A p (b \<or> b') st st''"
  unfolding recorded_step_def
proof (intro conjI allI impI)
  show "typed_step P p (b \<or> b') st st''"
    using assms by (auto simp: recorded_step_def typed_step_def)
  show "recorded k (snd st'')" if "recorded k (snd st)" for k
    using assms that by (auto simp: recorded_step_def)
  fix path f
  assume pre: "pool_ok P \<and> no_same_level P \<and> typed P (fst st)" and path: "valid_path P (msg_type (fst st)) path f"
  have "accounted A p b (snd st') (fst st) (fst st') path f"
    using assms(1) pre path by (simp add: recorded_step_def)
  moreover have "accounted A p b' (snd st'') (fst st') (fst st'') path f"
    using assms(2) pre path recorded_step_type [OF assms(1)] assms(1) by (simp add: recorded_step_def typed_step_def)
  moreover have "recorded (leaf_key p path f) (snd st') \<Longrightarrow> recorded (leaf_key p path f) (snd st'')"
    using assms(2) by (simp add: recorded_step_def)
  ultimately show "accounted A p (b \<or> b') (snd st'') (fst st) (fst st'') path f"
    by (auto simp: accounted_def)
qed

section \<open>A value\<close>

lemma dump_field_with_value_cases:
  assumes "dump_field_with_value P fds p r st = Some (b, st')"
  obtains "st' = st" "\<not> b"
  | "set_value P fds (fst r) (fst st) = Some (fst st')" "b"
      "snd st' = (if snd r then snd st else mark_existed (p @ fd_name fds) (snd st))"
  | k where "add_value fds (fst r) (fst st) = Some (fst st')" "b" "snd st' = mark_existed k (snd st)"
proof -
  have "st' = st \<and> \<not> b \<or>
    set_value P fds (fst r) (fst st) = Some (fst st') \<and> b \<and>
      snd st' = (if snd r then snd st else mark_existed (p @ fd_name fds) (snd st)) \<or>
    (\<exists>k. add_value fds (fst r) (fst st) = Some (fst st') \<and> b \<and> snd st' = mark_existed k (snd st))"
    using assms
    by (auto simp: dump_field_with_value_def dump_field_with_value_delegate_def dump_field_with_message_delegate_def
        Let_def bind_eq_Some_conv add_value_def split: pb_value.splits if_splits prod.splits)
  then show thesis using that by blast
qed

lemma default_values_converts:
  assumes "converts A f r" "snd r" "fd_cpp_type f \<noteq> CPPTYPE_ENUM" "field_values m' (fd_name f) = [fst r]"
  shows "leaf_values f m' = default_values A f"
proof -
  have "pick_value A f [] = Some r" "converted f (fst r)" using assms(1-3) by (simp_all add: converts_def)
  then show ?thesis
    using leaf_values_set [OF assms(4)] by (cases r) (auto simp: default_values_def split: pb_value.splits)
qed

lemma recorded_step_value:
  assumes fds: "fds \<in> set (P (msg_type (fst st)))" and r: "converts A fds r"
    and run: "dump_field_with_value P fds p r st = Some (b, st')"
  shows "recorded_step P A p b st st'"
  unfolding recorded_step_def
proof (intro conjI allI impI)
  show "typed_step P p b st st'" by (rule typed_step_value [OF fds r run])
  show "recorded k (snd st')" if "recorded k (snd st)" for k
    using run that by (cases rule: dump_field_with_value_cases) auto
  fix path f
  assume pre: "pool_ok P \<and> no_same_level P \<and> typed P (fst st)" and path: "valid_path P (msg_type (fst st)) path f"
  from pre have ok: "pool_ok P" by simp
  have step: "s # path' = path \<Longrightarrow> step_field s \<noteq> fds" for s path'
    using path r by (auto simp: converts_def converted_def plain_step_def split: pb_value.splits)
  show "accounted A p b (snd st') (fst st) (fst st') path f"
    using run
  proof (cases rule: dump_field_with_value_cases)
    case 2
    show ?thesis
    proof (cases "path = [] \<and> f = fds")
      case True
      show ?thesis
      proof (cases "snd r")
        case default: True
        have "leaf_values f (fst st') = default_values A f"
          by (rule default_values_converts [where r = r])
            (use True default r path set_value_values(1) [OF ok fds 2(1)] pre in \<open>auto simp: plain_leaf_def\<close>)
        then show ?thesis using True 2 by (simp add: accounted_def)
      qed (use True 2 in \<open>simp add: accounted_def leaf_key_def\<close>)
    next
      case False
      have "value_at (fst st') path f = value_at (fst st) path f"
        by (rule value_at_other [OF set_value_values(2) [OF ok fds 2(1)] path])
          (use pre False step in \<open>auto split: list.splits\<close>)
      then show ?thesis by (simp add: accounted_def)
    qed
  next
    case (3 k)
    have "path \<noteq> [] \<or> f \<noteq> fds" using add_value_repeated [OF 3(1)] path by (auto simp: plain_leaf_def)
    then have "value_at (fst st') path f = value_at (fst st) path f"
      by (intro value_at_other [OF add_value_values(2) [OF ok fds 3(1)] path])
        (use pre step in \<open>auto split: list.splits\<close>)
    then show ?thesis by (simp add: accounted_def)
  qed (simp add: accounted_def)
qed

section \<open>A sub-message\<close>

lemma sub_message_set: "field_values m' (fd_name g) = [PB_Message s] \<Longrightarrow> sub_message g m' = s"
  by (simp add: sub_message_def)

lemma leaf_key_Field: "leaf_key p (Field g # path) f = leaf_key (p @ fd_name g @ ''.'') path f"
  by (simp add: leaf_key_def)

lemma leaf_key_Element: "leaf_key p (Element g i # path) f = leaf_key (index_key p g i @ ''.'') path f"
  by (simp add: leaf_key_def index_key_def)

text \<open>A sub-message whose leaves are all unchanged has the same time.\<close>

lemma time_values_unchanged:
  assumes "pool_ok P" "is_time_type t" and "\<And>f. valid_path P t [] f \<Longrightarrow> leaf_values f s' = leaf_values f s"
  shows "time_values s' = time_values s"
proof -
  obtain f g where "P t = [f, g]" "fd_name f = ''seconds''" "fd_cpp_type f = CPPTYPE_INT64" "\<not> fd_repeated f" "fd_oneof f = None"
    "fd_name g = ''nanos''" "fd_cpp_type g = CPPTYPE_INT32" "\<not> fd_repeated g" "fd_oneof g = None"
    using pool_ok_time [OF assms(1,2)] by (elim time_fieldsE)
  then show ?thesis
    using assms(3) [of f] assms(3) [of g]
    by (simp add: time_values_def leaf_values_def plain_leaf_def allow_string_default_value_def)
qed

lemma recorded_step_sub:
  assumes fds: "fds \<in> set (P (msg_type m))" "fd_cpp_type fds = CPPTYPE_MESSAGE"
    and sub: "recorded_step P A (p @ fd_name fds @ ''.'') b (sub_message fds m, es) (s, es')"
    and set: "set_value P fds (PB_Message s) m = Some m'"
  shows "recorded_step P A p b (m, es) (m', if b then mark_existed (p @ fd_name fds) es' else es')"
  unfolding recorded_step_def fst_conv snd_conv
proof (intro conjI allI impI)
  let ?keys = "if b then mark_existed (p @ fd_name fds) es' else es'"
  show "typed_step P p b (m, es) (m', ?keys)"
    by (rule typed_step_set [OF fds(1) fds(2) conjunct1 [OF sub [unfolded recorded_step_def]] set])
  have keys: "recorded k es' \<Longrightarrow> recorded k ?keys" for k by simp
  show "recorded k ?keys" if "recorded k es" for k
    using sub that keys by (simp add: recorded_step_def)
  fix path f
  assume pre: "pool_ok P \<and> no_same_level P \<and> typed P m" and path: "valid_path P (msg_type m) path f"
  have ok: "pool_ok P" and m: "typed P m" using pre by auto
  note vals = set_value_values [OF ok fds(1) set]
  have sub_m: "typed P (sub_message fds m)" "msg_type (sub_message fds m) = fd_message_type fds"
    using sub_message_typed [OF m fds(1)] by auto
  have inner: "accounted A (p @ fd_name fds @ ''.'') b es' (sub_message fds m) s path' f'"
    if "valid_path P (fd_message_type fds) path' f'" for path' f'
    using sub pre sub_m that by (simp add: recorded_step_def)
  show "accounted A p b ?keys m m' path f"
  proof (cases "(case path of [] \<Rightarrow> f | s # _ \<Rightarrow> step_field s) = fds")
    case False
    then have "value_at m' path f = value_at m path f"
      by (intro value_at_other [OF vals(2) path])
    then show ?thesis by (simp add: accounted_def)
  next
    case here: True
    show ?thesis
    proof (cases path)
      case Nil
      then have f: "f = fds" and time: "is_time_type (fd_message_type fds)"
        using here path fds(2) by (auto simp: plain_leaf_def allow_string_default_value_def)
      show ?thesis
      proof (cases b)
        case False
        then have "time_values s = time_values (sub_message fds m)"
          using inner [of "[]"] by (intro time_values_unchanged [OF ok time]) (auto simp: accounted_def)
        then show ?thesis
          using Nil f fds(2) sub_message_set [OF vals(1)] by (simp add: accounted_def leaf_values_def)
      qed (simp add: accounted_def Nil f leaf_key_def)
    next
      case (Cons st path')
      then have st: "st = Field fds" using here path set_value_singular [OF set] by (cases st) (auto simp: plain_step_def)
      have "valid_path P (fd_message_type fds) path' f" using path Cons st by simp
      from inner [OF this] show ?thesis
        using sub_message_set [OF vals(1)] keys unfolding Cons st by (auto simp: accounted_def leaf_key_Field)
    qed
  qed
qed

lemma recorded_step_same:
  assumes fds: "fds \<in> set (P (msg_type m))" "same_level_match fds \<noteq> None"
    and sub: "recorded_step P A p b (sub_message fds m, es) (s, es')"
    and set: "set_value P fds (PB_Message s) m = Some m'"
  shows "recorded_step P A p b (m, es) (m', es')"
proof -
  have "typed_step P p b (m, es) (m', es')"
    by (rule typed_step_set [OF fds(1) _ conjunct1 [OF sub [unfolded recorded_step_def]] set])
      (use fds in \<open>blast dest: pool_ok_same_level\<close>)
  moreover have "\<not> no_same_level P" using fds by (auto simp: no_same_level_def)
  ultimately show ?thesis using sub by (simp add: recorded_step_def)
qed

lemma recorded_step_element:
  assumes fds: "fds \<in> set (P (msg_type m))" "fd_cpp_type fds = CPPTYPE_MESSAGE"
    and sub: "recorded_step P A (index_key p fds (field_size m fds) @ ''.'') b (empty_message (fd_message_type fds), es) (s, es')"
    and add: "add_value fds (PB_Message s) m = Some m'"
  shows "recorded_step P A p b (m, es) (m', es')"
  unfolding recorded_step_def fst_conv snd_conv
proof (intro conjI allI impI)
  show "typed_step P p b (m, es) (m', es')"
    by (rule typed_step_add [OF fds conjunct1 [OF sub [unfolded recorded_step_def]] add])
  show "recorded k es'" if "recorded k es" for k using sub that by (simp add: recorded_step_def)
  fix path f
  assume pre: "pool_ok P \<and> no_same_level P \<and> typed P m" and path: "valid_path P (msg_type m) path f"
  have ok: "pool_ok P" using pre by auto
  note vals = add_value_values [OF ok fds(1) add]
  show "accounted A p b es' m m' path f"
  proof (cases "(case path of [] \<Rightarrow> f | s # _ \<Rightarrow> step_field s) = fds")
    case False
    then have "value_at m' path f = value_at m path f"
      by (intro value_at_other [OF vals(2) path])
    then show ?thesis by (simp add: accounted_def)
  next
    case here: True
    then obtain i path' where Cons: "path = Element fds i # path'"
      using path add_value_repeated [OF add]
      by (cases path rule: list.exhaust; cases "hd path") (auto simp: plain_leaf_def plain_step_def)
    have size: "field_size m' fds = Suc (field_size m fds)" by (simp add: field_size_def vals(1))
    show ?thesis
    proof (cases "i = field_size m fds")
      case True
      have new: "step_message (Element fds i) m' = s"
        using True by (simp add: size vals(1)) (simp add: field_size_def)
      have old: "step_message (Element fds i) m = empty_message (fd_message_type fds)"
        using True by simp
      have "valid_path P (fd_message_type fds) path' f" using path Cons by simp
      then have "accounted A (index_key p fds i @ ''.'') b es' (empty_message (fd_message_type fds)) s path' f"
        using sub pre True by (simp add: recorded_step_def typed_empty)
      then show ?thesis
        unfolding Cons accounted_def value_at.simps new old leaf_key_Element .
    next
      case False
      then have "step_message (Element fds i) m' = step_message (Element fds i) m"
        by (auto simp: size vals(1) field_size_def nth_append)
      then show ?thesis by (simp add: Cons accounted_def)
    qed
  qed
qed

interpretation recording_loader: field_loader P A "recorded_step P A"
proof (unfold_locales, goal_cases)
  case 2 \<comment> \<open>one loader after another\<close>
  then show ?case by (rule recorded_step_trans)
next
  case 3 \<comment> \<open>the type of the message\<close>
  then show ?case by (rule recorded_step_type)
next
  case 4 \<comment> \<open>a value\<close>
  then show ?case by (rule recorded_step_value)
next
  case 5 \<comment> \<open>a sub-message\<close>
  then show ?case by (rule recorded_step_sub)
next
  case 6 \<comment> \<open>a sub-message of the same level\<close>
  then show ?case by (rule recorded_step_same)
next
  case 7 \<comment> \<open>an element\<close>
  then show ?case by (rule recorded_step_element)
qed (auto simp: recorded_step_def typed_step_def accounted_def)

section \<open>The defaults\<close>

definition defaulted :: "conf_api \<Rightarrow> string set \<Rightarrow> string \<Rightarrow> message \<Rightarrow> message \<Rightarrow> path_step list \<Rightarrow> field_descriptor \<Rightarrow> bool" where
  "defaulted A S p m m' path f \<longleftrightarrow>
     value_at m' path f = value_at m path f \<or> leaf_key p path f \<notin> S \<and> value_at m' path f = default_values A f"

text \<open>From one message to another by defaults only.\<close>

definition default_step :: "descriptor_pool \<Rightarrow> conf_api \<Rightarrow> string set \<Rightarrow> string \<Rightarrow> message \<Rightarrow> message \<Rightarrow> bool" where
  "default_step P A S p m m' \<longleftrightarrow>
     typed P m' \<and> msg_type m' = msg_type m \<and> (\<forall>path f. valid_path P (msg_type m) path f \<longrightarrow> defaulted A S p m m' path f)"

lemma default_step_refl: "typed P m \<Longrightarrow> default_step P A S p m m"
  by (simp add: default_step_def defaulted_def)

lemma default_step_trans: "default_step P A S p m m' \<Longrightarrow> default_step P A S p m' m'' \<Longrightarrow> default_step P A S p m m''"
  unfolding default_step_def defaulted_def by metis

lemma fold_default_step:
  assumes "fold_option f fs m = Some m'" "typed P m" "set fs \<subseteq> set (P (msg_type m))"
    and "\<And>g u v. g \<in> set (P (msg_type u)) \<Longrightarrow> typed P u \<Longrightarrow> f g u = Some v \<Longrightarrow> default_step P A S p u v"
  shows "default_step P A S p m m'"
  using assms(1)
proof (rule fold_option_invariant [where I = "default_step P A S p m"])
  show "default_step P A S p m m" by (rule default_step_refl [OF assms(2)])
  fix g u v
  assume "g \<in> set fs" and u: "default_step P A S p m u" and "f g u = Some v"
  then have "default_step P A S p u v" using assms(3) by (intro assms(4)) (auto simp: default_step_def)
  then show "default_step P A S p m v" by (rule default_step_trans [OF u])
qed

lemma default_step_leaf:
  assumes ok: "pool_ok P" and m: "typed P m" and fds: "fds \<in> set (P (msg_type m))"
    and leaf: "allow_string_default_value fds" "\<not> skip_default P fds S p m"
    and v: "pick_value A fds [] = Some (v, d)" and set: "set_value P fds v m = Some m'"
  shows "default_step P A S p m m'"
  unfolding default_step_def
proof (intro conjI allI impI)
  have conv: "converted fds v"
  proof (cases "fd_cpp_type fds = CPPTYPE_MESSAGE")
    case True
    then have "converted fds (fst (pick_time A fds []))"
      using leaf(1) by (intro pick_time_converted) (simp_all add: allow_string_default_value_def)
    then show ?thesis using v True by (simp add: pick_value_def)
  next
    case False
    from pick_value_converted [OF v this] show ?thesis by simp
  qed
  note vals = set_value_values [OF ok fds set]
  show "typed P m'" by (rule typed_set_value [OF ok m fds converted_storable [OF ok conv] set])
  show "msg_type m' = msg_type m" by (rule msg_type_set_value [OF set])
  fix path f
  assume path: "valid_path P (msg_type m) path f"
  show "defaulted A S p m m' path f"
  proof (cases "(case path of [] \<Rightarrow> f | s # _ \<Rightarrow> step_field s) = fds")
    case False
    then show ?thesis using value_at_other [OF vals(2) path] by (simp add: defaulted_def)
  next
    case True
    then have here: "path = []" "f = fds"
      using leaf(1) path by (auto simp: allow_string_default_value_def plain_step_def split: list.splits)
    have "leaf_values fds m' = default_values A fds"
      using leaf_values_set [OF vals(1) conv] v by (auto simp: default_values_def split: pb_value.splits)
    moreover have "p @ fd_name fds \<notin> S"
      using leaf by (auto simp: skip_default_def split: option.splits)
    ultimately show ?thesis by (simp add: defaulted_def here leaf_key_def)
  qed
qed

lemma default_step_sub:
  assumes ok: "pool_ok P" and m: "typed P m" and fds: "fds \<in> set (P (msg_type m))" "\<not> allow_string_default_value fds"
    and sub: "default_step P A S (p @ fd_name fds @ ''.'') (sub_message fds m) s"
    and set: "set_value P fds (PB_Message s) m = Some m'"
  shows "default_step P A S p m m'"
  unfolding default_step_def
proof (intro conjI allI impI)
  note vals = set_value_values [OF ok fds(1) set]
  have sub_m: "msg_type (sub_message fds m) = fd_message_type fds" using sub_message_typed [OF m fds(1)] by simp
  have "storable P fds (PB_Message s)"
    using sub sub_m fds(2) by (simp add: default_step_def storable_def value_fits_def allow_string_default_value_def)
  then show "typed P m'" by (rule typed_set_value [OF ok m fds(1) _ set])
  show "msg_type m' = msg_type m" by (rule msg_type_set_value [OF set])
  fix path f
  assume path: "valid_path P (msg_type m) path f"
  show "defaulted A S p m m' path f"
  proof (cases "(case path of [] \<Rightarrow> f | s # _ \<Rightarrow> step_field s) = fds")
    case False
    then show ?thesis using value_at_other [OF vals(2) path] by (simp add: defaulted_def)
  next
    case True
    then obtain path' where Cons: "path = Field fds # path'"
      using path fds(2) set_value_singular [OF set]
      by (cases path rule: list.exhaust; cases "hd path") (auto simp: plain_leaf_def plain_step_def)
    then have "defaulted A S (p @ fd_name fds @ ''.'') (sub_message fds m) s path' f"
      using sub path sub_m by (simp add: default_step_def)
    then show ?thesis
      using sub_message_set [OF vals(1)] by (simp add: Cons defaulted_def leaf_key_Field)
  qed
qed

lemma default_step_elements:
  assumes ok: "pool_ok P" and m: "typed P m" and fds: "fds \<in> set (P (msg_type m))" "fd_repeated fds" "\<not> allow_string_default_value fds"
    and f: "\<And>i u v. typed P u \<Longrightarrow> f i u = Some v \<Longrightarrow> default_step P A S (index_key p fds i @ ''.'') u v"
    and upd: "update_elements f fds m = Some m'"
  shows "default_step P A S p m m'"
  unfolding default_step_def
proof (intro conjI allI impI)
  have "typed P m' \<and> msg_type m' = msg_type m"
    by (rule update_elements_typed [OF upd ok m fds(1,2)]) (use f in \<open>auto simp: default_step_def\<close>)
  then show "typed P m'" "msg_type m' = msg_type m" by auto
  obtain vs where m': "m' = put_values (fd_name fds) vs m" and len: "length vs = field_size m fds"
    and each: "\<And>i. i < field_size m fds \<Longrightarrow>
       (case field_values m (fd_name fds) ! i of
          PB_Message s \<Rightarrow> \<exists>s'. f i s = Some s' \<and> vs ! i = PB_Message s' | v \<Rightarrow> vs ! i = v)"
    by (rule update_elementsE [OF upd]) (rule that)
  fix path g
  assume path: "valid_path P (msg_type m) path g"
  show "defaulted A S p m m' path g"
  proof (cases "(case path of [] \<Rightarrow> g | s # _ \<Rightarrow> step_field s) = fds")
    case False
    have "field_values m' (fd_name h) = field_values m (fd_name h)" if "h \<in> set (P (msg_type m))" "h \<noteq> fds" for h
      using pool_ok_unique [OF ok that(1) fds(1)] that(2) by (auto simp: m')
    then have "value_at m' path g = value_at m path g" by (intro value_at_other [OF _ path False])
    then show ?thesis by (simp add: defaulted_def)
  next
    case True
    then obtain i path' where Cons: "path = Element fds i # path'"
    proof (cases path)
      case Nil
      then show ?thesis using True path fds(2) by (simp add: plain_leaf_def)
    next
      case (Cons s path')
      then show ?thesis using True path fds(2) that by (cases s) (simp_all add: plain_step_def)
    qed
    have vals: "field_values m' (fd_name fds) = vs" "field_size m' fds = field_size m fds"
      by (simp_all add: m' field_size_def len)
    show ?thesis
    proof (cases "i < field_size m fds")
      case True
      have "storable P fds (field_values m (fd_name fds) ! i)"
        using typed_fieldD [OF m fds(1)] True by (simp add: field_size_def)
      moreover have "fd_cpp_type fds = CPPTYPE_MESSAGE" using fds(3) by (simp add: allow_string_default_value_def)
      ultimately obtain s where s: "field_values m (fd_name fds) ! i = PB_Message s" "typed P s" "msg_type s = fd_message_type fds"
        by (cases "field_values m (fd_name fds) ! i") (auto simp: storable_def value_fits_def)
      obtain s' where s': "f i s = Some s'" "vs ! i = PB_Message s'" using each [OF True] s(1) by auto
      have "defaulted A S (index_key p fds i @ ''.'') s s' path' g"
        using f [OF s(2) s'(1)] path Cons s(3) by (simp add: default_step_def)
      then show ?thesis
        using True vals s(1) s'(2) by (simp add: Cons defaulted_def leaf_key_Element)
    qed (simp add: Cons defaulted_def vals)
  qed
qed

theorem dump_pick_default_field_step:
  assumes "dump_pick_default_field P A S fuel p fds m = Some m'" "pool_ok P" "typed P m" "fds \<in> set (P (msg_type m))"
  shows "default_step P A S p m m'"
  using assms
proof (induction fuel arbitrary: p fds m m')
  case (Suc fuel)
  let ?fields = "\<lambda>q s. fold_option (dump_pick_default_field P A S fuel q) (P (msg_type s)) s"
  have fields: "default_step P A S q u v" if "?fields q u = Some v" "typed P u" for q u v
    by (rule fold_default_step [OF that]) (use Suc.IH Suc.prems(2) in auto)
  consider (skip) "skip_default P fds S p m"
    | (leaf) "\<not> skip_default P fds S p m" "allow_string_default_value fds"
    | (repeated) "\<not> skip_default P fds S p m" "\<not> allow_string_default_value fds" "fd_repeated fds"
    | (sub) "\<not> skip_default P fds S p m" "\<not> allow_string_default_value fds" "\<not> fd_repeated fds"
    by blast
  then show ?case
  proof cases
    case skip
    then show ?thesis using Suc.prems by (simp add: default_step_refl)
  next
    case leaf
    then obtain v d where "pick_value A fds [] = Some (v, d)" "set_value P fds v m = Some m'"
      using Suc.prems(1) by (auto simp: bind_eq_Some_conv)
    then show ?thesis by (rule default_step_leaf [OF Suc.prems(2-4) leaf(2,1)])
  next
    case repeated
    then have upd: "update_elements (\<lambda>i. ?fields (index_key p fds i @ ''.'')) fds m = Some m'"
      using Suc.prems(1) by (simp add: Let_def)
    show ?thesis
      by (rule default_step_elements [OF Suc.prems(2-4) repeated(3,2) _ upd]) (rule fields)
  next
    case sub
    then obtain s where s: "?fields (p @ fd_name fds @ ''.'') (sub_message fds m) = Some s" "set_value P fds (PB_Message s) m = Some m'"
      using Suc.prems(1) by (auto simp: Let_def bind_eq_Some_conv)
    show ?thesis
      by (rule default_step_sub [OF Suc.prems(2-4) sub(2) fields [OF s(1)] s(2)])
        (use sub_message_typed [OF Suc.prems(3,4)] in simp)
  qed
qed simp

lemma default_loader_step:
  assumes "default_loader_dump_to P A fuel S m = Some m'" "pool_ok P" "typed P m"
  shows "default_step P A S [] m m'"
  using assms(1)[unfolded default_loader_dump_to_def]
  by (rule fold_default_step [OF _ assms(3)]) (use dump_pick_default_field_step assms(2) in auto)

section \<open>What was loaded survives the defaults\<close>

theorem loaded_survives_defaults:
  assumes env: "load_environment P A fuel env (m, Some {}) = Some st"
    and yaml: "load_yaml P A C fuel path_prefix st = Some (m', Some keys)"
    and defaults: "default_loader_dump_to P A fuel keys m' = Some m''"
    and ok: "pool_ok P" "no_same_level P" "typed P m"
    and path: "valid_path P (msg_type m) path f" "value_at m' path f \<noteq> value_at m path f"
  shows "value_at m'' path f = value_at m' path f"
proof -
  obtain b b' where "recorded_step P A [] b (m, Some {}) st" "recorded_step P A [] b' st (m', Some keys)"
    using recording_loader.load_environment_R [OF env] recording_loader.load_yaml_R [OF yaml] by blast
  then have step: "recorded_step P A [] (b \<or> b') (m, Some {}) (m', Some keys)" by (rule recorded_step_trans)
  then have m': "typed P m'" "msg_type m' = msg_type m"
    using ok by (simp_all add: recorded_step_def typed_step_def)
  have "leaf_key [] path f \<in> keys \<or> value_at m' path f = default_values A f"
    using step ok path by (auto simp: recorded_step_def accounted_def recorded_def)
  moreover have "defaulted A keys [] m' m'' path f"
    using default_loader_step [OF defaults ok(1) m'(1)] m'(2) path(1) by (simp add: default_step_def)
  ultimately show ?thesis by (auto simp: defaulted_def)
qed

end
