(* ===== verification/Yaml_Paths.thy ===== *)
theory Yaml_Paths
  imports Config_Yaml Config_Value_Facts
begin

text \<open>
  Dotted paths into a YAML document: the text of a path splits into its keys, and following
  them gives the node they lead to, or the last node on the way where a key is missing.
\<close>

section \<open>The text of a path\<close>

fun dotted :: "string list \<Rightarrow> string" where
  "dotted [] = []"
| "dotted [key] = key"
| "dotted (key # keys) = key @ CHR ''.'' # dotted keys"

definition path_key :: "text_api \<Rightarrow> string \<Rightarrow> bool" where
  "path_key T key \<longleftrightarrow> key \<noteq> [] \<and> (\<forall>c\<in>set key. c \<noteq> NUL \<and> \<not> path_separator c \<and> \<not> ta_is_space T c)"

lemma skip_space_key: "path_key T key \<Longrightarrow> skip_space T (key @ s) = key @ s"
  by (cases key) (auto simp: path_key_def skip_space_def)

lemma skip_space_Nil [simp]: "skip_space T [] = []"
  by (simp add: skip_space_def)

lemma split_path_Nil [simp]: "split_path T [] = []"
  by (subst split_path.simps) (simp add: skip_space_def)

lemma split_path_key:
  assumes "path_key T key" "s = [] \<or> s = CHR ''.'' # rest" "text_ok T"
  shows "split_path T (key @ s) = key # split_path T (if s = [] then [] else skip_space T rest)"
proof -
  obtain c cs where key: "key = c # cs" using assms(1) by (cases key) (auto simp: path_key_def)
  have inside: "\<forall>x\<in>set cs. x \<noteq> NUL \<and> \<not> path_separator x" and c: "c \<noteq> NUL"
    using assms(1) by (auto simp: key path_key_def)
  let ?in_key = "\<lambda>c. c \<noteq> NUL \<and> \<not> path_separator c"
  have "takeWhile ?in_key s = []" "dropWhile ?in_key s = s"
    using assms(2) by (elim disjE; simp add: path_separator_def)+
  then have stop: "takeWhile ?in_key (cs @ s) = cs" "dropWhile ?in_key (cs @ s) = s"
    using inside by (simp_all add: takeWhile_append2 dropWhile_append2)
  have all: "dropWhile ?in_key cs = []" "takeWhile ?in_key cs = cs"
    using inside by simp_all
  have dot: "\<not> ta_is_space T CHR ''.''" using assms(3) by (simp add: text_ok_def)
  then have "skip_space T s = s" using assms(2) by (auto intro: skip_space_id)
  moreover have "skip_space T (key @ s) = c # cs @ s"
    using skip_space_key [OF assms(1)] by (simp add: key)
  ultimately have "split_path T (key @ s) = (c # cs) # split_path T (if s \<noteq> [] \<and> hd s = CHR ''.'' then skip_space T (tl s) else s)"
    by (subst split_path.simps) (cases "s = []"; simp add: Let_def stop all c)
  then show ?thesis using assms(2) by (elim disjE) (simp_all add: key)
qed

theorem split_path_dotted:
  assumes "text_ok T" "list_all (path_key T) keys"
  shows "split_path T (dotted keys) = keys"
  using assms(2)
proof (induction keys rule: dotted.induct)
  case (2 key)
  then show ?case using split_path_key [OF _ _ assms(1), of key "[]"] by simp
next
  case (3 key key' keys)
  have "skip_space T (dotted (key' # keys)) = dotted (key' # keys)"
    using 3 skip_space_key [of T key' "[]"] skip_space_key [of T key'] by (cases keys) auto
  then show ?case
    using 3 split_path_key [OF _ _ assms(1), of key "CHR ''.'' # dotted (key' # keys)"] by simp
qed simp

section \<open>Following a path\<close>

text \<open>The node the keys lead to, through maps.\<close>

fun yaml_reach :: "yaml \<Rightarrow> string list \<Rightarrow> yaml option" where
  "yaml_reach node [] = Some node"
| "yaml_reach (YAML_Map entries) (key # keys) =
     (case yaml_child entries key of Some child \<Rightarrow> yaml_reach child keys | None \<Rightarrow> None)"
| "yaml_reach _ (key # keys) = None"

lemma yaml_walk_reach:
  assumes "yaml_reach node keys = Some node'" "[] \<notin> set keys"
  shows "yaml_walk to_size node (keys @ keys') = yaml_walk to_size node' keys'"
  using assms by (induction node keys rule: yaml_reach.induct) (auto split: option.splits)

lemma yaml_walk_missing:
  "yaml_child entries key = None \<Longrightarrow> key \<noteq> [] \<Longrightarrow> yaml_walk to_size (YAML_Map entries) (key # keys) = YAML_Map entries"
  by simp

end
