(* ===== verification/Proto_Equal.thy ===== *)
theory Proto_Equal
  imports Proto_Message
begin

text \<open>
  Comparison of messages by reflection: \<^verbatim>\<open>protobuf_equal\<close> and its helpers
  (\<^verbatim>\<open>src/atframe/atapp_conf.cpp\<close>).
\<close>

section \<open>Numbers and defaults\<close>

text \<open>The arithmetic of a floating-point type, on bit patterns.\<close>

record 'f fp_arith =
  fp_sub :: "'f \<Rightarrow> 'f \<Rightarrow> 'f"
  fp_add :: "'f \<Rightarrow> 'f \<Rightarrow> 'f"
  fp_mul :: "'f \<Rightarrow> 'f \<Rightarrow> 'f"
  fp_abs :: "'f \<Rightarrow> 'f"
  fp_le :: "'f \<Rightarrow> 'f \<Rightarrow> bool"
  fp_lt :: "'f \<Rightarrow> 'f \<Rightarrow> bool"
  fp_epsilon :: 'f
  fp_min :: 'f
  fp_two :: 'f

record fp_api =
  fp_float :: "u32 fp_arith"
  fp_double :: "u64 fp_arith"

definition fp_distance :: "'f fp_arith \<Rightarrow> 'f \<Rightarrow> 'f \<Rightarrow> 'f" where
  "fp_distance F lv rv = fp_abs F (fp_sub F lv rv)"

definition fp_tolerance :: "'f fp_arith \<Rightarrow> 'f \<Rightarrow> 'f \<Rightarrow> 'f" where
  "fp_tolerance F lv rv = fp_mul F (fp_mul F (fp_epsilon F) (fp_abs F (fp_add F lv rv))) (fp_two F)"

text \<open>The test of a singular field, and the one of a repeated field, which negates the other way round.\<close>

definition fp_near :: "'f fp_arith \<Rightarrow> 'f \<Rightarrow> 'f \<Rightarrow> bool" where
  "fp_near F lv rv \<longleftrightarrow>
     fp_le F (fp_distance F lv rv) (fp_tolerance F lv rv) \<or> fp_lt F (fp_distance F lv rv) (fp_min F)"

definition fp_apart :: "'f fp_arith \<Rightarrow> 'f \<Rightarrow> 'f \<Rightarrow> bool" where
  "fp_apart F lv rv \<longleftrightarrow>
     fp_lt F (fp_tolerance F lv rv) (fp_distance F lv rv) \<and> fp_le F (fp_min F) (fp_distance F lv rv)"

text \<open>What reflection reads from a singular field that is not set.\<close>

definition default_value :: "field_descriptor \<Rightarrow> pb_value" where
  "default_value fds =
     (case fd_cpp_type fds of
        CPPTYPE_INT32 \<Rightarrow> PB_Int32 0 | CPPTYPE_INT64 \<Rightarrow> PB_Int64 0 | CPPTYPE_UINT32 \<Rightarrow> PB_Uint32 0
      | CPPTYPE_UINT64 \<Rightarrow> PB_Uint64 0 | CPPTYPE_DOUBLE \<Rightarrow> PB_Double 0 | CPPTYPE_FLOAT \<Rightarrow> PB_Float 0
      | CPPTYPE_BOOL \<Rightarrow> PB_Bool False | CPPTYPE_STRING \<Rightarrow> PB_String []
      | CPPTYPE_ENUM \<Rightarrow> PB_Enum (case fd_enum_type fds of [] \<Rightarrow> 0 | v # _ \<Rightarrow> ev_number v)
      | CPPTYPE_MESSAGE \<Rightarrow> PB_Message (empty_message (fd_message_type fds)))"

definition get_value :: "field_descriptor \<Rightarrow> message \<Rightarrow> pb_value" where
  "get_value fds m = (case field_values m (fd_name fds) of [] \<Rightarrow> default_value fds | v # _ \<Rightarrow> v)"

section \<open>Comparison\<close>

definition singular_equal :: "fp_api \<Rightarrow> pb_value \<Rightarrow> pb_value \<Rightarrow> bool" where
  "singular_equal F v w \<longleftrightarrow>
     (case (v, w) of
        (PB_Double x, PB_Double y) \<Rightarrow> fp_near (fp_double F) x y
      | (PB_Float x, PB_Float y) \<Rightarrow> fp_near (fp_float F) x y
      | _ \<Rightarrow> v = w)"

definition element_equal :: "fp_api \<Rightarrow> pb_value \<Rightarrow> pb_value \<Rightarrow> bool" where
  "element_equal F v w \<longleftrightarrow>
     (case (v, w) of
        (PB_Double x, PB_Double y) \<Rightarrow> \<not> fp_apart (fp_double F) x y
      | (PB_Float x, PB_Float y) \<Rightarrow> \<not> fp_apart (fp_float F) x y
      | _ \<Rightarrow> v = w)"

definition message_element_equal :: "(message \<Rightarrow> message \<Rightarrow> bool) \<Rightarrow> pb_value \<Rightarrow> pb_value \<Rightarrow> bool" where
  "message_element_equal eq v w \<longleftrightarrow> (case (v, w) of (PB_Message a, PB_Message b) \<Rightarrow> eq a b | _ \<Rightarrow> False)"

text \<open>
  Whether \<^verbatim>\<open>protobuf_equal_inner_map\<close> selects one of the comparisons by key: it switches on
  the type of the map field itself.
\<close>

definition protobuf_equal_inner_map_selects :: "field_descriptor \<Rightarrow> bool" where
  "protobuf_equal_inner_map_selects field_fds \<longleftrightarrow>
     fd_cpp_type field_fds \<in>
       {CPPTYPE_BOOL, CPPTYPE_INT32, CPPTYPE_INT64, CPPTYPE_UINT32, CPPTYPE_UINT64, CPPTYPE_STRING}"

definition has_message :: "field_descriptor \<Rightarrow> message \<Rightarrow> bool" where
  "has_message fds m \<longleftrightarrow> (case field_values m (fd_name fds) of PB_Message s # _ \<Rightarrow> True | _ \<Rightarrow> False)"

text \<open>
  One field; \<open>eq\<close> compares sub-messages. A message field that is not set reads as the default
  instance of its type, the same object on both sides. For a map the comparison by key is
  never selected (\<open>map_comparison_not_selected\<close>), so its entries are compared like the
  elements of any repeated field.
\<close>

definition protobuf_equal_inner_field ::
  "fp_api \<Rightarrow> (message \<Rightarrow> message \<Rightarrow> bool) \<Rightarrow> message \<Rightarrow> message \<Rightarrow> field_descriptor \<Rightarrow> bool" where
  "protobuf_equal_inner_field F eq l r fds \<longleftrightarrow>
     (let ls = field_values l (fd_name fds); rs = field_values r (fd_name fds) in
      if fd_repeated fds then
        list_all2 (if fd_cpp_type fds = CPPTYPE_MESSAGE then message_element_equal eq else element_equal F) ls rs
      else if fd_cpp_type fds = CPPTYPE_MESSAGE
      then \<not> has_message fds l \<and> \<not> has_message fds r \<or> eq (sub_message fds l) (sub_message fds r)
      else singular_equal F (get_value fds l) (get_value fds r))"

lemma map_comparison_not_selected: "fd_cpp_type fds = CPPTYPE_MESSAGE \<Longrightarrow> \<not> protobuf_equal_inner_map_selects fds"
  by (simp add: protobuf_equal_inner_map_selects_def)

text \<open>The number of messages in a message, for the recursion.\<close>

primrec nodes :: "message \<Rightarrow> nat" and nodes_value :: "pb_value \<Rightarrow> nat" where
  "nodes (Message t fs) = Suc (sum_list (map (\<lambda>p. sum_list (snd p)) (map (map_prod id (map nodes_value)) fs)))"
| "nodes_value (PB_Int32 _) = 0"
| "nodes_value (PB_Int64 _) = 0"
| "nodes_value (PB_Uint32 _) = 0"
| "nodes_value (PB_Uint64 _) = 0"
| "nodes_value (PB_Double _) = 0"
| "nodes_value (PB_Float _) = 0"
| "nodes_value (PB_Bool _) = 0"
| "nodes_value (PB_Enum _) = 0"
| "nodes_value (PB_String _) = 0"
| "nodes_value (PB_Message m) = nodes m"

lemma nodes_value_less:
  assumes "v \<in> set (field_values m n)"
  shows "nodes_value v < nodes m"
proof -
  obtain t fs where m: "m = Message t fs" by (cases m)
  then obtain vs where vs: "(n, vs) \<in> set fs" "v \<in> set vs"
    using assms by (cases "map_of fs n") (auto simp: field_values_def dest: map_of_SomeD)
  have "nodes_value v \<le> sum_list (map nodes_value vs)" using vs(2) by (intro member_le_sum_list) auto
  also have "\<dots> \<le> sum_list (map (\<lambda>p. sum_list (snd p)) (map (map_prod id (map nodes_value)) fs))"
    using vs(1) by (intro member_le_sum_list; force)
  finally show ?thesis by (simp add: m)
qed

lemma nodes_pos: "0 < nodes m"
  by (cases m) simp

lemma nodes_sub_message:
  "nodes (sub_message fds m) \<le> nodes m" "has_message fds m \<Longrightarrow> nodes (sub_message fds m) < nodes m"
proof -
  show less: "has_message fds m \<Longrightarrow> nodes (sub_message fds m) < nodes m"
    using nodes_value_less [of _ m "fd_name fds"]
    by (force simp: has_message_def sub_message_def split: list.splits pb_value.splits)
  show "nodes (sub_message fds m) \<le> nodes m"
  proof (cases "has_message fds m")
    case False
    then have "sub_message fds m = empty_message (fd_message_type fds)"
      by (auto simp: has_message_def sub_message_def split: list.splits pb_value.splits)
    then show ?thesis using nodes_pos [of m] by (simp add: empty_message_def Suc_le_eq)
  qed (use less in simp)
qed

lemma protobuf_equal_inner_field_cong [fundef_cong]:
  assumes "F = F'" "l = l'" "r = r'" "fds = fds'"
    and "\<And>a b. nodes a + nodes b < nodes l' + nodes r' \<Longrightarrow> eq a b = eq' a b"
  shows "protobuf_equal_inner_field F eq l r fds = protobuf_equal_inner_field F' eq' l' r' fds'"
proof -
  have elems: "list_all2 (message_element_equal eq) ls rs = list_all2 (message_element_equal eq') ls rs"
    if "ls = field_values l' (fd_name fds')" "rs = field_values r' (fd_name fds')" for ls rs
  proof (rule list.rel_cong [OF refl refl])
    fix v w
    assume "v \<in> set ls" "w \<in> set rs"
    then have "nodes_value v < nodes l'" "nodes_value w < nodes r'" using that nodes_value_less by blast+
    then show "message_element_equal eq v w = message_element_equal eq' v w"
      by (auto simp: message_element_equal_def assms(5) split: pb_value.splits)
  qed
  have sub: "eq (sub_message fds' l') (sub_message fds' r') = eq' (sub_message fds' l') (sub_message fds' r')"
    if "has_message fds' l' \<or> has_message fds' r'"
    using that nodes_sub_message [of fds' l'] nodes_sub_message [of fds' r'] by (intro assms(5)) linarith
  show ?thesis
    using elems [OF refl refl] sub by (auto simp: assms(1-4) protobuf_equal_inner_field_def Let_def)
qed

function protobuf_equal_inner_message :: "descriptor_pool \<Rightarrow> fp_api \<Rightarrow> message \<Rightarrow> message \<Rightarrow> bool" where
  "protobuf_equal_inner_message P F l r \<longleftrightarrow>
     (if msg_type l \<noteq> msg_type r then False
      else list_all (protobuf_equal_inner_field F (protobuf_equal_inner_message P F) l r) (P (msg_type l)))"
  by pat_completeness auto

termination
  by (relation "measure (\<lambda>(_, _, l, r). nodes l + nodes r)") auto

declare protobuf_equal_inner_message.simps [simp del]

text \<open>\<open>same\<close> tells whether both references are to the same object.\<close>

definition protobuf_equal :: "descriptor_pool \<Rightarrow> fp_api \<Rightarrow> bool \<Rightarrow> message \<Rightarrow> message \<Rightarrow> bool" where
  "protobuf_equal P F same l r \<longleftrightarrow> same \<or> protobuf_equal_inner_message P F l r"

end
