(* ===== verification/Proto_Equal_Facts.thy ===== *)
theory Proto_Equal_Facts
  imports Proto_Equal Config_Typed
begin

text \<open>
  On typed messages without floating-point fields the comparison is an equivalence; the
  entries of a map are compared in the order of their iteration.
\<close>

definition no_floats :: "descriptor_pool \<Rightarrow> bool" where
  "no_floats P \<longleftrightarrow> (\<forall>t. \<forall>fds\<in>set (P t). fd_cpp_type fds \<noteq> CPPTYPE_FLOAT \<and> fd_cpp_type fds \<noteq> CPPTYPE_DOUBLE)"

text \<open>Values of fields that are no floating-point numbers are compared for equality.\<close>

lemma scalar_compare:
  "value_type v \<noteq> CPPTYPE_FLOAT \<Longrightarrow> value_type v \<noteq> CPPTYPE_DOUBLE \<Longrightarrow> singular_equal F v w \<longleftrightarrow> v = w"
  "value_type v \<noteq> CPPTYPE_FLOAT \<Longrightarrow> value_type v \<noteq> CPPTYPE_DOUBLE \<Longrightarrow> element_equal F v w \<longleftrightarrow> v = w"
  by (cases v; simp add: singular_equal_def element_equal_def)+

lemma get_value_type: "typed P m \<Longrightarrow> fds \<in> set (P (msg_type m)) \<Longrightarrow> value_type (get_value fds m) = fd_cpp_type fds"
  using typed_fieldD [of P m fds]
  by (auto simp: get_value_def default_value_def storable_def value_fits_def split: list.splits cpp_type.splits)

lemma field_value_type: "typed P m \<Longrightarrow> fds \<in> set (P (msg_type m)) \<Longrightarrow> v \<in> set (field_values m (fd_name fds)) \<Longrightarrow> value_type v = fd_cpp_type fds"
  using typed_fieldD [of P m fds v] by (simp add: storable_def value_fits_def)

text \<open>One field of typed messages without floating-point fields.\<close>

lemma field_compare:
  assumes "no_floats P" "typed P l" "fds \<in> set (P (msg_type l))"
  shows "protobuf_equal_inner_field F eq l r fds \<longleftrightarrow>
    (let ls = field_values l (fd_name fds); rs = field_values r (fd_name fds) in
     if fd_repeated fds then
       (if fd_cpp_type fds = CPPTYPE_MESSAGE then list_all2 (message_element_equal eq) ls rs else ls = rs)
     else if fd_cpp_type fds = CPPTYPE_MESSAGE
     then \<not> has_message fds l \<and> \<not> has_message fds r \<or> eq (sub_message fds l) (sub_message fds r)
     else get_value fds l = get_value fds r)"
proof -
  have no_float: "fd_cpp_type fds \<noteq> CPPTYPE_FLOAT" "fd_cpp_type fds \<noteq> CPPTYPE_DOUBLE"
    using assms(1,3) by (auto simp: no_floats_def)
  have "list_all2 (element_equal F) ls rs \<longleftrightarrow> ls = rs" if "set ls \<subseteq> set (field_values l (fd_name fds))" for ls rs
    using that
  proof (induction ls arbitrary: rs)
    case (Cons v ls)
    then have "value_type v = fd_cpp_type fds" using field_value_type [OF assms(2,3)] by simp
    then show ?case using Cons no_float by (auto simp: scalar_compare list_all2_Cons1)
  qed auto
  then show ?thesis
    using scalar_compare(1) [of "get_value fds l"] no_float get_value_type [OF assms(2,3)]
    by (simp add: protobuf_equal_inner_field_def)
qed

theorem protobuf_equal_refl:
  assumes "no_floats P" "typed P m"
  shows "protobuf_equal_inner_message P F m m"
  using assms(2)
proof (induction "nodes m" arbitrary: m rule: less_induct)
  case less
  have "protobuf_equal_inner_field F (protobuf_equal_inner_message P F) m m fds" if fds: "fds \<in> set (P (msg_type m))" for fds
  proof -
    have "message_element_equal (protobuf_equal_inner_message P F) v v"
      if v: "v \<in> set (field_values m (fd_name fds))" "fd_cpp_type fds = CPPTYPE_MESSAGE" for v
    proof -
      have "storable P fds v" by (rule typed_fieldD [OF less.prems fds v(1)])
      then obtain s where s: "v = PB_Message s" "typed P s"
        using v(2) by (cases v) (auto simp: storable_def value_fits_def)
      moreover have "nodes s < nodes m" using nodes_value_less [OF v(1)] s(1) by simp
      ultimately show ?thesis using less.hyps by (simp add: message_element_equal_def)
    qed
    moreover have "protobuf_equal_inner_message P F (sub_message fds m) (sub_message fds m)" if "has_message fds m"
      using less.hyps [OF nodes_sub_message(2) [OF that]] sub_message_typed [OF less.prems fds] by simp
    ultimately show ?thesis
      unfolding field_compare [OF assms(1) less.prems fds] by (auto simp: Let_def intro: list.rel_refl_strong)
  qed
  then show ?case by (subst protobuf_equal_inner_message.simps) (simp add: list_all_iff)
qed

theorem protobuf_equal_sym:
  assumes "no_floats P" "typed P l" "typed P r" "protobuf_equal_inner_message P F l r"
  shows "protobuf_equal_inner_message P F r l"
  using assms(2-4)
proof (induction "nodes l + nodes r" arbitrary: l r rule: less_induct)
  case less
  have same: "msg_type l = msg_type r" and fields: "\<forall>fds\<in>set (P (msg_type l)). protobuf_equal_inner_field F (protobuf_equal_inner_message P F) l r fds"
    using less.prems(3) by (subst (asm) protobuf_equal_inner_message.simps, simp add: list_all_iff split: if_splits)+
  have "protobuf_equal_inner_field F (protobuf_equal_inner_message P F) r l fds" if fds: "fds \<in> set (P (msg_type r))" for fds
  proof -
    let ?eq = "protobuf_equal_inner_message P F"
    have fds': "fds \<in> set (P (msg_type l))" using fds same by simp
    have elem: "message_element_equal ?eq w v"
      if "v \<in> set (field_values l (fd_name fds))" "w \<in> set (field_values r (fd_name fds))" "message_element_equal ?eq v w" for v w
    proof -
      from that(3) obtain a b where ab: "v = PB_Message a" "w = PB_Message b" "?eq a b"
        by (auto simp: message_element_equal_def split: pb_value.splits)
      have "typed P a" "typed P b"
        using typed_fieldD [OF less.prems(1) fds' that(1)] typed_fieldD [OF less.prems(2) fds that(2)] ab by (auto simp: storable_def)
      moreover have "nodes a + nodes b < nodes l + nodes r"
        using nodes_value_less [OF that(1)] nodes_value_less [OF that(2)] ab by simp
      ultimately show ?thesis using less.hyps ab by (simp add: message_element_equal_def)
    qed
    have elems: "list_all2 (message_element_equal ?eq) (field_values r (fd_name fds)) (field_values l (fd_name fds))"
      if "list_all2 (message_element_equal ?eq) (field_values l (fd_name fds)) (field_values r (fd_name fds))"
      using that elem by (auto simp: list_all2_conv_all_nth)
    have sub: "?eq (sub_message fds r) (sub_message fds l)"
      if "has_message fds l \<or> has_message fds r" "?eq (sub_message fds l) (sub_message fds r)"
    proof (rule less.hyps [OF _ _ _ that(2)])
      show "nodes (sub_message fds l) + nodes (sub_message fds r) < nodes l + nodes r"
        using that(1) nodes_sub_message [of fds l] nodes_sub_message [of fds r] by linarith
      show "typed P (sub_message fds l)" using sub_message_typed [OF less.prems(1) fds'] by simp
      show "typed P (sub_message fds r)" using sub_message_typed [OF less.prems(2) fds] by simp
    qed
    show ?thesis
      using bspec [OF fields fds'] elems sub
      unfolding field_compare [OF assms(1) less.prems(1) fds'] field_compare [OF assms(1) less.prems(2) fds]
      by (auto simp: Let_def)
  qed
  then show ?case using same by (subst protobuf_equal_inner_message.simps) (simp add: list_all_iff)
qed

text \<open>What the comparison says of two messages, field by field.\<close>

lemma protobuf_equalD:
  assumes "protobuf_equal_inner_message P F l r"
  shows "msg_type r = msg_type l"
    and "fds \<in> set (P (msg_type l)) \<Longrightarrow> protobuf_equal_inner_field F (protobuf_equal_inner_message P F) l r fds"
  using assms by (subst (asm) protobuf_equal_inner_message.simps, simp add: list_all_iff split: if_splits)+

lemma protobuf_equalI:
  assumes "msg_type r = msg_type l"
    and "\<And>fds. fds \<in> set (P (msg_type l)) \<Longrightarrow> protobuf_equal_inner_field F (protobuf_equal_inner_message P F) l r fds"
  shows "protobuf_equal_inner_message P F l r"
  using assms by (subst protobuf_equal_inner_message.simps) (simp add: list_all_iff)

lemma sub_message_unset: "\<not> has_message fds m \<Longrightarrow> sub_message fds m = empty_message (fd_message_type fds)"
  by (auto simp: has_message_def sub_message_def split: list.splits pb_value.splits)

theorem protobuf_equal_trans:
  assumes "no_floats P" "typed P l" "typed P m" "typed P r"
    and "protobuf_equal_inner_message P F l m" "protobuf_equal_inner_message P F m r"
  shows "protobuf_equal_inner_message P F l r"
  using assms(2-)
proof (induction "nodes l + nodes m + nodes r" arbitrary: l m r rule: less_induct)
  case less
  let ?eq = "protobuf_equal_inner_message P F"
  note type = protobuf_equalD(1) [OF less.prems(4)] protobuf_equalD(1) [OF less.prems(5)]
  have "protobuf_equal_inner_field F ?eq l r fds" if fl: "fds \<in> set (P (msg_type l))" for fds
  proof -
    have fm: "fds \<in> set (P (msg_type m))" and fr: "fds \<in> set (P (msg_type r))" using fl type by simp_all
    have lm: "protobuf_equal_inner_field F ?eq l m fds" by (rule protobuf_equalD(2) [OF less.prems(4) fl])
    have mr: "protobuf_equal_inner_field F ?eq m r fds" by (rule protobuf_equalD(2) [OF less.prems(5) fm])
    note compare = field_compare [OF assms(1) less.prems(1) fl] field_compare [OF assms(1) less.prems(2) fm]
    have elem: "message_element_equal ?eq u w"
      if in_sets: "u \<in> set (field_values l (fd_name fds))" "v \<in> set (field_values m (fd_name fds))" "w \<in> set (field_values r (fd_name fds))"
        and eqs: "message_element_equal ?eq u v" "message_element_equal ?eq v w" for u v w
    proof -
      from eqs obtain a b c where abc: "u = PB_Message a" "v = PB_Message b" "w = PB_Message c" "?eq a b" "?eq b c"
        by (auto simp: message_element_equal_def split: pb_value.splits)
      have "typed P a" "typed P b" "typed P c"
        using typed_fieldD [OF less.prems(1) fl in_sets(1)] typed_fieldD [OF less.prems(2) fm in_sets(2)]
          typed_fieldD [OF less.prems(3) fr in_sets(3)] abc by (auto simp: storable_def)
      moreover have "nodes a + nodes b + nodes c < nodes l + nodes m + nodes r"
        using nodes_value_less [OF in_sets(1)] nodes_value_less [OF in_sets(2)] nodes_value_less [OF in_sets(3)] abc by simp
      ultimately have "?eq a c" using less.hyps abc by blast
      then show ?thesis using abc by (simp add: message_element_equal_def)
    qed
    consider (scalars) "fd_repeated fds" "fd_cpp_type fds \<noteq> CPPTYPE_MESSAGE" | (messages) "fd_repeated fds" "fd_cpp_type fds = CPPTYPE_MESSAGE"
      | (scalar) "\<not> fd_repeated fds" "fd_cpp_type fds \<noteq> CPPTYPE_MESSAGE" | (message) "\<not> fd_repeated fds" "fd_cpp_type fds = CPPTYPE_MESSAGE"
      by blast
    then show ?thesis
    proof cases
      case messages
      then have "list_all2 (message_element_equal ?eq) (field_values l (fd_name fds)) (field_values m (fd_name fds))"
        "list_all2 (message_element_equal ?eq) (field_values m (fd_name fds)) (field_values r (fd_name fds))"
        using lm mr unfolding compare by (simp_all add: Let_def)
      then have each: "length (field_values m (fd_name fds)) = length (field_values l (fd_name fds))"
          "length (field_values r (fd_name fds)) = length (field_values l (fd_name fds))"
          "\<And>i. i < length (field_values l (fd_name fds)) \<Longrightarrow>
             message_element_equal ?eq (field_values l (fd_name fds) ! i) (field_values m (fd_name fds) ! i) \<and>
             message_element_equal ?eq (field_values m (fd_name fds) ! i) (field_values r (fd_name fds) ! i)"
        by (auto simp: list_all2_conv_all_nth)
      have "list_all2 (message_element_equal ?eq) (field_values l (fd_name fds)) (field_values r (fd_name fds))"
      proof (unfold list_all2_conv_all_nth, intro conjI allI impI)
        fix i
        assume i: "i < length (field_values l (fd_name fds))"
        show "message_element_equal ?eq (field_values l (fd_name fds) ! i) (field_values r (fd_name fds) ! i)"
        proof (rule elem)
          show "field_values l (fd_name fds) ! i \<in> set (field_values l (fd_name fds))" using i by simp
          show "field_values m (fd_name fds) ! i \<in> set (field_values m (fd_name fds))" using i each(1) by simp
          show "field_values r (fd_name fds) ! i \<in> set (field_values r (fd_name fds))" using i each(2) by simp
        qed (use each(3) [OF i] in blast)+
      qed (simp add: each)
      then show ?thesis using messages unfolding compare by (simp add: Let_def)
    next
      case message
      show ?thesis
      proof (cases "has_message fds l \<or> has_message fds r")
        case True
        have subs: "typed P (sub_message fds l)" "typed P (sub_message fds m)" "typed P (sub_message fds r)"
          using sub_message_typed [OF less.prems(1) fl] sub_message_typed [OF less.prems(2) fm] sub_message_typed [OF less.prems(3) fr] by auto
        have "?eq (sub_message fds l) (sub_message fds m)" "?eq (sub_message fds m) (sub_message fds r)"
          using lm mr message protobuf_equal_refl [OF assms(1) subs(2)] sub_message_unset [of fds l]
            sub_message_unset [of fds m] sub_message_unset [of fds r]
          unfolding compare by (auto simp: Let_def)
        moreover have "nodes (sub_message fds l) + nodes (sub_message fds m) + nodes (sub_message fds r) < nodes l + nodes m + nodes r"
          using True nodes_sub_message [of fds l] nodes_sub_message [of fds m] nodes_sub_message [of fds r] by linarith
        ultimately have "?eq (sub_message fds l) (sub_message fds r)" using less.hyps subs by blast
        then show ?thesis using message unfolding compare by (simp add: Let_def)
      qed (use message compare in \<open>simp add: Let_def\<close>)
    qed (use lm mr compare in \<open>simp_all add: Let_def\<close>)
  qed
  then show ?case using type by (intro protobuf_equalI) simp_all
qed

section \<open>Maps\<close>

text \<open>Two entries in the other order make two messages differ, whatever the map says.\<close>

lemma swapped_entries_differ:
  assumes "fds \<in> set (P (msg_type l))" "fd_map fds" "fd_repeated fds" "fd_cpp_type fds = CPPTYPE_MESSAGE"
    and "field_values l (fd_name fds) = [PB_Message a, PB_Message b]" "field_values r (fd_name fds) = [PB_Message b, PB_Message a]"
    and "\<not> protobuf_equal_inner_message P F a b"
  shows "\<not> protobuf_equal P F False l r"
proof -
  have "\<not> protobuf_equal_inner_field F (protobuf_equal_inner_message P F) l r fds"
    using assms(3-) by (simp add: protobuf_equal_inner_field_def message_element_equal_def)
  then show ?thesis using protobuf_equalD(2) assms(1) unfolding protobuf_equal_def by blast
qed

end
