(* ===== verification/Config_Claims.thy ===== *)
theory Config_Claims
  imports Expression_Semantics Config_Time_Facts Config_Survival Yaml_Paths Proto_Equal_Facts
begin

text \<open>
  The properties of the configuration layer, each with a witness on small texts and on the
  message types below.
\<close>

section \<open>Expressions\<close>

definition sample_env :: "string \<Rightarrow> string" where
  "sample_env name = (if name = ''ZONE'' then ''eu'' else if name = ''APP_TTL'' then ''5'' else [])"



text \<open>C21: A text in which every dollar sign is escaped by a backslash expands to the text itself, in
  every environment: escaping makes any text a literal.\<close>
theorem escape_roundtrip: "expand_environment_expression getenv (escape s) = s"
  by (simp add: expand_environment_expression_def expand_expression_impl_def expand_escape)

section \<open>Durations and time points\<close>

text \<open>C13: A duration text, that is spaces, a sign, digits, spaces and a unit, is read exactly: its
  seconds and nanoseconds together are the number times the unit, whenever that many seconds fit
  into 64 bits, and the nanoseconds are less than a second.\<close>
theorem duration_exact:
  assumes "text_ok T" "list_all is_digit ds" "ds \<noteq> []" "spaces T sp" "spaces T sp'"
    and "(unit, scale) \<in> set duration_units" "digits_value ds < 2 ^ 63" "int (digits_value ds) * scale < 2 ^ 63 * 10 ^ 9"
  shows "duration_total (parse_duration T (sp @ sign negative @ ds @ sp' @ unit)) = signed_value negative ds * scale \<and>
    \<bar>sint (dur_nanos (parse_duration T (sp @ sign negative @ ds @ sp' @ unit)))\<bar> < 10 ^ 9"
proof -
  let ?v = "if negative then - of_nat (digits_value ds) else of_nat (digits_value ds) :: i64"
  note unit = duration_unit_text [OF assms(1,6)]
  have "parse_duration T (sp @ sign negative @ ds @ sp' @ unit) = duration_of_unit ?v unit"
    using parse_duration_text [OF assms(1-5) unit(3,2)] unit(1) by simp
  moreover have v: "sint ?v = signed_value negative ds" by (rule sint_signed_value [OF assms(7)])
  moreover have "0 \<le> int (digits_value ds) * scale" using assms(6) by (auto simp: duration_units_def)
  then have "- (2 ^ 63) * 10 ^ 9 \<le> sint ?v * scale" "sint ?v * scale < 2 ^ 63 * 10 ^ 9"
    unfolding v using assms(8) by (auto simp: signed_value_def)
  ultimately show ?thesis using duration_of_unit_exact [OF assms(6), of ?v] by simp
qed

lemma duration_exact_witness: "duration_total (parse_duration ascii_text '' -1500 ms'') = - 1500 * 10 ^ 6"
  using duration_exact [of ascii_text "''1500''" "'' ''" "'' ''" "''ms''" "10 ^ 6" True]
  by (simp add: is_digit_def spaces_def ascii_text_def [THEN arg_cong [where f = ta_is_space]] duration_units_def
      digits_value_def digit_value_def sign_def signed_value_def)

text \<open>C22: The zone of a time point is misread: for \<^verbatim>\<open>+hh:mm\<close> the code subtracts hh minutes and
  mm seconds from the time in UTC, and adds them for \<^verbatim>\<open>-hh:mm\<close>, instead of hh hours and mm
  minutes, so every text with a zone other than zero gives the wrong second.\<close>
theorem zone_offset_in_minutes:
  assumes "text_ok T" "date_ok d" "number_text hh" "number_text mm" "digits_value hh < 100" "digits_value mm < 100"
    and "0 < digits_value hh * 60 + digits_value mm"
  shows "ts_seconds (parse_timepoint T Z (date_string d @ ''+'' @ hh @ '':'' @ mm)) =
      ts_seconds (parse_timepoint T Z (date_string d @ ''Z'')) - (number hh * 60 + number mm) \<and>
    ts_seconds (parse_timepoint T Z (date_string d @ ''-'' @ hh @ '':'' @ mm)) =
      ts_seconds (parse_timepoint T Z (date_string d @ ''Z'')) + (number hh * 60 + number mm) \<and>
    ts_seconds (parse_timepoint T Z (date_string d @ ''+'' @ hh @ '':'' @ mm)) \<noteq>
      ts_seconds (parse_timepoint T Z (date_string d @ ''Z'')) - (number hh * 3600 + number mm * 60)"
proof -
  have "(number hh * 3600 + number mm * 60 :: i64) \<noteq> number hh * 60 + number mm"
    unfolding number_def by (rule zone_offset_differs) (use assms(5-7) in simp_all)
  then show ?thesis
    using parse_timepoint_text [OF assms(1,2)] pick_zone_offset_text [OF assms(1,3,4)]
    by (simp add: separator_def)
qed

definition sample_time :: time_api where
  "sample_time = \<lparr>tz_mktime = (\<lambda>t. 1700000000 + ucast (tm_hour t) * 3600 + ucast (tm_min t) * 60), tz_sys_zone_offset = 3600\<rparr>"

definition sample_date :: date_text where
  "sample_date = \<lparr>dt_year = ''2026'', dt_mon = ''01'', dt_mday = ''02'', dt_hour = ''12'', dt_min = ''30'', dt_sec = ''00''\<rparr>"

lemma zone_offset_in_minutes_witness:
  "ts_seconds (parse_timepoint ascii_text sample_time (date_string sample_date @ ''+'' @ ''08'' @ '':'' @ ''00'')) \<noteq>
   ts_seconds (parse_timepoint ascii_text sample_time (date_string sample_date @ ''Z'')) - (number ''08'' * 3600 + number ''00'' * 60)"
  by (rule zone_offset_in_minutes [THEN conjunct2, THEN conjunct2])
    (simp_all add: date_ok_def sample_date_def number_text_def is_digit_def digits_value_def digit_value_def)

section \<open>Limits\<close>

text \<open>C17: The value of a field respects the limits of the field, whatever the text, the default and
  the environment: for every type whose comparison is irreflexive (booleans, signed and unsigned
  integers of every width, durations, time points) the result is neither below the minimum nor
  above the maximum, unless the two limits cross.\<close>
theorem field_within_limits:
  assumes "field_order (fk_less K)" "\<not> fk_less K (field_max K meta) (field_min K meta)"
  shows "\<not> fk_less K (fst (dump_pick_field_with_extensions K getenv meta val_str)) (field_min K meta) \<and>
    \<not> fk_less K (field_max K meta) (fst (dump_pick_field_with_extensions K getenv meta val_str))"
proof -
  obtain v where "fst (dump_pick_field_with_extensions K getenv meta val_str) = clamp_field K (field_min K meta) (field_max K meta) v"
    using dump_pick_field_clamped by metis
  then show ?thesis using field_order.clamped [OF assms(1) refl assms(2)] by simp
qed

definition sample_meta :: "string \<Rightarrow> configure_meta" where
  "sample_meta d = \<lparr>cm_default_value = d, cm_min_value = [], cm_max_value = [], cm_size_mode = False,
     cm_enable_expression = False, cm_field_match = ([], [])\<rparr>"

definition sample_limits :: configure_meta where
  "sample_limits = (sample_meta ''3s'')\<lparr>cm_min_value := ''1s'', cm_max_value := ''1m''\<rparr>"

lemma field_within_limits_witness:
  "\<not> duration_less (fst (dump_pick_field_with_extensions (duration_kind ascii_text) sample_env (Some sample_limits) ''2h''))
      \<lparr>dur_seconds = 1, dur_nanos = 0\<rparr>"
proof -
  have limits: "field_min (duration_kind ascii_text) (Some sample_limits) = \<lparr>dur_seconds = 1, dur_nanos = 0\<rparr>"
    "field_max (duration_kind ascii_text) (Some sample_limits) = \<lparr>dur_seconds = 60, dur_nanos = 0\<rparr>"
    by code_simp+
  have "\<not> duration_less \<lparr>dur_seconds = 60, dur_nanos = 0\<rparr> \<lparr>dur_seconds = 1, dur_nanos = 0\<rparr>" by code_simp
  then have order: "\<not> fk_less (duration_kind ascii_text) (field_max (duration_kind ascii_text) (Some sample_limits))
      (field_min (duration_kind ascii_text) (Some sample_limits))"
    unfolding limits by (simp add: duration_kind_def)
  show ?thesis
    using field_within_limits [OF duration_limits.field_order_axioms order, of sample_env "''2h''"]
    unfolding limits by (simp add: duration_kind_def)
qed

text \<open>A floating-point field cannot hold zero or a negative number: the lower end of its range is
  taken from \<^verbatim>\<open>numeric_limits::min()\<close>, the smallest positive normal number, so a text that is
  converted to anything below it yields that number.\<close>
theorem float_below_smallest_positive:
  assumes "s \<noteq> []" "fl_less F (fl_strtod F (c_str (take 31 s))) (fl_limits_min F)" "\<not> fl_less F (fl_limits_max F) (fl_limits_min F)"
  shows "dump_pick_field_with_extensions (float_kind F) getenv None s = (fl_limits_min F, False)"
  using assms
  by (simp add: dump_pick_field_with_extensions_def expand_if_enabled_def field_has_enable_expression_def float_kind_def
      float_from_str_def pick_limit_def clamp_field_def)

text \<open>Double-precision bit patterns: the order, the two ends, and a reader of signs and zero.\<close>

definition sample_double :: "u64 float_api" where
  "sample_double =
     \<lparr>fl_strtod = (\<lambda>s. if s \<noteq> [] \<and> hd s = CHR ''-'' then 0xBFF0000000000000 else 0),
      fl_less = (\<lambda>x y. (if bit x 63 then 2 ^ 63 - uint x else uint x) < (if bit y 63 then 2 ^ 63 - uint y else uint y)),
      fl_zero = 0, fl_limits_min = 0x0010000000000000, fl_limits_max = 0x7FEFFFFFFFFFFFFF\<rparr>"

lemma float_below_smallest_positive_witness:
  "dump_pick_field_with_extensions (float_kind sample_double) sample_env None ''-1'' = (0x0010000000000000, False)"
  using float_below_smallest_positive [of "''-1''" sample_double sample_env]
  by (simp add: sample_double_def c_str_def)

section \<open>Loaders\<close>

text \<open>
  A configuration message with a time to live, a timeout, a weight and a sub-message, and a
  message with a part at the same level, whose \<^verbatim>\<open>field_match\<close> asks for the kind \<^verbatim>\<open>file\<close>.
\<close>

definition sample_field :: "string \<Rightarrow> cpp_type \<Rightarrow> field_descriptor" where
  "sample_field name type = \<lparr>fd_name = name, fd_cpp_type = type, fd_repeated = False, fd_map = False, fd_oneof = None,
     fd_message_type = [], fd_enum_type = [], fd_configure = None\<rparr>"

definition ttl_field :: field_descriptor where
  "ttl_field = (sample_field ''ttl'' CPPTYPE_INT32)\<lparr>fd_configure := Some (sample_meta ''16'')\<rparr>"

definition timeout_field :: field_descriptor where
  "timeout_field = (sample_field ''timeout'' CPPTYPE_MESSAGE)\<lparr>fd_message_type := duration_type, fd_configure := Some (sample_meta ''3s'')\<rparr>"

definition part_field :: field_descriptor where
  "part_field = (sample_field ''part'' CPPTYPE_MESSAGE)\<lparr>fd_message_type := ''Part''\<rparr>"

definition matched_field :: field_descriptor where
  "matched_field = part_field\<lparr>fd_configure := Some ((sample_meta [])\<lparr>cm_field_match := (''kind'', ''file'')\<rparr>)\<rparr>"

definition labels_field :: field_descriptor where
  "labels_field = (sample_field ''labels'' CPPTYPE_MESSAGE)\<lparr>fd_message_type := ''LabelsEntry'', fd_repeated := True, fd_map := True\<rparr>"

definition sample_pool :: descriptor_pool where
  "sample_pool t =
     (if t = ''Conf'' then [ttl_field, timeout_field, part_field]
      else if t = ''Sink'' then [sample_field ''kind'' CPPTYPE_STRING, matched_field]
      else if t = ''Part'' then [ttl_field]
      else if t = ''Labels'' then [labels_field]
      else if t = ''LabelsEntry'' then [sample_field ''key'' CPPTYPE_STRING, sample_field ''value'' CPPTYPE_STRING]
      else if is_time_type t then [sample_field ''seconds'' CPPTYPE_INT64, sample_field ''nanos'' CPPTYPE_INT32]
      else [])"

text \<open>The same without the message with a part at the same level.\<close>

definition plain_pool :: descriptor_pool where
  "plain_pool t = (if t = ''Sink'' then [] else sample_pool t)"

definition sample_float :: "u32 float_api" where
  "sample_float = \<lparr>fl_strtod = (\<lambda>_. 0), fl_less = (\<lambda>x y. x < y), fl_zero = 0, fl_limits_min = 0x00800000, fl_limits_max = 0x7F7FFFFF\<rparr>"

definition sample_api :: conf_api where
  "sample_api = \<lparr>ca_text = ascii_text,
     ca_toupper = (\<lambda>c. if CHR ''a'' \<le> c \<and> c \<le> CHR ''z'' then char_of ((of_char c :: nat) - 32) else c),
     ca_time = sample_time, ca_getenv = (\<lambda>name. if name = ''APP_TTL'' then ''5'' else []),
     ca_float = sample_float, ca_double = sample_double,
     ca_str2int32 = pick_number ascii_text, ca_str2int64 = pick_number ascii_text,
     ca_str2uint32 = pick_number ascii_text, ca_str2uint64 = pick_number ascii_text,
     ca_to_int32 = (\<lambda>s. fst (pick_number ascii_text s)), ca_to_size = (\<lambda>s. fst (pick_number ascii_text s))\<rparr>"

lemmas sample_defs = sample_field_def ttl_field_def timeout_field_def part_field_def matched_field_def labels_field_def
  sample_meta_def

lemma pool_ok_sample [simp]: "pool_ok sample_pool"
  by (auto simp: pool_ok_def sample_pool_def time_fields_def sample_defs same_level_match_def is_time_type_def duration_type_def timestamp_type_def)

lemma pool_ok_plain [simp]: "pool_ok plain_pool"
  by (auto simp: pool_ok_def plain_pool_def sample_pool_def time_fields_def sample_defs same_level_match_def is_time_type_def duration_type_def timestamp_type_def)

lemma no_same_level_plain [simp]: "no_same_level plain_pool"
  by (auto simp: no_same_level_def plain_pool_def sample_pool_def sample_defs same_level_match_def)

lemma no_floats_sample [simp]: "no_floats sample_pool"
  by (auto simp: no_floats_def sample_pool_def sample_defs)

text \<open>One YAML document without INI sections: \<open>timeout: 7s\<close> and a part with \<open>ttl: 9\<close>.\<close>

definition sample_document :: yaml where
  "sample_document = YAML_Map [(YAML_Scalar ''timeout'', YAML_Scalar ''7s''),
     (YAML_Scalar ''part'', YAML_Map [(YAML_Scalar ''ttl'', YAML_Scalar ''9'')])]"












text \<open>A part at the same level loses its configuration: its values are recorded under the prefix of
  the enclosing message, the defaults look for them under the name of the part, do not find
  them, and write the default over the configured value.\<close>
theorem same_level_value_lost:
  "\<exists>P A doc m' keys m''. pool_ok P \<and>
     dump_message_item P A 5 doc [] (empty_message ''Sink'', Some {}) = Some (True, m', Some keys) \<and>
     default_loader_dump_to P A 5 keys m' = Some m'' \<and>
     value_at m' [Field matched_field] ttl_field = [PB_Int32 5] \<and>
     value_at m'' [Field matched_field] ttl_field = [PB_Int32 16]"
proof -
  let ?doc = "YAML_Map [(YAML_Scalar ''kind'', YAML_Scalar ''file''), (YAML_Scalar ''ttl'', YAML_Scalar ''5'')]"
  let ?m = "\<lambda>ttl. Message ''Sink'' [(''kind'', [PB_String ''file'']), (''part'', [PB_Message (Message ''Part'' [(''ttl'', [PB_Int32 ttl])])])]"
  have "dump_message_item sample_pool sample_api 5 ?doc [] (empty_message ''Sink'', Some {}) = Some (True, ?m 5, Some {''kind'', ''ttl''})"
    by code_simp
  moreover have "default_loader_dump_to sample_pool sample_api 5 {''kind'', ''ttl''} (?m 5) = Some (?m 16)"
    by code_simp
  moreover have "value_at (?m 5) [Field matched_field] ttl_field = [PB_Int32 5]" "value_at (?m 16) [Field matched_field] ttl_field = [PB_Int32 16]"
    by code_simp+
  ultimately show ?thesis using pool_ok_sample by blast
qed

text \<open>A singular field of type \<^verbatim>\<open>float\<close> cannot be configured: the code passes \<^verbatim>\<open>AddFloat\<close> where
  it means \<^verbatim>\<open>SetFloat\<close>, which protobuf refuses for a singular field, so the process ends as soon as
  the environment, an INI file or a YAML document has a value for it.\<close>
theorem float_cannot_be_configured:
  assumes "fd_cpp_type fds = CPPTYPE_FLOAT" "\<not> fd_repeated fds" "fd_configure fds = None" "s \<noteq> []"
  shows "(env_value A key = s \<longrightarrow> dump_environment_pick_field P A item key fds p st = None) \<and>
    (as_cpp_string val i = s \<longrightarrow> ini_pick_field P A fuel val fds i p st = None) \<and>
    yaml_pick_field P A fuel (YAML_Scalar s) fds p st = None"
proof -
  have refused: "dump_field_with_value P fds p (PB_Float x, False) st = None" for x
    using assms(2) by (cases st) (simp add: dump_field_with_value_def dump_field_with_value_delegate_def add_value_def)
  have "\<exists>x. pick_value A fds s = Some (PB_Float x, False)" "\<exists>x. yaml_pick_value A fds (YAML_Scalar s) = Some (Some (PB_Float x, False))"
    using assms by (simp_all add: pick_value_def yaml_pick_value_def dump_pick_field_with_extensions_def yaml_pick_with_extensions_def
        expand_if_enabled_def field_has_enable_expression_def)
  then show ?thesis
    using assms refused by (cases fuel) (auto simp: dump_environment_pick_field_def)
qed

lemma float_cannot_be_configured_witness:
  "yaml_pick_field sample_pool sample_api 3 (YAML_Scalar ''1.5'') (sample_field ''weight'' CPPTYPE_FLOAT) [] (empty_message ''Conf'', None) = None"
  by (rule float_cannot_be_configured [THEN conjunct2, THEN conjunct2]) (simp_all add: sample_field_def)

text \<open>A dotted path leads to the node its keys name; where a key is missing on the way, the answer is
  the map it is missing from instead of an undefined node. A document without the section of the
  application is therefore read as if it were that section.\<close>
theorem missing_key_gives_enclosing_map:
  assumes "text_ok (ca_text A)" "list_all (path_key (ca_text A)) (keys @ rest)" "yaml_reach root keys = Some node"
  shows "(rest = [] \<longrightarrow> yaml_loader_get_child_by_path A root (dotted (keys @ rest)) = node) \<and>
    (\<forall>entries key rest'. node = YAML_Map entries \<and> rest = key # rest' \<and> yaml_child entries key = None \<longrightarrow>
       yaml_loader_get_child_by_path A root (dotted (keys @ rest)) = node)"
proof -
  have "[] \<notin> set keys" using assms(2) by (auto simp: list_all_iff path_key_def)
  then have "yaml_loader_get_child_by_path A root (dotted (keys @ rest)) = yaml_walk (ca_to_size A) node rest"
    using split_path_dotted [OF assms(1,2)] yaml_walk_reach [OF assms(3)]
    by (simp add: yaml_loader_get_child_by_path_def)
  then show ?thesis using assms(2) by (auto simp: path_key_def)
qed

lemma missing_key_gives_enclosing_map_witness:
  "yaml_loader_get_child_by_path sample_api sample_document ''app'' = sample_document"
proof -
  have char_ok: "text_ok (ca_text sample_api)" by (simp add: sample_api_def)
  have key: "path_key (ca_text sample_api) ''app''"
    by (simp add: sample_api_def path_key_def path_separator_def ascii_text_def)
  have root: "yaml_reach sample_document [] = Some sample_document" by simp
  have "\<forall>entries key rest'. sample_document = YAML_Map entries \<and> [''app''] = key # rest' \<and> yaml_child entries key = None \<longrightarrow>
      yaml_loader_get_child_by_path sample_api sample_document (dotted ([] @ [''app''])) = sample_document"
    by (rule missing_key_gives_enclosing_map [OF char_ok _ root, THEN conjunct2]) (simp add: key)
  then have "yaml_loader_get_child_by_path sample_api sample_document (dotted ([] @ [''app''])) = sample_document"
    by (simp add: sample_document_def yaml_child_def)
  then show ?thesis by simp
qed

section \<open>Comparison\<close>



text \<open>Two messages whose map holds the same two entries, iterated in the other order, compare as
  different whenever the entries differ: the comparison by key is selected by the type of the
  map field, which is always a message, instead of the type of its key, and never runs.\<close>
theorem map_order_matters:
  assumes "fds \<in> set (P (msg_type l))" "fd_map fds" "fd_repeated fds" "fd_cpp_type fds = CPPTYPE_MESSAGE"
    and "field_values l (fd_name fds) = [PB_Message a, PB_Message b]" "field_values r (fd_name fds) = [PB_Message b, PB_Message a]"
    and "\<not> protobuf_equal P F False a b"
  shows "\<not> protobuf_equal_inner_map_selects fds \<and> \<not> protobuf_equal P F False l r"
proof
  show "\<not> protobuf_equal_inner_map_selects fds" by (rule map_comparison_not_selected [OF assms(4)])
  show "\<not> protobuf_equal P F False l r"
    by (rule swapped_entries_differ) (use assms in \<open>simp_all add: protobuf_equal_def\<close>)
qed

definition sample_entry :: "string \<Rightarrow> string \<Rightarrow> message" where
  "sample_entry k v = Message ''LabelsEntry'' [(''key'', [PB_String k]), (''value'', [PB_String v])]"

definition sample_labels :: "message \<Rightarrow> message \<Rightarrow> message" where
  "sample_labels e e' = Message ''Labels'' [(''labels'', [PB_Message e, PB_Message e'])]"

lemma map_order_matters_witness:
  "\<forall>F. \<not> protobuf_equal sample_pool F False (sample_labels (sample_entry ''a'' ''1'') (sample_entry ''b'' ''2''))
     (sample_labels (sample_entry ''b'' ''2'') (sample_entry ''a'' ''1''))"
proof (rule allI, rule map_order_matters [THEN conjunct2])
  fix F
  have "\<not> protobuf_equal_inner_field F (protobuf_equal_inner_message sample_pool F) (sample_entry ''a'' ''1'') (sample_entry ''b'' ''2'')
      (sample_field ''key'' CPPTYPE_STRING)"
    by (simp add: protobuf_equal_inner_field_def sample_entry_def sample_field_def get_value_def field_values_def singular_equal_def)
  moreover have "sample_field ''key'' CPPTYPE_STRING \<in> set (sample_pool (msg_type (sample_entry ''a'' ''1'')))"
    by (simp add: sample_pool_def sample_entry_def)
  ultimately show "\<not> protobuf_equal sample_pool F False (sample_entry ''a'' ''1'') (sample_entry ''b'' ''2'')"
    unfolding protobuf_equal_def using protobuf_equalD(2) by blast
  show "labels_field \<in> set (sample_pool (msg_type (sample_labels (sample_entry ''a'' ''1'') (sample_entry ''b'' ''2''))))"
    by (simp add: sample_pool_def sample_labels_def)
qed (simp_all add: sample_defs sample_labels_def field_values_def)

end
