(* ===== verification/Etcd_Packer.thy ===== *)
theory Etcd_Packer
  imports Config_Expression
begin

text \<open>
  JSON messages of the etcd client (\<^verbatim>\<open>src/atframe/etcdcli/etcd_packer.cpp\<close>): key-value pairs
  and response headers, key ranges, and the reading of members. The type \<open>json\<close> stands for
  \<^verbatim>\<open>rapidjson::Value\<close>; looking up a member of a value that is not an object fails an
  assertion of the library, which gives None.
\<close>

section \<open>JSON values\<close>

datatype json =
    JSON_Null
  | JSON_Bool bool
  | JSON_Int int
  | JSON_Double u64
  | JSON_String string
  | JSON_Array "json list"
  | JSON_Object "(string \<times> json) list"

type_synonym json_members = "(string \<times> json) list"

definition is_int64 :: "int \<Rightarrow> bool" where
  "is_int64 n \<longleftrightarrow> - (2 ^ 63) \<le> n \<and> n < 2 ^ 63"

definition is_uint64 :: "int \<Rightarrow> bool" where
  "is_uint64 n \<longleftrightarrow> 0 \<le> n \<and> n < 2 ^ 64"

text \<open>
  What the packer calls outside the repository: the parser and writer of rapidjson, base64 and
  the integer parsers of atframe\_utils, and the printing of floating-point numbers.
  Decoding gives the text and whether it succeeded.
\<close>

record packer_api =
  pk_parse :: "string \<Rightarrow> json option"
  pk_write :: "json \<Rightarrow> string"
  pk_base64_encode :: "string \<Rightarrow> string"
  pk_base64_decode :: "string \<Rightarrow> string \<times> bool"
  pk_str2int64 :: "string \<Rightarrow> i64"
  pk_str2uint64 :: "string \<Rightarrow> u64"
  pk_str2int :: "string \<Rightarrow> i32"
  pk_print_int :: "int \<Rightarrow> string"
  pk_print_double :: "u64 \<Rightarrow> string"

definition parse_object :: "packer_api \<Rightarrow> string \<Rightarrow> json option" where
  "parse_object A data =
     (case pk_parse A (c_str data) of Some (JSON_Object ms) \<Rightarrow> Some (JSON_Object ms) | _ \<Rightarrow> None)"

section \<open>Reading members\<close>

text \<open>A member of a key-value pair or header: anything but a number or a string reads as zero.\<close>

definition int64_member :: "packer_api \<Rightarrow> json_members \<Rightarrow> string \<Rightarrow> i64" where
  "int64_member A ms key =
     (case map_of ms key of
        Some (JSON_Int n) \<Rightarrow> if is_int64 n then word_of_int n else 0
      | Some (JSON_String s) \<Rightarrow> pk_str2int64 A (c_str s)
      | _ \<Rightarrow> 0)"

definition uint64_member :: "packer_api \<Rightarrow> json_members \<Rightarrow> string \<Rightarrow> u64" where
  "uint64_member A ms key =
     (case map_of ms key of
        Some (JSON_Int n) \<Rightarrow> if is_uint64 n then word_of_int n else 0
      | Some (JSON_String s) \<Rightarrow> pk_str2uint64 A (c_str s)
      | _ \<Rightarrow> 0)"

definition unpack_base64 :: "packer_api \<Rightarrow> json_members \<Rightarrow> string \<Rightarrow> string \<Rightarrow> string \<times> bool" where
  "unpack_base64 A ms key val =
     (case map_of ms key of Some (JSON_String s) \<Rightarrow> pk_base64_decode A (c_str s) | _ \<Rightarrow> (val, False))"

text \<open>The free-standing readers leave the result as it is when the member has another type.\<close>

definition unpack_int64 :: "packer_api \<Rightarrow> json_members \<Rightarrow> string \<Rightarrow> i64 \<Rightarrow> i64" where
  "unpack_int64 A ms key out =
     (case map_of ms key of
        None \<Rightarrow> 0
      | Some (JSON_Int n) \<Rightarrow> if is_int64 n then word_of_int n else out
      | Some (JSON_String s) \<Rightarrow> pk_str2int64 A (c_str s)
      | _ \<Rightarrow> out)"

definition unpack_uint64 :: "packer_api \<Rightarrow> json_members \<Rightarrow> string \<Rightarrow> u64 \<Rightarrow> u64" where
  "unpack_uint64 A ms key out =
     (case map_of ms key of
        None \<Rightarrow> 0
      | Some (JSON_Int n) \<Rightarrow> if is_uint64 n then word_of_int n else out
      | Some (JSON_String s) \<Rightarrow> pk_str2uint64 A (c_str s)
      | _ \<Rightarrow> out)"

definition unpack_bool :: "packer_api \<Rightarrow> json_members \<Rightarrow> string \<Rightarrow> bool \<Rightarrow> bool" where
  "unpack_bool A ms key out =
     (case map_of ms key of
        None \<Rightarrow> False
      | Some (JSON_Bool b) \<Rightarrow> b
      | Some (JSON_Int n) \<Rightarrow> if is_uint64 n \<or> is_int64 n then n \<noteq> 0 else out
      | Some (JSON_String s) \<Rightarrow> pk_str2int A (c_str s) \<noteq> 0
      | _ \<Rightarrow> out)"

fun unpack_to_string :: "packer_api \<Rightarrow> json \<Rightarrow> string" where
  "unpack_to_string A JSON_Null = ''null''"
| "unpack_to_string A (JSON_Bool b) = (if b then ''true'' else ''false'')"
| "unpack_to_string A (JSON_Object ms) = ''[object object]''"
| "unpack_to_string A (JSON_Array vs) = ''[object array]''"
| "unpack_to_string A (JSON_String s) = c_str s"
| "unpack_to_string A (JSON_Double x) = pk_print_double A x"
| "unpack_to_string A (JSON_Int n) = pk_print_int A n"

definition unpack_string :: "packer_api \<Rightarrow> json_members \<Rightarrow> string \<Rightarrow> string option" where
  "unpack_string A ms key = map_option (unpack_to_string A) (map_of ms key)"

section \<open>Key-value pairs and headers\<close>

record etcd_key_value =
  kv_key :: string
  create_revision :: i64
  mod_revision :: i64
  version :: i64
  kv_value :: string
  kv_lease :: i64

record etcd_response_header =
  cluster_id :: u64
  member_id :: u64
  revision :: i64
  raft_term :: u64

definition pack_int64 :: "string \<Rightarrow> i64 \<Rightarrow> json_members \<Rightarrow> json_members" where
  "pack_int64 key x ms = (if x \<noteq> 0 then ms @ [(key, JSON_Int (sint x))] else ms)"

definition pack_uint64 :: "string \<Rightarrow> u64 \<Rightarrow> json_members \<Rightarrow> json_members" where
  "pack_uint64 key x ms = (if x \<noteq> 0 then ms @ [(key, JSON_Int (uint x))] else ms)"

definition pack_string :: "string \<Rightarrow> string \<Rightarrow> json_members \<Rightarrow> json_members" where
  "pack_string key val ms = ms @ [(key, JSON_String (c_str val))]"

definition pack_base64 :: "packer_api \<Rightarrow> string \<Rightarrow> string \<Rightarrow> json_members \<Rightarrow> json_members" where
  "pack_base64 A key val ms = ms @ [(key, JSON_String (pk_base64_encode A val))]"

definition pack_key_value :: "packer_api \<Rightarrow> etcd_key_value \<Rightarrow> json_members \<Rightarrow> json_members" where
  "pack_key_value A kv ms =
     (let ms = pack_int64 ''create_revision'' (create_revision kv) ms;
          ms = pack_int64 ''mod_revision'' (mod_revision kv) ms;
          ms = pack_int64 ''version'' (version kv) ms;
          ms = pack_int64 ''lease'' (kv_lease kv) ms;
          ms = (if kv_key kv \<noteq> [] then pack_base64 A ''key'' (kv_key kv) ms else ms)
      in if kv_value kv \<noteq> [] then pack_base64 A ''value'' (kv_value kv) ms else ms)"

definition unpack_key_value :: "packer_api \<Rightarrow> etcd_key_value \<Rightarrow> json \<Rightarrow> etcd_key_value option" where
  "unpack_key_value A kv v =
     (case v of
        JSON_Object ms \<Rightarrow>
          Some \<lparr>kv_key = fst (unpack_base64 A ms ''key'' (kv_key kv)),
                create_revision = int64_member A ms ''create_revision'', mod_revision = int64_member A ms ''mod_revision'',
                version = int64_member A ms ''version'', kv_value = fst (unpack_base64 A ms ''value'' (kv_value kv)),
                kv_lease = int64_member A ms ''lease''\<rparr>
      | _ \<Rightarrow> None)"

definition pack_response_header :: "etcd_response_header \<Rightarrow> json_members \<Rightarrow> json_members" where
  "pack_response_header h ms =
     (let ms = pack_uint64 ''cluster_id'' (cluster_id h) ms;
          ms = pack_uint64 ''member_id'' (member_id h) ms;
          ms = pack_int64 ''revision'' (revision h) ms
      in pack_uint64 ''raft_term'' (raft_term h) ms)"

definition unpack_response_header :: "packer_api \<Rightarrow> json \<Rightarrow> etcd_response_header option" where
  "unpack_response_header A v =
     (case v of
        JSON_Object ms \<Rightarrow>
          Some \<lparr>cluster_id = uint64_member A ms ''cluster_id'', member_id = uint64_member A ms ''member_id'',
                revision = int64_member A ms ''revision'', raft_term = uint64_member A ms ''raft_term''\<rparr>
      | _ \<Rightarrow> None)"

section \<open>Key ranges\<close>

text \<open>
  The loop that turns a prefix into the end of its range: it drops trailing 0xff bytes and
  increments the last other byte. The second component is \<^verbatim>\<open>need_plus\<close>.
\<close>

function range_end_loop :: "string \<Rightarrow> string \<times> bool" where
  "range_end_loop range_end =
     (if range_end = [] then ([], True)
      else if last range_end = CHR 0xFF then range_end_loop (butlast range_end)
      else (butlast range_end @ [char_of ((of_char (last range_end) :: nat) + 1)], False))"
  by pat_completeness auto
termination by (relation "measure length") auto

declare range_end_loop.simps [simp del]

text \<open>
  For a key of 0xff bytes only, the code assigns the literal \<^verbatim>\<open>"\0"\<close>, which as a C string is empty.
\<close>

definition key_range_end :: "string \<Rightarrow> string \<Rightarrow> string" where
  "key_range_end key range_end =
     (if range_end = ''+1''
      then (case range_end_loop key of
              (r, need_plus) \<Rightarrow> if r = [] \<and> need_plus \<and> key \<noteq> [] then c_str [CHR 0x00] else r)
      else range_end)"

definition pack_key_range :: "packer_api \<Rightarrow> string \<Rightarrow> string \<Rightarrow> json_members \<Rightarrow> json_members" where
  "pack_key_range A key range_end ms =
     (let ms = (if key \<noteq> [] then pack_base64 A ''key'' key ms else ms)
      in if key_range_end key range_end \<noteq> [] then pack_base64 A ''range_end'' (key_range_end key range_end) ms else ms)"

end
