(* ===== verification/Etcd_Packer_Facts.thy ===== *)
theory Etcd_Packer_Facts
  imports Etcd_Packer "HOL-Library.Sublist"
begin

text \<open>
  Key ranges select exactly the keys with a prefix, and packed values read back.
\<close>

section \<open>Key ranges\<close>

definition last_byte :: char where
  "last_byte = CHR 0xFF"

lemma of_char_less_256: "(of_char c :: nat) < 256"
  by (metis nat_of_char_less_256)

lemma of_char_last [simp]: "of_char c = (255 :: nat) \<longleftrightarrow> c = last_byte"
proof -
  have "of_char last_byte = (255 :: nat)" by (simp add: last_byte_def)
  then show ?thesis by (metis char_of_char)
qed

lemma last_byte_greatest: "c \<le> last_byte"
proof -
  have "(of_char c :: nat) \<le> 255" using of_char_less_256 [of c] by linarith
  then show ?thesis by (simp add: less_eq_char_def last_byte_def)
qed

definition next_byte :: "char \<Rightarrow> char" where
  "next_byte c = char_of ((of_char c :: nat) + 1)"

lemma less_next_byte:
  assumes "c \<noteq> last_byte"
  shows "d < next_byte c \<longleftrightarrow> d \<le> c"
proof -
  have "(of_char c :: nat) \<noteq> 255" using assms by simp
  then have "(of_char c :: nat) < 255" using of_char_less_256 [of c] by linarith
  then show ?thesis by (auto simp: next_byte_def less_char_def less_eq_char_def)
qed

lemma range_end_loop_Nil [simp]: "range_end_loop [] = ([], True)"
  by (subst range_end_loop.simps) simp

lemma range_end_loop_snoc: "c \<noteq> last_byte \<Longrightarrow> range_end_loop (key @ [c]) = (key @ [next_byte c], False)"
  by (subst range_end_loop.simps) (simp add: last_byte_def next_byte_def)

lemma range_end_loop_last: "range_end_loop (key @ [last_byte]) = range_end_loop key"
  by (subst range_end_loop.simps) (simp add: last_byte_def)

lemma range_end_loop_lasts: "range_end_loop (key @ replicate n last_byte) = range_end_loop key"
proof (induction n)
  case (Suc n)
  have "key @ replicate (Suc n) last_byte = (key @ replicate n last_byte) @ [last_byte]"
    by (simp add: replicate_append_same)
  then show ?case using Suc range_end_loop_last by metis
qed simp

lemma range_end_loop_next:
  "c \<noteq> last_byte \<Longrightarrow> range_end_loop (key @ c # replicate n last_byte) = (key @ [next_byte c], False)"
  using range_end_loop_lasts [of "key @ [c]" n] range_end_loop_snoc [of c key] by (metis append.assoc append_Cons append_Nil)

lemma range_end_loop_all: "range_end_loop (replicate n last_byte) = ([], True)"
  using range_end_loop_lasts [of "[]" n] by simp

lemma split_key:
  assumes "\<exists>c \<in> set key. c \<noteq> last_byte"
  obtains p c n where "key = p @ c # replicate n last_byte" "c \<noteq> last_byte"
proof -
  from split_list_last_prop [OF assms] obtain p c zs
    where split: "key = p @ c # zs" "c \<noteq> last_byte" "\<forall>z \<in> set zs. \<not> z \<noteq> last_byte" by blast
  moreover from split(3) have "zs = replicate (length zs) last_byte" by (intro replicate_eqI) auto
  ultimately show thesis using that [of p c "length zs"] by simp
qed

lemma lasts_le: "replicate n last_byte \<le> k \<longleftrightarrow> prefix (replicate n last_byte) k"
proof (induction n arbitrary: k)
  case (Suc n)
  have "\<not> last_byte < c" for c using last_byte_greatest [of c] by (simp add: not_less)
  then show ?case using Suc by (cases k) auto
qed simp

lemma range_of_prefix:
  assumes "c \<noteq> last_byte"
  shows "p @ c # replicate n last_byte \<le> k \<and> k < p @ [next_byte c] \<longleftrightarrow> prefix (p @ c # replicate n last_byte) k"
proof (induction p arbitrary: k)
  case Nil
  show ?case
  proof (cases k)
    case (Cons d k')
    have "d < next_byte c \<longleftrightarrow> d \<le> c" by (rule less_next_byte [OF assms])
    then show ?thesis using Cons lasts_le [of n k'] by auto
  qed simp
next
  case (Cons a p)
  note IH = Cons.IH
  show ?case
  proof (cases k)
    case (Cons d k')
    then show ?thesis using IH [of k'] by auto
  qed simp
qed

section \<open>Packing and unpacking\<close>

lemma map_of_pack_int64:
  "map_of (pack_int64 key x ms) key' =
     (case map_of ms key' of None \<Rightarrow> if key' = key \<and> x \<noteq> 0 then Some (JSON_Int (sint x)) else None | Some v \<Rightarrow> Some v)"
  by (auto simp: pack_int64_def map_of_append map_add_def split: option.splits)

lemma map_of_pack_uint64:
  "map_of (pack_uint64 key x ms) key' =
     (case map_of ms key' of None \<Rightarrow> if key' = key \<and> x \<noteq> 0 then Some (JSON_Int (uint x)) else None | Some v \<Rightarrow> Some v)"
  by (auto simp: pack_uint64_def map_of_append map_add_def split: option.splits)

lemma map_of_pack_base64:
  "map_of (pack_base64 A key x ms) key' =
     (case map_of ms key' of None \<Rightarrow> if key' = key then Some (JSON_String (pk_base64_encode A x)) else None | Some v \<Rightarrow> Some v)"
  by (auto simp: pack_base64_def map_of_append map_add_def split: option.splits)

lemmas map_of_packs = map_of_pack_int64 map_of_pack_uint64 map_of_pack_base64

lemma is_int64_sint [simp]: "is_int64 (sint (x :: i64))"
  using sint_greater_eq [of x] sint_lt [of x] by (simp add: is_int64_def)

lemma is_uint64_uint [simp]: "is_uint64 (uint (x :: u64))"
  using uint_range_size [of x] by (simp add: is_uint64_def word_size)

text \<open>What base64 guarantees: decoding inverts encoding, and an encoded text is a C string.\<close>

definition base64_ok :: "packer_api \<Rightarrow> bool" where
  "base64_ok A \<longleftrightarrow> (\<forall>s. pk_base64_decode A (pk_base64_encode A s) = (s, True) \<and> c_str (pk_base64_encode A s) = pk_base64_encode A s)"

lemma unpack_packed_key_value:
  assumes "base64_ok A"
  shows "unpack_key_value A \<lparr>kv_key = [], create_revision = a, mod_revision = b, version = c, kv_value = [], kv_lease = d\<rparr>
    (JSON_Object (pack_key_value A kv [])) = Some kv"
  using assms
  by (cases kv) (simp add: pack_key_value_def unpack_key_value_def Let_def map_of_packs int64_member_def unpack_base64_def base64_ok_def)

lemma unpack_packed_header: "unpack_response_header A (JSON_Object (pack_response_header h [])) = Some h"
  by (cases h) (simp add: pack_response_header_def unpack_response_header_def Let_def map_of_packs int64_member_def uint64_member_def)

end
