(* ===== verification/Etcd_Request.thy ===== *)
theory Etcd_Request
  imports Etcd_Packer Config_Value
begin

text \<open>
  The state of the etcd client and the requests it sends (\<^verbatim>\<open>src/atframe/etcdcli/etcd_cluster.cpp\<close>):
  configuration, flags, statistics, the set-up of an HTTP request, lease requests and key-value
  requests.

  The HTTP client of atframe\_utils is not part of the repository. It is a parameter
  (\<open>etcd_env\<close>): whether the n-th request can be created, and what starting it returns. A started
  request stays in \<open>requests\<close> until it completes, which is an event of the environment
  (Etcd\_Run), or is stopped; a stopped request does not complete. The options are those of
  libcurl 7.85 or later, so every \<^verbatim>\<open>#if LIBCURL_VERSION_NUM\<close> is taken.
\<close>

section \<open>State\<close>

datatype flag_t = kClosing | kRunning | kReady | kEnableLease | kPreviousRequestTimeout

fun flag_value :: "flag_t \<Rightarrow> u32" where
  "flag_value kClosing = 0x0001"
| "flag_value kRunning = 0x0002"
| "flag_value kReady = 0x0004"
| "flag_value kEnableLease = 0x0100"
| "flag_value kPreviousRequestTimeout = 0x0200"

datatype ssl_version_t = kDisabled | kTlsV11 | kTlsV12 | kTlsV13

record conf_t =
  conf_hosts :: "string list"
  hosts :: "string list"
  authorization :: string
  http_request_timeout :: int
  http_initialization_timeout :: int
  http_connect_timeout :: int
  dns_cache_timeout :: int
  dns_servers :: string
  authorization_user_roles :: "string list"
  authorization_header :: string
  authorization_next_update_time :: timepoint
  authorization_retry_interval :: int
  auth_user_get_next_update_time :: timepoint
  auth_user_get_retry_interval :: int
  path_node :: string
  etcd_members_next_update_time :: timepoint
  etcd_members_update_interval :: int
  etcd_members_retry_interval :: int
  etcd_members_init_retry_interval :: int
  lease :: i64
  keepalive_next_update_time :: timepoint
  keepalive_timeout :: int
  keepalive_interval :: int
  keepalive_retry_interval :: int
  keepalive_retry_times :: u64
  ssl_enable_alpn :: bool
  ssl_verify_peer :: bool
  http_debug_mode :: bool
  auto_update_hosts :: bool
  ssl_min_version :: ssl_version_t
  user_agent :: string
  proxy :: string
  no_proxy :: string
  proxy_user_name :: string
  proxy_password :: string
  ssl_client_cert :: string
  ssl_client_cert_type :: string
  ssl_client_key :: string
  ssl_client_key_type :: string
  ssl_client_key_passwd :: string
  ssl_ca_cert :: string
  ssl_client_tlsauth_username :: string
  ssl_client_tlsauth_password :: string
  ssl_proxy_cert :: string
  ssl_proxy_cert_type :: string
  ssl_proxy_key :: string
  ssl_proxy_key_type :: string
  ssl_proxy_key_passwd :: string
  ssl_proxy_ca_cert :: string
  ssl_proxy_tlsauth_username :: string
  ssl_proxy_tlsauth_password :: string
  ssl_cipher_list :: string
  ssl_cipher_list_tls13 :: string

record stats_t =
  sum_error_requests :: u64
  continue_error_requests :: u64
  sum_success_requests :: u64
  continue_success_requests :: u64
  sum_create_requests :: u64

text \<open>An HTTP request: the options set on it in order, its document, its callbacks and private data.\<close>

datatype http_option =
    Opt_long string int
  | Opt_string string string
  | Opt_bool string bool
  | Opt_connect_timeout int
  | Opt_timeout int
  | Opt_follow_location bool
  | Opt_ssl_verify_peer bool
  | Opt_accept_encoding string
  | Opt_http_content_decoding bool
  | Opt_reuse_connection bool
  | Opt_no_signal bool
  | Opt_keepalive int int
  | User_agent string
  | Http_header string

datatype callback =
    On_auth_authenticate | On_auth_user_get | On_member_update | On_lease_keepalive
  | On_remove_keepalive_path | On_get_data | On_set_data | On_range_completed | On_watch_completed

datatype priv_data = Priv_Null | Priv_Cluster | Priv_Keepalive nat | Priv_Watcher nat | Priv_Deletor nat

record http_request =
  rq_url :: string
  rq_options :: "http_option list"
  rq_doc :: json
  rq_on_complete :: "callback option"
  rq_on_write :: bool
  rq_priv_data :: priv_data

record http_response =
  rs_error_code :: int
  rs_code :: int
  rs_content :: string

text \<open>\<^verbatim>\<open>etcd_keepalive\<close>, \<^verbatim>\<open>etcd_watcher\<close> and the deletor of a path.\<close>

record etcd_keepalive =
  k_path :: string
  k_value :: string
  k_rpc :: "nat option"
  k_is_actived :: bool
  k_is_value_changed :: bool
  k_has_data :: bool
  k_checker :: "(string \<Rightarrow> bool) option"
  k_is_check_run :: bool
  k_is_check_passed :: bool
  k_retry_times :: u64

record etcd_watcher =
  w_path :: string
  w_range_end :: string
  w_data_stream :: string
  w_data_brackets :: int
  w_rpc :: "nat option"
  w_is_actived :: bool
  w_is_retry_mode :: bool
  w_enable_progress_notify :: bool
  w_enable_prev_kv :: bool
  w_last_revision :: i64
  w_next_request_time :: timepoint
  w_retry_interval :: int
  w_request_timeout :: int
  w_get_request_timeout :: int
  w_startup_random_delay_min :: int
  w_startup_random_delay_max :: int
  w_evt_handle :: bool

record etcd_keepalive_deletor =
  d_rpc :: "nat option"
  d_path :: string
  d_keepalive_addr :: nat
  d_retry_times :: u64
  d_owner :: bool

datatype etcd_watch_event = kPut | kDelete

record event_t =
  evt_type :: etcd_watch_event
  evt_kv :: etcd_key_value
  evt_prev_kv :: etcd_key_value

record response_t =
  watch_id :: i64
  created :: bool
  canceled :: bool
  snapshot :: bool
  compact_revision :: i64
  events :: "event_t list"

text \<open>What the client does outside of itself: requests, user callbacks, watch events.\<close>

datatype etcd_action =
    Started nat http_request
  | Completed nat bool
  | Event_up nat
  | Event_down nat
  | Watch_event nat etcd_response_header response_t

text \<open>
  The cluster, with the objects it owns by address and the clock \<^verbatim>\<open>app::get_sys_now\<close>. The lists of
  actors hold addresses. \<open>fault\<close> records the first time that the code follows a null pointer or
  one to a deleted object, or that an assertion of rapidjson fails: the process ends there, and
  the state afterwards has no meaning.
\<close>

datatype fault_cause = Null_pointer | Use_after_free | Assertion_failed

record etcd_cluster =
  cl_flags :: u32
  conf :: conf_t
  stats :: stats_t
  curl_multi :: bool
  rpc_authenticate :: "nat option"
  rpc_update_members :: "nat option"
  rpc_keepalive :: "nat option"
  keepalive_actors :: "nat list"
  keepalive_retry_actors :: "nat list"
  keepalive_deletors :: "(string \<times> nat) list"
  watcher_actors :: "nat list"
  event_on_up_callbacks :: "nat list"
  event_on_down_callbacks :: "nat list"
  keepalives :: "nat \<Rightarrow> etcd_keepalive"
  watchers :: "nat \<Rightarrow> etcd_watcher"
  deletors :: "nat \<Rightarrow> etcd_keepalive_deletor option"
  next_deletor :: nat
  requests :: "nat \<Rightarrow> http_request option"
  next_request :: nat
  draws :: nat
  sys_now :: timepoint
  destroyed :: bool
  fault :: "fault_cause option"
  actions :: "etcd_action list"

text \<open>
  The environment: the packer's library functions, creation and start of the n-th request, the
  n-th draw of a random number below a bound, whether information and error logs are written
  (their arguments are evaluated only then), the identity of the service in a stored value, and
  the content of an uninitialised field.
\<close>

record etcd_env =
  en_packer :: packer_api
  en_create :: "nat \<Rightarrow> bool"
  en_start :: "nat \<Rightarrow> int"
  en_random :: "nat \<Rightarrow> int \<Rightarrow> int"
  en_log_info :: bool
  en_log_error :: bool
  en_identity :: "string \<Rightarrow> string option"
  en_uninitialised :: i64

abbreviation upd_conf :: "(conf_t \<Rightarrow> conf_t) \<Rightarrow> etcd_cluster \<Rightarrow> etcd_cluster" where
  "upd_conf f s \<equiv> s\<lparr>conf := f (conf s)\<rparr>"

abbreviation upd_keepalive :: "nat \<Rightarrow> (etcd_keepalive \<Rightarrow> etcd_keepalive) \<Rightarrow> etcd_cluster \<Rightarrow> etcd_cluster" where
  "upd_keepalive k f s \<equiv> s\<lparr>keepalives := (keepalives s)(k := f (keepalives s k))\<rparr>"

abbreviation upd_watcher :: "nat \<Rightarrow> (etcd_watcher \<Rightarrow> etcd_watcher) \<Rightarrow> etcd_cluster \<Rightarrow> etcd_cluster" where
  "upd_watcher w f s \<equiv> s\<lparr>watchers := (watchers s)(w := f (watchers s w))\<rparr>"

abbreviation act :: "etcd_action \<Rightarrow> etcd_cluster \<Rightarrow> etcd_cluster" where
  "act a s \<equiv> s\<lparr>actions := actions s @ [a]\<rparr>"

definition fault_if :: "fault_cause \<Rightarrow> bool \<Rightarrow> etcd_cluster \<Rightarrow> etcd_cluster" where
  "fault_if cause b s = s\<lparr>fault := (if b \<and> fault s = None then Some cause else fault s)\<rparr>"

section \<open>Flags, statistics and simple accessors\<close>

definition check_flag :: "flag_t \<Rightarrow> etcd_cluster \<Rightarrow> bool" where
  "check_flag f s \<longleftrightarrow> cl_flags s AND flag_value f \<noteq> 0"

definition put_flag :: "flag_t \<Rightarrow> bool \<Rightarrow> etcd_cluster \<Rightarrow> etcd_cluster" where
  "put_flag f v s = s\<lparr>cl_flags := (if v then cl_flags s OR flag_value f else cl_flags s AND NOT (flag_value f))\<rparr>"

definition add_stats_error_request :: "etcd_cluster \<Rightarrow> etcd_cluster" where
  "add_stats_error_request s = s\<lparr>stats := (stats s)\<lparr>sum_error_requests := sum_error_requests (stats s) + 1,
     continue_error_requests := continue_error_requests (stats s) + 1, continue_success_requests := 0\<rparr>\<rparr>"

definition add_stats_success_request :: "etcd_cluster \<Rightarrow> etcd_cluster" where
  "add_stats_success_request s = s\<lparr>stats := (stats s)\<lparr>sum_success_requests := sum_success_requests (stats s) + 1,
     continue_success_requests := continue_success_requests (stats s) + 1, continue_error_requests := 0\<rparr>\<rparr>"

definition add_stats_create_request :: "etcd_cluster \<Rightarrow> etcd_cluster" where
  "add_stats_create_request s = s\<lparr>stats := (stats s)\<lparr>sum_create_requests := sum_create_requests (stats s) + 1\<rparr>\<rparr>"

abbreviation get_lease :: "etcd_cluster \<Rightarrow> i64" where
  "get_lease s \<equiv> lease (conf s)"

definition chrono_seconds :: "int \<Rightarrow> int" where
  "chrono_seconds n = n * 1000000000"

definition count_milliseconds :: "int \<Rightarrow> int" where
  "count_milliseconds d = cdiv d 1000000"

definition get_conf_http_timeout :: "etcd_cluster \<Rightarrow> int" where
  "get_conf_http_timeout s =
     (if check_flag kReady s then http_request_timeout (conf s) else http_initialization_timeout (conf s))"

definition get_http_timeout_ms :: "etcd_cluster \<Rightarrow> int" where
  "get_http_timeout_ms s = (let ret = count_milliseconds (get_conf_http_timeout s) in if ret \<le> 0 then 30000 else ret)"

definition get_http_connect_timeout_ms :: "etcd_cluster \<Rightarrow> int" where
  "get_http_connect_timeout_ms s = count_milliseconds (http_connect_timeout (conf s))"

text \<open>The user name and, when one is given, the password.\<close>

definition pick_conf_authorization :: "etcd_cluster \<Rightarrow> string \<times> string" where
  "pick_conf_authorization s =
     (let a = authorization (conf s) in
      if CHR '':'' \<notin> set a then (a, [])
      else (takeWhile (\<lambda>c. c \<noteq> CHR '':'') a, tl (dropWhile (\<lambda>c. c \<noteq> CHR '':'') a)))"

definition check_authorization :: "etcd_cluster \<Rightarrow> bool" where
  "check_authorization s \<longleftrightarrow> authorization (conf s) = [] \<or> authorization_header (conf s) \<noteq> []"

definition is_available :: "etcd_cluster \<Rightarrow> bool" where
  "is_available s \<longleftrightarrow> curl_multi s \<and> \<not> check_flag kClosing s \<and> path_node (conf s) \<noteq> [] \<and> check_authorization s"

definition random_below :: "etcd_env \<Rightarrow> int \<Rightarrow> etcd_cluster \<Rightarrow> int \<times> etcd_cluster" where
  "random_below E n s = (en_random E (draws s) n, s\<lparr>draws := Suc (draws s)\<rparr>)"

definition select_cluster_member :: "etcd_env \<Rightarrow> etcd_cluster \<Rightarrow> etcd_cluster" where
  "select_cluster_member E s =
     (case hosts (conf s) of
        [] \<Rightarrow> upd_conf (path_node_update (\<lambda>_. [])) s
      | [host] \<Rightarrow> upd_conf (path_node_update (\<lambda>_. host)) s
      | hs \<Rightarrow> let (i, s) = random_below E (int (length hs)) s in upd_conf (path_node_update (\<lambda>_. hs ! nat i)) s)"

text \<open>
  \<^verbatim>\<open>content.find("authenticat")\<close>; the JSON body of an error carries the code of gRPC.
\<close>

definition contains_text :: "string \<Rightarrow> string \<Rightarrow> bool" where
  "contains_text pat content \<longleftrightarrow> (\<exists>i \<in> set [0..<Suc (length content)]. take (length pat) (drop i content) = pat)"

definition check_authorization_expired :: "etcd_env \<Rightarrow> int \<Rightarrow> string \<Rightarrow> etcd_cluster \<Rightarrow> etcd_cluster" where
  "check_authorization_expired E http_code content s =
     (let expired = upd_conf (authorization_header_update (\<lambda>_. [])) s;
          unauthenticated =
            (case parse_object (en_packer E) content of
               Some (JSON_Object ms) \<Rightarrow> unpack_int64 (en_packer E) ms ''code'' 0 = 16
             | _ \<Rightarrow> False)
      in if http_code = 401 then expired
         else if unauthenticated then expired
         else if (http_code = 400 \<or> http_code = 412) \<and> contains_text ''authenticat'' content then expired
         else s)"

definition CURLE_OPERATION_TIMEDOUT :: int where
  "CURLE_OPERATION_TIMEDOUT = 28"

text \<open>The flag it sets has no further effect in \<^verbatim>\<open>set_flag\<close>.\<close>

definition check_socket_error_code :: "int \<Rightarrow> etcd_cluster \<Rightarrow> etcd_cluster" where
  "check_socket_error_code socket_code s =
     (if socket_code = CURLE_OPERATION_TIMEDOUT then put_flag kPreviousRequestTimeout True s else s)"

definition request_succeeded :: "http_response \<Rightarrow> bool" where
  "request_succeeded rs \<longleftrightarrow> rs_error_code rs = 0 \<and> cdiv (rs_code rs) 100 = 2"

section \<open>HTTP requests\<close>

definition http_create :: "etcd_env \<Rightarrow> string \<Rightarrow> etcd_cluster \<Rightarrow> (nat \<times> http_request) option \<times> etcd_cluster" where
  "http_create E url s =
     ((if en_create E (next_request s)
       then Some (next_request s, \<lparr>rq_url = url, rq_options = [], rq_doc = JSON_Null, rq_on_complete = None,
              rq_on_write = False, rq_priv_data = Priv_Null\<rparr>)
       else None), s\<lparr>next_request := Suc (next_request s)\<rparr>)"

definition http_start :: "etcd_env \<Rightarrow> nat \<Rightarrow> http_request \<Rightarrow> etcd_cluster \<Rightarrow> int \<times> etcd_cluster" where
  "http_start E i rq s =
     (en_start E i, if en_start E i = 0 then act (Started i rq) (s\<lparr>requests := (requests s)(i \<mapsto> rq)\<rparr>) else s)"

definition http_stop :: "nat option \<Rightarrow> etcd_cluster \<Rightarrow> etcd_cluster" where
  "http_stop i s = (case i of None \<Rightarrow> s | Some i \<Rightarrow> s\<lparr>requests := (requests s)(i := None)\<rparr>)"

text \<open>The options of \<^verbatim>\<open>setup_http_request\<close> in the order the code sets them.\<close>

definition opt_text :: "string \<Rightarrow> string \<Rightarrow> http_option list" where
  "opt_text name v = (if v \<noteq> [] then [Opt_string name (c_str v)] else [])"

definition has_scheme :: "string \<Rightarrow> string \<Rightarrow> bool" where
  "has_scheme scheme url \<longleftrightarrow> map ascii_lower (take (length scheme) (c_str url)) = scheme"

definition tls_version_options :: "ssl_version_t \<Rightarrow> http_option list" where
  "tls_version_options v =
     (case v of
        kTlsV13 \<Rightarrow> [Opt_long ''SSLVERSION'' 7, Opt_long ''PROXY_SSLVERSION'' 7]
      | kTlsV12 \<Rightarrow> [Opt_long ''SSLVERSION'' 6, Opt_long ''PROXY_SSLVERSION'' 6]
      | kTlsV11 \<Rightarrow> [Opt_long ''SSLVERSION'' 5, Opt_long ''PROXY_SSLVERSION'' 5]
      | kDisabled \<Rightarrow> [])"

definition proxy_options :: "conf_t \<Rightarrow> http_option list" where
  "proxy_options c =
     (if proxy c \<noteq> []
      then Opt_string ''PROXY'' (c_str (proxy c)) #
        (if has_scheme ''http:'' (proxy c) \<or> has_scheme ''https:'' (proxy c) then [Opt_bool ''HTTPPROXYTUNNEL'' True] else [])
      else []) @
     opt_text ''NOPROXY'' (no_proxy c) @ opt_text ''PROXYUSERNAME'' (proxy_user_name c) @
     opt_text ''PROXYPASSWORD'' (proxy_password c)"

definition client_cert_options :: "conf_t \<Rightarrow> http_option list" where
  "client_cert_options c =
     [Opt_bool ''SSL_ENABLE_ALPN'' (ssl_enable_alpn c)] @
     opt_text ''SSLCERT'' (ssl_client_cert c) @ opt_text ''SSLCERTTYPE'' (ssl_client_cert_type c) @
     opt_text ''SSLKEY'' (ssl_client_key c) @ opt_text ''SSLKEYTYPE'' (ssl_client_key_type c) @
     opt_text ''SSLKEYPASSWD'' (ssl_client_key_passwd c) @ opt_text ''CAINFO'' (ssl_ca_cert c) @
     (if ssl_client_tlsauth_username c \<noteq> []
      then [Opt_string ''TLSAUTH_TYPE'' ''SRP'', Opt_string ''TLSAUTH_USERNAME'' (c_str (ssl_client_tlsauth_username c)),
        Opt_string ''TLSAUTH_PASSWORD'' (c_str (ssl_client_tlsauth_password c))]
      else [])"

definition proxy_cert_options :: "conf_t \<Rightarrow> http_option list" where
  "proxy_cert_options c =
     [Opt_bool ''SSL_ENABLE_ALPN'' (ssl_enable_alpn c)] @
     opt_text ''PROXY_SSLCERT'' (ssl_proxy_cert c) @ opt_text ''PROXY_SSLCERTTYPE'' (ssl_proxy_cert_type c) @
     opt_text ''PROXY_SSLKEY'' (ssl_proxy_key c) @ opt_text ''PROXY_SSLKEYTYPE'' (ssl_proxy_key_type c) @
     opt_text ''PROXY_KEYPASSWD'' (ssl_proxy_key_passwd c) @ opt_text ''PROXY_CAINFO'' (ssl_proxy_ca_cert c) @
     (if ssl_proxy_tlsauth_username c \<noteq> []
      then [Opt_string ''PROXY_TLSAUTH_TYPE'' ''SRP'', Opt_string ''PROXY_TLSAUTH_USERNAME'' (c_str (ssl_proxy_tlsauth_username c)),
        Opt_string ''PROXY_TLSAUTH_PASSWORD'' (c_str (ssl_proxy_tlsauth_password c))]
      else [])"

definition ssl_options :: "conf_t \<Rightarrow> http_option list" where
  "ssl_options c =
     (if ssl_min_version c = kDisabled then []
      else [Opt_bool ''SSL_ENABLE_ALPN'' (ssl_enable_alpn c)] @ tls_version_options (ssl_min_version c) @
        proxy_options c @ client_cert_options c @ proxy_cert_options c @
        opt_text ''SSL_CIPHER_LIST'' (ssl_cipher_list c) @ opt_text ''TLS13_CIPHERS'' (ssl_cipher_list_tls13 c))"

definition get_default_user_agent :: string where
  "get_default_user_agent = ''Mozilla/5.0 (Linux) Atapp Etcdcli/1.0''"

definition dns_options :: "conf_t \<Rightarrow> http_option list" where
  "dns_options c =
     (if dns_cache_timeout c > 0 \<and> count_milliseconds (dns_cache_timeout c) > 0
      then [Opt_long ''DNS_CACHE_TIMEOUT'' (count_milliseconds (dns_cache_timeout c))] else []) @
     opt_text ''DNS_SERVERS'' (dns_servers c)"

definition setup_http_request ::
  "http_request \<Rightarrow> json \<Rightarrow> int \<Rightarrow> etcd_cluster \<Rightarrow> http_request \<times> etcd_cluster" where
  "setup_http_request rq doc t s =
     (let c = conf s;
          timeout = (if t \<le> 0 then get_http_timeout_ms s else t);
          verify_host = (if ssl_verify_peer c then 2 else 0);
          options =
            (if get_http_connect_timeout_ms s > 0 then [Opt_connect_timeout timeout] else []) @ dns_options c @
            [Opt_follow_location True, Opt_ssl_verify_peer (ssl_verify_peer c), Opt_long ''SSL_VERIFYHOST'' verify_host,
             Opt_bool ''SSL_VERIFYSTATUS'' (ssl_verify_peer c), Opt_bool ''PROXY_SSL_VERIFYPEER'' (ssl_verify_peer c),
             Opt_long ''PROXY_SSL_VERIFYHOST'' verify_host, Opt_accept_encoding [], Opt_http_content_decoding True,
             Opt_timeout timeout,
             User_agent (if user_agent c = [] then get_default_user_agent else user_agent c)] @
            (if check_flag kPreviousRequestTimeout s then [Opt_reuse_connection False] else []) @
            [Opt_string ''PROTOCOLS_STR'' ''http,https'', Opt_no_signal True] @
            (if authorization_header c \<noteq> [] then [Http_header (c_str (authorization_header c))] else []) @
            ssl_options c
      in (rq\<lparr>rq_options := rq_options rq @ options, rq_doc := doc\<rparr>,
          if check_flag kPreviousRequestTimeout s then put_flag kPreviousRequestTimeout False s else s))"

text \<open>Creation and set-up of a request; the caller starts it.\<close>

definition new_request :: "etcd_env \<Rightarrow> string \<Rightarrow> json \<Rightarrow> int \<Rightarrow> etcd_cluster \<Rightarrow> (nat \<times> http_request) option \<times> etcd_cluster" where
  "new_request E api doc t s =
     (case http_create E (path_node (conf s) @ api) s of
        (Some (i, rq), s) \<Rightarrow> (let (rq, s) = setup_http_request rq doc t (add_stats_create_request s) in (Some (i, rq), s))
      | (None, s) \<Rightarrow> (None, add_stats_error_request s))"

text \<open>A request of the cluster itself: created, set up and started.\<close>

datatype launch = Launched nat | Start_failed | Create_failed

definition launch_request :: "etcd_env \<Rightarrow> string \<Rightarrow> json \<Rightarrow> int \<Rightarrow> callback \<Rightarrow> etcd_cluster \<Rightarrow> launch \<times> etcd_cluster" where
  "launch_request E url doc t cb s =
     (case http_create E url s of
        (Some (i, rq), s) \<Rightarrow>
          (let (rq, s) = setup_http_request rq doc t (add_stats_create_request s);
               (res, s) = http_start E i (rq\<lparr>rq_priv_data := Priv_Cluster, rq_on_complete := Some cb\<rparr>) s
           in if res \<noteq> 0 then (Start_failed, add_stats_error_request s) else (Launched i, s))
      | (None, s) \<Rightarrow> (Create_failed, add_stats_error_request s))"

end
