(* ===== verification/Etcd_Lease.thy ===== *)
theory Etcd_Lease
  imports Etcd_Request
begin

text \<open>
  Lease requests, flags with their effects, up and down callbacks, and the key-value requests of
  \<^verbatim>\<open>src/atframe/etcdcli/etcd_cluster.cpp\<close>.
\<close>

section \<open>Lease requests\<close>

definition reset_rpc_keepalive :: "etcd_cluster \<Rightarrow> etcd_cluster" where
  "reset_rpc_keepalive s = (http_stop (rpc_keepalive s) s)\<lparr>rpc_keepalive := None\<rparr>"

definition shorten_timeout :: "int \<Rightarrow> int \<Rightarrow> int" where
  "shorten_timeout ms d = (if ms > count_milliseconds d then count_milliseconds d else ms)"

text \<open>The next update time and the timeout of a grant request.\<close>

definition lease_grant_interval :: "etcd_cluster \<Rightarrow> int \<times> int" where
  "lease_grant_interval s =
     (let c = conf s; ms = get_http_timeout_ms s in
      if check_flag kRunning s \<and> keepalive_interval c > 0
      then (keepalive_interval c, shorten_timeout ms (keepalive_interval c))
      else if keepalive_retry_interval c > 0
      then (keepalive_retry_interval c, shorten_timeout ms (keepalive_retry_interval c))
      else (chrono_seconds 3, ms))"

text \<open>
  The end of both lease requests. When the request cannot be created the code logs its URL
  through the null pointer.
\<close>

definition launch_lease_request :: "etcd_env \<Rightarrow> string \<Rightarrow> json \<Rightarrow> int \<Rightarrow> etcd_cluster \<Rightarrow> bool \<times> etcd_cluster" where
  "launch_lease_request E api doc t s =
     (case launch_request E (path_node (conf s) @ api) doc t On_lease_keepalive s of
        (Launched i, s) \<Rightarrow> (True, s\<lparr>rpc_keepalive := Some i\<rparr>)
      | (Start_failed, s) \<Rightarrow> (False, s)
      | (Create_failed, s) \<Rightarrow>
          let s = (if keepalive_retry_interval (conf s) \<le> 0
                   then upd_conf (keepalive_next_update_time_update (\<lambda>_. sys_now s + keepalive_retry_interval (conf s))) s
                   else s)
          in (True, fault_if Null_pointer (en_log_error E) s))"

definition create_request_lease_grant :: "etcd_env \<Rightarrow> etcd_cluster \<Rightarrow> bool \<times> etcd_cluster" where
  "create_request_lease_grant E s =
     (if \<not> curl_multi s \<or> path_node (conf s) = [] then (False, s)
      else if check_flag kClosing s \<or> \<not> check_flag kEnableLease s then (False, s)
      else if sys_now s \<le> keepalive_next_update_time (conf s) then (False, s)
      else
        let s = reset_rpc_keepalive s;
            (interval, timeout) = lease_grant_interval s;
            s = upd_conf (keepalive_next_update_time_update (\<lambda>_. sys_now s + interval)) s
        in launch_lease_request E ''/v3/lease/grant''
             (JSON_Object [(''ID'', JSON_Int (sint (get_lease s))),
                (''TTL'', JSON_Int (cdiv (keepalive_timeout (conf s)) 1000000000))]) timeout s)"

definition create_request_lease_keepalive :: "etcd_env \<Rightarrow> etcd_cluster \<Rightarrow> bool \<times> etcd_cluster" where
  "create_request_lease_keepalive E s =
     (if \<not> curl_multi s \<or> get_lease s = 0 \<or> path_node (conf s) = [] then (False, s)
      else if check_flag kClosing s \<or> \<not> check_flag kEnableLease s then (False, s)
      else if sys_now s \<le> keepalive_next_update_time (conf s) then (False, s)
      else
        let s = reset_rpc_keepalive s;
            c = conf s;
            (interval, timeout) =
              (if keepalive_interval c \<le> 0 then (chrono_seconds 3, get_http_timeout_ms s)
               else (keepalive_interval c, shorten_timeout (get_http_timeout_ms s) (keepalive_interval c)));
            s = upd_conf (keepalive_next_update_time_update (\<lambda>_. sys_now s + interval)) s
        in launch_lease_request E ''/v3/lease/keepalive'' (JSON_Object [(''ID'', JSON_Int (sint (get_lease s)))]) timeout s)"

definition create_request_lease_revoke :: "etcd_env \<Rightarrow> etcd_cluster \<Rightarrow> (nat \<times> http_request) option \<times> etcd_cluster" where
  "create_request_lease_revoke E s =
     (if \<not> curl_multi s \<or> get_lease s = 0 \<or> path_node (conf s) = [] then (None, s)
      else new_request E ''/v3/kv/lease/revoke'' (JSON_Object [(''ID'', JSON_Int (sint (get_lease s)))]) (get_http_timeout_ms s) s)"

section \<open>Flags and callbacks\<close>

text \<open>The callbacks of a list, called in order; 0 stands for an empty function.\<close>

fun call_each :: "(nat \<Rightarrow> etcd_action) \<Rightarrow> nat list \<Rightarrow> etcd_cluster \<Rightarrow> etcd_cluster" where
  "call_each event [] s = s"
| "call_each event (f # fs) s = call_each event fs (if f \<noteq> 0 then act (event f) s else s)"

definition set_flag :: "etcd_env \<Rightarrow> flag_t \<Rightarrow> bool \<Rightarrow> etcd_cluster \<Rightarrow> etcd_cluster" where
  "set_flag E f v s =
     (if v = check_flag f s then s
      else
        let s = put_flag f v s in
        case f of
          kEnableLease \<Rightarrow> if v then snd (create_request_lease_grant E s) else reset_rpc_keepalive s
        | kRunning \<Rightarrow>
            if v then call_each Event_up (event_on_up_callbacks s) s else call_each Event_down (event_on_down_callbacks s) s
        | _ \<Rightarrow> s)"

definition add_on_event_up :: "nat \<Rightarrow> bool \<Rightarrow> etcd_cluster \<Rightarrow> etcd_cluster" where
  "add_on_event_up fn trigger_if_running s =
     (if fn = 0 then s
      else
        let s = (if trigger_if_running \<and> check_flag kRunning s then act (Event_up fn) s else s)
        in s\<lparr>event_on_up_callbacks := event_on_up_callbacks s @ [fn]\<rparr>)"

definition add_on_event_down :: "nat \<Rightarrow> bool \<Rightarrow> etcd_cluster \<Rightarrow> etcd_cluster" where
  "add_on_event_down fn trigger_if_not_running s =
     (if fn = 0 then s
      else
        let s = (if trigger_if_not_running \<and> \<not> check_flag kRunning s then act (Event_down fn) s else s)
        in s\<lparr>event_on_down_callbacks := event_on_down_callbacks s @ [fn]\<rparr>)"

definition remove_on_event_up :: "nat \<Rightarrow> etcd_cluster \<Rightarrow> etcd_cluster" where
  "remove_on_event_up fn s = s\<lparr>event_on_up_callbacks := remove1 fn (event_on_up_callbacks s)\<rparr>"

definition remove_on_event_down :: "nat \<Rightarrow> etcd_cluster \<Rightarrow> etcd_cluster" where
  "remove_on_event_down fn s = s\<lparr>event_on_down_callbacks := remove1 fn (event_on_down_callbacks s)\<rparr>"

section \<open>Key-value requests\<close>

definition cannot_request :: "etcd_cluster \<Rightarrow> bool" where
  "cannot_request s \<longleftrightarrow> \<not> curl_multi s \<or> path_node (conf s) = [] \<or> check_flag kClosing s"

definition create_request_kv_get ::
  "etcd_env \<Rightarrow> string \<Rightarrow> string \<Rightarrow> i64 \<Rightarrow> i64 \<Rightarrow> etcd_cluster \<Rightarrow> (nat \<times> http_request) option \<times> etcd_cluster" where
  "create_request_kv_get E key range_end limit at_revision s =
     (if cannot_request s then (None, s)
      else new_request E ''/v3/kv/range''
             (JSON_Object (pack_key_range (en_packer E) key range_end [] @
                [(''limit'', JSON_Int (sint limit)), (''revision'', JSON_Int (sint at_revision))]))
             (get_http_timeout_ms s) s)"

definition create_request_kv_set ::
  "etcd_env \<Rightarrow> string \<Rightarrow> string \<Rightarrow> bool \<Rightarrow> bool \<Rightarrow> bool \<Rightarrow> bool \<Rightarrow> etcd_cluster \<Rightarrow> (nat \<times> http_request) option \<times> etcd_cluster" where
  "create_request_kv_set E key val assign_lease prev_kv ignore_value ignore_lease s =
     (if cannot_request s then (None, s)
      else if assign_lease \<and> get_lease s = 0 then (None, s)
      else new_request E ''/v3/kv/put''
             (JSON_Object (pack_base64 (en_packer E) ''value'' val (pack_base64 (en_packer E) ''key'' key []) @
                (if assign_lease then [(''lease'', JSON_Int (sint (get_lease s)))] else []) @
                [(''prev_kv'', JSON_Bool prev_kv), (''ignore_value'', JSON_Bool ignore_value),
                 (''ignore_lease'', JSON_Bool ignore_lease)]))
             (get_http_timeout_ms s) s)"

definition create_request_kv_del ::
  "etcd_env \<Rightarrow> string \<Rightarrow> string \<Rightarrow> bool \<Rightarrow> etcd_cluster \<Rightarrow> (nat \<times> http_request) option \<times> etcd_cluster" where
  "create_request_kv_del E key range_end prev_kv s =
     (if cannot_request s then (None, s)
      else new_request E ''/v3/kv/deleterange''
             (JSON_Object (pack_key_range (en_packer E) key range_end [] @ [(''prev_kv'', JSON_Bool prev_kv)]))
             (get_http_timeout_ms s) s)"

definition create_request_watch ::
  "etcd_env \<Rightarrow> string \<Rightarrow> string \<Rightarrow> i64 \<Rightarrow> bool \<Rightarrow> bool \<Rightarrow> etcd_cluster \<Rightarrow> (nat \<times> http_request) option \<times> etcd_cluster" where
  "create_request_watch E key range_end start_revision prev_kv progress_notify s =
     (if cannot_request s then (None, s)
      else
        let create_request = pack_key_range (en_packer E) key range_end [] @
              (if prev_kv then [(''prev_kv'', JSON_Bool prev_kv)] else []) @
              [(''progress_notify'', JSON_Bool progress_notify)] @
              (if start_revision \<noteq> 0 then [(''start_revision'', JSON_Int (sint start_revision))] else [])
        in case new_request E ''/v3/watch'' (JSON_Object [(''create_request'', JSON_Object create_request)])
                  (get_http_timeout_ms s) s of
             (Some (i, rq), s) \<Rightarrow> (Some (i, rq\<lparr>rq_options := rq_options rq @ [Opt_keepalive 75 150, Opt_reuse_connection False]\<rparr>), s)
           | (None, s) \<Rightarrow> (None, s))"

end
