(* ===== verification/Etcd_Watcher.thy ===== *)
theory Etcd_Watcher
  imports Etcd_Lease
begin

text \<open>
  \<^verbatim>\<open>src/atframe/etcdcli/etcd_watcher.cpp\<close>: a watcher reads a range of keys and its revision,
  then watches the range from the next revision on. The replies of a watch arrive as a stream of
  JSON texts in arbitrary chunks.
\<close>

section \<open>The object\<close>

definition watcher_create :: "string \<Rightarrow> string \<Rightarrow> etcd_watcher" where
  "watcher_create path range_end =
     \<lparr>w_path = path, w_range_end = range_end, w_data_stream = [], w_data_brackets = 0, w_rpc = None,
      w_is_actived = False, w_is_retry_mode = False, w_enable_progress_notify = True, w_enable_prev_kv = False,
      w_last_revision = 0, w_next_request_time = 0, w_retry_interval = chrono_seconds 15,
      w_request_timeout = chrono_seconds 3600, w_get_request_timeout = chrono_seconds 180,
      w_startup_random_delay_min = 0, w_startup_random_delay_max = 0, w_evt_handle = False\<rparr>"

definition watcher_close :: "nat \<Rightarrow> etcd_cluster \<Rightarrow> etcd_cluster" where
  "watcher_close w s =
     upd_watcher w (\<lambda>W. W\<lparr>w_rpc := None, w_is_actived := False, w_is_retry_mode := False, w_last_revision := 0,
         w_evt_handle := False\<rparr>)
       (http_stop (w_rpc (watchers s w)) s)"

section \<open>Requests of the watcher\<close>

definition set_next_request_time :: "nat \<Rightarrow> timepoint \<Rightarrow> etcd_cluster \<Rightarrow> etcd_cluster" where
  "set_next_request_time w t s = upd_watcher w (\<lambda>W. W\<lparr>w_next_request_time := t\<rparr>) s"

text \<open>
  The delay on start-up. The message it logs reads the URL of the request, whose pointer is
  null at this place.
\<close>

definition startup_delay :: "etcd_env \<Rightarrow> nat \<Rightarrow> etcd_cluster \<Rightarrow> etcd_cluster" where
  "startup_delay E w s =
     (let W = watchers s w;
          (offset, s) =
            (if w_startup_random_delay_max W > w_startup_random_delay_min W
             then random_below E (w_startup_random_delay_max W - w_startup_random_delay_min W) s
             else (w_startup_random_delay_min W, s))
      in fault_if Null_pointer (en_log_info E) (set_next_request_time w (sys_now s + offset) s))"

definition start_watcher_request ::
  "etcd_env \<Rightarrow> nat \<Rightarrow> (nat \<times> http_request) option \<times> etcd_cluster \<Rightarrow> (http_request \<Rightarrow> http_request) \<Rightarrow> etcd_cluster" where
  "start_watcher_request E w made setup =
     (case made of
        (None, s) \<Rightarrow> set_next_request_time w (sys_now s + w_retry_interval (watchers s w)) s
      | (Some (i, rq), s) \<Rightarrow>
          let (res, s) = http_start E i (setup rq) s
          in if res \<noteq> 0 then s else upd_watcher w (\<lambda>W. W\<lparr>w_rpc := Some i\<rparr>) s)"

definition request_range :: "etcd_env \<Rightarrow> nat \<Rightarrow> etcd_cluster \<Rightarrow> etcd_cluster" where
  "request_range E w s =
     (let W = watchers s w in
      start_watcher_request E w
        (create_request_kv_get E (w_path W) (if w_is_retry_mode W then [] else w_range_end W) 0 0 s)
        (\<lambda>rq. rq\<lparr>rq_options := rq_options rq @
              (if \<not> w_is_retry_mode W \<and> w_get_request_timeout W > 0
               then [Opt_timeout (count_milliseconds (w_get_request_timeout W))] else []),
            rq_priv_data := Priv_Watcher w, rq_on_complete := Some On_range_completed\<rparr>))"

text \<open>The data stream is cleared once the request is created, before it starts.\<close>

definition clear_stream :: "nat \<Rightarrow> (nat \<times> http_request) option \<times> etcd_cluster \<Rightarrow> (nat \<times> http_request) option \<times> etcd_cluster" where
  "clear_stream w made =
     (case made of
        (None, s) \<Rightarrow> (None, s)
      | (Some r, s) \<Rightarrow> (Some r, upd_watcher w (\<lambda>W. W\<lparr>w_data_stream := [], w_data_brackets := 0\<rparr>) s))"

definition request_watch :: "etcd_env \<Rightarrow> nat \<Rightarrow> etcd_cluster \<Rightarrow> etcd_cluster" where
  "request_watch E w s =
     (let W = watchers s w in
      start_watcher_request E w
        (clear_stream w
          (create_request_watch E (w_path W) (w_range_end W) (w_last_revision W + 1) (w_enable_prev_kv W)
             (w_enable_progress_notify W) s))
        (\<lambda>rq. rq\<lparr>rq_options := rq_options rq @ [Opt_timeout (count_milliseconds (w_request_timeout W))],
            rq_priv_data := Priv_Watcher w, rq_on_complete := Some On_watch_completed, rq_on_write := True\<rparr>))"

definition watcher_process :: "etcd_env \<Rightarrow> nat \<Rightarrow> etcd_cluster \<Rightarrow> etcd_cluster" where
  "watcher_process E w s =
     (if w_rpc (watchers s w) \<noteq> None then s
      else
        let s = upd_watcher w (\<lambda>W. W\<lparr>w_is_actived := False\<rparr>) s; W = watchers s w in
        if w_next_request_time W > sys_now s then s
        else if w_next_request_time W \<le> 0 \<and> w_startup_random_delay_min W > 0 then startup_delay E w s
        else if w_last_revision W = 0 \<or> w_is_retry_mode W then request_range E w s
        else request_watch E w s)"

definition watcher_active :: "etcd_env \<Rightarrow> nat \<Rightarrow> etcd_cluster \<Rightarrow> etcd_cluster" where
  "watcher_active E w s = watcher_process E w (upd_watcher w (\<lambda>W. W\<lparr>w_is_actived := True\<rparr>) s)"

section \<open>The reply to a range request\<close>

definition new_kv :: etcd_key_value where
  "new_kv = \<lparr>kv_key = [], create_revision = 0, mod_revision = 0, version = 0, kv_value = [], kv_lease = 0\<rparr>"

definition new_header :: etcd_response_header where
  "new_header = \<lparr>cluster_id = 0, member_id = 0, revision = 0, raft_term = 0\<rparr>"

definition new_event :: event_t where
  "new_event = \<lparr>evt_type = kPut, evt_kv = new_kv, evt_prev_kv = new_kv\<rparr>"

text \<open>All pairs of an array; None when an element is not an object.\<close>

fun unpack_all :: "('a \<Rightarrow> 'b option) \<Rightarrow> 'a list \<Rightarrow> 'b list option" where
  "unpack_all f [] = Some []"
| "unpack_all f (v # vs) = (case f v of None \<Rightarrow> None | Some x \<Rightarrow> map_option (Cons x) (unpack_all f vs))"

definition put_event :: "packer_api \<Rightarrow> json \<Rightarrow> event_t option" where
  "put_event A v = map_option (\<lambda>kv. new_event\<lparr>evt_kv := kv\<rparr>) (unpack_key_value A new_kv v)"

definition trigger_event :: "nat \<Rightarrow> etcd_response_header \<Rightarrow> response_t \<Rightarrow> etcd_cluster \<Rightarrow> etcd_cluster" where
  "trigger_event w header response s =
     (if w_evt_handle (watchers s w) then act (Watch_event w header response) s else s)"

definition snapshot_of :: "event_t list \<Rightarrow> response_t" where
  "snapshot_of es =
     \<lparr>watch_id = 0, created = False, canceled = False, snapshot = True, compact_revision = 0, events = es\<rparr>"

definition header_member :: "packer_api \<Rightarrow> json_members \<Rightarrow> etcd_response_header option" where
  "header_member A ms = (case map_of ms ''header'' of None \<Rightarrow> Some new_header | Some v \<Rightarrow> unpack_response_header A v)"

definition kvs_events :: "packer_api \<Rightarrow> json_members \<Rightarrow> event_t list option" where
  "kvs_events A ms =
     (case map_of ms ''kvs'' of Some (JSON_Array vs) \<Rightarrow> unpack_all (put_event A) vs | _ \<Rightarrow> Some [])"

definition retry_later :: "nat \<Rightarrow> etcd_cluster \<Rightarrow> etcd_cluster" where
  "retry_later w s = set_next_request_time w (sys_now s + w_retry_interval (watchers s w)) s"

definition on_range_completed :: "etcd_env \<Rightarrow> nat \<Rightarrow> http_response \<Rightarrow> etcd_cluster \<Rightarrow> etcd_cluster" where
  "on_range_completed E w rs s =
     (let s = upd_watcher w (\<lambda>W. W\<lparr>w_rpc := None\<rparr>) s; A = en_packer E in
      if \<not> request_succeeded rs then
        check_authorization_expired E (rs_code rs) (rs_content rs)
          (check_socket_error_code (rs_error_code rs) (retry_later w s))
      else if w_is_retry_mode (watchers s w) then
        watcher_active E w (set_next_request_time w (sys_now s) (upd_watcher w (\<lambda>W. W\<lparr>w_is_retry_mode := False\<rparr>) s))
      else
        case parse_object A (rs_content rs) of
          Some (JSON_Object ms) \<Rightarrow>
            (case header_member A ms of
               None \<Rightarrow> fault_if Assertion_failed True s
             | Some header \<Rightarrow>
                 if revision header = 0 then watcher_active E w (retry_later w s)
                 else
                   let s = upd_watcher w (\<lambda>W. W\<lparr>w_last_revision := revision header\<rparr>) s in
                   case kvs_events A ms of
                     None \<Rightarrow> fault_if Assertion_failed True s
                   | Some es \<Rightarrow>
                       let s = trigger_event w header (snapshot_of es) s
                       in watcher_active E w (set_next_request_time w (sys_now s) s))
        | _ \<Rightarrow> watcher_active E w (retry_later w s))"

section \<open>The stream of a watch\<close>

definition opens :: "char \<Rightarrow> bool" where
  "opens c \<longleftrightarrow> c = CHR ''{'' \<or> c = CHR ''[''"

definition closes :: "char \<Rightarrow> bool" where
  "closes c \<longleftrightarrow> c = CHR ''}'' \<or> c = CHR '']''"

text \<open>Outside of a text everything up to an opening bracket or a NUL is skipped.\<close>

definition skip_to_text :: "string \<Rightarrow> string" where
  "skip_to_text inbuf = dropWhile (\<lambda>c. c \<noteq> CHR 0x00 \<and> \<not> opens c) inbuf"

text \<open>
  The scan for the end of the text, from a number of open brackets: the characters read, the
  number of open brackets behind them and, when the text ends, the rest of the buffer.
\<close>

fun scan_text :: "int \<Rightarrow> string \<Rightarrow> string \<times> int \<times> string option" where
  "scan_text n [] = ([], n, None)"
| "scan_text n (c # cs) =
     (let n' = (if opens c then n + 1 else n) - (if closes c then 1 else 0) in
      if n' \<le> 0 then ([c], n', Some cs)
      else case scan_text n' cs of (text, m, rest) \<Rightarrow> (c # text, m, rest))"

lemma length_scan_text: "scan_text n cs = (done_text, m, Some rest) \<Longrightarrow> length rest < length cs"
  by (induction cs arbitrary: n done_text m) (fastforce simp: Let_def split: if_splits prod.splits)+

definition watch_event_type :: "packer_api \<Rightarrow> json_members \<Rightarrow> etcd_watch_event" where
  "watch_event_type A ms =
     (case map_of ms ''type'' of
        None \<Rightarrow> kPut
      | Some (JSON_String t) \<Rightarrow> if map ascii_lower (c_str t) = ''delete'' then kDelete else kPut
      | Some (JSON_Int n) \<Rightarrow> if unpack_uint64 A ms ''type'' 0 = 0 then kPut else kDelete
      | Some (JSON_Double x) \<Rightarrow> if unpack_uint64 A ms ''type'' 0 = 0 then kPut else kDelete
      | _ \<Rightarrow> kPut)"

definition kv_member :: "packer_api \<Rightarrow> json_members \<Rightarrow> string \<Rightarrow> etcd_key_value option" where
  "kv_member A ms key = (case map_of ms key of None \<Rightarrow> Some new_kv | Some v \<Rightarrow> unpack_key_value A new_kv v)"

definition unpack_event :: "packer_api \<Rightarrow> json \<Rightarrow> event_t option" where
  "unpack_event A v =
     (case v of
        JSON_Object ms \<Rightarrow>
          (case (kv_member A ms ''kv'', kv_member A ms ''prev_kv'') of
             (Some kv, Some prev_kv) \<Rightarrow> Some \<lparr>evt_type = watch_event_type A ms, evt_kv = kv, evt_prev_kv = prev_kv\<rparr>
           | _ \<Rightarrow> None)
      | _ \<Rightarrow> None)"

definition unpack_events :: "packer_api \<Rightarrow> json_members \<Rightarrow> event_t list option" where
  "unpack_events A ms =
     (case map_of ms ''events'' of Some (JSON_Array vs) \<Rightarrow> unpack_all (unpack_event A) vs | _ \<Rightarrow> Some [])"

definition unpack_response :: "etcd_env \<Rightarrow> json_members \<Rightarrow> event_t list \<Rightarrow> response_t" where
  "unpack_response E ms es =
     (let A = en_packer E; out = en_uninitialised E in
      \<lparr>watch_id = unpack_int64 A ms ''watch_id'' out, created = unpack_bool A ms ''created'' (out \<noteq> 0),
       canceled = unpack_bool A ms ''canceled'' (out \<noteq> 0), snapshot = False,
       compact_revision = unpack_int64 A ms ''compact_revision'' out, events = es\<rparr>)"

definition save_revision :: "nat \<Rightarrow> i64 \<Rightarrow> etcd_cluster \<Rightarrow> etcd_cluster" where
  "save_revision w rev_no s = (if rev_no \<noteq> 0 then upd_watcher w (\<lambda>W. W\<lparr>w_last_revision := rev_no\<rparr>) s else s)"

text \<open>
  One complete text. A cancelled watch is stopped, which ends its request; when the revision the
  watch had reached is compacted, the next request reads the range again.
\<close>

definition watch_trunk :: "etcd_env \<Rightarrow> nat \<Rightarrow> string \<Rightarrow> etcd_cluster \<Rightarrow> etcd_cluster" where
  "watch_trunk E w value_json s =
     (case parse_object (en_packer E) value_json of
        Some (JSON_Object root) \<Rightarrow>
          (case (case map_of root ''result'' of None \<Rightarrow> JSON_Object root | Some v \<Rightarrow> v) of
             JSON_Object ms \<Rightarrow>
               let previous_revision = w_last_revision (watchers s w) in
               (case header_member (en_packer E) ms of
                  None \<Rightarrow> fault_if Assertion_failed True s
                | Some header \<Rightarrow>
                    let s = save_revision w (revision header) s in
                    (case unpack_events (en_packer E) ms of
                       None \<Rightarrow> fault_if Assertion_failed True s
                     | Some es \<Rightarrow>
                         let response = unpack_response E ms es;
                             s = trigger_event w header response s
                         in if canceled response \<and> sint previous_revision < sint (compact_revision response)
                            then upd_watcher w (\<lambda>W. W\<lparr>w_last_revision := 0\<rparr>) s
                            else s))
           | _ \<Rightarrow> fault_if Assertion_failed True s)
      | _ \<Rightarrow> s)"

function watch_write_loop :: "etcd_env \<Rightarrow> nat \<Rightarrow> string \<Rightarrow> etcd_cluster \<Rightarrow> etcd_cluster" where
  "watch_write_loop E w inbuf s =
     (if inbuf = [] then s
      else
        let W = watchers s w;
            inbuf = (if w_data_brackets W \<le> 0 then skip_to_text inbuf else inbuf)
        in case scan_text (w_data_brackets W) inbuf of
             (text, n, None) \<Rightarrow>
               upd_watcher w (\<lambda>W. W\<lparr>w_data_stream := w_data_stream W @ text, w_data_brackets := n\<rparr>) s
           | (text, n, Some rest) \<Rightarrow>
               watch_write_loop E w rest
                 (watch_trunk E w (w_data_stream W @ text)
                   (upd_watcher w (\<lambda>W. W\<lparr>w_data_stream := [], w_data_brackets := 0\<rparr>) s)))"
  by pat_completeness auto
termination
  by (relation "measure (\<lambda>(E, w, inbuf, s). length inbuf)")
    (auto dest!: sym [of "(_, _, Some _)"] length_scan_text simp: skip_to_text_def
       intro: less_le_trans [OF _ length_dropWhile_le] split: if_splits)

declare watch_write_loop.simps [simp del]

definition on_watch_write :: "etcd_env \<Rightarrow> nat \<Rightarrow> string \<Rightarrow> etcd_cluster \<Rightarrow> etcd_cluster" where
  "on_watch_write E w inbuf s = watch_write_loop E w inbuf s"

section \<open>The end of a watch\<close>

definition on_watch_completed :: "etcd_env \<Rightarrow> nat \<Rightarrow> http_response \<Rightarrow> etcd_cluster \<Rightarrow> etcd_cluster" where
  "on_watch_completed E w rs s =
     (let s = upd_watcher w (\<lambda>W. W\<lparr>w_rpc := None, w_is_retry_mode := True\<rparr>) s in
      if \<not> request_succeeded rs then
        let s = (if rs_error_code rs \<noteq> CURLE_OPERATION_TIMEDOUT \<and> cdiv (rs_code rs) 100 \<noteq> 2 then retry_later w s
                 else set_next_request_time w (sys_now s) s);
            s = check_socket_error_code (rs_error_code rs) s;
            s = check_authorization_expired E (rs_code rs) (rs_content rs) s
        in watcher_active E w s
      else watcher_active E w s)"

section \<open>Configuration\<close>

text \<open>A protobuf duration as a number of nanoseconds, zero standing for the default.\<close>

definition convert_duration_with_default :: "pb_duration \<Rightarrow> int \<Rightarrow> int" where
  "convert_duration_with_default d default_duration =
     (if dur_seconds d = 0 \<and> dur_nanos d = 0 then default_duration
      else chrono_seconds (sint (dur_seconds d)) + sint (dur_nanos d))"

record atapp_etcd_watcher =
  cfg_retry_interval :: pb_duration
  cfg_request_timeout :: pb_duration
  cfg_get_request_timeout :: pb_duration
  cfg_startup_random_delay_min :: pb_duration
  cfg_startup_random_delay_max :: pb_duration

definition set_conf_from_protobuf :: "atapp_etcd_watcher \<Rightarrow> nat \<Rightarrow> etcd_cluster \<Rightarrow> etcd_cluster" where
  "set_conf_from_protobuf config w s =
     upd_watcher w (\<lambda>W. W\<lparr>
       w_request_timeout := convert_duration_with_default (cfg_request_timeout config) (chrono_seconds 3600),
       w_retry_interval := convert_duration_with_default (cfg_retry_interval config) (chrono_seconds 15),
       w_get_request_timeout := convert_duration_with_default (cfg_get_request_timeout config) (chrono_seconds 180),
       w_startup_random_delay_min := convert_duration_with_default (cfg_startup_random_delay_min config) 0,
       w_startup_random_delay_max := convert_duration_with_default (cfg_startup_random_delay_max config) 0\<rparr>) s"

text \<open>The pointer to the function may be null, which changes nothing; the function may be empty.\<close>

definition set_evt_handle :: "bool option \<Rightarrow> nat \<Rightarrow> etcd_cluster \<Rightarrow> etcd_cluster" where
  "set_evt_handle fn w s = (case fn of None \<Rightarrow> s | Some b \<Rightarrow> upd_watcher w (\<lambda>W. W\<lparr>w_evt_handle := b\<rparr>) s)"

end
