(* ===== verification/Etcd_Stream.thy ===== *)
theory Etcd_Stream
  imports Etcd_Watcher
begin

text \<open>
  The stream of a watch: how the scan behaves on the concatenation of two chunks, and on the
  concatenation of texts.
\<close>

section \<open>The scan\<close>

lemma scan_text_append_done:
  "scan_text n xs = (done_text, m, Some rest) \<Longrightarrow> scan_text n (xs @ ys) = (done_text, m, Some (rest @ ys))"
  by (induction n xs arbitrary: done_text rule: scan_text.induct) (fastforce simp: Let_def split: if_splits prod.splits)+

lemma scan_text_append_open:
  "scan_text n xs = (read, m, None) \<Longrightarrow>
   scan_text n (xs @ ys) = (case scan_text m ys of (read', m', rest) \<Rightarrow> (read @ read', m', rest))"
  by (induction n xs arbitrary: read rule: scan_text.induct) (fastforce simp: Let_def split: if_splits prod.splits)+

lemma scan_text_open: "scan_text n xs = (read, m, None) \<Longrightarrow> xs \<noteq> [] \<Longrightarrow> 0 < m"
proof (induction n xs arbitrary: read rule: scan_text.induct)
  case (2 n c cs)
  let ?n = "(if opens c then n + 1 else n) - (if closes c then 1 else 0)"
  have open': "\<not> ?n \<le> 0" using "2.prems"(1) by (auto simp: Let_def split: if_splits)
  obtain t where step: "scan_text ?n cs = (t, m, None)"
    using "2.prems"(1) open' by (auto simp: Let_def split: prod.splits)
  show ?case
  proof (cases cs)
    case Nil
    then show ?thesis using step open' by simp
  next
    case (Cons c' cs')
    then show ?thesis using "2.IH" [OF refl open' step] by simp
  qed
qed simp

lemma skip_to_text_append: "skip_to_text (xs @ ys) = (if skip_to_text xs = [] then skip_to_text ys else skip_to_text xs @ ys)"
  by (auto simp: skip_to_text_def dropWhile_append dropWhile_eq_Nil_conv)

section \<open>Chunks\<close>

lemma watch_write_loop_Nil [simp]: "watch_write_loop E w [] s = s"
  by (subst watch_write_loop.simps) simp

text \<open>One round of the loop, for a buffer that is not empty.\<close>

definition after_skip :: "int \<Rightarrow> string \<Rightarrow> string" where
  "after_skip n inbuf = (if n \<le> 0 then skip_to_text inbuf else inbuf)"

lemma after_skip_Nil [simp]: "after_skip n [] = []"
  by (simp add: after_skip_def skip_to_text_def)

lemma after_skip_append:
  "after_skip n (xs @ ys) = (if after_skip n xs = [] then after_skip n ys else after_skip n xs @ ys)"
  by (cases "xs = []") (auto simp: after_skip_def skip_to_text_append skip_to_text_def)

lemma watch_write_loop_done:
  assumes "scan_text (w_data_brackets (watchers s w)) (after_skip (w_data_brackets (watchers s w)) inbuf) = (done_text, n, Some rest)"
  shows "watch_write_loop E w inbuf s =
    watch_write_loop E w rest
      (watch_trunk E w (w_data_stream (watchers s w) @ done_text)
        (upd_watcher w (\<lambda>W. W\<lparr>w_data_stream := [], w_data_brackets := 0\<rparr>) s))"
proof -
  have "inbuf \<noteq> []" using assms by (auto simp: after_skip_def skip_to_text_def split: if_splits)
  then show ?thesis using assms by (subst watch_write_loop.simps) (simp add: Let_def after_skip_def cong: if_cong)
qed

lemma watch_write_loop_open:
  assumes "scan_text (w_data_brackets (watchers s w)) (after_skip (w_data_brackets (watchers s w)) inbuf) = (read, n, None)"
  shows "watch_write_loop E w inbuf s =
    upd_watcher w (\<lambda>W. W\<lparr>w_data_stream := w_data_stream W @ read, w_data_brackets := n\<rparr>) s"
proof (cases "inbuf = []")
  case True
  then have "read = []" "n = w_data_brackets (watchers s w)" using assms by auto
  then show ?thesis using True by (simp add: fun_upd_idem)
next
  case False
  then show ?thesis using assms by (subst watch_write_loop.simps) (simp add: Let_def after_skip_def cong: if_cong)
qed

lemma watch_write_loop_append:
  "watch_write_loop E w (xs @ ys) s = watch_write_loop E w ys (watch_write_loop E w xs s)"
proof (induction "length xs" arbitrary: xs s rule: less_induct)
  case less
  let ?W = "watchers s w"
  let ?n = "w_data_brackets ?W"
  obtain read m rest where scan: "scan_text ?n (after_skip ?n xs) = (read, m, rest)" by (cases "scan_text ?n (after_skip ?n xs)")
  show ?case
  proof (cases rest)
    case (Some r)
    have "after_skip ?n xs \<noteq> []" using scan Some by auto
    then have split: "after_skip ?n (xs @ ys) = after_skip ?n xs @ ys" by (simp add: after_skip_append)
    have "length r < length (after_skip ?n xs)" using scan Some length_scan_text by blast
    also have "\<dots> \<le> length xs" by (simp add: after_skip_def skip_to_text_def length_dropWhile_le)
    finally have shorter: "length r < length xs" .
    have one: "scan_text ?n (after_skip ?n xs) = (read, m, Some r)" using scan Some by simp
    have two: "scan_text ?n (after_skip ?n (xs @ ys)) = (read, m, Some (r @ ys))"
      using scan_text_append_done [OF one] split by simp
    show ?thesis unfolding watch_write_loop_done [OF one] watch_write_loop_done [OF two] by (rule less [OF shorter])
  next
    case None
    have one: "scan_text ?n (after_skip ?n xs) = (read, m, None)" using scan None by simp
    let ?s = "upd_watcher w (\<lambda>W. W\<lparr>w_data_stream := w_data_stream W @ read, w_data_brackets := m\<rparr>) s"
    have first: "watch_write_loop E w xs s = ?s" by (rule watch_write_loop_open [OF one])
    show ?thesis
    proof (cases "after_skip ?n xs = []")
      case True
      then have "read = []" "m = ?n" using one by auto
      then have "?s = s" by (simp add: fun_upd_idem)
      moreover have "watch_write_loop E w (xs @ ys) s = watch_write_loop E w ys s"
      proof -
        have same: "after_skip ?n (xs @ ys) = after_skip ?n ys" using True by (simp add: after_skip_append)
        obtain read' m' rest' where scan': "scan_text ?n (after_skip ?n ys) = (read', m', rest')"
          by (cases "scan_text ?n (after_skip ?n ys)")
        show ?thesis
        proof (cases rest')
          case None
          then show ?thesis using watch_write_loop_open scan' same by metis
        next
          case (Some r)
          then show ?thesis using watch_write_loop_done scan' same by metis
        qed
      qed
      ultimately show ?thesis using first by simp
    next
      case False
      have pos: "0 < m" by (rule scan_text_open [OF one False])
      have split: "after_skip ?n (xs @ ys) = after_skip ?n xs @ ys" using False by (simp add: after_skip_append)
      have keep: "after_skip m ys = ys" using pos by (simp add: after_skip_def)
      obtain read' m' rest' where scan': "scan_text m ys = (read', m', rest')" by (cases "scan_text m ys")
      have both: "scan_text ?n (after_skip ?n (xs @ ys)) = (read @ read', m', rest')"
        using scan_text_append_open [OF one, of ys] scan' split by simp
      have second: "scan_text (w_data_brackets (watchers ?s w)) (after_skip (w_data_brackets (watchers ?s w)) ys) = (read', m', rest')"
        using scan' keep by simp
      show ?thesis
      proof (cases rest')
        case None
        show ?thesis unfolding first watch_write_loop_open [OF both [unfolded None]] watch_write_loop_open [OF second [unfolded None]]
          by simp
      next
        case (Some r)
        show ?thesis unfolding first watch_write_loop_done [OF both [unfolded Some]] watch_write_loop_done [OF second [unfolded Some]]
          by simp
      qed
    qed
  qed
qed

section \<open>Texts\<close>

text \<open>A text of the stream: it opens with a bracket and ends where all brackets are closed.\<close>

definition stream_text :: "string \<Rightarrow> bool" where
  "stream_text v \<longleftrightarrow> v \<noteq> [] \<and> opens (hd v) \<and> snd (snd (scan_text 0 v)) = Some []"

definition separator :: "string \<Rightarrow> bool" where
  "separator g \<longleftrightarrow> list_all (\<lambda>c. c \<noteq> CHR 0x00 \<and> \<not> opens c) g"

lemma scan_text_read: "scan_text n xs = (read, m, Some rest) \<Longrightarrow> xs = read @ rest"
  by (induction n xs arbitrary: read rule: scan_text.induct) (fastforce simp: Let_def split: if_splits prod.splits)+

definition idle_stream :: "nat \<Rightarrow> etcd_cluster \<Rightarrow> bool" where
  "idle_stream w s \<longleftrightarrow> w_data_stream (watchers s w) = [] \<and> w_data_brackets (watchers s w) = 0"

lemma watch_trunk_stream [simp]:
  "w_data_stream (watchers (watch_trunk E w v s) w) = w_data_stream (watchers s w)"
  "w_data_brackets (watchers (watch_trunk E w v s) w) = w_data_brackets (watchers s w)"
  by (auto simp: watch_trunk_def Let_def fault_if_def save_revision_def trigger_event_def
      split: option.splits json.splits)

lemma idle_stream_trunk [simp]: "idle_stream w (watch_trunk E w v s) = idle_stream w s"
  by (simp add: idle_stream_def)

lemma watch_write_loop_text:
  assumes "idle_stream w s" "separator g" "stream_text v"
  shows "watch_write_loop E w (g @ v) s = watch_trunk E w v s"
proof -
  have "dropWhile (\<lambda>c. c \<noteq> CHR 0x00 \<and> \<not> opens c) g = []" using assms(2) by (auto simp: separator_def list_all_iff)
  moreover have "skip_to_text v = v" using assms(3) by (cases v) (auto simp: skip_to_text_def stream_text_def)
  ultimately have skip: "after_skip 0 (g @ v) = v" by (simp add: after_skip_def skip_to_text_append) (simp add: skip_to_text_def)
  obtain read m where scan: "scan_text 0 v = (read, m, Some [])"
    using assms(3) by (cases "scan_text 0 v") (auto simp: stream_text_def)
  then have "read = v" using scan_text_read by fastforce
  then have "watch_write_loop E w (g @ v) s =
      watch_trunk E w v (upd_watcher w (\<lambda>W. W\<lparr>w_data_stream := [], w_data_brackets := 0\<rparr>) s)"
    using watch_write_loop_done [of s w "g @ v" v m "[]" E] assms(1) skip scan by (simp add: idle_stream_def)
  also have "upd_watcher w (\<lambda>W. W\<lparr>w_data_stream := [], w_data_brackets := 0\<rparr>) s = s"
    using assms(1) by (simp add: idle_stream_def fun_upd_idem)
  finally show ?thesis .
qed

lemma watch_write_loop_texts:
  assumes "idle_stream w s" "\<forall>(g, v) \<in> set ts. separator g \<and> stream_text v"
  shows "watch_write_loop E w (concat (map (\<lambda>(g, v). g @ v) ts)) s = fold (\<lambda>(g, v). watch_trunk E w v) ts s"
  using assms
proof (induction ts arbitrary: s)
  case (Cons t ts)
  obtain g v where t: "t = (g, v)" by (cases t)
  have "watch_write_loop E w (concat (map (\<lambda>(g, v). g @ v) (t # ts))) s =
      watch_write_loop E w (concat (map (\<lambda>(g, v). g @ v) ts)) (watch_write_loop E w (g @ v) s)"
    using watch_write_loop_append [of E w "g @ v"] t by simp
  then show ?case using Cons t by (simp add: watch_write_loop_text)
qed simp

lemma watch_write_loop_chunks: "fold (on_watch_write E w) chunks s = watch_write_loop E w (concat chunks) s"
  by (induction chunks arbitrary: s) (simp_all add: on_watch_write_def watch_write_loop_append)

end
