(* ===== verification/Etcd_Keepalive.thy ===== *)
theory Etcd_Keepalive
  imports Etcd_Lease
begin

text \<open>
  \<^verbatim>\<open>src/atframe/etcdcli/etcd_keepalive.cpp\<close>, and the operations of the cluster it calls:
  \<^verbatim>\<open>add_retry_keepalive\<close> and \<^verbatim>\<open>resolve_ready\<close>. A keepalive holds the value of a key under the lease
  of the cluster: it reads the key first when it has a checker, then puts the value.
\<close>

section \<open>The default checker\<close>

text \<open>
  It compares by the identity of the service when the stored values carry one; \<open>identity_of\<close> reads
  it (\<^verbatim>\<open>rapidjson_loader_parse\<close>), None when the value does not parse.
\<close>

record default_checker =
  dc_data :: string
  dc_identity :: string

definition default_checker_t :: "(string \<Rightarrow> string option) \<Rightarrow> string \<Rightarrow> default_checker" where
  "default_checker_t identity_of checked =
     \<lparr>dc_data = checked, dc_identity = (case identity_of checked of Some i \<Rightarrow> i | None \<Rightarrow> [])\<rparr>"

definition default_check :: "(string \<Rightarrow> string option) \<Rightarrow> default_checker \<Rightarrow> string \<Rightarrow> bool" where
  "default_check identity_of dc checked =
     (if checked = [] then True
      else if dc_identity dc \<noteq> [] \<and> identity_of checked \<noteq> None
      then the (identity_of checked) = [] \<or> dc_identity dc = the (identity_of checked)
      else dc_data dc = checked)"

section \<open>The object\<close>

definition keepalive_create :: "string \<Rightarrow> etcd_keepalive" where
  "keepalive_create path =
     \<lparr>k_path = path, k_value = [], k_rpc = None, k_is_actived = False, k_is_value_changed = True, k_has_data = False,
      k_checker = None, k_is_check_run = False, k_is_check_passed = False, k_retry_times = 0\<rparr>"

definition keepalive_close :: "bool \<Rightarrow> nat \<Rightarrow> etcd_cluster \<Rightarrow> etcd_cluster" where
  "keepalive_close reset_has_data_flag k s =
     upd_keepalive k (\<lambda>K. K\<lparr>k_rpc := None, k_is_actived := False, k_is_value_changed := True,
         k_has_data := (if reset_has_data_flag then False else k_has_data K),
         k_is_check_run := False, k_is_check_passed := False, k_checker := None, k_retry_times := 0\<rparr>)
       (http_stop (k_rpc (keepalives s k)) s)"

definition set_checker :: "(string \<Rightarrow> bool) option \<Rightarrow> nat \<Rightarrow> etcd_cluster \<Rightarrow> etcd_cluster" where
  "set_checker fn k s = upd_keepalive k (\<lambda>K. K\<lparr>k_checker := fn\<rparr>) s"

definition set_default_checker :: "etcd_env \<Rightarrow> string \<Rightarrow> nat \<Rightarrow> etcd_cluster \<Rightarrow> etcd_cluster" where
  "set_default_checker E checked_str k s =
     set_checker (Some (default_check (en_identity E) (default_checker_t (en_identity E) checked_str))) k s"

definition reset_value_changed :: "nat \<Rightarrow> etcd_cluster \<Rightarrow> etcd_cluster" where
  "reset_value_changed k s = upd_keepalive k (\<lambda>K. K\<lparr>k_is_value_changed := True\<rparr>) s"

section \<open>What it needs of the cluster\<close>

definition add_retry_keepalive :: "etcd_env \<Rightarrow> nat \<Rightarrow> etcd_cluster \<Rightarrow> bool \<times> etcd_cluster" where
  "add_retry_keepalive E k s =
     (if k = 0 then (False, s)
      else if check_flag kClosing s then (False, s)
      else if k \<in> set (keepalive_retry_actors s) then (False, s)
      else
        let s = set_flag E kEnableLease True s
        in (True, s\<lparr>keepalive_retry_actors := keepalive_retry_actors s @ [k]\<rparr>))"

definition all_checked :: "etcd_cluster \<Rightarrow> bool" where
  "all_checked s \<longleftrightarrow>
     list_all (\<lambda>k. k = 0 \<or> k_is_check_run (keepalives s k) \<and> k_is_check_passed (keepalives s k)) (keepalive_actors s)"

definition resolve_ready :: "etcd_env \<Rightarrow> etcd_cluster \<Rightarrow> etcd_cluster" where
  "resolve_ready E s =
     (if check_flag kReady s \<or> \<not> check_flag kRunning s then s
      else if all_checked s then set_flag E kReady True s else s)"

section \<open>Requests of the keepalive\<close>

text \<open>
  The part of \<^verbatim>\<open>process\<close> that creates a request: the request, and whether to retry. It reads
  the key when the check has not run, and puts the value when the check has passed and the value
  has changed.
\<close>

definition keepalive_request ::
  "etcd_env \<Rightarrow> nat \<Rightarrow> etcd_cluster \<Rightarrow> (nat \<times> http_request) option \<times> bool \<times> etcd_cluster" where
  "keepalive_request E k s =
     (let K = keepalives s k in
      if \<not> k_is_check_run K then
        (case create_request_kv_get E (k_path K) [] 0 0 s of
           (None, s) \<Rightarrow> (None, True, upd_keepalive k (\<lambda>K. K\<lparr>k_retry_times := k_retry_times K + 1\<rparr>) s)
         | (Some (i, rq), s) \<Rightarrow>
             (Some (i, rq\<lparr>rq_priv_data := Priv_Keepalive k, rq_on_complete := Some On_get_data\<rparr>), False, s))
      else if k_is_check_run K \<and> k_is_check_passed K \<and> k_is_value_changed K then
        (case create_request_kv_set E (k_path K) (k_value K) True False False False s of
           (None, s) \<Rightarrow> (None, True, s)
         | (Some (i, rq), s) \<Rightarrow>
             (Some (i, rq\<lparr>rq_priv_data := Priv_Keepalive k, rq_on_complete := Some On_set_data\<rparr>), False,
              upd_keepalive k (\<lambda>K. K\<lparr>k_is_value_changed := False\<rparr>) s))
      else (None, False, s))"

definition keepalive_process :: "etcd_env \<Rightarrow> nat \<Rightarrow> etcd_cluster \<Rightarrow> etcd_cluster" where
  "keepalive_process E k s =
     (if k_rpc (keepalives s k) \<noteq> None then s
      else
        let s = upd_keepalive k (\<lambda>K. K\<lparr>k_is_actived := False\<rparr>) s;
            s = (if k_checker (keepalives s k) = None
                 then upd_keepalive k (\<lambda>K. K\<lparr>k_is_check_run := True, k_is_check_passed := True,
                        k_retry_times := k_retry_times K + 1\<rparr>) s
                 else s);
            (rpc, need_retry, s) = keepalive_request E k s;
            (need_retry, s) =
              (case rpc of
                 None \<Rightarrow> (need_retry, s)
               | Some (i, rq) \<Rightarrow>
                   let (res, s) = http_start E i rq s
                   in if res \<noteq> 0 then (True, s) else (need_retry, upd_keepalive k (\<lambda>K. K\<lparr>k_rpc := Some i\<rparr>) s))
        in if need_retry then snd (add_retry_keepalive E k s) else s)"

definition keepalive_active :: "etcd_env \<Rightarrow> nat \<Rightarrow> etcd_cluster \<Rightarrow> etcd_cluster" where
  "keepalive_active E k s = keepalive_process E k (upd_keepalive k (\<lambda>K. K\<lparr>k_is_actived := True\<rparr>) s)"

definition keepalive_set_value :: "etcd_env \<Rightarrow> string \<Rightarrow> nat \<Rightarrow> etcd_cluster \<Rightarrow> etcd_cluster" where
  "keepalive_set_value E str k s =
     (if k_value (keepalives s k) \<noteq> str
      then
        let s = upd_keepalive k (\<lambda>K. K\<lparr>k_value := str, k_is_value_changed := True\<rparr>) s
        in if check_flag kRunning s \<and> get_lease s \<noteq> 0 then keepalive_active E k s else s
      else s)"

section \<open>Completion of its requests\<close>

text \<open>
  The content of the first key-value pair of a reply. \<open>Malformed\<close>: the reply announces pairs and
  has none, which is retried. \<open>Bad_pair\<close>: the pair is not an object.
\<close>

datatype read_result = Content string | Malformed | Bad_pair

definition read_reply :: "packer_api \<Rightarrow> string \<Rightarrow> read_result" where
  "read_reply A http_content =
     (case parse_object A http_content of
        Some (JSON_Object ms) \<Rightarrow>
          if sint (unpack_int64 A ms ''count'' 0) > 0 then
            (case map_of ms ''kvs'' of
               Some (JSON_Array []) \<Rightarrow> Content []
             | Some (JSON_Array (v # _)) \<Rightarrow>
                 (case unpack_key_value A \<lparr>kv_key = [], create_revision = 0, mod_revision = 0, version = 0, kv_value = [], kv_lease = 0\<rparr> v of
                    Some kv \<Rightarrow> Content (kv_value kv)
                  | None \<Rightarrow> Bad_pair)
             | _ \<Rightarrow> Malformed)
          else Content []
      | _ \<Rightarrow> Content [])"

definition on_get_data :: "etcd_env \<Rightarrow> nat \<Rightarrow> http_response \<Rightarrow> etcd_cluster \<Rightarrow> etcd_cluster" where
  "on_get_data E k rs s =
     (let s = upd_keepalive k (\<lambda>K. K\<lparr>k_rpc := None, k_retry_times := k_retry_times K + 1\<rparr>) s in
      if \<not> request_succeeded rs then
        (let s = check_socket_error_code (rs_error_code rs) s;
             s = snd (add_retry_keepalive E k s)
         in check_authorization_expired E (rs_code rs) (rs_content rs) s)
      else
        case read_reply (en_packer E) (rs_content rs) of
          Malformed \<Rightarrow> snd (add_retry_keepalive E k s)
        | Bad_pair \<Rightarrow> fault_if Assertion_failed True s
        | Content value_content \<Rightarrow>
            let passed = (case k_checker (keepalives s k) of None \<Rightarrow> True | Some fn \<Rightarrow> fn value_content);
                s = upd_keepalive k (\<lambda>K. K\<lparr>k_is_check_run := True, k_is_check_passed := passed\<rparr>) s;
                s = keepalive_active E k s
            in if k_is_check_passed (keepalives s k) then resolve_ready E s else s)"

definition on_set_data :: "etcd_env \<Rightarrow> nat \<Rightarrow> http_response \<Rightarrow> etcd_cluster \<Rightarrow> etcd_cluster" where
  "on_set_data E k rs s =
     (let s = upd_keepalive k (\<lambda>K. K\<lparr>k_rpc := None\<rparr>) s in
      if \<not> request_succeeded rs then
        (let s = upd_keepalive k (\<lambda>K. K\<lparr>k_is_value_changed := True\<rparr>) s;
             s = check_socket_error_code (rs_error_code rs) s;
             s = snd (add_retry_keepalive E k s)
         in check_authorization_expired E (rs_code rs) (rs_content rs) s)
      else keepalive_active E k (upd_keepalive k (\<lambda>K. K\<lparr>k_has_data := True\<rparr>) s))"

end
