(* ===== verification/Etcd_Cluster.thy ===== *)
theory Etcd_Cluster
  imports Etcd_Keepalive Etcd_Watcher
begin

text \<open>
  The etcd client (\<^verbatim>\<open>src/atframe/etcdcli/etcd_cluster.cpp\<close>): members, authorization, the lease,
  the deletion of keys, adding and removing of actors, the tick and the shutdown.

  Keepalives and watchers are shared with their users and stay allocated; a deletor belongs to
  the cluster alone, and its allocation is modelled (\<open>deletors\<close>).
\<close>

section \<open>Members\<close>

definition reset_rpc_update_members :: "etcd_cluster \<Rightarrow> etcd_cluster" where
  "reset_rpc_update_members s = (http_stop (rpc_update_members s) s)\<lparr>rpc_update_members := None\<rparr>"

definition set_members_next_update :: "etcd_cluster \<Rightarrow> etcd_cluster" where
  "set_members_next_update s =
     upd_conf (\<lambda>c. c\<lparr>etcd_members_next_update_time := sys_now s +
        (if etcd_members_update_interval c \<le> 0 then chrono_seconds 60 else etcd_members_update_interval c)\<rparr>) s"

definition create_request_member_update :: "etcd_env \<Rightarrow> etcd_cluster \<Rightarrow> bool \<times> etcd_cluster" where
  "create_request_member_update E s =
     (if \<not> curl_multi s then (False, s)
      else if check_flag kClosing s then (False, s)
      else if conf_hosts (conf s) = [] \<and> hosts (conf s) = [] then (False, s)
      else
        let s = reset_rpc_update_members (set_members_next_update s) in
        if \<not> auto_update_hosts (conf s) \<and> conf_hosts (conf s) \<noteq> [] then
          (False,
           if hosts (conf s) = [] then select_cluster_member E (upd_conf (\<lambda>c. c\<lparr>hosts := conf_hosts c\<rparr>) s) else s)
        else
          let candidates = (if hosts (conf s) \<noteq> [] then hosts (conf s) else conf_hosts (conf s));
              (i, s) = random_below E (int (length candidates)) s
          in case launch_request E ((candidates ! nat i) @ ''/v3/cluster/member/list'') (JSON_Object [])
                    (get_http_timeout_ms s) On_member_update s of
               (Launched j, s) \<Rightarrow> (True, s\<lparr>rpc_update_members := Some j\<rparr>)
             | (Start_failed, s) \<Rightarrow> (False, s)
             | (Create_failed, s) \<Rightarrow> (True, s))"

text \<open>The loop that takes the selected host out of the list; behind a removal it skips the host it has moved there.\<close>

function drop_host_loop :: "string \<Rightarrow> nat \<Rightarrow> string list \<Rightarrow> string list" where
  "drop_host_loop bad i hs =
     (if i < length hs
      then drop_host_loop bad (Suc i) (if hs ! i \<noteq> bad then hs else butlast (hs[i := last hs]))
      else hs)"
  by pat_completeness auto
termination by (relation "measure (\<lambda>(bad, i, hs). length hs - i)") auto

declare drop_host_loop.simps [simp del]

text \<open>\<^verbatim>\<open>UTIL_STRFUNC_STRNCASE_CMP\<close> of the selected host and the URL, over the length of the host.\<close>

definition is_url_of :: "string \<Rightarrow> string \<Rightarrow> bool" where
  "is_url_of host url \<longleftrightarrow> map ascii_lower (c_str host) = map ascii_lower (take (length host) (c_str url))"

definition members_retry_interval :: "etcd_cluster \<Rightarrow> int" where
  "members_retry_interval s =
     (let c = conf s in
      if \<not> check_flag kRunning s \<and> etcd_members_init_retry_interval c > 0 then etcd_members_init_retry_interval c
      else if etcd_members_retry_interval c \<le> 0 then chrono_seconds 60
      else etcd_members_retry_interval c)"

definition retry_request_member_update :: "etcd_env \<Rightarrow> string \<Rightarrow> etcd_cluster \<Rightarrow> bool \<times> etcd_cluster" where
  "retry_request_member_update E bad_url s =
     (let s = (if path_node (conf s) = [] then select_cluster_member E s
               else if is_url_of (path_node (conf s)) bad_url
               then select_cluster_member E (upd_conf (\<lambda>c. c\<lparr>hosts := drop_host_loop (path_node c) 0 (hosts c)\<rparr>) s)
               else s);
          interval = members_retry_interval s
      in if sys_now s + interval < etcd_members_next_update_time (conf s)
         then (False, upd_conf (\<lambda>c. c\<lparr>etcd_members_next_update_time := sys_now s + interval\<rparr>) s)
         else if sys_now s \<le> etcd_members_next_update_time (conf s) then (False, s)
         else create_request_member_update E s)"

text \<open>What every callback of the cluster does about an error; only a network error drops the host.\<close>

definition on_request_error :: "etcd_env \<Rightarrow> string \<Rightarrow> http_response \<Rightarrow> etcd_cluster \<Rightarrow> etcd_cluster" where
  "on_request_error E url rs s =
     (let s = (if rs_error_code rs \<noteq> 0
               then snd (retry_request_member_update E url (check_socket_error_code (rs_error_code rs) s)) else s)
      in check_authorization_expired E (rs_code rs) (rs_content rs) (add_stats_error_request s))"

section \<open>Deletion of keys\<close>

definition delete_keepalive_deletor :: "nat \<Rightarrow> bool \<Rightarrow> etcd_cluster \<Rightarrow> etcd_cluster" where
  "delete_keepalive_deletor d close_rpc s =
     (if d = 0 then s
      else case deletors s d of
        None \<Rightarrow> fault_if Use_after_free True s
      | Some D \<Rightarrow>
          let s = (if close_rpc then http_stop (d_rpc D) s
                   else case d_rpc D of
                     None \<Rightarrow> s
                   | Some i \<Rightarrow> s\<lparr>requests := (requests s)(i := map_option (\<lambda>rq. rq\<lparr>rq_priv_data := Priv_Null\<rparr>) (requests s i))\<rparr>)
          in s\<lparr>deletors := (deletors s)(d := None)\<rparr>)"

definition max_delete_times :: "etcd_cluster \<Rightarrow> u64" where
  "max_delete_times s = (if keepalive_retry_times (conf s) = 0 then 8 else keepalive_retry_times (conf s))"

definition upd_deletor :: "nat \<Rightarrow> (etcd_keepalive_deletor \<Rightarrow> etcd_keepalive_deletor) \<Rightarrow> etcd_cluster \<Rightarrow> etcd_cluster" where
  "upd_deletor d f s = s\<lparr>deletors := (deletors s)(d := map_option f (deletors s d))\<rparr>"

definition remember_deletor :: "string \<Rightarrow> nat \<Rightarrow> etcd_cluster \<Rightarrow> etcd_cluster" where
  "remember_deletor path d s = s\<lparr>keepalive_deletors := AList.update path d (keepalive_deletors s)\<rparr>"

text \<open>One attempt to delete the keys under the path of a deletor.\<close>

definition try_delete_path :: "etcd_env \<Rightarrow> nat \<Rightarrow> string \<Rightarrow> etcd_cluster \<Rightarrow> etcd_cluster" where
  "try_delete_path E d path s =
     (let s = upd_deletor d (\<lambda>D. D\<lparr>d_owner := True, d_retry_times := d_retry_times D + 1\<rparr>) s in
      if (case deletors s d of Some D \<Rightarrow> d_retry_times D > max_delete_times s | None \<Rightarrow> False)
      then delete_keepalive_deletor d True s
      else
        case create_request_kv_del E path ''+1'' False s of
          (None, s) \<Rightarrow> remember_deletor path d s
        | (Some (i, rq), s) \<Rightarrow>
            let s = upd_deletor d (\<lambda>D. D\<lparr>d_rpc := Some i\<rparr>) s;
                (res, s) = http_start E i (rq\<lparr>rq_on_complete := Some On_remove_keepalive_path, rq_priv_data := Priv_Deletor d\<rparr>) s
            in if res \<noteq> 0 then remember_deletor path d (upd_deletor d (\<lambda>D. D\<lparr>d_rpc := None\<rparr>) s) else s)"

definition remove_keepalive_path :: "etcd_env \<Rightarrow> nat \<Rightarrow> bool \<Rightarrow> etcd_cluster \<Rightarrow> etcd_cluster" where
  "remove_keepalive_path E d delay_delete s =
     (if d = 0 then s
      else case deletors s d of
        None \<Rightarrow> fault_if Use_after_free True s
      | Some D \<Rightarrow>
          let path = d_path D;
              old = (case map_of (keepalive_deletors s) path of Some o' \<Rightarrow> if o' = d then 0 else o' | None \<Rightarrow> 0);
              s = s\<lparr>keepalive_deletors := AList.delete path (keepalive_deletors s)\<rparr>;
              s = (if delay_delete then remember_deletor path d s else try_delete_path E d path s)
          in delete_keepalive_deletor old True s)"

definition on_remove_keepalive_path :: "etcd_env \<Rightarrow> nat \<Rightarrow> nat \<Rightarrow> string \<Rightarrow> http_response \<Rightarrow> etcd_cluster \<Rightarrow> etcd_cluster" where
  "on_remove_keepalive_path E d i url rs s =
     (case deletors s d of
        None \<Rightarrow> fault_if Use_after_free True s
      | Some D \<Rightarrow>
          let s = (if d_rpc D = Some i then upd_deletor d (\<lambda>D. D\<lparr>d_rpc := None\<rparr>) s else s);
              s = fault_if Use_after_free (d_owner D \<and> destroyed s) s
          in if rs_error_code rs \<noteq> 0 \<or> cdiv (rs_code rs) 100 \<noteq> 2 \<and> rs_code rs \<noteq> 404 then
               (if d_owner D then remove_keepalive_path E d True (on_request_error E url rs s)
                else delete_keepalive_deletor d False s)
             else delete_keepalive_deletor d False s)"

definition delete_each :: "(string \<times> nat) list \<Rightarrow> etcd_cluster \<Rightarrow> etcd_cluster" where
  "delete_each ds s = fold (\<lambda>(path, d). delete_keepalive_deletor d True) ds s"

text \<open>The loop ends after one round, as deleting adds nothing to the map.\<close>

definition cleanup_keepalive_deletors :: "etcd_cluster \<Rightarrow> etcd_cluster" where
  "cleanup_keepalive_deletors s = delete_each (keepalive_deletors s) (s\<lparr>keepalive_deletors := []\<rparr>)"

section \<open>Pending actions and the lease\<close>

text \<open>
  The retry list is walked by index while its entries may be retried again; an entry that is
  still in the list is not added a second time, and the list is cleared at the end.
\<close>

fun activate_each :: "etcd_env \<Rightarrow> nat list \<Rightarrow> etcd_cluster \<Rightarrow> etcd_cluster" where
  "activate_each E [] s = s"
| "activate_each E (k # ks) s =
     activate_each E ks (if k \<noteq> 0 then keepalive_active E k (reset_value_changed k s) else s)"

fun watch_each :: "etcd_env \<Rightarrow> nat list \<Rightarrow> etcd_cluster \<Rightarrow> etcd_cluster" where
  "watch_each E [] s = s"
| "watch_each E (w # ws) s = watch_each E ws (if w \<noteq> 0 then watcher_active E w s else s)"

fun delete_path_each :: "etcd_env \<Rightarrow> (string \<times> nat) list \<Rightarrow> etcd_cluster \<Rightarrow> etcd_cluster" where
  "delete_path_each E [] s = s"
| "delete_path_each E ((path, d) # ds) s = delete_path_each E ds (remove_keepalive_path E d False s)"

definition retry_pending_actions :: "etcd_env \<Rightarrow> etcd_cluster \<Rightarrow> etcd_cluster" where
  "retry_pending_actions E s =
     (let s = (if get_lease s \<noteq> 0
               then (activate_each E (keepalive_retry_actors s) s)\<lparr>keepalive_retry_actors := []\<rparr> else s);
          s = watch_each E (watcher_actors s) s
      in delete_path_each E (keepalive_deletors s) (s\<lparr>keepalive_deletors := []\<rparr>))"

definition set_lease :: "etcd_env \<Rightarrow> i64 \<Rightarrow> bool \<Rightarrow> etcd_cluster \<Rightarrow> etcd_cluster" where
  "set_lease E v force_active_keepalives s =
     (let old_v = get_lease s;
          s = upd_conf (\<lambda>c. c\<lparr>lease := v\<rparr>) s
      in if old_v = v \<and> \<not> force_active_keepalives \<and> v \<noteq> 0 then retry_pending_actions E s
         else if v \<noteq> 0 then
           retry_pending_actions E (activate_each E (keepalive_actors s) (s\<lparr>keepalive_retry_actors := []\<rparr>))
         else s)"

definition on_lease_keepalive :: "etcd_env \<Rightarrow> string \<Rightarrow> http_response \<Rightarrow> etcd_cluster \<Rightarrow> etcd_cluster" where
  "on_lease_keepalive E url rs s =
     (let s = s\<lparr>rpc_keepalive := None\<rparr>; A = en_packer E in
      if \<not> request_succeeded rs then on_request_error E url rs s
      else
        case parse_object A (rs_content rs) of
          Some (JSON_Object doc) \<Rightarrow>
            let is_grant = (map_of doc ''result'' = None) in
            (case (case map_of doc ''result'' of None \<Rightarrow> JSON_Object doc | Some v \<Rightarrow> v) of
               JSON_Object root \<Rightarrow>
                 if map_of root ''TTL'' = None then
                   add_stats_error_request
                     (if is_grant then s else snd (create_request_lease_grant E (set_lease E 0 is_grant s)))
                 else
                   let new_lease = unpack_int64 A root ''ID'' 0 in
                   if new_lease = 0 then add_stats_error_request s
                   else
                     let s = add_stats_success_request s;
                         s = (if \<not> check_flag kRunning s \<and> \<not> check_flag kClosing s then set_flag E kRunning True s else s)
                     in set_lease E new_lease is_grant s
             | _ \<Rightarrow> fault_if Assertion_failed True s)
        | _ \<Rightarrow> s)"

section \<open>Authorization\<close>

definition reset_rpc_authenticate :: "etcd_cluster \<Rightarrow> etcd_cluster" where
  "reset_rpc_authenticate s = (http_stop (rpc_authenticate s) s)\<lparr>rpc_authenticate := None\<rparr>"

text \<open>The interval, or three seconds when it is not positive.\<close>

definition interval_or_3s :: "int \<Rightarrow> int" where
  "interval_or_3s d = (if d \<le> 0 then chrono_seconds 3 else d)"

definition create_request_auth_authenticate :: "etcd_env \<Rightarrow> etcd_cluster \<Rightarrow> bool \<times> etcd_cluster" where
  "create_request_auth_authenticate E s =
     (if \<not> curl_multi s \<or> check_flag kClosing s \<or> path_node (conf s) = [] then (False, s)
      else if authorization (conf s) = [] then (False, upd_conf (\<lambda>c. c\<lparr>authorization_header := []\<rparr>) s)
      else if sys_now s \<le> authorization_next_update_time (conf s) then (False, s)
      else
        let s = reset_rpc_authenticate s;
            s = upd_conf (\<lambda>c. c\<lparr>authorization_next_update_time := sys_now s + interval_or_3s (authorization_retry_interval c)\<rparr>) s;
            (username, password) = pick_conf_authorization s
        in case launch_request E (path_node (conf s) @ ''/v3/auth/authenticate'')
                  (JSON_Object [(''name'', JSON_String username), (''password'', JSON_String password)])
                  (get_http_timeout_ms s) On_auth_authenticate s of
             (Launched i, s) \<Rightarrow>
               (True, upd_conf (\<lambda>c. c\<lparr>auth_user_get_next_update_time := sys_now s + interval_or_3s (auth_user_get_retry_interval c)\<rparr>)
                        (s\<lparr>rpc_authenticate := Some i\<rparr>))
           | (Start_failed, s) \<Rightarrow> (False, s)
           | (Create_failed, s) \<Rightarrow> (False, s))"

definition create_request_auth_user_get :: "etcd_env \<Rightarrow> etcd_cluster \<Rightarrow> bool \<times> etcd_cluster" where
  "create_request_auth_user_get E s =
     (if \<not> curl_multi s \<or> check_flag kClosing s \<or> path_node (conf s) = [] \<or> authorization (conf s) = [] then (False, s)
      else if sys_now s \<le> auth_user_get_next_update_time (conf s) then (False, s)
      else
        let s = reset_rpc_authenticate s;
            s = upd_conf (\<lambda>c. c\<lparr>auth_user_get_next_update_time := sys_now s + interval_or_3s (auth_user_get_retry_interval c)\<rparr>) s
        in case launch_request E (path_node (conf s) @ ''/v3/auth/user/get'')
                  (JSON_Object [(''name'', JSON_String (fst (pick_conf_authorization s)))])
                  (get_http_timeout_ms s) On_auth_user_get s of
             (Launched i, s) \<Rightarrow> (True, s\<lparr>rpc_authenticate := Some i\<rparr>)
           | (Start_failed, s) \<Rightarrow> (False, s)
           | (Create_failed, s) \<Rightarrow> (False, s))"

definition on_auth_authenticate :: "etcd_env \<Rightarrow> string \<Rightarrow> http_response \<Rightarrow> etcd_cluster \<Rightarrow> etcd_cluster" where
  "on_auth_authenticate E url rs s =
     (let s = s\<lparr>rpc_authenticate := None\<rparr> in
      if \<not> request_succeeded rs then on_request_error E url rs s
      else
        case parse_object (en_packer E) (rs_content rs) of
          Some (JSON_Object doc) \<Rightarrow>
            (case unpack_string (en_packer E) doc ''token'' of
               None \<Rightarrow> add_stats_error_request s
             | Some token \<Rightarrow>
                 let s = upd_conf (\<lambda>c. c\<lparr>authorization_header := ''Authorization: '' @ token\<rparr>) s;
                     s = retry_pending_actions E (add_stats_success_request s)
                 in upd_conf (\<lambda>c. c\<lparr>auth_user_get_next_update_time :=
                      (if auth_user_get_retry_interval c \<le> 0 then sys_now s else sys_now s + auth_user_get_retry_interval c)\<rparr>) s)
        | _ \<Rightarrow> s)"

fun string_values :: "json list \<Rightarrow> string list" where
  "string_values [] = []"
| "string_values (JSON_String v # vs) = c_str v # string_values vs"
| "string_values (_ # vs) = string_values vs"

definition on_auth_user_get :: "etcd_env \<Rightarrow> string \<Rightarrow> http_response \<Rightarrow> etcd_cluster \<Rightarrow> etcd_cluster" where
  "on_auth_user_get E url rs s =
     (let s = s\<lparr>rpc_authenticate := None\<rparr> in
      if \<not> request_succeeded rs then on_request_error E url rs s
      else
        case parse_object (en_packer E) (rs_content rs) of
          Some (JSON_Object doc) \<Rightarrow>
            (case map_of doc ''roles'' of
               Some (JSON_Array roles) \<Rightarrow>
                 retry_pending_actions E
                   (add_stats_success_request (upd_conf (\<lambda>c. c\<lparr>authorization_user_roles := string_values roles\<rparr>) s))
             | _ \<Rightarrow> s)
        | _ \<Rightarrow> s)"

section \<open>Tick\<close>

text \<open>The number of requests it has sent.\<close>

definition cluster_tick :: "etcd_env \<Rightarrow> etcd_cluster \<Rightarrow> nat \<times> etcd_cluster" where
  "cluster_tick E s =
     (if \<not> curl_multi s then (0, s)
      else if check_flag kClosing s then (0, s)
      else
        let (b, s) = (if sys_now s > etcd_members_next_update_time (conf s) then create_request_member_update E s else (False, s));
            ret = of_bool b
        in
        if path_node (conf s) = [] then (ret, s)
        else if \<not> check_authorization s then
          (if rpc_authenticate s = None
           then let (b, s) = create_request_auth_authenticate E s in (ret + of_bool b, s) else (ret, s))
        else
          let (b, s) = (if authorization (conf s) \<noteq> [] \<and> rpc_authenticate s = None
                        then create_request_auth_user_get E s else (False, s));
              ret = ret + of_bool b
          in
          if check_flag kEnableLease s \<and> get_lease s = 0 then
            (let (b, s) = create_request_lease_grant E s in (ret + of_bool b, s))
          else
            let (b, s) = (if check_flag kEnableLease s
                          then (if sys_now s > keepalive_next_update_time (conf s)
                                then create_request_lease_keepalive E s else (False, s))
                          else (False, if \<not> check_flag kRunning s then set_flag E kRunning True s else s));
                s = retry_pending_actions E s;
                s = (if \<not> check_flag kReady s \<and> check_flag kRunning s then resolve_ready E s else s)
            in (ret + of_bool b, s))"

section \<open>The reply with the members\<close>

text \<open>The client URLs of the members; None when an assertion of rapidjson fails.\<close>

fun url_values :: "json list \<Rightarrow> string list option" where
  "url_values [] = Some []"
| "url_values (JSON_String v # vs) = map_option (\<lambda>us. if v \<noteq> [] then c_str v # us else us) (url_values vs)"
| "url_values (_ # vs) = None"

fun member_urls :: "json list \<Rightarrow> string list option" where
  "member_urls [] = Some []"
| "member_urls (JSON_Object ms # vs) =
     (case map_of ms ''clientURLs'' of
        None \<Rightarrow> member_urls vs
      | Some (JSON_Array urls) \<Rightarrow>
          (case url_values urls of None \<Rightarrow> None | Some us \<Rightarrow> map_option (append us) (member_urls vs))
      | _ \<Rightarrow> None)"
| "member_urls (_ # vs) = None"

definition on_member_update :: "etcd_env \<Rightarrow> string \<Rightarrow> http_response \<Rightarrow> etcd_cluster \<Rightarrow> etcd_cluster" where
  "on_member_update E url rs s =
     (let s = s\<lparr>rpc_update_members := None\<rparr> in
      if \<not> request_succeeded rs then
        add_stats_error_request (if rs_error_code rs \<noteq> 0 then snd (retry_request_member_update E url s) else s)
      else
        case parse_object (en_packer E) (rs_content rs) of
          Some (JSON_Object doc) \<Rightarrow>
            (case map_of doc ''members'' of
               Some (JSON_Array members) \<Rightarrow>
                 (case member_urls members of
                    None \<Rightarrow> fault_if Assertion_failed True s
                  | Some urls \<Rightarrow>
                      let s = upd_conf (\<lambda>c. c\<lparr>hosts := urls\<rparr>) s;
                          s = (if path_node (conf s) \<notin> set urls then select_cluster_member E s else s);
                          s = set_members_next_update (add_stats_success_request s)
                      in snd (cluster_tick E s))
             | _ \<Rightarrow> add_stats_error_request s)
        | _ \<Rightarrow> s)"

section \<open>Keepalives and watchers\<close>

definition add_keepalive :: "etcd_env \<Rightarrow> nat \<Rightarrow> etcd_cluster \<Rightarrow> bool \<times> etcd_cluster" where
  "add_keepalive E k s =
     (if k = 0 then (False, s)
      else if check_flag kClosing s then (False, s)
      else if k \<in> set (keepalive_actors s) then (False, s)
      else
        let s = set_flag E kEnableLease True s;
            s = s\<lparr>keepalive_actors := keepalive_actors s @ [k]\<rparr>;
            path = k_path (keepalives s k);
            s = (case map_of (keepalive_deletors s) path of
                   None \<Rightarrow> s
                 | Some d \<Rightarrow>
                     delete_keepalive_deletor d True (s\<lparr>keepalive_deletors := AList.delete path (keepalive_deletors s)\<rparr>))
        in (True, if check_flag kRunning s \<and> get_lease s \<noteq> 0 then keepalive_active E k s else s))"

text \<open>The removal of the first occurrence, whose place the last element takes.\<close>

fun swap_remove :: "'a \<Rightarrow> 'a list \<Rightarrow> 'a list" where
  "swap_remove x [] = []"
| "swap_remove x (y # ys) = (if y = x then (if ys = [] then [] else last ys # butlast ys) else y # swap_remove x ys)"

definition new_deletor :: "string \<Rightarrow> nat \<Rightarrow> etcd_keepalive_deletor" where
  "new_deletor path k = \<lparr>d_rpc = None, d_path = path, d_keepalive_addr = k, d_retry_times = 0, d_owner = False\<rparr>"

definition remove_keepalive :: "etcd_env \<Rightarrow> nat \<Rightarrow> etcd_cluster \<Rightarrow> bool \<times> etcd_cluster" where
  "remove_keepalive E k s =
     (if k = 0 then (False, s)
      else
        let found = k \<in> set (keepalive_actors s) \<or> k \<in> set (keepalive_retry_actors s);
            s = s\<lparr>keepalive_actors := swap_remove k (keepalive_actors s),
                  keepalive_retry_actors := swap_remove k (keepalive_retry_actors s)\<rparr>
        in if \<not> found then (False, s)
           else if k_has_data (keepalives s k) then
             (let d = next_deletor s;
                  s = s\<lparr>next_deletor := Suc d, deletors := (deletors s)(d \<mapsto> new_deletor (k_path (keepalives s k)) k)\<rparr>
              in (True, keepalive_close True k (remove_keepalive_path E d False s)))
           else (True, keepalive_close False k s))"

definition add_watcher :: "nat \<Rightarrow> etcd_cluster \<Rightarrow> bool \<times> etcd_cluster" where
  "add_watcher w s =
     (if w = 0 then (False, s)
      else if check_flag kClosing s then (False, s)
      else if w \<in> set (watcher_actors s) then (False, s)
      else (True, s\<lparr>watcher_actors := watcher_actors s @ [w]\<rparr>))"

definition remove_watcher :: "nat \<Rightarrow> etcd_cluster \<Rightarrow> bool \<times> etcd_cluster" where
  "remove_watcher w s =
     (if w = 0 then (False, s)
      else if w \<notin> set (watcher_actors s) then (False, s)
      else (True, watcher_close w (s\<lparr>watcher_actors := swap_remove w (watcher_actors s)\<rparr>)))"

section \<open>Life cycle\<close>

text \<open>The values that the constructor and \<^verbatim>\<open>reset\<close> give to the configuration.\<close>

definition reset_conf :: "conf_t \<Rightarrow> conf_t" where
  "reset_conf c = c\<lparr>
     http_request_timeout := chrono_seconds 10, http_initialization_timeout := chrono_seconds 3,
     http_connect_timeout := chrono_seconds 5, dns_cache_timeout := 0, dns_servers := [],
     authorization_user_roles := [], authorization_header := [],
     authorization_next_update_time := 0, authorization_retry_interval := chrono_seconds 5,
     auth_user_get_next_update_time := 0, auth_user_get_retry_interval := chrono_seconds 120,
     path_node := [], etcd_members_next_update_time := 0,
     etcd_members_update_interval := chrono_seconds 300, etcd_members_retry_interval := chrono_seconds 60,
     etcd_members_init_retry_interval := chrono_seconds 3,
     lease := 0, keepalive_next_update_time := 0, keepalive_timeout := chrono_seconds 16,
     keepalive_interval := chrono_seconds 5, keepalive_retry_interval := chrono_seconds 3, keepalive_retry_times := 8,
     ssl_enable_alpn := True, ssl_verify_peer := False, http_debug_mode := False, auto_update_hosts := True,
     ssl_min_version := kDisabled, user_agent := [], proxy := [], no_proxy := [], proxy_user_name := [], proxy_password := [],
     ssl_client_cert := [], ssl_client_cert_type := [], ssl_client_key := [], ssl_client_key_type := [],
     ssl_client_key_passwd := [], ssl_ca_cert := [],
     ssl_proxy_cert := [], ssl_proxy_cert_type := [], ssl_proxy_key := [], ssl_proxy_key_type := [],
     ssl_proxy_key_passwd := [], ssl_proxy_ca_cert := [], ssl_cipher_list := [], ssl_cipher_list_tls13 := []\<rparr>"

definition cluster_init :: "etcd_env \<Rightarrow> etcd_cluster \<Rightarrow> etcd_cluster" where
  "cluster_init E s = set_flag E kClosing False (s\<lparr>curl_multi := True\<rparr>)"

definition close_actors :: "etcd_cluster \<Rightarrow> etcd_cluster" where
  "close_actors s =
     (let s = fold (\<lambda>k s. if k \<noteq> 0 then keepalive_close False k s else s) (keepalive_actors s) s;
          s = s\<lparr>keepalive_actors := [], keepalive_retry_actors := []\<rparr>;
          s = fold (\<lambda>w s. if w \<noteq> 0 then watcher_close w s else s) (watcher_actors s) s
      in s\<lparr>watcher_actors := []\<rparr>)"

text \<open>A waiting revocation has ended when \<^verbatim>\<open>start\<close> returns; without waiting it is left running.\<close>

definition revoke_lease_request :: "etcd_env \<Rightarrow> bool \<Rightarrow> etcd_cluster \<Rightarrow> etcd_cluster" where
  "revoke_lease_request E wait s =
     (case create_request_lease_revoke E s of
        (None, s) \<Rightarrow> s
      | (Some (i, rq), s) \<Rightarrow> let (res, s) = http_start E i rq s in if wait then http_stop (Some i) s else s)"

definition cluster_close :: "etcd_env \<Rightarrow> bool \<Rightarrow> bool \<Rightarrow> etcd_cluster \<Rightarrow> etcd_cluster" where
  "cluster_close E wait revoke_lease s =
     (let s = set_flag E kRunning False (set_flag E kClosing True s);
          s = cleanup_keepalive_deletors (reset_rpc_keepalive s);
          s = reset_rpc_authenticate (reset_rpc_update_members s);
          s = close_actors s
      in if curl_multi s \<and> get_lease s \<noteq> 0
         then upd_conf (\<lambda>c. c\<lparr>lease := 0\<rparr>) (if revoke_lease then revoke_lease_request E wait s else s)
         else s)"

definition cluster_reset :: "etcd_env \<Rightarrow> etcd_cluster \<Rightarrow> etcd_cluster" where
  "cluster_reset E s =
     (let s = cluster_close E True True s in s\<lparr>curl_multi := False, cl_flags := 0, conf := reset_conf (conf s)\<rparr>)"

definition cluster_destroy :: "etcd_env \<Rightarrow> etcd_cluster \<Rightarrow> etcd_cluster" where
  "cluster_destroy E s = (cleanup_keepalive_deletors (cluster_reset E s))\<lparr>destroyed := True\<rparr>"

end
