(* ===== verification/Etcd_Settings.thy ===== *)
theory Etcd_Settings
  imports Etcd_Cluster
begin

text \<open>
  The setters of the configuration of the client (\<^verbatim>\<open>set_conf_*\<close> of
  \<^verbatim>\<open>include/atframe/etcdcli/etcd_cluster.h\<close>) and of a watcher
  (\<^verbatim>\<open>include/atframe/etcdcli/etcd_watcher.h\<close>). Durations are in nanoseconds; the setters in
  seconds, minutes and hours convert.
\<close>

datatype conf_setting =
    Set_authorization string
  | Set_conf_hosts "string list"
  | Set_http_request_timeout int
  | Set_http_initialization_timeout int
  | Set_http_connect_timeout int
  | Set_dns_cache_timeout int
  | Set_dns_servers string
  | Set_etcd_members_update_interval int
  | Set_etcd_members_retry_interval int
  | Set_keepalive_timeout int
  | Set_keepalive_interval int
  | Set_keepalive_retry_interval int
  | Set_keepalive_retry_times u64
  | Set_ssl_enable_alpn bool
  | Set_ssl_verify_peer bool
  | Set_http_debug_mode bool
  | Set_auto_update_hosts bool
  | Set_ssl_min_version ssl_version_t
  | Set_user_agent string
  | Set_proxy string
  | Set_no_proxy string
  | Set_proxy_user_name string
  | Set_proxy_password string
  | Set_ssl_client_cert string
  | Set_ssl_client_cert_type string
  | Set_ssl_client_key string
  | Set_ssl_client_key_type string
  | Set_ssl_client_key_passwd string
  | Set_ssl_ca_cert string
  | Set_ssl_client_tlsauth_username string
  | Set_ssl_client_tlsauth_password string
  | Set_ssl_proxy_cert string
  | Set_ssl_proxy_cert_type string
  | Set_ssl_proxy_key string
  | Set_ssl_proxy_key_type string
  | Set_ssl_proxy_key_passwd string
  | Set_ssl_proxy_tlsauth_username string
  | Set_ssl_proxy_tlsauth_password string
  | Set_ssl_proxy_ca_cert string
  | Set_ssl_cipher_list string
  | Set_ssl_cipher_list_tls13 string
  | Set_etcd_members_update_interval_min int
  | Set_etcd_members_retry_interval_min int
  | Set_keepalive_timeout_sec int
  | Set_keepalive_interval_sec int
  | Set_keepalive_retry_interval_sec int

definition chrono_minutes :: "int \<Rightarrow> int" where
  "chrono_minutes n = chrono_seconds (60 * n)"

fun set_conf :: "conf_setting \<Rightarrow> conf_t \<Rightarrow> conf_t" where
  "set_conf (Set_authorization v) c = c\<lparr>authorization := v\<rparr>"
| "set_conf (Set_conf_hosts v) c = c\<lparr>conf_hosts := v\<rparr>"
| "set_conf (Set_http_request_timeout v) c = c\<lparr>http_request_timeout := v\<rparr>"
| "set_conf (Set_http_initialization_timeout v) c = c\<lparr>http_initialization_timeout := v\<rparr>"
| "set_conf (Set_http_connect_timeout v) c = c\<lparr>http_connect_timeout := v\<rparr>"
| "set_conf (Set_dns_cache_timeout v) c = c\<lparr>dns_cache_timeout := v\<rparr>"
| "set_conf (Set_dns_servers v) c = c\<lparr>dns_servers := v\<rparr>"
| "set_conf (Set_etcd_members_update_interval v) c = c\<lparr>etcd_members_update_interval := v\<rparr>"
| "set_conf (Set_etcd_members_retry_interval v) c = c\<lparr>etcd_members_retry_interval := v\<rparr>"
| "set_conf (Set_keepalive_timeout v) c = c\<lparr>keepalive_timeout := v\<rparr>"
| "set_conf (Set_keepalive_interval v) c = c\<lparr>keepalive_interval := v\<rparr>"
| "set_conf (Set_keepalive_retry_interval v) c = c\<lparr>keepalive_retry_interval := v\<rparr>"
| "set_conf (Set_keepalive_retry_times v) c = c\<lparr>keepalive_retry_times := v\<rparr>"
| "set_conf (Set_ssl_enable_alpn v) c = c\<lparr>ssl_enable_alpn := v\<rparr>"
| "set_conf (Set_ssl_verify_peer v) c = c\<lparr>ssl_verify_peer := v\<rparr>"
| "set_conf (Set_http_debug_mode v) c = c\<lparr>http_debug_mode := v\<rparr>"
| "set_conf (Set_auto_update_hosts v) c = c\<lparr>auto_update_hosts := v\<rparr>"
| "set_conf (Set_ssl_min_version v) c = c\<lparr>ssl_min_version := v\<rparr>"
| "set_conf (Set_user_agent v) c = c\<lparr>user_agent := v\<rparr>"
| "set_conf (Set_proxy v) c = c\<lparr>proxy := v\<rparr>"
| "set_conf (Set_no_proxy v) c = c\<lparr>no_proxy := v\<rparr>"
| "set_conf (Set_proxy_user_name v) c = c\<lparr>proxy_user_name := v\<rparr>"
| "set_conf (Set_proxy_password v) c = c\<lparr>proxy_password := v\<rparr>"
| "set_conf (Set_ssl_client_cert v) c = c\<lparr>ssl_client_cert := v\<rparr>"
| "set_conf (Set_ssl_client_cert_type v) c = c\<lparr>ssl_client_cert_type := v\<rparr>"
| "set_conf (Set_ssl_client_key v) c = c\<lparr>ssl_client_key := v\<rparr>"
| "set_conf (Set_ssl_client_key_type v) c = c\<lparr>ssl_client_key_type := v\<rparr>"
| "set_conf (Set_ssl_client_key_passwd v) c = c\<lparr>ssl_client_key_passwd := v\<rparr>"
| "set_conf (Set_ssl_ca_cert v) c = c\<lparr>ssl_ca_cert := v\<rparr>"
| "set_conf (Set_ssl_client_tlsauth_username v) c = c\<lparr>ssl_client_tlsauth_username := v\<rparr>"
| "set_conf (Set_ssl_client_tlsauth_password v) c = c\<lparr>ssl_client_tlsauth_password := v\<rparr>"
| "set_conf (Set_ssl_proxy_cert v) c = c\<lparr>ssl_proxy_cert := v\<rparr>"
| "set_conf (Set_ssl_proxy_cert_type v) c = c\<lparr>ssl_proxy_cert_type := v\<rparr>"
| "set_conf (Set_ssl_proxy_key v) c = c\<lparr>ssl_proxy_key := v\<rparr>"
| "set_conf (Set_ssl_proxy_key_type v) c = c\<lparr>ssl_proxy_key_type := v\<rparr>"
| "set_conf (Set_ssl_proxy_key_passwd v) c = c\<lparr>ssl_proxy_key_passwd := v\<rparr>"
| "set_conf (Set_ssl_proxy_tlsauth_username v) c = c\<lparr>ssl_proxy_tlsauth_username := v\<rparr>"
| "set_conf (Set_ssl_proxy_tlsauth_password v) c = c\<lparr>ssl_proxy_tlsauth_password := v\<rparr>"
| "set_conf (Set_ssl_proxy_ca_cert v) c = c\<lparr>ssl_proxy_ca_cert := v\<rparr>"
| "set_conf (Set_ssl_cipher_list v) c = c\<lparr>ssl_cipher_list := v\<rparr>"
| "set_conf (Set_ssl_cipher_list_tls13 v) c = c\<lparr>ssl_cipher_list_tls13 := v\<rparr>"
| "set_conf (Set_etcd_members_update_interval_min v) c = c\<lparr>etcd_members_update_interval := chrono_minutes v\<rparr>"
| "set_conf (Set_etcd_members_retry_interval_min v) c = c\<lparr>etcd_members_retry_interval := chrono_minutes v\<rparr>"
| "set_conf (Set_keepalive_timeout_sec v) c = c\<lparr>keepalive_timeout := chrono_seconds v\<rparr>"
| "set_conf (Set_keepalive_interval_sec v) c = c\<lparr>keepalive_interval := chrono_seconds v\<rparr>"
| "set_conf (Set_keepalive_retry_interval_sec v) c = c\<lparr>keepalive_retry_interval := chrono_seconds v\<rparr>"

datatype watcher_setting =
    Set_progress_notify_enabled bool
  | Set_prev_kv_enabled bool
  | Set_retry_interval int
  | Set_request_timeout int
  | Set_get_request_timeout int
  | Set_startup_random_delay_min int
  | Set_startup_random_delay_max int
  | Set_retry_interval_sec int
  | Set_request_timeout_sec int
  | Set_request_timeout_min int
  | Set_request_timeout_hour int

fun set_watcher_conf :: "watcher_setting \<Rightarrow> etcd_watcher \<Rightarrow> etcd_watcher" where
  "set_watcher_conf (Set_progress_notify_enabled b) W = W\<lparr>w_enable_progress_notify := b\<rparr>"
| "set_watcher_conf (Set_prev_kv_enabled b) W = W\<lparr>w_enable_prev_kv := b\<rparr>"
| "set_watcher_conf (Set_retry_interval v) W = W\<lparr>w_retry_interval := v\<rparr>"
| "set_watcher_conf (Set_request_timeout v) W = W\<lparr>w_request_timeout := v\<rparr>"
| "set_watcher_conf (Set_get_request_timeout v) W = W\<lparr>w_get_request_timeout := v\<rparr>"
| "set_watcher_conf (Set_startup_random_delay_min v) W = W\<lparr>w_startup_random_delay_min := v\<rparr>"
| "set_watcher_conf (Set_startup_random_delay_max v) W = W\<lparr>w_startup_random_delay_max := v\<rparr>"
| "set_watcher_conf (Set_retry_interval_sec v) W = W\<lparr>w_retry_interval := chrono_seconds v\<rparr>"
| "set_watcher_conf (Set_request_timeout_sec v) W = W\<lparr>w_request_timeout := chrono_seconds v\<rparr>"
| "set_watcher_conf (Set_request_timeout_min v) W = W\<lparr>w_request_timeout := chrono_minutes v\<rparr>"
| "set_watcher_conf (Set_request_timeout_hour v) W = W\<lparr>w_request_timeout := chrono_seconds (3600 * v)\<rparr>"

text \<open>No setter touches the lease or the request of a watcher.\<close>

lemma set_conf_lease [simp]: "lease (set_conf x c) = lease c"
  by (cases x) simp_all

lemma set_watcher_conf_rpc [simp]: "w_rpc (set_watcher_conf x W) = w_rpc W"
  by (cases x) simp_all

end
