(* ===== verification/Etcd_Run.thy ===== *)
theory Etcd_Run
  imports Etcd_Settings
begin

text \<open>
  The etcd client in its environment: calls of its users, the clock, and the completion of
  requests and arrival of data, in any order.
\<close>

section \<open>Completion of requests\<close>

text \<open>A callback without private data logs an error and returns.\<close>

definition complete_request :: "etcd_env \<Rightarrow> nat \<Rightarrow> http_response \<Rightarrow> etcd_cluster \<Rightarrow> etcd_cluster" where
  "complete_request E i rs s =
     (case requests s i of
        None \<Rightarrow> s
      | Some rq \<Rightarrow>
          let s = act (Completed i (request_succeeded rs)) (s\<lparr>requests := (requests s)(i := None)\<rparr>); url = rq_url rq in
          (case (rq_on_complete rq, rq_priv_data rq) of
             (Some On_auth_authenticate, Priv_Cluster) \<Rightarrow> on_auth_authenticate E url rs s
           | (Some On_auth_user_get, Priv_Cluster) \<Rightarrow> on_auth_user_get E url rs s
           | (Some On_member_update, Priv_Cluster) \<Rightarrow> on_member_update E url rs s
           | (Some On_lease_keepalive, Priv_Cluster) \<Rightarrow> on_lease_keepalive E url rs s
           | (Some On_remove_keepalive_path, Priv_Deletor d) \<Rightarrow> on_remove_keepalive_path E d i url rs s
           | (Some On_get_data, Priv_Keepalive k) \<Rightarrow> on_get_data E k rs s
           | (Some On_set_data, Priv_Keepalive k) \<Rightarrow> on_set_data E k rs s
           | (Some On_range_completed, Priv_Watcher w) \<Rightarrow> on_range_completed E w rs s
           | (Some On_watch_completed, Priv_Watcher w) \<Rightarrow> on_watch_completed E w rs s
           | _ \<Rightarrow> s))"

definition receive_data :: "etcd_env \<Rightarrow> nat \<Rightarrow> string \<Rightarrow> etcd_cluster \<Rightarrow> etcd_cluster" where
  "receive_data E i chunk s =
     (case requests s i of
        Some rq \<Rightarrow>
          (case rq_priv_data rq of Priv_Watcher w \<Rightarrow> if rq_on_write rq then on_watch_write E w chunk s else s | _ \<Rightarrow> s)
      | None \<Rightarrow> s)"

section \<open>Inputs\<close>

datatype etcd_input =
    In_init
  | In_clock timepoint
  | In_conf conf_setting
  | In_tick
  | In_close bool bool
  | In_reset
  | In_destroy
  | In_new_keepalive nat string
  | In_close_keepalive nat
  | In_add_keepalive nat
  | In_remove_keepalive nat
  | In_set_value nat string
  | In_set_checker nat "(string \<Rightarrow> bool) option"
  | In_new_watcher nat string string
  | In_close_watcher nat
  | In_add_watcher nat
  | In_remove_watcher nat
  | In_watcher_conf nat atapp_etcd_watcher
  | In_watcher_setting nat watcher_setting
  | In_set_evt_handle nat "bool option"
  | In_add_on_event_up nat bool
  | In_add_on_event_down nat bool
  | In_complete nat http_response
  | In_data nat string

fun run_input :: "etcd_env \<Rightarrow> etcd_input \<Rightarrow> etcd_cluster \<Rightarrow> etcd_cluster" where
  "run_input E In_init s = cluster_init E s"
| "run_input E (In_clock t) s = s\<lparr>sys_now := t\<rparr>"
| "run_input E (In_conf x) s = upd_conf (set_conf x) s"
| "run_input E In_tick s = snd (cluster_tick E s)"
| "run_input E (In_close wait revoke) s = cluster_close E wait revoke s"
| "run_input E In_reset s = cluster_reset E s"
| "run_input E In_destroy s = cluster_destroy E s"
| "run_input E (In_new_keepalive k path) s = upd_keepalive k (\<lambda>_. keepalive_create path) s"
| "run_input E (In_close_keepalive k) s = keepalive_close True k s"
| "run_input E (In_add_keepalive k) s = snd (add_keepalive E k s)"
| "run_input E (In_remove_keepalive k) s = snd (remove_keepalive E k s)"
| "run_input E (In_set_value k str) s = keepalive_set_value E str k s"
| "run_input E (In_set_checker k fn) s = set_checker fn k s"
| "run_input E (In_new_watcher w path range_end) s = upd_watcher w (\<lambda>_. watcher_create path range_end) s"
| "run_input E (In_close_watcher w) s = watcher_close w s"
| "run_input E (In_add_watcher w) s = snd (add_watcher w s)"
| "run_input E (In_remove_watcher w) s = snd (remove_watcher w s)"
| "run_input E (In_watcher_conf w config) s = set_conf_from_protobuf config w s"
| "run_input E (In_watcher_setting w x) s = upd_watcher w (set_watcher_conf x) s"
| "run_input E (In_set_evt_handle w fn) s = set_evt_handle fn w s"
| "run_input E (In_add_on_event_up fn b) s = add_on_event_up fn b s"
| "run_input E (In_add_on_event_down fn b) s = add_on_event_down fn b s"
| "run_input E (In_complete i rs) s = complete_request E i rs s"
| "run_input E (In_data i chunk) s = receive_data E i chunk s"

text \<open>
  What the environment respects: the clock does not go back, an object is created where there is
  none in use, and after the destructor only requests complete and the clock runs.
\<close>

fun allowed :: "etcd_input \<Rightarrow> etcd_cluster \<Rightarrow> bool" where
  "allowed (In_clock t) s \<longleftrightarrow> sys_now s \<le> t"
| "allowed (In_new_keepalive k path) s \<longleftrightarrow>
     k \<noteq> 0 \<and> k_rpc (keepalives s k) = None \<and> k \<notin> set (keepalive_actors s) \<union> set (keepalive_retry_actors s) \<and> \<not> destroyed s"
| "allowed (In_new_watcher w path range_end) s \<longleftrightarrow>
     w \<noteq> 0 \<and> w_rpc (watchers s w) = None \<and> w \<notin> set (watcher_actors s) \<and> \<not> destroyed s"
| "allowed (In_complete i rs) s \<longleftrightarrow> requests s i \<noteq> None"
| "allowed (In_data i chunk) s \<longleftrightarrow> requests s i \<noteq> None"
| "allowed _ s \<longleftrightarrow> \<not> destroyed s"

text \<open>The constructed client, at any time and with any configured hosts and credentials.\<close>

definition new_cluster :: "conf_t \<Rightarrow> timepoint \<Rightarrow> etcd_cluster" where
  "new_cluster c t =
     \<lparr>cl_flags = 0, conf = reset_conf c,
      stats = \<lparr>sum_error_requests = 0, continue_error_requests = 0, sum_success_requests = 0, continue_success_requests = 0,
        sum_create_requests = 0\<rparr>,
      curl_multi = False, rpc_authenticate = None, rpc_update_members = None, rpc_keepalive = None,
      keepalive_actors = [], keepalive_retry_actors = [], keepalive_deletors = [], watcher_actors = [],
      event_on_up_callbacks = [], event_on_down_callbacks = [],
      keepalives = (\<lambda>_. keepalive_create []), watchers = (\<lambda>_. watcher_create [] []),
      deletors = (\<lambda>_. None), next_deletor = 1, requests = (\<lambda>_. None), next_request = 0, draws = 0, sys_now = t,
      destroyed = False, fault = None, actions = []\<rparr>"

inductive etcd_reachable :: "etcd_env \<Rightarrow> etcd_cluster \<Rightarrow> bool" for E where
  start: "etcd_reachable E (new_cluster c t)"
| step: "etcd_reachable E s \<Longrightarrow> allowed inp s \<Longrightarrow> etcd_reachable E (run_input E inp s)"

end
