(* ===== verification/Etcd_Frames.thy ===== *)
theory Etcd_Frames
  imports Etcd_Run
begin

text \<open>
  What the requests, watchers and deletors of the client leave alone: the keepalives, the lists
  of actors, the configuration and the flags (but for that of a previous timeout).
\<close>

section \<open>Flags\<close>

lemma flags_disjoint: "flag_value f AND flag_value g = (if f = g then flag_value g else 0)"
  by (cases f; cases g) simp_all

lemma flag_put: "(a OR flag_value f) AND flag_value g = (if f = g then flag_value g else a AND flag_value g)"
proof -
  have "(a OR flag_value f) AND flag_value g = (a AND flag_value g) OR (flag_value f AND flag_value g)"
    by (rule bit.conj_disj_distrib2)
  moreover have "(a AND flag_value g) OR flag_value g = flag_value g" by (rule bit_eqI) (auto simp: bit_or_iff bit_and_iff)
  ultimately show ?thesis by (simp add: flags_disjoint)
qed

lemma flag_clear: "(a AND NOT (flag_value f)) AND flag_value g = (if f = g then 0 else a AND flag_value g)"
proof (cases "f = g")
  case True
  have "(a AND NOT (flag_value g)) AND flag_value g = 0" by (rule bit_eqI) (auto simp: bit_and_iff bit_not_iff)
  then show ?thesis using True by simp
next
  case False
  then have "flag_value f AND flag_value g = 0" by (simp add: flags_disjoint)
  then have disjoint: "\<not> (bit (flag_value f) n \<and> bit (flag_value g) n)" for n by (metis bit_0_eq bit_and_iff bot_apply bot_bool_def)
  have "(a AND NOT (flag_value f)) AND flag_value g = a AND flag_value g"
    by (rule bit_eqI) (use disjoint in \<open>auto simp: bit_and_iff bit_not_iff\<close>)
  then show ?thesis using False by simp
qed

lemma check_put_flag: "check_flag g (put_flag f v s) = (if f = g then v else check_flag g s)"
proof -
  have "flag_value g \<noteq> 0" by (cases g) simp_all
  then show ?thesis by (simp add: check_flag_def put_flag_def flag_put flag_clear)
qed

section \<open>The part of the state that requests leave alone\<close>

text \<open>
  Everything but requests, statistics, counters, the flag of a previous timeout and the log of
  actions.
\<close>

definition etcd_frame ::
  "etcd_cluster \<Rightarrow> (nat \<Rightarrow> etcd_keepalive) \<times> nat list \<times> nat list \<times> nat list \<times> conf_t \<times> bool \<times> timepoint \<times>
     bool list \<times> bool" where
  "etcd_frame s = (keepalives s, keepalive_actors s, keepalive_retry_actors s, watcher_actors s, conf s, curl_multi s, sys_now s,
     map (\<lambda>f. check_flag f s) [kClosing, kRunning, kReady, kEnableLease], destroyed s)"

lemma frame_fields:
  assumes "etcd_frame s' = etcd_frame s"
  shows "keepalives s' = keepalives s" "keepalive_actors s' = keepalive_actors s" "keepalive_retry_actors s' = keepalive_retry_actors s"
    "watcher_actors s' = watcher_actors s" "conf s' = conf s" "curl_multi s' = curl_multi s" "sys_now s' = sys_now s"
    "f \<noteq> kPreviousRequestTimeout \<Longrightarrow> check_flag f s' = check_flag f s" "cannot_request s' = cannot_request s"
  using assms by (cases f; simp add: etcd_frame_def cannot_request_def)+

lemma check_flag_fields [simp]:
  "check_flag f (s\<lparr>stats := x1\<rparr>) = check_flag f s" "check_flag f (s\<lparr>requests := x2\<rparr>) = check_flag f s"
  "check_flag f (s\<lparr>next_request := n\<rparr>) = check_flag f s" "check_flag f (s\<lparr>draws := n\<rparr>) = check_flag f s"
  "check_flag f (s\<lparr>watchers := x3\<rparr>) = check_flag f s" "check_flag f (s\<lparr>keepalives := x4\<rparr>) = check_flag f s"
  "check_flag f (s\<lparr>actions := x5\<rparr>) = check_flag f s" "check_flag f (s\<lparr>fault := x6\<rparr>) = check_flag f s"
  "check_flag f (s\<lparr>deletors := x7\<rparr>) = check_flag f s" "check_flag f (s\<lparr>keepalive_deletors := x8\<rparr>) = check_flag f s"
  "check_flag f (s\<lparr>keepalive_retry_actors := x9\<rparr>) = check_flag f s" "check_flag f (s\<lparr>conf := x10\<rparr>) = check_flag f s"
  by (simp_all add: check_flag_def)

named_theorems framed \<open>operations that keep the frame\<close>

lemma frame_parts [framed]:
  "etcd_frame (s\<lparr>stats := x1\<rparr>) = etcd_frame s" "etcd_frame (s\<lparr>requests := x2\<rparr>) = etcd_frame s" "etcd_frame (s\<lparr>next_request := n\<rparr>) = etcd_frame s"
  "etcd_frame (s\<lparr>draws := n\<rparr>) = etcd_frame s" "etcd_frame (s\<lparr>watchers := x3\<rparr>) = etcd_frame s" "etcd_frame (s\<lparr>actions := x5\<rparr>) = etcd_frame s"
  "etcd_frame (s\<lparr>fault := x6\<rparr>) = etcd_frame s" "etcd_frame (s\<lparr>deletors := x7\<rparr>) = etcd_frame s" "etcd_frame (s\<lparr>keepalive_deletors := x8\<rparr>) = etcd_frame s"
  by (simp_all add: etcd_frame_def)

lemma frame_small_steps [framed]:
  "etcd_frame (add_stats_error_request s) = etcd_frame s" "etcd_frame (add_stats_create_request s) = etcd_frame s"
  "etcd_frame (fault_if c b s) = etcd_frame s" "etcd_frame (http_stop i s) = etcd_frame s"
  "etcd_frame (snd (random_below E m s)) = etcd_frame s" "etcd_frame (snd (http_start E j rq s)) = etcd_frame s"
  "etcd_frame (put_flag kPreviousRequestTimeout v s) = etcd_frame s" "etcd_frame (check_socket_error_code e s) = etcd_frame s"
proof -
  show *: "etcd_frame (put_flag kPreviousRequestTimeout v s) = etcd_frame s" for v
    unfolding etcd_frame_def by (simp add: check_put_flag) (simp add: put_flag_def)
  show "etcd_frame (check_socket_error_code e s) = etcd_frame s" by (simp add: check_socket_error_code_def *)
qed (simp_all add: add_stats_error_request_def add_stats_create_request_def fault_if_def http_stop_def random_below_def
      http_start_def framed split: option.splits)

lemma frame_setup [framed]: "etcd_frame (snd (setup_http_request rq doc t s)) = etcd_frame s"
  by (simp add: setup_http_request_def Let_def framed)

lemma frame_new_request [framed]: "etcd_frame (snd (new_request E api doc t s)) = etcd_frame s"
  by (simp add: new_request_def http_create_def Let_def case_prod_beta framed)

lemma frame_kv [framed]:
  "etcd_frame (snd (create_request_kv_get E key range_end limit rv s)) = etcd_frame s"
  "etcd_frame (snd (create_request_kv_set E key val b1 b2 b3 b4 s)) = etcd_frame s"
  "etcd_frame (snd (create_request_kv_del E key range_end b1 s)) = etcd_frame s"
  by (simp_all add: create_request_kv_get_def create_request_kv_set_def create_request_kv_del_def framed)

lemma frame_watch [framed]: "etcd_frame (snd (create_request_watch E key range_end rv b1 b2 s)) = etcd_frame s"
proof -
  have "etcd_frame (snd (case r of (Some (i, rq), s) \<Rightarrow> (Some (i, rq\<lparr>rq_options := opts rq\<rparr>), s) | (None, s) \<Rightarrow> (None, s))) = etcd_frame (snd r)"
    for r :: "(nat \<times> http_request) option \<times> etcd_cluster" and opts
    by (cases r) (auto split: option.splits)
  then show ?thesis by (simp add: create_request_watch_def Let_def framed)
qed

section \<open>Watchers and deletors\<close>

lemma frame_start_watcher [framed]: "etcd_frame (start_watcher_request E w made setup) = etcd_frame (snd made)"
  by (cases made) (auto simp: start_watcher_request_def set_next_request_time_def Let_def case_prod_beta framed split: option.splits)

lemma frame_clear_stream [framed]: "etcd_frame (snd (clear_stream w made)) = etcd_frame (snd made)"
  by (cases made) (auto simp: clear_stream_def framed split: option.splits)

lemma frame_watcher [framed]: "etcd_frame (watcher_active E w s) = etcd_frame s"
  by (simp add: watcher_active_def watcher_process_def request_range_def request_watch_def startup_delay_def
      set_next_request_time_def Let_def case_prod_beta framed)

lemma frame_watch_each [framed]: "etcd_frame (watch_each E ws s) = etcd_frame s"
  by (induction ws arbitrary: s) (simp_all add: framed)

lemma frame_delete [framed]: "etcd_frame (delete_keepalive_deletor d b s) = etcd_frame s"
  by (simp add: delete_keepalive_deletor_def framed Let_def split: option.splits)

lemma frame_upd_deletor [framed]: "etcd_frame (upd_deletor d f s) = etcd_frame s" "etcd_frame (remember_deletor path d s) = etcd_frame s"
  by (simp_all add: upd_deletor_def remember_deletor_def framed)

lemma frame_try_delete [framed]: "etcd_frame (try_delete_path E d path s) = etcd_frame s"
proof -
  let ?s = "upd_deletor d (\<lambda>D. D\<lparr>d_owner := True, d_retry_times := d_retry_times D + 1\<rparr>) s"
  have kv: "etcd_frame (snd (create_request_kv_del E path ''+1'' False ?s)) = etcd_frame s" by (simp add: framed)
  then show ?thesis
    by (cases "create_request_kv_del E path ''+1'' False ?s")
      (auto simp: try_delete_path_def Let_def case_prod_beta framed split: option.splits)
qed

lemma frame_remove_path [framed]: "etcd_frame (remove_keepalive_path E d b s) = etcd_frame s"
  by (simp add: remove_keepalive_path_def Let_def framed split: option.splits)

lemma frame_delete_path_each [framed]: "etcd_frame (delete_path_each E ds s) = etcd_frame s"
  by (induction ds arbitrary: s) (auto simp: framed)

text \<open>All that \<^verbatim>\<open>retry_pending_actions\<close> does to the frame, it does to the entries of the retry list.\<close>

lemma frame_retry:
  "etcd_frame (retry_pending_actions E s) =
     etcd_frame (if get_lease s \<noteq> 0 then (activate_each E (keepalive_retry_actors s) s)\<lparr>keepalive_retry_actors := []\<rparr> else s)"
  by (simp add: retry_pending_actions_def Let_def framed)

section \<open>Activation of a keepalive\<close>

text \<open>What it leaves alone: other keepalives, and everything but the retry list and the lease requests.\<close>

lemma launch_lease_request_frame:
  "keepalives (snd (launch_lease_request E api doc t s)) = keepalives s"
  "keepalive_retry_actors (snd (launch_lease_request E api doc t s)) = keepalive_retry_actors s"
  "get_lease (snd (launch_lease_request E api doc t s)) = get_lease s"
proof -
  let ?r = "launch_request E (path_node (conf s) @ api) doc t On_lease_keepalive s"
  have "etcd_frame (snd ?r) = etcd_frame s"
    by (simp add: launch_request_def http_create_def Let_def case_prod_beta framed)
  note fields = frame_fields [OF this]
  then show "keepalives (snd (launch_lease_request E api doc t s)) = keepalives s"
    "keepalive_retry_actors (snd (launch_lease_request E api doc t s)) = keepalive_retry_actors s"
    "get_lease (snd (launch_lease_request E api doc t s)) = get_lease s"
    by (cases ?r; auto simp: launch_lease_request_def Let_def fault_if_def split: launch.splits)+
qed

lemma reset_rpc_frame [framed]: "etcd_frame (reset_rpc_keepalive s) = etcd_frame s"
  by (simp add: reset_rpc_keepalive_def http_stop_def etcd_frame_def check_flag_def split: option.splits)

lemma set_flag_lease_frame:
  "keepalives (set_flag E kEnableLease v s) = keepalives s"
  "keepalive_retry_actors (set_flag E kEnableLease v s) = keepalive_retry_actors s"
  "get_lease (set_flag E kEnableLease v s) = get_lease s"
proof -
  note fields = frame_fields [OF reset_rpc_frame]
  show "keepalives (set_flag E kEnableLease v s) = keepalives s"
    "keepalive_retry_actors (set_flag E kEnableLease v s) = keepalive_retry_actors s"
    "get_lease (set_flag E kEnableLease v s) = get_lease s"
    by (simp_all add: set_flag_def create_request_lease_grant_def Let_def case_prod_beta launch_lease_request_frame
        put_flag_def fields)
qed

lemma add_retry_frame:
  "keepalives (snd (add_retry_keepalive E k s)) = keepalives s" "get_lease (snd (add_retry_keepalive E k s)) = get_lease s"
  by (simp_all add: add_retry_keepalive_def set_flag_lease_frame Let_def)

end
