(* ===== verification/Etcd_Activate.thy ===== *)
theory Etcd_Activate
  imports Etcd_Frames
begin

text \<open>
  Activation of keepalives: what \<^verbatim>\<open>process\<close> does to the keepalive when the network refuses every
  request, and when it takes every request.
\<close>

section \<open>One keepalive\<close>

lemma new_request_fst: "fst (new_request E api doc t s) = None \<longleftrightarrow> \<not> en_create E (next_request s)"
  by (simp add: new_request_def http_create_def Let_def case_prod_beta)

abbreviation get_of :: "etcd_env \<Rightarrow> nat \<Rightarrow> etcd_cluster \<Rightarrow> (nat \<times> http_request) option \<times> etcd_cluster" where
  "get_of E k s \<equiv> create_request_kv_get E (k_path (keepalives s k)) [] 0 0 s"

abbreviation put_of :: "etcd_env \<Rightarrow> nat \<Rightarrow> etcd_cluster \<Rightarrow> (nat \<times> http_request) option \<times> etcd_cluster" where
  "put_of E k s \<equiv> create_request_kv_set E (k_path (keepalives s k)) (k_value (keepalives s k)) True False False False s"

text \<open>The five ways through \<open>keepalive_request\<close>.\<close>

lemma keepalive_request_split:
  obtains (get_refused) t where "\<not> k_is_check_run (keepalives s k)" "get_of E k s = (None, t)"
      "keepalive_request E k s = (None, True, upd_keepalive k (\<lambda>K. K\<lparr>k_retry_times := k_retry_times K + 1\<rparr>) t)"
  | (get_made) i rq t where "\<not> k_is_check_run (keepalives s k)" "get_of E k s = (Some (i, rq), t)"
      "keepalive_request E k s = (Some (i, rq\<lparr>rq_priv_data := Priv_Keepalive k, rq_on_complete := Some On_get_data\<rparr>), False, t)"
  | (put_refused) t where "k_is_check_run (keepalives s k)" "k_is_check_passed (keepalives s k)" "k_is_value_changed (keepalives s k)"
      "put_of E k s = (None, t)" "keepalive_request E k s = (None, True, t)"
  | (put_made) i rq t where "k_is_check_run (keepalives s k)" "k_is_check_passed (keepalives s k)" "k_is_value_changed (keepalives s k)"
      "put_of E k s = (Some (i, rq), t)"
      "keepalive_request E k s = (Some (i, rq\<lparr>rq_priv_data := Priv_Keepalive k, rq_on_complete := Some On_set_data\<rparr>), False,
         upd_keepalive k (\<lambda>K. K\<lparr>k_is_value_changed := False\<rparr>) t)"
  | (idle) "k_is_check_run (keepalives s k)" "\<not> (k_is_check_passed (keepalives s k) \<and> k_is_value_changed (keepalives s k))"
      "keepalive_request E k s = (None, False, s)"
proof -
  consider "\<not> k_is_check_run (keepalives s k)"
    | "k_is_check_run (keepalives s k)" "k_is_check_passed (keepalives s k)" "k_is_value_changed (keepalives s k)"
    | "k_is_check_run (keepalives s k)" "\<not> (k_is_check_passed (keepalives s k) \<and> k_is_value_changed (keepalives s k))" by blast
  then show thesis
  proof cases
    case 1
    obtain r t where get: "get_of E k s = (r, t)" by (cases "get_of E k s")
    show thesis
    proof (cases r)
      case None
      show thesis by (rule get_refused [of t]) (use 1 get None in \<open>simp_all add: keepalive_request_def\<close>)
    next
      case (Some p)
      obtain i rq where p: "p = (i, rq)" by (cases p)
      show thesis by (rule get_made [of i rq t]) (use 1 get Some p in \<open>simp_all add: keepalive_request_def\<close>)
    qed
  next
    case 2
    obtain r t where put: "put_of E k s = (r, t)" by (cases "put_of E k s")
    show thesis
    proof (cases r)
      case None
      show thesis by (rule put_refused [of t]) (use 2 put None in \<open>simp_all add: keepalive_request_def\<close>)
    next
      case (Some p)
      obtain i rq where p: "p = (i, rq)" by (cases p)
      show thesis by (rule put_made [of i rq t]) (use 2 put Some p in \<open>simp_all add: keepalive_request_def\<close>)
    qed
  next
    case 3
    then have "keepalive_request E k s = (None, False, s)" by (auto simp: keepalive_request_def)
    then show thesis using idle 3 by blast
  qed
qed

lemma kv_keepalives:
  "get_of E k s = (r, t) \<Longrightarrow> etcd_frame t = etcd_frame s" "put_of E k s = (r, t) \<Longrightarrow> etcd_frame t = etcd_frame s"
  using frame_kv by (metis snd_conv)+

text \<open>The request of a keepalive changes the keepalive itself and, beyond the frame, nothing else.\<close>

lemma keepalive_request_cases:
  obtains f t where "snd (snd (keepalive_request E k s)) = upd_keepalive k f t" "etcd_frame t = etcd_frame s" "\<forall>K. k_rpc (f K) = k_rpc K"
proof -
  have same: "u = upd_keepalive k (\<lambda>K. K) u" for u by (simp add: fun_upd_idem)
  show thesis
  proof (cases rule: keepalive_request_split [where E = E and k = k and s = s])
    case (get_refused t)
    show thesis
      by (rule that [where f = "\<lambda>K. K\<lparr>k_retry_times := k_retry_times K + 1\<rparr>", OF _ kv_keepalives(1) [OF get_refused(2)]])
        (simp_all add: get_refused(3))
  next
    case (get_made i rq t)
    show thesis by (rule that [where f = "\<lambda>K. K", OF _ kv_keepalives(1) [OF get_made(2)]]) (use get_made(3) same in auto)
  next
    case (put_refused t)
    show thesis by (rule that [where f = "\<lambda>K. K", OF _ kv_keepalives(2) [OF put_refused(4)]]) (use put_refused(5) same in auto)
  next
    case (put_made i rq t)
    show thesis
      by (rule that [where f = "\<lambda>K. K\<lparr>k_is_value_changed := False\<rparr>", OF _ kv_keepalives(2) [OF put_made(4)]])
        (simp_all add: put_made(5))
  next
    case idle
    show thesis by (rule that [where f = "\<lambda>K. K", OF _ refl]) (use idle(3) same in auto)
  qed
qed

lemma frame_upd_keepalive:
  assumes "etcd_frame t = etcd_frame s"
  shows "etcd_frame (upd_keepalive k f t) = etcd_frame (upd_keepalive k f s)"
  using assms by (simp add: etcd_frame_def)

text \<open>The keepalive as \<^verbatim>\<open>process\<close> looks at it.\<close>

definition looked_at :: "etcd_keepalive \<Rightarrow> etcd_keepalive" where
  "looked_at K =
     (let K = K\<lparr>k_is_actived := False\<rparr>
      in if k_checker K = None
         then K\<lparr>k_is_check_run := True, k_is_check_passed := True, k_retry_times := k_retry_times K + 1\<rparr> else K)"

lemma keepalive_active_idle:
  assumes "k_rpc (keepalives s k) = None"
  shows "keepalive_active E k s =
    (let s = upd_keepalive k looked_at s;
         (rpc, need_retry, s) = keepalive_request E k s;
         (need_retry, s) =
           (case rpc of
              None \<Rightarrow> (need_retry, s)
            | Some (i, rq) \<Rightarrow>
                let (res, s) = http_start E i rq s
                in if res \<noteq> 0 then (True, s) else (need_retry, upd_keepalive k (\<lambda>K. K\<lparr>k_rpc := Some i\<rparr>) s))
     in if need_retry then snd (add_retry_keepalive E k s) else s)"
  using assms by (auto simp: keepalive_active_def keepalive_process_def looked_at_def Let_def)

lemma keepalive_active_busy:
  "k_rpc (keepalives s k) \<noteq> None \<Longrightarrow> keepalive_active E k s = upd_keepalive k (\<lambda>K. K\<lparr>k_is_actived := True\<rparr>) s"
  by (simp add: keepalive_active_def keepalive_process_def)

lemma keepalive_active_others:
  "j \<noteq> k \<Longrightarrow> keepalives (keepalive_active E k s) j = keepalives s j" "get_lease (keepalive_active E k s) = get_lease s"
proof -
  let ?s = "upd_keepalive k looked_at s"
  obtain f t where request: "snd (snd (keepalive_request E k ?s)) = upd_keepalive k f t" "etcd_frame t = etcd_frame ?s"
    by (rule keepalive_request_cases)
  then have t: "keepalives t = keepalives ?s" "conf t = conf ?s" using frame_fields [OF request(2)] by simp_all
  have "(j \<noteq> k \<longrightarrow> keepalives (keepalive_active E k s) j = keepalives s j) \<and> get_lease (keepalive_active E k s) = get_lease s"
  proof (cases "k_rpc (keepalives s k)")
    case None
    obtain rpc need u where req: "keepalive_request E k ?s = (rpc, need, u)" by (cases "keepalive_request E k ?s")
    then show ?thesis using request(1) t None
      by (cases rpc) (auto simp: keepalive_active_idle Let_def add_retry_frame http_start_def case_prod_beta)
  qed (simp add: keepalive_active_busy)
  then show "j \<noteq> k \<Longrightarrow> keepalives (keepalive_active E k s) j = keepalives s j" "get_lease (keepalive_active E k s) = get_lease s"
    by simp_all
qed

section \<open>A network that refuses every request\<close>

lemma create_refused:
  assumes "\<forall>n. \<not> en_create E n"
  shows "fst (create_request_kv_get E key range_end limit rv s) = None"
    "fst (create_request_kv_set E key val b1 b2 b3 b4 s) = None"
  using assms by (simp_all add: create_request_kv_get_def create_request_kv_set_def new_request_fst)

lemma keepalive_request_refused:
  assumes "\<forall>n. \<not> en_create E n"
  shows "fst (keepalive_request E k s) = None"
  using create_refused [OF assms]
  by (cases rule: keepalive_request_split [where E = E and k = k and s = s]) (metis fst_conv option.distinct(1))+

lemma keepalive_active_refused:
  assumes "\<forall>n. \<not> en_create E n" "k_rpc (keepalives s k) = None"
  shows "k_rpc (keepalives (keepalive_active E k s) k) = None"
proof -
  let ?s = "upd_keepalive k looked_at s"
  obtain f t where request: "snd (snd (keepalive_request E k ?s)) = upd_keepalive k f t" "etcd_frame t = etcd_frame ?s"
    "\<forall>K. k_rpc (f K) = k_rpc K"
    by (rule keepalive_request_cases)
  then have t: "keepalives t = keepalives ?s" using frame_fields [OF request(2)] by simp
  have "fst (keepalive_request E k ?s) = None" by (rule keepalive_request_refused [OF assms(1)])
  moreover obtain rpc need u where req: "keepalive_request E k ?s = (rpc, need, u)" by (cases "keepalive_request E k ?s")
  ultimately show ?thesis
    using assms(2) request t by (simp add: keepalive_active_idle Let_def add_retry_frame looked_at_def)
qed

lemma activate_each_refused:
  assumes "\<forall>n. \<not> en_create E n" "k_rpc (keepalives s k) = None"
  shows "k_rpc (keepalives (activate_each E ks s) k) = None"
  using assms(2)
proof (induction ks arbitrary: s)
  case (Cons j ks)
  let ?s = "if j \<noteq> 0 then keepalive_active E j (reset_value_changed j s) else s"
  have "k_rpc (keepalives ?s k) = None"
    using Cons.prems keepalive_active_refused [OF assms(1), of "reset_value_changed j s" j]
      keepalive_active_others(1) [of k j E "reset_value_changed j s"]
    by (cases "j = k") (auto simp: reset_value_changed_def)
  then show ?case using Cons.IH by simp
qed simp

section \<open>A network that takes every request\<close>

definition network_up :: "etcd_env \<Rightarrow> bool" where
  "network_up E \<longleftrightarrow> (\<forall>n. en_create E n \<and> en_start E n = 0)"

text \<open>A keepalive that has a request in flight, or whose check has failed.\<close>

definition served :: "etcd_keepalive \<Rightarrow> bool" where
  "served K \<longleftrightarrow> k_rpc K \<noteq> None \<or> k_is_check_run K \<and> \<not> k_is_check_passed K"

lemma create_taken:
  assumes "network_up E" "\<not> cannot_request s"
  shows "fst (create_request_kv_get E key range_end limit rv s) \<noteq> None"
    "get_lease s \<noteq> 0 \<Longrightarrow> fst (create_request_kv_set E key val b1 b2 b3 b4 s) \<noteq> None"
proof -
  have *: "fst (new_request E api doc t s) \<noteq> None" for api doc t
    using assms(1) by (simp add: new_request_fst network_up_def)
  show "fst (create_request_kv_get E key range_end limit rv s) \<noteq> None" using * assms(2) by (simp add: create_request_kv_get_def)
  show "fst (create_request_kv_set E key val b1 b2 b3 b4 s) \<noteq> None" if "get_lease s \<noteq> 0"
    using * assms(2) that by (simp add: create_request_kv_set_def)
qed

lemma keepalive_request_taken:
  assumes "network_up E" "\<not> cannot_request s" "get_lease s \<noteq> 0" "k_is_value_changed (keepalives s k)"
  shows "\<not> fst (snd (keepalive_request E k s)) \<and>
    (fst (keepalive_request E k s) = None \<longrightarrow>
       k_is_check_run (keepalives s k) \<and> \<not> k_is_check_passed (keepalives s k) \<and> snd (snd (keepalive_request E k s)) = s)"
proof (cases rule: keepalive_request_split [where E = E and k = k and s = s])
  case (get_refused t)
  then show ?thesis using create_taken(1) [OF assms(1,2)] by (metis fst_conv)
next
  case (put_refused t)
  then show ?thesis using create_taken(2) [OF assms(1,2,3)] by (metis fst_conv)
qed (use assms(4) in auto)

lemma keepalive_active_taken:
  assumes "network_up E" "\<not> cannot_request s" "get_lease s \<noteq> 0" "k_is_value_changed (keepalives s k)"
  shows "served (keepalives (keepalive_active E k s) k) \<and>
    keepalive_retry_actors (keepalive_active E k s) = keepalive_retry_actors s \<and>
    cannot_request (keepalive_active E k s) = cannot_request s"
proof (cases "k_rpc (keepalives s k)")
  case None
  let ?s = "upd_keepalive k looked_at s"
  let ?K = "keepalives ?s k"
  have can: "\<not> cannot_request ?s" "get_lease ?s \<noteq> 0" using assms by (simp_all add: cannot_request_def)
  obtain f t where request: "snd (snd (keepalive_request E k ?s)) = upd_keepalive k f t" "etcd_frame t = etcd_frame ?s"
    by (rule keepalive_request_cases)
  note t = frame_fields [OF request(2)]
  have changed: "k_is_value_changed ?K" using assms(4) by (simp add: looked_at_def Let_def)
  note made = keepalive_request_taken [OF assms(1) can changed]
  then have no_retry: "\<not> fst (snd (keepalive_request E k ?s))" by blast
  obtain rpc need u where req: "keepalive_request E k ?s = (rpc, need, u)" by (cases "keepalive_request E k ?s")
  have started: "en_start E i = 0" for i using assms(1) by (simp add: network_up_def)
  show ?thesis
  proof (cases rpc)
    case None
    then show ?thesis using made req \<open>k_rpc (keepalives s k) = None\<close>
      by (simp add: keepalive_active_idle served_def cannot_request_def)
  next
    case (Some r)
    obtain i rq where r: "r = (i, rq)" by (cases r)
    have u: "u = upd_keepalive k f t" using request(1) req by simp
    have "keepalive_active E k s = upd_keepalive k (\<lambda>K. K\<lparr>k_rpc := Some i\<rparr>) (snd (http_start E i rq u))"
      using req Some r no_retry None started by (simp add: keepalive_active_idle http_start_def)
    then show ?thesis using u t started by (simp add: http_start_def served_def cannot_request_def)
  qed
next
  case (Some i)
  then show ?thesis by (simp add: keepalive_active_busy served_def cannot_request_def)
qed

lemma activate_each_taken:
  assumes "network_up E" "\<not> cannot_request s" "get_lease s \<noteq> 0" "0 \<notin> set ks"
  shows "(\<forall>k \<in> set ks. served (keepalives (activate_each E ks s) k)) \<and>
    keepalive_retry_actors (activate_each E ks s) = keepalive_retry_actors s \<and>
    (\<forall>k. served (keepalives s k) \<longrightarrow> served (keepalives (activate_each E ks s) k))"
  using assms(2-)
proof (induction ks arbitrary: s)
  case (Cons k ks)
  let ?s = "reset_value_changed k s"
  let ?t = "keepalive_active E k ?s"
  have pre: "\<not> cannot_request ?s" "get_lease ?s \<noteq> 0" "k_is_value_changed (keepalives ?s k)" "k \<noteq> 0" "0 \<notin> set ks"
    using Cons.prems by (auto simp: reset_value_changed_def cannot_request_def)
  note active = keepalive_active_taken [OF assms(1) pre(1-3)]
  have "\<not> cannot_request ?t" "get_lease ?t \<noteq> 0"
    using active pre keepalive_active_others(2) [of E k ?s] by (auto simp: reset_value_changed_def)
  note rest = Cons.IH [OF this pre(5)]
  have keep: "served (keepalives ?t j)" if "served (keepalives s j)" for j
    using that active keepalive_active_others(1) [of j k E ?s] by (cases "j = k") (auto simp: reset_value_changed_def)
  show ?case using rest active keep pre(4) by (auto simp: reset_value_changed_def)
qed simp

section \<open>A request that is made\<close>

lemma http_start_taken: "network_up E \<Longrightarrow> http_start E i rq s = (0, act (Started i rq) (s\<lparr>requests := (requests s)(i \<mapsto> rq)\<rparr>))"
  by (simp add: http_start_def network_up_def)

lemma setup_fields:
  "rq_doc (fst (setup_http_request rq doc t s)) = doc"
  "rq_on_complete (fst (setup_http_request rq doc t s)) = rq_on_complete rq"
  "watchers (snd (setup_http_request rq doc t s)) = watchers s"
  "actions (snd (setup_http_request rq doc t s)) = actions s" "sys_now (snd (setup_http_request rq doc t s)) = sys_now s"
  by (simp_all add: setup_http_request_def Let_def put_flag_def)

lemma new_request_made:
  assumes "network_up E"
  shows "\<exists>rq s'. new_request E api doc t s = (Some (next_request s, rq), s') \<and> rq_doc rq = doc \<and>
    watchers s' = watchers s \<and> actions s' = actions s"
  using assms by (simp add: new_request_def http_create_def network_up_def Let_def case_prod_beta setup_fields
      add_stats_create_request_def)

text \<open>The document of a watch request.\<close>

definition watch_document :: "packer_api \<Rightarrow> etcd_watcher \<Rightarrow> i64 \<Rightarrow> json" where
  "watch_document A W start_revision =
     JSON_Object [(''create_request'', JSON_Object (pack_key_range A (w_path W) (w_range_end W) [] @
       (if w_enable_prev_kv W then [(''prev_kv'', JSON_Bool True)] else []) @
       [(''progress_notify'', JSON_Bool (w_enable_progress_notify W))] @
       (if start_revision \<noteq> 0 then [(''start_revision'', JSON_Int (sint start_revision))] else [])))]"

lemma request_watch_taken:
  assumes "network_up E" "\<not> cannot_request s"
  shows "\<exists>rq. actions (request_watch E w s) = actions s @ [Started (next_request s) rq] \<and>
    rq_doc rq = watch_document (en_packer E) (watchers s w) (w_last_revision (watchers s w) + 1) \<and>
    w_rpc (watchers (request_watch E w s) w) = Some (next_request s)"
proof -
  let ?W = "watchers s w"
  let ?doc = "watch_document (en_packer E) ?W (w_last_revision ?W + 1)"
  obtain rq s' where made: "new_request E ''/v3/watch'' ?doc (get_http_timeout_ms s) s = (Some (next_request s, rq), s')"
    and same: "rq_doc rq = ?doc" "actions s' = actions s" "watchers s' = watchers s"
    using new_request_made [OF assms(1)] by blast
  have watch: "create_request_watch E (w_path ?W) (w_range_end ?W) (w_last_revision ?W + 1) (w_enable_prev_kv ?W)
      (w_enable_progress_notify ?W) s = (Some (next_request s, rq\<lparr>rq_options := rq_options rq @ [Opt_keepalive 75 150, Opt_reuse_connection False]\<rparr>), s')"
    using assms(2) made by (simp add: create_request_watch_def Let_def watch_document_def cong: if_cong)
  show ?thesis
    using watch same by (simp add: request_watch_def start_watcher_request_def clear_stream_def Let_def http_start_taken [OF assms(1)])
qed

end
