(* ===== verification/Etcd_Claims.thy ===== *)
theory Etcd_Claims
  imports Etcd_Packer_Facts Etcd_Stream Etcd_Activate
begin

text \<open>
  The properties of the etcd client that speak of one operation: key ranges, packing, the stream
  of a watch, the start of a watch, and the keepalives under a lease.
\<close>

section \<open>A concrete environment\<close>

text \<open>An encoding in place of base64, and an environment around it that grants or refuses every request.\<close>

fun plain_encode :: "string \<Rightarrow> string" where
  "plain_encode [] = []"
| "plain_encode (c # cs) = (if c = CHR 0x00 then ''0'' else [CHR ''+'', c]) @ plain_encode cs"

fun plain_decode :: "string \<Rightarrow> string" where
  "plain_decode (c # cs) =
     (if c = CHR ''0'' then CHR 0x00 # plain_decode cs else (case cs of [] \<Rightarrow> [] | d # ds \<Rightarrow> d # plain_decode ds))"
| "plain_decode [] = []"

definition demo_packer :: packer_api where
  "demo_packer =
     \<lparr>pk_parse = (\<lambda>t. if t = ''range''
        then Some (JSON_Object [(''header'', JSON_Object [(''revision'', JSON_Int 41)]),
               (''kvs'', JSON_Array [JSON_Object [(''key'', JSON_String ''+a'')]])])
        else if t = ''grant'' then Some (JSON_Object [(''ID'', JSON_Int 7), (''TTL'', JSON_Int 16)])
        else None),
      pk_write = (\<lambda>_. []), pk_base64_encode = plain_encode, pk_base64_decode = (\<lambda>t. (plain_decode t, True)),
      pk_str2int64 = (\<lambda>_. 0), pk_str2uint64 = (\<lambda>_. 0), pk_str2int = (\<lambda>_. 0), pk_print_int = (\<lambda>_. []),
      pk_print_double = (\<lambda>_. [])\<rparr>"

definition demo_env :: "bool \<Rightarrow> bool \<Rightarrow> etcd_env" where
  "demo_env grants logs =
     \<lparr>en_packer = demo_packer, en_create = (\<lambda>_. grants), en_start = (\<lambda>_. 0), en_random = (\<lambda>_ b. b div 2),
      en_log_info = logs, en_log_error = logs, en_identity = (\<lambda>_. None), en_uninitialised = 0\<rparr>"

lemma plain_decode_encode [simp]: "plain_decode (plain_encode s) = s"
  by (induction s) auto

lemma c_str_plain_encode [simp]: "c_str (plain_encode s) = plain_encode s"
  by (induction s) (auto simp: c_str_def)

lemma demo_base64_ok: "base64_ok demo_packer"
  by (simp add: base64_ok_def demo_packer_def)

text \<open>A client connected to a node, which holds a lease.\<close>

definition demo_cluster :: "conf_t \<Rightarrow> etcd_cluster" where
  "demo_cluster c = (new_cluster c 5)\<lparr>curl_multi := True, conf := (reset_conf c)\<lparr>path_node := ''n'', lease := 7\<rparr>\<rparr>"

definition demo_request :: "callback \<Rightarrow> priv_data \<Rightarrow> http_request" where
  "demo_request cb who =
     \<lparr>rq_url = ''n'', rq_options = [], rq_doc = JSON_Null, rq_on_complete = Some cb, rq_on_write = False, rq_priv_data = who\<rparr>"

definition demo_reply :: "string \<Rightarrow> http_response" where
  "demo_reply content = \<lparr>rs_error_code = 0, rs_code = 200, rs_content = content\<rparr>"

section \<open>Key ranges and packing\<close>

text \<open>C38: With the range end "+1" the packed request selects exactly the keys that start with the
key, when the key has a byte other than 0xff: the encoded range end \<open>e\<close> bounds them. For a key of
0xff bytes only, no range end is sent, and the request selects the key alone.\<close>

theorem prefix_range_exact:
  "((\<exists>c \<in> set key. c \<noteq> CHR 0xFF) \<longrightarrow>
    (\<exists>e. map_of (pack_key_range A key ''+1'' []) ''range_end'' = Some (JSON_String (pk_base64_encode A e)) \<and>
         (\<forall>k. key \<le> k \<and> k < e \<longleftrightarrow> prefix key k))) \<and>
   ((\<forall>c \<in> set key. c = CHR 0xFF) \<longrightarrow> map_of (pack_key_range A key ''+1'' []) ''range_end'' = None)"
proof (intro conjI impI)
  assume "\<exists>c \<in> set key. c \<noteq> CHR 0xFF"
  then obtain p c n where key: "key = p @ c # replicate n last_byte" and c: "c \<noteq> last_byte"
    using split_key last_byte_def by metis
  have "key_range_end key ''+1'' = p @ [next_byte c]" by (simp add: key key_range_end_def range_end_loop_next c)
  then show "\<exists>e. map_of (pack_key_range A key ''+1'' []) ''range_end'' = Some (JSON_String (pk_base64_encode A e)) \<and>
       (\<forall>k. key \<le> k \<and> k < e \<longleftrightarrow> prefix key k)"
    using range_of_prefix [OF c, of p n] key
    by (intro exI [of _ "p @ [next_byte c]"]) (simp add: pack_key_range_def Let_def pack_base64_def)
next
  assume "\<forall>c \<in> set key. c = CHR 0xFF"
  then have "key = replicate (length key) last_byte" by (intro replicate_eqI) (auto simp: last_byte_def)
  then have "range_end_loop key = ([], True)" using range_end_loop_all by metis
  then show "map_of (pack_key_range A key ''+1'' []) ''range_end'' = None"
    by (simp add: pack_key_range_def key_range_end_def Let_def pack_base64_def c_str_def)
qed

theorem prefix_range_exact_witness:
  "\<exists>e. map_of (pack_key_range demo_packer ''/a'' ''+1'' []) ''range_end'' = Some (JSON_String (plain_encode e)) \<and>
     ''/a'' \<le> ''/abc'' \<and> ''/abc'' < e \<and> \<not> (''/a'' \<le> ''/b'' \<and> ''/b'' < e)"
proof -
  have "\<exists>c \<in> set ''/a''. c \<noteq> CHR 0xFF" by simp
  then obtain e where e: "map_of (pack_key_range demo_packer ''/a'' ''+1'' []) ''range_end'' = Some (JSON_String (pk_base64_encode demo_packer e))"
    "\<And>k. ''/a'' \<le> k \<and> k < e \<longleftrightarrow> prefix ''/a'' k"
    using prefix_range_exact [of "''/a''" demo_packer] by blast
  have "pk_base64_encode demo_packer = plain_encode" by (simp add: demo_packer_def)
  then show ?thesis using e(1) e(2) [of "''/abc''"] e(2) [of "''/b''"] by (intro exI [of _ e]) simp
qed

text \<open>C40: What is packed reads back: a key-value pair and a response header unpack to themselves, when
base64 decoding inverts encoding. Zero fields and empty texts are not packed and read back as such.\<close>

theorem etcd_pack_roundtrip:
  assumes "\<forall>t. pk_base64_decode A (pk_base64_encode A t) = (t, True) \<and> c_str (pk_base64_encode A t) = pk_base64_encode A t"
  shows "unpack_key_value A new_kv (JSON_Object (pack_key_value A kv [])) = Some kv \<and>
    unpack_response_header A (JSON_Object (pack_response_header h [])) = Some h"
  using unpack_packed_key_value [of A] unpack_packed_header [of A] assms by (simp add: base64_ok_def new_kv_def)

theorem etcd_pack_roundtrip_witness:
  "\<forall>kv h. unpack_key_value demo_packer new_kv (JSON_Object (pack_key_value demo_packer kv [])) = Some kv \<and>
     unpack_response_header demo_packer (JSON_Object (pack_response_header h [])) = Some h"
  using etcd_pack_roundtrip [of demo_packer] demo_base64_ok unfolding base64_ok_def by blast

section \<open>The stream of a watch\<close>



text \<open>C35: No event is lost between the snapshot and the watch. When the range request of a watcher is
answered by a parsed reply at revision \<open>r\<close>, the watcher reports the snapshot and at once starts a
watch on its key range from revision \<open>r + 1\<close>, provided that requests can be made.\<close>

theorem watch_continues_snapshot:
  assumes "\<forall>n. en_create E n \<and> en_start E n = 0"
    and "curl_multi s" "path_node (conf s) \<noteq> []" "\<not> check_flag kClosing s" "0 < sys_now s"
    and "requests s i = Some rq" "rq_on_complete rq = Some On_range_completed" "rq_priv_data rq = Priv_Watcher w"
    and "\<not> w_is_retry_mode (watchers s w)" "w_evt_handle (watchers s w)"
    and "request_succeeded rs" "parse_object (en_packer E) (rs_content rs) = Some (JSON_Object ms)"
    and "header_member (en_packer E) ms = Some h" "revision h \<noteq> 0" "kvs_events (en_packer E) ms = Some es"
  shows "\<exists>rq'. actions (complete_request E i rs s) =
      actions s @ [Completed i True, Watch_event w h (snapshot_of es), Started (next_request s) rq'] \<and>
    rq_doc rq' = watch_document (en_packer E) (watchers s w) (revision h + 1) \<and>
    w_rpc (watchers (complete_request E i rs s) w) = Some (next_request s)"
proof -
  let ?W = "(watchers s w)\<lparr>w_rpc := None, w_last_revision := revision h, w_next_request_time := sys_now s, w_is_actived := False\<rparr>"
  let ?t = "s\<lparr>requests := (requests s)(i := None),
      actions := actions s @ [Completed i True, Watch_event w h (snapshot_of es)], watchers := (watchers s)(w := ?W)\<rparr>"
  have up: "network_up E" using assms(1) by (simp add: network_up_def)
  have can: "\<not> cannot_request ?t" using assms(2-4) by (simp add: cannot_request_def check_flag_def)
  have "complete_request E i rs s = on_range_completed E w rs (act (Completed i True) (s\<lparr>requests := (requests s)(i := None)\<rparr>))"
    using assms(6-8,11) by (simp add: complete_request_def)
  also have "\<dots> = request_watch E w ?t"
    using assms(5,9-) by (simp add: on_range_completed_def trigger_event_def set_next_request_time_def watcher_active_def watcher_process_def)
  finally show ?thesis
    using request_watch_taken [OF up can, of w] by (auto simp: watch_document_def)
qed

definition demo_watch :: "conf_t \<Rightarrow> etcd_cluster" where
  "demo_watch c = (demo_cluster c)\<lparr>requests := [0 \<mapsto> demo_request On_range_completed (Priv_Watcher 1)], next_request := 1,
     watchers := (\<lambda>_. (watcher_create ''a'' ''+1'')\<lparr>w_rpc := Some 0, w_evt_handle := True\<rparr>)\<rparr>"

theorem watch_continues_snapshot_witness:
  "\<forall>c. \<exists>rq'. actions (complete_request (demo_env True False) 0 (demo_reply ''range'') (demo_watch c)) =
      [Completed 0 True,
       Watch_event 1 (new_header\<lparr>revision := 41\<rparr>) (snapshot_of [new_event\<lparr>evt_kv := new_kv\<lparr>kv_key := ''a''\<rparr>\<rparr>]),
       Started 1 rq'] \<and>
    rq_doc rq' = watch_document demo_packer (watchers (demo_watch c) 1) 42"
proof
  fix c
  have "\<exists>rq'. actions (complete_request (demo_env True False) 0 (demo_reply ''range'') (demo_watch c)) =
      actions (demo_watch c) @ [Completed 0 True,
       Watch_event 1 (new_header\<lparr>revision := 41\<rparr>) (snapshot_of [new_event\<lparr>evt_kv := new_kv\<lparr>kv_key := ''a''\<rparr>\<rparr>]),
       Started (next_request (demo_watch c)) rq'] \<and>
    rq_doc rq' = watch_document (en_packer (demo_env True False)) (watchers (demo_watch c) 1)
      (revision (new_header\<lparr>revision := 41\<rparr>) + 1) \<and>
    w_rpc (watchers (complete_request (demo_env True False) 0 (demo_reply ''range'') (demo_watch c)) 1) =
      Some (next_request (demo_watch c))"
    by (rule watch_continues_snapshot [where rq = "demo_request On_range_completed (Priv_Watcher 1)"
          and ms = "[(''header'', JSON_Object [(''revision'', JSON_Int 41)]),
               (''kvs'', JSON_Array [JSON_Object [(''key'', JSON_String ''+a'')]])]"])
      (simp_all add: demo_watch_def demo_cluster_def demo_env_def demo_request_def demo_reply_def new_cluster_def watcher_create_def
        check_flag_def request_succeeded_def parse_object_def demo_packer_def c_str_def header_member_def unpack_response_header_def
        uint64_member_def int64_member_def is_int64_def new_header_def kvs_events_def put_event_def unpack_key_value_def
        unpack_base64_def new_kv_def new_event_def cdiv_def)
  then show "\<exists>rq'. actions (complete_request (demo_env True False) 0 (demo_reply ''range'') (demo_watch c)) =
      [Completed 0 True,
       Watch_event 1 (new_header\<lparr>revision := 41\<rparr>) (snapshot_of [new_event\<lparr>evt_kv := new_kv\<lparr>kv_key := ''a''\<rparr>\<rparr>]),
       Started 1 rq'] \<and>
    rq_doc rq' = watch_document demo_packer (watchers (demo_watch c) 1) 42"
    by (simp add: demo_watch_def demo_cluster_def demo_env_def new_cluster_def new_header_def) blast
qed

text \<open>C39: A start-up delay goes wrong twice. With information logging on, the first activation of a
watcher with a start-up delay follows the null pointer of a request that does not exist yet. And
the random delay is drawn below the difference of the two bounds without adding the lower one: when the
upper bound is at most twice the lower one, the watcher starts earlier than its minimal delay.\<close>

theorem startup_delay_broken:
  assumes "w_rpc (watchers s w) = None" "w_next_request_time (watchers s w) = 0" "0 \<le> sys_now s" "fault s = None"
    and "0 < w_startup_random_delay_min (watchers s w)"
    and "w_startup_random_delay_min (watchers s w) < w_startup_random_delay_max (watchers s w)"
    and "w_startup_random_delay_max (watchers s w) \<le> 2 * w_startup_random_delay_min (watchers s w)"
    and "\<forall>n b. 0 < b \<longrightarrow> 0 \<le> en_random E n b \<and> en_random E n b < b"
  shows "fault (watcher_active E w s) = (if en_log_info E then Some Null_pointer else None) \<and>
    w_next_request_time (watchers (watcher_active E w s) w) < sys_now s + w_startup_random_delay_min (watchers s w)"
proof -
  let ?b = "w_startup_random_delay_max (watchers s w) - w_startup_random_delay_min (watchers s w)"
  have "en_random E (draws s) ?b < ?b" using assms(6,8) by simp
  then show ?thesis
    using assms(1-7) by (simp add: watcher_active_def watcher_process_def startup_delay_def random_below_def
        set_next_request_time_def fault_if_def)
qed

theorem startup_delay_broken_witness:
  "\<forall>c. fault (watcher_active (demo_env True True) 1
       ((demo_cluster c)\<lparr>watchers := (\<lambda>_. (watcher_create [] [])\<lparr>w_startup_random_delay_min := 3, w_startup_random_delay_max := 5\<rparr>)\<rparr>)) =
     Some Null_pointer"
proof
  fix c
  let ?s = "(demo_cluster c)\<lparr>watchers := (\<lambda>_. (watcher_create [] [])\<lparr>w_startup_random_delay_min := 3, w_startup_random_delay_max := 5\<rparr>)\<rparr>"
  have "\<forall>n b. 0 < b \<longrightarrow> 0 \<le> en_random (demo_env True True) n b \<and> en_random (demo_env True True) n b < b"
    by (auto simp: demo_env_def)
  then show "fault (watcher_active (demo_env True True) 1 ?s) = Some Null_pointer"
    using startup_delay_broken [of ?s 1 "demo_env True True"]
    by (simp add: demo_cluster_def new_cluster_def watcher_create_def demo_env_def)
qed

section \<open>Keepalives under a lease\<close>

text \<open>C37: A retry that fails is forgotten. When the pending actions run while no request can be created,
every waiting keepalive of the retry list ends up without a request and out of the list; later
rounds leave it alone, even when the network is back. The source comments that failed keepalives are
retried there.\<close>

theorem failed_retry_forgotten:
  assumes "get_lease s \<noteq> 0" "\<forall>n. \<not> en_create E n"
    and "k \<in> set (keepalive_retry_actors s)" "k_rpc (keepalives s k) = None"
  shows "keepalive_retry_actors (retry_pending_actions E s) = [] \<and>
    k_rpc (keepalives (retry_pending_actions E s) k) = None \<and>
    (\<forall>E'. keepalives (retry_pending_actions E' (retry_pending_actions E s)) k = keepalives (retry_pending_actions E s) k)"
proof -
  let ?t = "retry_pending_actions E s"
  have "etcd_frame ?t = etcd_frame ((activate_each E (keepalive_retry_actors s) s)\<lparr>keepalive_retry_actors := []\<rparr>)"
    using assms(1) by (simp add: frame_retry)
  note t = frame_fields [OF this]
  have "keepalives (retry_pending_actions E' ?t) = keepalives ?t" for E'
    using frame_fields(1) [OF frame_retry [of E' ?t]] t(3) by (simp split: if_splits)
  then show ?thesis using t activate_each_refused [OF assms(2,4)] by simp
qed

theorem failed_retry_forgotten_witness:
  "\<forall>c E'. k_rpc (keepalives (retry_pending_actions E' (retry_pending_actions (demo_env False False)
      ((demo_cluster c)\<lparr>keepalive_retry_actors := [1]\<rparr>))) 1) = None"
proof (intro allI)
  fix c E'
  show "k_rpc (keepalives (retry_pending_actions E' (retry_pending_actions (demo_env False False)
      ((demo_cluster c)\<lparr>keepalive_retry_actors := [1]\<rparr>))) 1) = None"
    using failed_retry_forgotten [of "(demo_cluster c)\<lparr>keepalive_retry_actors := [1]\<rparr>" "demo_env False False" 1]
    by (simp add: demo_cluster_def new_cluster_def demo_env_def keepalive_create_def)
qed

text \<open>C36: A granted lease puts every key again. When the reply to a grant carries a lease and requests can
be made, each keepalive of the client afterwards has a request in flight, or it was read and its check
failed.\<close>

theorem lease_grant_reregisters:
  assumes "\<forall>n. en_create E n \<and> en_start E n = 0"
    and "curl_multi s" "path_node (conf s) \<noteq> []" "\<not> check_flag kClosing s" "0 \<notin> set (keepalive_actors s)"
    and "request_succeeded rs" "parse_object (en_packer E) (rs_content rs) = Some (JSON_Object doc)"
    and "map_of doc ''result'' = None" "map_of doc ''TTL'' \<noteq> None" "unpack_int64 (en_packer E) doc ''ID'' 0 \<noteq> 0"
  shows "\<forall>k \<in> set (keepalive_actors s).
    (let K = keepalives (on_lease_keepalive E url rs s) k in k_rpc K \<noteq> None \<or> k_is_check_run K \<and> \<not> k_is_check_passed K)"
proof -
  define v where "v = unpack_int64 (en_packer E) doc ''ID'' 0"
  define u where "u = add_stats_success_request (s\<lparr>rpc_keepalive := None\<rparr>)"
  define t where "t = (if \<not> check_flag kRunning u \<and> \<not> check_flag kClosing u then set_flag E kRunning True u else u)"
  define r where "r = upd_conf (\<lambda>c. c\<lparr>lease := v\<rparr>) t\<lparr>keepalive_retry_actors := []\<rparr>"
  have up: "network_up E" using assms(1) by (simp add: network_up_def)
  have "on_lease_keepalive E url rs s = set_lease E v True t"
    using assms(6-10) by (auto simp: on_lease_keepalive_def v_def u_def t_def Let_def)
  also have "\<dots> = retry_pending_actions E (activate_each E (keepalive_actors r) r)"
    using assms(10) by (simp add: set_lease_def v_def r_def Let_def)
  finally have result: "on_lease_keepalive E url rs s = retry_pending_actions E (activate_each E (keepalive_actors r) r)" .
  have u: "keepalive_actors u = keepalive_actors s" "curl_multi u" "path_node (conf u) \<noteq> []" "\<not> check_flag kClosing u"
    using assms(2-4) by (simp_all add: u_def add_stats_success_request_def check_flag_def)
  have called: "keepalive_actors (call_each ev fs x) = keepalive_actors x \<and> curl_multi (call_each ev fs x) = curl_multi x \<and>
      conf (call_each ev fs x) = conf x \<and> check_flag f (call_each ev fs x) = check_flag f x" for ev fs x f
    by (induction fs arbitrary: x) simp_all
  have t: "keepalive_actors t = keepalive_actors s" "curl_multi t" "path_node (conf t) \<noteq> []" "\<not> check_flag kClosing t"
    using u called by (simp_all add: t_def set_flag_def Let_def check_put_flag) (simp_all add: put_flag_def)
  have r: "keepalive_actors r = keepalive_actors s" "\<not> cannot_request r" "get_lease r \<noteq> 0" "keepalive_retry_actors r = []"
    using t assms(10) by (simp_all add: r_def cannot_request_def v_def)
  note all = activate_each_taken [OF up r(2,3), of "keepalive_actors r"]
  have "keepalives (on_lease_keepalive E url rs s) = keepalives (activate_each E (keepalive_actors r) r)"
    using frame_fields(1) [OF frame_retry [of E "activate_each E (keepalive_actors r) r"]] all r assms(5) result
    by (simp split: if_splits)
  then show ?thesis using all r assms(5) by (simp add: served_def Let_def)
qed

theorem lease_grant_reregisters_witness:
  "\<forall>c. (let K = keepalives (on_lease_keepalive (demo_env True False) [] (demo_reply ''grant'') ((demo_cluster c)\<lparr>keepalive_actors := [1]\<rparr>)) 1
    in k_rpc K \<noteq> None \<or> k_is_check_run K \<and> \<not> k_is_check_passed K)"
proof
  fix c
  show "let K = keepalives (on_lease_keepalive (demo_env True False) [] (demo_reply ''grant'') ((demo_cluster c)\<lparr>keepalive_actors := [1]\<rparr>)) 1
    in k_rpc K \<noteq> None \<or> k_is_check_run K \<and> \<not> k_is_check_passed K"
    using lease_grant_reregisters [of "demo_env True False" "(demo_cluster c)\<lparr>keepalive_actors := [1]\<rparr>" "demo_reply ''grant''"
        "[(''ID'', JSON_Int 7), (''TTL'', JSON_Int 16)]" "[]"]
    by (simp add: demo_cluster_def new_cluster_def demo_env_def demo_reply_def check_flag_def request_succeeded_def cdiv_def
        parse_object_def demo_packer_def c_str_def unpack_int64_def is_int64_def)
qed

end
